(* ===== verification/Prelude.thy ===== *)
theory Prelude
  imports Main "HOL-Library.Word"
begin

text \<open>
  What every component shares: the machine integer and buffer types, the byte-buffer
  operations of Rust slices and arrays, and the monad of programs that talk to a drive
  and may fail.

  A program of type \<open>('w, 'a) io\<close> takes the outside world \<open>'w\<close> (the host transport, the
  drive behind it, the random generator and the clock) and returns its result, the list of
  bus events it caused, and the new world. \<open>bind_io\<close> is sequencing (\<open>;\<close>), \<open>bindE\<close> is
  sequencing with Rust's \<open>?\<close> operator and \<open>map_errE\<close> is \<open>map_err\<close>.

  Two predicates state properties of a program for every host and every drive: \<open>sat m Q\<close>
  (result and events satisfy \<open>Q\<close>) and \<open>emits P m\<close> (every event satisfies \<open>P\<close>). Each has one
  introduction rule per combinator.
\<close>

unbundle bit_operations_syntax

named_theorems const_defs \<open>numeric constants of the source\<close>
named_theorems emits_intros \<open>introduction rules for emits\<close>
named_theorems sat_intros \<open>introduction rules for sat\<close>

section \<open>Machine integers and buffers\<close>

type_synonym u8 = "8 word"
type_synonym u16 = "16 word"
type_synonym u32 = "32 word"
type_synonym bytes = "u8 list"

text \<open>
  \<open>byte_at xs i\<close> is \<open>xs[i]\<close> for an index the source's array type keeps in range,
  \<open>slice xs i j\<close> is \<open>&xs[i..j]\<close>, \<open>put_at i ys xs\<close> is \<open>xs[i..i + ys.len()].copy_from_slice(ys)\<close>,
  \<open>overlay new old\<close> is a caller's buffer \<open>old\<close> after a callee wrote \<open>new\<close> to its front: its
  length never changes.
\<close>

definition byte_at :: "bytes \<Rightarrow> nat \<Rightarrow> u8" where
  "byte_at xs i = (if i < length xs then xs ! i else 0)"

definition slice :: "'a list \<Rightarrow> nat \<Rightarrow> nat \<Rightarrow> 'a list" where
  "slice xs i j = take (j - i) (drop i xs)"

definition put_at :: "nat \<Rightarrow> 'a list \<Rightarrow> 'a list \<Rightarrow> 'a list" where
  "put_at i ys xs = take i xs @ ys @ drop (i + length ys) xs"

definition overlay :: "'a list \<Rightarrow> 'a list \<Rightarrow> 'a list" where
  "overlay new old = take (length old) new @ drop (length new) old"

definition starts_with :: "'a list \<Rightarrow> 'a list \<Rightarrow> bool" where
  "starts_with xs p \<longleftrightarrow> take (length p) xs = p"

definition zeros :: "nat \<Rightarrow> bytes" where
  "zeros n = replicate n 0"

lemma length_zeros [simp]: "length (zeros n) = n"
  by (simp add: zeros_def)

lemma length_overlay [simp]: "length (overlay new old) = length old"
  by (simp add: overlay_def)

lemma overlay_full: "length new = length old \<Longrightarrow> overlay new old = new"
  by (simp add: overlay_def)

lemma length_slice [simp]: "length (slice xs i j) = min (j - i) (length xs - i)"
  by (simp add: slice_def min.commute)

lemma length_put_at [simp]: "i + length ys \<le> length xs \<Longrightarrow> length (put_at i ys xs) = length xs"
  by (simp add: put_at_def)

lemma slice_put_at [simp]:
  "i + length ys \<le> length xs \<Longrightarrow> j = i + length ys \<Longrightarrow> slice (put_at i ys xs) i j = ys"
  by (simp add: slice_def put_at_def min_def)

lemma byte_at_nth [simp]: "i < length xs \<Longrightarrow> byte_at xs i = xs ! i"
  by (simp add: byte_at_def)

lemma list_update_numeral [simp]: "(x # xs)[numeral k := y] = x # xs[pred_numeral k := y]"
  by (simp add: numeral_eq_Suc)

lemma zeros_numeral: "zeros (numeral k) = 0 # zeros (pred_numeral k)"
  by (simp add: zeros_def numeral_eq_Suc)

lemma zeros_Suc: "zeros (Suc n) = 0 # zeros n" and zeros_0: "zeros 0 = []"
  by (simp_all add: zeros_def)

lemmas zeros_unfold = zeros_numeral zeros_Suc zeros_0

text \<open>Big-endian bytes of a 16- and a 32-bit value, as the builders write them.\<close>

definition hi_byte :: "u16 \<Rightarrow> u8" where
  "hi_byte w = ucast (drop_bit 8 w)"

definition lo_byte :: "u16 \<Rightarrow> u8" where
  "lo_byte w = ucast w"

definition be32 :: "u32 \<Rightarrow> bytes" where
  "be32 w = [ucast (drop_bit 24 w), ucast (drop_bit 16 w), ucast (drop_bit 8 w), ucast w]"

definition from_be16 :: "u8 \<Rightarrow> u8 \<Rightarrow> u16" where
  "from_be16 h l = push_bit 8 (ucast h) OR ucast l"

definition from_be32 :: "bytes \<Rightarrow> u32" where
  "from_be32 xs = push_bit 24 (ucast (byte_at xs 0)) OR push_bit 16 (ucast (byte_at xs 1))
     OR push_bit 8 (ucast (byte_at xs 2)) OR ucast (byte_at xs 3)"

lemma length_be32 [simp]: "length (be32 w) = 4"
  by (simp add: be32_def)

lemma from_be16_inverse: "from_be16 (hi_byte w) (lo_byte w) = w"
  unfolding from_be16_def hi_byte_def lo_byte_def
  by (rule bit_eqI) (auto simp: bit_simps)

lemma from_be32_inverse: "from_be32 (be32 w) = w"
proof (rule bit_word_eqI)
  fix n assume "n < LENGTH(32)"
  then consider "n < 8" | "8 \<le> n" "n < 16" | "16 \<le> n" "n < 24" | "24 \<le> n" "n < 32"
    by fastforce
  then show "bit (from_be32 (be32 w)) n = bit w n"
    by cases (auto simp: from_be32_def be32_def byte_at_def bit_simps)
qed

text \<open>Times are in nanoseconds, as \<open>std::time::Duration\<close> keeps them.\<close>

definition millis :: "int \<Rightarrow> int" where
  "millis n = n * 1000000"

definition secs :: "int \<Rightarrow> int" where
  "secs n = n * 1000000000"

section \<open>Programs over an outside world\<close>

text \<open>A statement about the value of a fallible result, true of an error.\<close>

definition when_Inr :: "('a \<Rightarrow> bool) \<Rightarrow> 'e + 'a \<Rightarrow> bool" where
  "when_Inr Q r \<longleftrightarrow> (case r of Inl _ \<Rightarrow> True | Inr a \<Rightarrow> Q a)"

lemma when_Inr_simps [simp]: "when_Inr Q (Inl e)" "when_Inr Q (Inr a) \<longleftrightarrow> Q a"
  by (simp_all add: when_Inr_def)

lemma when_Inr_mono: "when_Inr P r \<Longrightarrow> (\<And>a. P a \<Longrightarrow> Q a) \<Longrightarrow> when_Inr Q r"
  by (cases r) auto

text \<open>The monad is generic in the event type; \<open>Scsi\<close> instantiates it with bus events.\<close>

type_synonym ('w, 'v, 'a) prog = "'w \<Rightarrow> 'a \<times> 'v list \<times> 'w"

definition ret :: "'a \<Rightarrow> ('w, 'v, 'a) prog" where
  "ret a = (\<lambda>w. (a, [], w))"

definition bind_io :: "('w, 'v, 'a) prog \<Rightarrow> ('a \<Rightarrow> ('w, 'v, 'b) prog) \<Rightarrow> ('w, 'v, 'b) prog" where
  "bind_io m f = (\<lambda>w. case m w of (a, es, w1) \<Rightarrow> (case f a w1 of (b, es', w2) \<Rightarrow> (b, es @ es', w2)))"

definition bindE :: "('w, 'v, 'e + 'a) prog \<Rightarrow> ('a \<Rightarrow> ('w, 'v, 'e + 'b) prog) \<Rightarrow> ('w, 'v, 'e + 'b) prog" where
  "bindE m f = bind_io m (\<lambda>r. case r of Inl e \<Rightarrow> ret (Inl e) | Inr a \<Rightarrow> f a)"

definition map_errE :: "('e \<Rightarrow> 'f) \<Rightarrow> ('w, 'v, 'e + 'a) prog \<Rightarrow> ('w, 'v, 'f + 'a) prog" where
  "map_errE g m = bind_io m (\<lambda>r. ret (case r of Inl e \<Rightarrow> Inl (g e) | Inr a \<Rightarrow> Inr a))"

abbreviation okE :: "'a \<Rightarrow> ('w, 'v, 'e + 'a) prog" where
  "okE a \<equiv> ret (Inr a)"

abbreviation errE :: "'e \<Rightarrow> ('w, 'v, 'e + 'a) prog" where
  "errE e \<equiv> ret (Inl e)"

text \<open>The result and the events of a run from a given world.\<close>

definition result_of :: "('w, 'v, 'a) prog \<Rightarrow> 'w \<Rightarrow> 'a" where
  "result_of m w = fst (m w)"

definition events_of :: "('w, 'v, 'a) prog \<Rightarrow> 'w \<Rightarrow> 'v list" where
  "events_of m w = fst (snd (m w))"

subsection \<open>Monad laws\<close>

lemma bind_io_ret_left [simp]: "bind_io (ret a) f = f a"
  by (simp add: bind_io_def ret_def)

lemma bind_io_ret_right [simp]: "bind_io m ret = m"
  by (simp add: bind_io_def ret_def split_beta)

lemma bind_io_assoc: "bind_io (bind_io m f) g = bind_io m (\<lambda>a. bind_io (f a) g)"
  by (simp add: bind_io_def split_beta)

lemma bindE_ok [simp]: "bindE (okE a) f = f a"
  by (simp add: bindE_def)

lemma bindE_err [simp]: "bindE (errE e) f = errE e"
  by (simp add: bindE_def)

lemma run_ret: "ret a w = (a, [], w)"
  by (simp add: ret_def)

lemma run_bind_io: "bind_io m f w = (case m w of (a, es, w1) \<Rightarrow> (case f a w1 of (b, es', w2) \<Rightarrow> (b, es @ es', w2)))"
  by (simp add: bind_io_def)

lemma run_bindE: "bindE m f w = (case m w of
    (Inl e, es, w1) \<Rightarrow> (Inl e, es, w1)
  | (Inr a, es, w1) \<Rightarrow> (case f a w1 of (b, es', w2) \<Rightarrow> (b, es @ es', w2)))"
  by (simp add: bindE_def run_bind_io run_ret split: prod.split sum.split)

lemma run_map_errE: "map_errE g m w = (case m w of
    (Inl e, es, w1) \<Rightarrow> (Inl (g e), es, w1) | (Inr a, es, w1) \<Rightarrow> (Inr a, es, w1))"
  by (simp add: map_errE_def run_bind_io run_ret split: prod.split sum.split)

lemmas run_simps = run_ret run_bind_io run_bindE run_map_errE result_of_def events_of_def

lemma bind_ioE:
  assumes "bind_io m f w = (b, es, w2)"
  obtains a es1 w1 es2 where "m w = (a, es1, w1)" "f a w1 = (b, es2, w2)" "es = es1 @ es2"
  using assms by (auto simp: run_bind_io split: prod.splits)

section \<open>Properties of programs, for every host and every drive\<close>

definition sat :: "('w, 'v, 'a) prog \<Rightarrow> ('a \<Rightarrow> 'v list \<Rightarrow> bool) \<Rightarrow> bool" where
  "sat m Q \<longleftrightarrow> (\<forall>w. Q (result_of m w) (events_of m w))"

definition emits :: "('v \<Rightarrow> bool) \<Rightarrow> ('w, 'v, 'a) prog \<Rightarrow> bool" where
  "emits P m \<longleftrightarrow> sat m (\<lambda>_ es. list_all P es)"

lemma satI: "(\<And>w a es w'. m w = (a, es, w') \<Longrightarrow> Q a es) \<Longrightarrow> sat m Q"
  by (simp add: sat_def result_of_def events_of_def split_beta prod_eq_iff)

lemma satD: "sat m Q \<Longrightarrow> m w = (a, es, w') \<Longrightarrow> Q a es"
  by (metis sat_def result_of_def events_of_def fst_conv snd_conv)

lemma sat_run: "sat m Q \<Longrightarrow> Q (result_of m w) (events_of m w)"
  by (simp add: sat_def)

lemma sat_weaken: "sat m R \<Longrightarrow> (\<And>a es. R a es \<Longrightarrow> Q a es) \<Longrightarrow> sat m Q"
  by (simp add: sat_def)

lemma sat_conj: "sat m Q \<Longrightarrow> sat m R \<Longrightarrow> sat m (\<lambda>a es. Q a es \<and> R a es)"
  by (simp add: sat_def)

lemma sat_True [simp]: "sat m (\<lambda>_ _. True)"
  by (simp add: sat_def)

lemma sat_ret [simp]: "sat (ret a) Q \<longleftrightarrow> Q a []"
  by (simp add: run_ret sat_def result_of_def events_of_def)

lemma sat_bind:
  assumes "sat m R" and "\<And>a es. R a es \<Longrightarrow> sat (f a) (\<lambda>b es'. Q b (es @ es'))"
  shows "sat (bind_io m f) Q"
proof (rule satI)
  fix w b es w2 assume "bind_io m f w = (b, es, w2)"
  then obtain a es1 w1 es2 where run: "m w = (a, es1, w1)" "f a w1 = (b, es2, w2)" "es = es1 @ es2"
    by (rule bind_ioE)
  from satD [OF assms(1) run(1)] have "sat (f a) (\<lambda>b es'. Q b (es1 @ es'))" by (rule assms(2))
  from satD [OF this run(2)] run(3) show "Q b es" by simp
qed

lemma sat_bindE:
  assumes "sat m R" and "\<And>e es. R (Inl e) es \<Longrightarrow> Q (Inl e) es"
    and "\<And>a es. R (Inr a) es \<Longrightarrow> sat (f a) (\<lambda>b es'. Q b (es @ es'))"
  shows "sat (bindE m f) Q"
  unfolding bindE_def
  by (rule sat_bind [OF assms(1)]) (auto split: sum.split intro: assms(2,3))

text \<open>Sequencing folded to the left, for a first program with a rule of its own.\<close>

lemma sat_bindE_bind:
  "sat (bind_io m (\<lambda>a. bindE (g a) f)) Q \<Longrightarrow> sat (bindE (bind_io m g) f) Q"
  by (simp add: bindE_def bind_io_assoc)

lemma sat_map_errE:
  assumes "sat m R" and "\<And>e es. R (Inl e) es \<Longrightarrow> Q (Inl (g e)) es"
    and "\<And>a es. R (Inr a) es \<Longrightarrow> Q (Inr a) es"
  shows "sat (map_errE g m) Q"
  unfolding map_errE_def
  by (rule sat_bind [OF assms(1)]) (auto split: sum.split intro: assms(2,3))

text \<open>Sequencing when only the events, or only the results, matter.\<close>

lemma emits_ret [emits_intros]: "emits P (ret a)"
  by (simp add: emits_def)

lemma emits_bind [emits_intros]: "emits P m \<Longrightarrow> (\<And>a. emits P (f a)) \<Longrightarrow> emits P (bind_io m f)"
  unfolding emits_def by (erule sat_bind) (auto intro: sat_weaken)

lemma emits_bindE [emits_intros]: "emits P m \<Longrightarrow> (\<And>a. emits P (f a)) \<Longrightarrow> emits P (bindE m f)"
  unfolding emits_def by (erule sat_bindE) (auto intro: sat_weaken)

lemma emits_map_errE [emits_intros]: "emits P m \<Longrightarrow> emits P (map_errE g m)"
  unfolding emits_def by (erule sat_map_errE)

lemma emits_if [emits_intros]: "(b \<Longrightarrow> emits P m) \<Longrightarrow> (\<not> b \<Longrightarrow> emits P n) \<Longrightarrow> emits P (if b then m else n)"
  by simp

lemma emits_case_sum [emits_intros]:
  "(\<And>e. r = Inl e \<Longrightarrow> emits P (f e)) \<Longrightarrow> (\<And>a. r = Inr a \<Longrightarrow> emits P (g a)) \<Longrightarrow> emits P (case r of Inl e \<Rightarrow> f e | Inr a \<Rightarrow> g a)"
  by (cases r) auto

lemma emits_case_option [emits_intros]:
  "(r = None \<Longrightarrow> emits P m) \<Longrightarrow> (\<And>a. r = Some a \<Longrightarrow> emits P (g a)) \<Longrightarrow> emits P (case r of None \<Rightarrow> m | Some a \<Rightarrow> g a)"
  by (cases r) auto

lemma emits_case_prod [emits_intros]:
  "(\<And>a b. p = (a, b) \<Longrightarrow> emits P (f a b)) \<Longrightarrow> emits P (case p of (a, b) \<Rightarrow> f a b)"
  by (cases p) auto

lemma emits_weaken: "emits P m \<Longrightarrow> (\<And>v. P v \<Longrightarrow> Q v) \<Longrightarrow> emits Q m"
  unfolding emits_def by (erule sat_weaken) (auto simp: list_all_iff)

lemma emits_run: "emits P m \<Longrightarrow> v \<in> set (events_of m w) \<Longrightarrow> P v"
  unfolding emits_def list_all_iff by (drule sat_run [where w = w]) blast

end
