(* ===== verification/Scsi.thy ===== *)
theory Scsi
  imports Prelude
begin

text \<open>
  The SCSI transport contract of \<open>src/scsi.rs\<close>. The trait \<open>ScsiTransport\<close> is implemented by
  the consumer of the crate, so it is a parameter: a record \<open>'w host\<close> of functions over a world
  \<open>'w\<close>, one field per trait method, plus the random generator (\<open>rand::rng().fill_bytes\<close>) and the
  monotonic clock (\<open>std::time::Instant\<close>) the code calls. Every call a program makes on the bus
  is recorded as an \<open>event\<close>.

  A Rust \<open>&mut [u8]\<close> has a fixed length, so whatever a host writes is laid over the caller's
  buffer (\<open>overlay\<close>). The byte count a host reports is an arbitrary number, as in the source.
\<close>

unbundle bit_operations_syntax

section \<open>Results, errors and events\<close>

datatype data_direction = DirNone | FromDevice | ToDevice

record scsi_result =
  res_status :: u8
  res_transferred :: nat
  res_sense :: bytes

record scsi_error =
  err_status :: u8
  err_sense :: "bytes option"

datatype event =
    Exec bytes data_direction bytes u32 "scsi_error + scsi_result" bytes
  | Cleanup bytes data_direction bytes u32 "scsi_error + scsi_result" bytes
  | Pause int "scsi_error + unit"
  | BeginCritical "scsi_error + unit"
  | EndCritical

type_synonym ('w, 'a) io = "('w, event, 'a) prog"

record 'w host =
  h_execute :: "bytes \<Rightarrow> data_direction \<Rightarrow> bytes \<Rightarrow> u32 \<Rightarrow> 'w \<Rightarrow> (scsi_error + scsi_result) \<times> bytes \<times> 'w"
  h_pause :: "int \<Rightarrow> 'w \<Rightarrow> (scsi_error + unit) \<times> 'w"
  h_begin_critical :: "'w \<Rightarrow> (scsi_error + unit) \<times> 'w"
  h_end_critical :: "'w \<Rightarrow> 'w"
  h_execute_cleanup :: "bytes \<Rightarrow> data_direction \<Rightarrow> bytes \<Rightarrow> u32 \<Rightarrow> 'w \<Rightarrow> (scsi_error + scsi_result) \<times> bytes \<times> 'w"
  h_random :: "'w \<Rightarrow> (nat \<Rightarrow> u8) \<times> 'w"
  h_now :: "'w \<Rightarrow> int \<times> 'w"

text \<open>
  The trait's default methods: a host that only implements \<open>execute\<close> sleeps, has no-op critical
  spans and sends clean-up CDBs as ordinary ones.
\<close>

definition default_host ::
  "(bytes \<Rightarrow> data_direction \<Rightarrow> bytes \<Rightarrow> u32 \<Rightarrow> 'w \<Rightarrow> (scsi_error + scsi_result) \<times> bytes \<times> 'w)
   \<Rightarrow> (int \<Rightarrow> 'w \<Rightarrow> 'w) \<Rightarrow> ('w \<Rightarrow> (nat \<Rightarrow> u8) \<times> 'w) \<Rightarrow> ('w \<Rightarrow> int \<times> 'w) \<Rightarrow> 'w host" where
  "default_host ex sleep rnd now = \<lparr>
     h_execute = ex,
     h_pause = (\<lambda>d w. (Inr (), sleep d w)),
     h_begin_critical = (\<lambda>w. (Inr (), w)),
     h_end_critical = (\<lambda>w. w),
     h_execute_cleanup = ex,
     h_random = rnd,
     h_now = now \<rparr>"

section \<open>Calls on the transport\<close>

definition execute :: "'w host \<Rightarrow> bytes \<Rightarrow> data_direction \<Rightarrow> bytes \<Rightarrow> u32 \<Rightarrow> ('w, (scsi_error + scsi_result) \<times> bytes) io" where
  "execute H cdb dir data tmo = (\<lambda>w. case h_execute H cdb dir data tmo w of (r, new, w') \<Rightarrow>
     ((r, overlay new data), [Exec cdb dir data tmo r (overlay new data)], w'))"

definition execute_cleanup :: "'w host \<Rightarrow> bytes \<Rightarrow> data_direction \<Rightarrow> bytes \<Rightarrow> u32 \<Rightarrow> ('w, (scsi_error + scsi_result) \<times> bytes) io" where
  "execute_cleanup H cdb dir data tmo = (\<lambda>w. case h_execute_cleanup H cdb dir data tmo w of (r, new, w') \<Rightarrow>
     ((r, overlay new data), [Cleanup cdb dir data tmo r (overlay new data)], w'))"

definition pause :: "'w host \<Rightarrow> int \<Rightarrow> ('w, scsi_error + unit) io" where
  "pause H d = (\<lambda>w. case h_pause H d w of (r, w') \<Rightarrow> (r, [Pause d r], w'))"

definition begin_critical :: "'w host \<Rightarrow> ('w, scsi_error + unit) io" where
  "begin_critical H = (\<lambda>w. case h_begin_critical H w of (r, w') \<Rightarrow> (r, [BeginCritical r], w'))"

definition end_critical :: "'w host \<Rightarrow> ('w, unit) io" where
  "end_critical H = (\<lambda>w. ((), [EndCritical], h_end_critical H w))"

definition fill_bytes :: "'w host \<Rightarrow> nat \<Rightarrow> ('w, bytes) io" where
  "fill_bytes H n = (\<lambda>w. case h_random H w of (f, w') \<Rightarrow> (map f [0..<n], [], w'))"

definition now :: "'w host \<Rightarrow> ('w, int) io" where
  "now H = (\<lambda>w. case h_now H w of (t, w') \<Rightarrow> (t, [], w'))"

lemmas call_defs = execute_def execute_cleanup_def pause_def begin_critical_def end_critical_def
  fill_bytes_def now_def

text \<open>Every call, as a specification for an arbitrary host.\<close>

lemma sat_execute: "sat (execute H cdb dir data tmo)
    (\<lambda>rb es. es = [Exec cdb dir data tmo (fst rb) (snd rb)] \<and> length (snd rb) = length data)"
  by (rule satI) (auto simp: execute_def split: prod.splits)

lemma sat_bind_execute:
  assumes "\<And>r buf. length buf = length data \<Longrightarrow>
    sat (f (r, buf)) (\<lambda>b es. Q b (Exec cdb dir data tmo r buf # es))"
  shows "sat (bind_io (execute H cdb dir data tmo) f) Q"
  by (rule sat_bind [OF sat_execute]) (auto intro!: assms)

lemma sat_execute_cleanup: "sat (execute_cleanup H cdb dir data tmo)
    (\<lambda>rb es. es = [Cleanup cdb dir data tmo (fst rb) (snd rb)] \<and> length (snd rb) = length data)"
  by (rule satI) (auto simp: execute_cleanup_def split: prod.splits)

lemma sat_pause: "sat (pause H d) (\<lambda>r es. es = [Pause d r])"
  by (rule satI) (auto simp: pause_def split: prod.splits)

lemma sat_begin_critical: "sat (begin_critical H) (\<lambda>r es. es = [BeginCritical r])"
  by (rule satI) (auto simp: begin_critical_def split: prod.splits)

lemma sat_end_critical: "sat (end_critical H) (\<lambda>_ es. es = [EndCritical])"
  by (rule satI) (auto simp: end_critical_def)

lemma sat_fill_bytes: "sat (fill_bytes H n) (\<lambda>bs es. es = [] \<and> length bs = n)"
  by (rule satI) (auto simp: fill_bytes_def split: prod.splits)

lemma sat_now: "sat (now H) (\<lambda>_ es. es = [])"
  by (rule satI) (auto simp: now_def split: prod.splits)

lemma emits_execute [emits_intros]:
  "(\<And>r buf. length buf = length data \<Longrightarrow> P (Exec cdb dir data tmo r buf)) \<Longrightarrow> emits P (execute H cdb dir data tmo)"
  unfolding emits_def by (rule sat_weaken [OF sat_execute]) auto

lemma emits_execute_cleanup [emits_intros]:
  "(\<And>r buf. length buf = length data \<Longrightarrow> P (Cleanup cdb dir data tmo r buf)) \<Longrightarrow> emits P (execute_cleanup H cdb dir data tmo)"
  unfolding emits_def by (rule sat_weaken [OF sat_execute_cleanup]) auto

lemma emits_pause [emits_intros]: "(\<And>r. P (Pause d r)) \<Longrightarrow> emits P (pause H d)"
  unfolding emits_def by (rule sat_weaken [OF sat_pause]) auto

lemma emits_begin_critical [emits_intros]: "(\<And>r. P (BeginCritical r)) \<Longrightarrow> emits P (begin_critical H)"
  unfolding emits_def by (rule sat_weaken [OF sat_begin_critical]) auto

lemma emits_end_critical [emits_intros]: "P EndCritical \<Longrightarrow> emits P (end_critical H)"
  unfolding emits_def by (rule sat_weaken [OF sat_end_critical]) auto

lemma emits_fill_bytes [emits_intros]: "emits P (fill_bytes H n)"
  unfolding emits_def by (rule sat_weaken [OF sat_fill_bytes]) auto

lemma emits_now [emits_intros]: "emits P (now H)"
  unfolding emits_def by (rule sat_weaken [OF sat_now]) auto

section \<open>Sense data and the dead bus\<close>

record scsi_sense =
  sense_key :: u8
  asc :: u8
  ascq :: u8

definition from_buf :: "bytes \<Rightarrow> scsi_sense" where
  "from_buf s = \<lparr> sense_key = byte_at s 2 AND 0x0F, asc = byte_at s 12, ascq = byte_at s 13 \<rparr>"

definition is_illegal_request :: "scsi_sense \<Rightarrow> bool" where
  "is_illegal_request s \<longleftrightarrow> sense_key s = 0x05"

definition SCSI_STATUS_TRANSPORT_FAILURE :: u8 where
  [const_defs]: "SCSI_STATUS_TRANSPORT_FAILURE = 0xFF"

definition is_dead_bus :: "scsi_error \<Rightarrow> bool" where
  "is_dead_bus e \<longleftrightarrow> err_status e = SCSI_STATUS_TRANSPORT_FAILURE \<and> err_sense e = None"

section \<open>Opcodes and the SET CD SPEED command\<close>

definition SCSI_SET_CD_SPEED :: u8 where [const_defs]: "SCSI_SET_CD_SPEED = 0xBB"
definition SCSI_SEND_KEY :: u8 where [const_defs]: "SCSI_SEND_KEY = 0xA3"
definition SCSI_REPORT_KEY :: u8 where [const_defs]: "SCSI_REPORT_KEY = 0xA4"
definition SCSI_READ_DISC_STRUCTURE :: u8 where [const_defs]: "SCSI_READ_DISC_STRUCTURE = 0xAD"
definition SCSI_GET_CONFIGURATION :: u8 where [const_defs]: "SCSI_GET_CONFIGURATION = 0x46"
definition AACS_KEY_CLASS :: u8 where [const_defs]: "AACS_KEY_CLASS = 0x02"

definition build_set_cd_speed :: "u16 \<Rightarrow> bytes" where
  "build_set_cd_speed read_speed =
     [SCSI_SET_CD_SPEED, 0x00, hi_byte read_speed, lo_byte read_speed, 0xFF, 0xFF,
      0x00, 0x00, 0x00, 0x00, 0x00, 0x00]"

text \<open>The AGID and the key format share a byte of the key commands; the format is its low six bits.\<close>

lemma format_bits: "(push_bit 6 agid OR (fmt AND 0x3F)) AND 0x3F = (fmt AND 0x3F :: u8)"
proof (rule bit_word_eqI)
  fix n assume "n < LENGTH(8)"
  then have "n \<in> {0, 1, 2, 3, 4, 5, 6, 7}" by auto
  then show "bit ((push_bit 6 agid OR (fmt AND 0x3F)) AND 0x3F) n = bit (fmt AND 0x3F :: u8) n"
    by (auto simp: bit_simps)
qed

lemma format_bits_3F: "(push_bit 6 agid OR 0x3F) AND 0x3F = (0x3F :: u8)"
  using format_bits [of agid "0x3F"] by simp

text \<open>The opcode of an event's CDB, for statements about what crossed the bus.\<close>

fun event_cdb :: "event \<Rightarrow> bytes option" where
  "event_cdb (Exec cdb _ _ _ _ _) = Some cdb"
| "event_cdb (Cleanup cdb _ _ _ _ _) = Some cdb"
| "event_cdb _ = None"

fun exec_cdb :: "event \<Rightarrow> bytes option" where
  "exec_cdb (Exec cdb _ _ _ _ _) = Some cdb"
| "exec_cdb _ = None"

fun event_opcode :: "event \<Rightarrow> u8 option" where
  "event_opcode (Exec cdb _ _ _ _ _) = Some (byte_at cdb 0)"
| "event_opcode (Cleanup cdb _ _ _ _ _) = Some (byte_at cdb 0)"
| "event_opcode _ = None"

section \<open>Replies\<close>

text \<open>
  A command that succeeded with good status and at least \<open>n\<close> bytes, the buffer it left and the
  data it was called with.
\<close>

fun exec_ok :: "nat \<Rightarrow> event \<Rightarrow> bool" where
  "exec_ok n (Exec _ _ _ _ (Inr res) _) \<longleftrightarrow> res_status res = 0 \<and> n \<le> res_transferred res"
| "exec_ok n _ \<longleftrightarrow> False"

fun event_buf :: "event \<Rightarrow> bytes" where
  "event_buf (Exec _ _ _ _ _ buf) = buf"
| "event_buf _ = []"

fun event_data :: "event \<Rightarrow> bytes" where
  "event_data (Exec _ _ data _ _ _) = data"
| "event_data _ = []"

section \<open>Critical spans\<close>

text \<open>
  \<open>CriticalGuard::enter\<close> opens the span and its \<open>Drop\<close> closes it on every exit. A block that
  holds the guard is \<open>with_critical\<close>: the error of a refused span is converted by the caller's
  \<open>?\<close> or \<open>map_err\<close>, the body runs inside, the span is closed whatever the body returned.
\<close>

definition critical_enter :: "'w host \<Rightarrow> ('w, scsi_error + unit) io" where
  "critical_enter H = bindE (begin_critical H) (\<lambda>_. okE ())"

definition critical_drop :: "'w host \<Rightarrow> ('w, unit) io" where
  "critical_drop H = end_critical H"

definition with_critical :: "'w host \<Rightarrow> (scsi_error \<Rightarrow> 'e) \<Rightarrow> ('w, 'e + 'a) io \<Rightarrow> ('w, 'e + 'a) io" where
  "with_critical H conv body =
     bindE (map_errE conv (critical_enter H)) (\<lambda>_.
     bind_io body (\<lambda>r.
     bind_io (critical_drop H) (\<lambda>_.
     ret r)))"

text \<open>
  The discipline of spans on a bus: they do not nest, an opened span is closed, and nothing is
  closed that was not opened. \<open>spans inside es\<close> runs the events from inside or outside a span.
\<close>

fun spans :: "bool \<Rightarrow> event list \<Rightarrow> bool option" where
  "spans b [] = Some b"
| "spans b (BeginCritical (Inr ()) # es) = (if b then None else spans True es)"
| "spans b (BeginCritical (Inl e) # es) = (if b then None else spans False es)"
| "spans b (EndCritical # es) = (if b then spans False es else None)"
| "spans b (Exec _ _ _ _ _ _ # es) = spans b es"
| "spans b (Cleanup _ _ _ _ _ _ # es) = spans b es"
| "spans b (Pause _ _ # es) = spans b es"

lemma spans_append: "spans b (es @ es') = (case spans b es of None \<Rightarrow> None | Some b' \<Rightarrow> spans b' es')"
  by (induction b es rule: spans.induct) auto

fun is_span_event :: "event \<Rightarrow> bool" where
  "is_span_event (BeginCritical _) = True"
| "is_span_event EndCritical = True"
| "is_span_event _ = False"

lemma spans_none: "list_all (\<lambda>e. \<not> is_span_event e) es \<Longrightarrow> spans b es = Some b"
  by (induction b es rule: spans.induct) auto

lemma sat_critical_enter: "sat (critical_enter H) (\<lambda>r es. es = [BeginCritical r])"
  unfolding critical_enter_def by (rule sat_bindE [OF sat_begin_critical]) auto

lemma sat_with_critical_spans:
  assumes "emits (\<lambda>e. \<not> is_span_event e) body"
  shows "sat (with_critical H conv body) (\<lambda>_ es. spans False es = Some False)"
proof -
  have enter: "sat (map_errE conv (critical_enter H))
      (\<lambda>r es. spans False es = Some (case r of Inl _ \<Rightarrow> False | Inr _ \<Rightarrow> True))"
    by (rule sat_map_errE [OF sat_critical_enter]) auto
  show ?thesis
    unfolding with_critical_def
  proof (rule sat_bindE [OF enter])
    fix a es assume es: "spans False es = Some (case Inr a of Inl _ \<Rightarrow> False | Inr _ \<Rightarrow> True)"
    show "sat (bind_io body (\<lambda>r. bind_io (critical_drop H) (\<lambda>_. ret r)))
        (\<lambda>_ es'. spans False (es @ es') = Some False)"
    proof (rule sat_bind [OF assms [unfolded emits_def]])
      fix r es1 assume "list_all (\<lambda>e. \<not> is_span_event e) es1"
      then have "spans True es1 = Some True" by (rule spans_none)
      with es show "sat (bind_io (critical_drop H) (\<lambda>_. ret r))
          (\<lambda>_ es'. spans False (es @ es1 @ es') = Some False)"
        unfolding critical_drop_def
        by (intro sat_bind [OF sat_end_critical]) (auto simp: spans_append)
    qed
  qed (auto split: sum.splits)
qed

lemma emits_with_critical [emits_intros]:
  assumes "\<And>r. P (BeginCritical r)" "P EndCritical" "emits P body"
  shows "emits P (with_critical H conv body)"
  unfolding with_critical_def critical_enter_def critical_drop_def
  using assms by (intro emits_intros)

text \<open>The result and the events of a guarded block, from those of its body.\<close>

lemma sat_with_critical:
  assumes "sat body R"
  shows "sat (with_critical H conv body) (\<lambda>r es.
    (\<exists>e. r = Inl (conv e) \<and> es = [BeginCritical (Inl e)])
    \<or> (\<exists>es'. es = BeginCritical (Inr ()) # es' @ [EndCritical] \<and> R r es'))"
proof -
  have enter: "sat (map_errE conv (critical_enter H)) (\<lambda>r es. case r of
      Inl e \<Rightarrow> (\<exists>e'. e = conv e' \<and> es = [BeginCritical (Inl e')]) | Inr _ \<Rightarrow> es = [BeginCritical (Inr ())])"
    by (rule sat_map_errE [OF sat_critical_enter]) auto
  show ?thesis
    unfolding with_critical_def
    by (rule sat_bindE [OF enter])
       (auto simp: critical_drop_def intro!: sat_bind [OF assms] sat_bind [OF sat_end_critical])
qed

text \<open>
  The bus discipline of an installation: data goes to the drive only inside a critical span, spans
  do not nest and are closed.
\<close>

fun guarded :: "bool \<Rightarrow> event list \<Rightarrow> bool option" where
  "guarded b [] = Some b"
| "guarded b (BeginCritical r # es) = (if b then None else guarded (r = Inr ()) es)"
| "guarded b (EndCritical # es) = (if b then guarded False es else None)"
| "guarded b (Exec _ dir _ _ _ _ # es) = (if dir = ToDevice \<and> \<not> b then None else guarded b es)"
| "guarded b (Cleanup _ dir _ _ _ _ # es) = (if dir = ToDevice \<and> \<not> b then None else guarded b es)"
| "guarded b (Pause _ _ # es) = guarded b es"

lemma guarded_append: "guarded b (es @ es') = (case guarded b es of None \<Rightarrow> None | Some b' \<Rightarrow> guarded b' es')"
  by (induction b es rule: guarded.induct) auto

lemma guarded_spans: "guarded b es = Some b' \<Longrightarrow> spans b es = Some b'"
proof (induction b es rule: guarded.induct)
  case (2 b r es)
  then show ?case by (cases r) (auto split: if_splits)
qed (auto split: if_splits)

text \<open>Quiet events: no span, no data to the drive.\<close>

fun quiet :: "event \<Rightarrow> bool" where
  "quiet (Exec _ dir _ _ _ _) \<longleftrightarrow> dir \<noteq> ToDevice"
| "quiet (Cleanup _ dir _ _ _ _) \<longleftrightarrow> dir \<noteq> ToDevice"
| "quiet (Pause _ _) \<longleftrightarrow> True"
| "quiet _ \<longleftrightarrow> False"

lemma quiet_guarded: "list_all quiet es \<Longrightarrow> guarded b es = Some b"
  by (induction b es rule: guarded.induct) auto

section \<open>The AGID guard\<close>

text \<open>
  A drive has four AGIDs. \<open>AgidGuard\<close> owns an allocated one: its \<open>Drop\<close> sends the release CDB
  through \<open>execute_cleanup\<close> unless the guard was defused.
\<close>

record agid_guard =
  g_agid :: u8
  g_release :: bytes
  g_armed :: bool

definition AGID_RELEASE_TIMEOUT_MS :: u32 where
  [const_defs]: "AGID_RELEASE_TIMEOUT_MS = 5000"

text \<open>The debug assertion of \<open>AgidGuard::new\<close>.\<close>

definition agid_guard_ok :: "u8 \<Rightarrow> bytes \<Rightarrow> bool" where
  "agid_guard_ok agid release \<longleftrightarrow> byte_at release 0 = SCSI_REPORT_KEY
     \<and> byte_at release 10 = (push_bit 6 (agid AND 0x03) OR 0x3F)"

definition agid_guard_new :: "u8 \<Rightarrow> bytes \<Rightarrow> agid_guard" where
  "agid_guard_new agid release = \<lparr> g_agid = agid, g_release = release, g_armed = True \<rparr>"

definition agid_guard_defuse :: "agid_guard \<Rightarrow> u8 \<times> agid_guard" where
  "agid_guard_defuse g = (g_agid g, g\<lparr> g_armed := False \<rparr>)"

definition release_alloc_len :: "bytes \<Rightarrow> nat" where
  "release_alloc_len release =
     (let alloc = unat (from_be16 (byte_at release 8) (byte_at release 9))
      in if alloc = 0 then 8 else alloc)"

definition agid_guard_drop :: "'w host \<Rightarrow> agid_guard \<Rightarrow> ('w, unit) io" where
  "agid_guard_drop H g =
     (if \<not> g_armed g then ret ()
      else bind_io (execute_cleanup H (g_release g) FromDevice
             (zeros (release_alloc_len (g_release g))) AGID_RELEASE_TIMEOUT_MS) (\<lambda>_.
           ret ()))"

text \<open>How many times a clean-up CDB was sent in a run.\<close>

fun cleanup_cdb :: "event \<Rightarrow> bytes option" where
  "cleanup_cdb (Cleanup cdb _ _ _ _ _) = Some cdb"
| "cleanup_cdb _ = None"

definition releases :: "bytes \<Rightarrow> event list \<Rightarrow> nat" where
  "releases cdb es = length (filter (\<lambda>e. cleanup_cdb e = Some cdb) es)"

definition cleanups :: "event list \<Rightarrow> bytes list" where
  "cleanups es = List.map_filter cleanup_cdb es"

lemma cleanups_simps [simp]:
  "cleanups [] = []"
  "cleanups (es @ es') = cleanups es @ cleanups es'"
  "cleanups (e # es) = (case cleanup_cdb e of None \<Rightarrow> cleanups es | Some c \<Rightarrow> c # cleanups es)"
  by (simp_all add: cleanups_def List.map_filter_def split: option.split)

lemma cleanups_none: "list_all (\<lambda>e. cleanup_cdb e = None) es \<Longrightarrow> cleanups es = []"
  by (induction es) auto

lemma exec_not_cleanup: "exec_cdb ev = Some cdb \<Longrightarrow> cleanup_cdb ev = None"
  by (cases ev) auto

lemma sat_agid_guard_drop: "sat (agid_guard_drop H g)
    (\<lambda>_ es. cleanups es = (if g_armed g then [g_release g] else []))"
  unfolding agid_guard_drop_def
  by (auto intro!: sat_bind [OF sat_execute_cleanup])

lemma emits_agid_guard_drop [emits_intros]:
  "(\<And>r buf. P (Cleanup (g_release g) FromDevice (zeros (release_alloc_len (g_release g))) AGID_RELEASE_TIMEOUT_MS r buf))
   \<Longrightarrow> emits P (agid_guard_drop H g)"
  unfolding agid_guard_drop_def by (intro emits_intros)

section \<open>Aborting on a dead bus\<close>

text \<open>
  A call that answered with a dead bus, and the discipline most of the crate follows: a program
  stops at the first dead bus and reports it (\<open>is_t\<close> says which errors report one), and it
  reports one only then.
\<close>

named_theorems abort_intros \<open>introduction rules for stops_on_dead\<close>

fun dead_event :: "event \<Rightarrow> bool" where
  "dead_event (Exec _ _ _ _ (Inl e) _) = is_dead_bus e"
| "dead_event _ = False"

definition clean :: "event list \<Rightarrow> bool" where
  "clean es \<longleftrightarrow> list_all (\<lambda>e. \<not> dead_event e) es"

definition aborts :: "('e \<Rightarrow> bool) \<Rightarrow> 'e + 'a \<Rightarrow> event list \<Rightarrow> bool" where
  "aborts is_t r es = (case r of
     Inl e \<Rightarrow> if is_t e then (\<exists>es' ev. es = es' @ [ev] \<and> clean es' \<and> dead_event ev) else clean es
   | Inr _ \<Rightarrow> clean es)"

definition stops_on_dead :: "('e \<Rightarrow> bool) \<Rightarrow> ('w, 'e + 'a) io \<Rightarrow> bool" where
  "stops_on_dead is_t m \<longleftrightarrow> sat m (aborts is_t)"

lemma clean_simps [simp]:
  "clean []" "clean (e # es) \<longleftrightarrow> \<not> dead_event e \<and> clean es" "clean (es @ es') \<longleftrightarrow> clean es \<and> clean es'"
  by (auto simp: clean_def)

lemma aborts_simps [simp]:
  "aborts is_t (Inr a) es \<longleftrightarrow> clean es"
  "\<not> is_t e \<Longrightarrow> aborts is_t (Inl e) es \<longleftrightarrow> clean es"
  "is_t e \<Longrightarrow> aborts is_t (Inl e) es \<longleftrightarrow> (\<exists>es' ev. es = es' @ [ev] \<and> clean es' \<and> dead_event ev)"
  by (auto simp: aborts_def)

lemma aborts_append: "clean es \<Longrightarrow> aborts is_t r es' \<Longrightarrow> aborts is_t r (es @ es')"
  by (force simp: aborts_def split: sum.splits if_splits)

lemma stops_on_dead_ok [abort_intros]: "stops_on_dead is_t (okE a)"
  by (simp add: stops_on_dead_def)

lemma stops_on_dead_err [abort_intros]: "\<not> is_t e \<Longrightarrow> stops_on_dead is_t (errE e)"
  by (simp add: stops_on_dead_def)

lemma stops_on_dead_bindE [abort_intros]:
  assumes "stops_on_dead is_t m" and "\<And>a. stops_on_dead is_t (f a)"
  shows "stops_on_dead is_t (bindE m f)"
  unfolding stops_on_dead_def
proof (rule sat_bindE [OF assms(1) [unfolded stops_on_dead_def]])
  show "sat (f a) (\<lambda>b es'. aborts is_t b (es @ es'))" if "aborts is_t (Inr a) es" for a es
    using assms(2) [of a, unfolded stops_on_dead_def] that
    by (elim sat_weaken) (simp add: aborts_append)
qed (auto simp: aborts_def)

lemma stops_on_dead_if [abort_intros]:
  "(b \<Longrightarrow> stops_on_dead is_t m) \<Longrightarrow> (\<not> b \<Longrightarrow> stops_on_dead is_t n) \<Longrightarrow> stops_on_dead is_t (if b then m else n)"
  by simp

lemma stops_on_dead_case_option [abort_intros]:
  "(r = None \<Longrightarrow> stops_on_dead is_t m) \<Longrightarrow> (\<And>a. r = Some a \<Longrightarrow> stops_on_dead is_t (g a))
   \<Longrightarrow> stops_on_dead is_t (case r of None \<Rightarrow> m | Some a \<Rightarrow> g a)"
  by (cases r) auto

lemma stops_on_dead_case_prod [abort_intros]:
  "(\<And>a b. p = (a, b) \<Longrightarrow> stops_on_dead is_t (f a b)) \<Longrightarrow> stops_on_dead is_t (case p of (a, b) \<Rightarrow> f a b)"
  by (cases p) auto

lemma stops_on_dead_map_errE [abort_intros]:
  "stops_on_dead is_t m \<Longrightarrow> (\<And>e. is_t' (g e) = is_t e) \<Longrightarrow> stops_on_dead is_t' (map_errE g m)"
  unfolding stops_on_dead_def by (erule sat_map_errE) (auto simp: aborts_def)

text \<open>The basic step: a call whose reply is turned into a result, a dead bus into its report.\<close>

lemma stops_on_dead_execute [abort_intros]:
  assumes "\<And>e buf. is_dead_bus e \<Longrightarrow> \<exists>x. f (Inl e, buf) = errE x \<and> is_t x"
    and "\<And>r buf. (\<And>e. r = Inl e \<Longrightarrow> \<not> is_dead_bus e) \<Longrightarrow> length buf = length data \<Longrightarrow> stops_on_dead is_t (f (r, buf))"
  shows "stops_on_dead is_t (bind_io (execute H cdb dir data tmo) f)"
  unfolding stops_on_dead_def
proof (rule sat_bind [OF sat_execute])
  fix rb es assume rb: "es = [Exec cdb dir data tmo (fst rb) (snd rb)] \<and> length (snd rb) = length data"
  show "sat (f rb) (\<lambda>r es'. aborts is_t r (es @ es'))"
  proof (cases "\<exists>e. fst rb = Inl e \<and> is_dead_bus e")
    case True
    then obtain e where e: "rb = (Inl e, snd rb)" "is_dead_bus e" by (metis prod.collapse)
    from assms(1) [OF e(2), of "snd rb"] e(1) obtain x where x: "f rb = errE x" "is_t x" by auto
    from e have "dead_event (Exec cdb dir data tmo (fst rb) (snd rb))" by (metis dead_event.simps(1) fst_conv)
    with x(2) rb show ?thesis by (simp add: x(1))
  next
    case False
    then have "stops_on_dead is_t (f rb)"
      using assms(2) [of "fst rb" "snd rb"] rb by auto
    moreover have "clean es" using False rb by (cases "fst rb") auto
    ultimately show ?thesis
      unfolding stops_on_dead_def by (elim sat_weaken) (simp add: aborts_append)
  qed
qed

text \<open>
  The weaker discipline of a program that may go on after a failed call: it reports a dead bus
  exactly when one of its calls that matter (those that satisfy \<open>F\<close>) found one.
\<close>

named_theorems reports_intros \<open>introduction rules for reports\<close>

definition reports :: "(event \<Rightarrow> bool) \<Rightarrow> ('e \<Rightarrow> bool) \<Rightarrow> ('w, 'e + 'a) io \<Rightarrow> bool" where
  "reports F is_t m \<longleftrightarrow> sat m (\<lambda>r es. (case r of Inl e \<Rightarrow> is_t e | Inr _ \<Rightarrow> False) \<longleftrightarrow> list_ex F es)"

lemma reports_ok [reports_intros]: "reports F is_t (okE a)"
  by (simp add: reports_def)

lemma reports_err [reports_intros]: "\<not> is_t e \<Longrightarrow> reports F is_t (errE e)"
  by (simp add: reports_def)

lemma reports_bindE [reports_intros]:
  "reports F is_t m \<Longrightarrow> (\<And>a. reports F is_t (f a)) \<Longrightarrow> reports F is_t (bindE m f)"
  unfolding reports_def by (erule sat_bindE) (auto elim!: sat_weaken)

lemma reports_bind_quiet [reports_intros]:
  "emits (\<lambda>e. \<not> F e) m \<Longrightarrow> (\<And>a. reports F is_t (f a)) \<Longrightarrow> reports F is_t (bind_io m f)"
  unfolding reports_def emits_def
proof (erule sat_bind)
  fix a es
  assume f: "\<And>a. sat (f a) (\<lambda>r es. (case r of Inl e \<Rightarrow> is_t e | Inr _ \<Rightarrow> False) \<longleftrightarrow> list_ex F es)"
    and "list_all (\<lambda>e. \<not> F e) es"
  then have "\<not> list_ex F es" by (auto simp: list_all_iff list_ex_iff)
  then show "sat (f a) (\<lambda>b es'. (case b of Inl e \<Rightarrow> is_t e | Inr _ \<Rightarrow> False) \<longleftrightarrow> list_ex F (es @ es'))"
    using f [of a] by simp
qed

lemma reports_then_quiet:
  "reports F is_t m \<Longrightarrow> (\<And>r. sat (f r) (\<lambda>r' es. (case r' of Inl e \<Rightarrow> is_t e | Inr _ \<Rightarrow> False)
       = (case r of Inl e \<Rightarrow> is_t e | Inr _ \<Rightarrow> False) \<and> \<not> list_ex F es))
   \<Longrightarrow> reports F is_t (bind_io m f)"
  unfolding reports_def by (erule sat_bind) (fastforce elim!: sat_weaken)

lemma reports_map_errE [reports_intros]:
  "reports F is_t m \<Longrightarrow> (\<And>e. is_t' (g e) = is_t e) \<Longrightarrow> reports F is_t' (map_errE g m)"
  unfolding reports_def by (erule sat_map_errE) auto

lemma reports_execute:
  assumes "\<And>r buf. sat (f (r, buf)) (\<lambda>r' es. es = [] \<and>
    ((case r' of Inl e \<Rightarrow> is_t e | Inr _ \<Rightarrow> False) \<longleftrightarrow> F (Exec cdb dir data tmo r buf)))"
  shows "reports F is_t (bind_io (execute H cdb dir data tmo) f)"
  unfolding reports_def by (rule sat_bind_execute, rule sat_weaken, rule assms) auto

end
