(* ===== verification/H8.thy ===== *)
theory H8
  imports Scsi "HOL-Library.Monad_Syntax"
begin

text \<open>
  What the Renesas runtime (\<open>src/freemkv/renesas.rs\<close>) uses of the crates \<open>h8_asm\<close> (an assembler
  and image search for the H8S), \<open>pioneer_optical\<close> (the drive vendor's commands and firmware
  layout) and \<open>sha2\<close>. Their code is not part of the repository: the functions are fields of one
  record, a parameter of every definition that calls them, and nothing is assumed of them here.
  All calls use the one target \<open>H8S2000\<close> and mode \<open>Advanced\<close>.

  A step of the code in \<open>anyhow::Result\<close> that does not touch the drive is an option: its error is
  only ever reported as a refused preparation, and the message is not modelled.
\<close>

unbundle bit_operations_syntax

section \<open>Fallible steps\<close>

definition ensure :: "bool \<Rightarrow> unit option" where
  "ensure b = (if b then Some () else None)"

lemma ensure_Some [simp]: "ensure b = Some u \<longleftrightarrow> b"
  by (simp add: ensure_def)

lemma ensure_simps [simp]: "ensure True = Some ()" "ensure False = None"
  by (simp_all add: ensure_def)

text \<open>The conversions \<open>u32::try_from\<close>, \<open>checked_sub\<close> and \<open>checked_add\<close>, and \<open>slice::get\<close>.\<close>

definition u32_try :: "nat \<Rightarrow> u32 option" where
  "u32_try n = (if n < 2 ^ 32 then Some (of_nat n) else None)"

definition checked_sub :: "'a::len word \<Rightarrow> 'a word \<Rightarrow> 'a word option" where
  "checked_sub a b = (if b \<le> a then Some (a - b) else None)"

definition checked_add :: "u32 \<Rightarrow> u32 \<Rightarrow> u32 option" where
  "checked_add a b = (if unat a + unat b < 2 ^ 32 then Some (a + b) else None)"

definition get_slice :: "'a list \<Rightarrow> nat \<Rightarrow> nat \<Rightarrow> 'a list option" where
  "get_slice xs i j = (if i \<le> j \<and> j \<le> length xs then Some (slice xs i j) else None)"

definition all_zero :: "bytes option \<Rightarrow> bool" where
  "all_zero b = (case b of None \<Rightarrow> False | Some bs \<Rightarrow> list_all (\<lambda>v. v = 0) bs)"

lemma get_slice_Some: "get_slice xs i j = Some ys \<longleftrightarrow> i \<le> j \<and> j \<le> length xs \<and> ys = slice xs i j"
  by (auto simp: get_slice_def)

section \<open>The assembler and the image search\<close>

datatype h8_size = SizeByte | SizeWord | SizeLong
datatype h8_reg = RegByte u8 | RegWord u8 | RegLong u8

text \<open>The address forms and operands the source names; any other is \<open>EaOther\<close> or \<open>OpOther\<close>.\<close>

datatype h8_ea =
    PreDecrement h8_reg
  | PostIncrement h8_reg
  | Displacement h8_reg int nat
  | Absolute u32 nat
  | Indirect h8_reg
  | PcRelative int
  | EaOther

datatype h8_operand =
    OpNone
  | Register h8_reg
  | Immediate u32 nat
  | Address h8_ea
  | OpOther

datatype h8_insn = Insn (mnemonic: string) (insn_size: "h8_size option") (operands: "h8_operand list")

datatype needle =
    Masked "(u16 \<times> u16) list"
  | NeedleBytes bytes
  | NeedleWord u32

datatype xref_kind = XrefCall | XrefOther

record xref =
  xref_to :: "u32 option"
  xref_kind :: xref_kind

section \<open>The drive's firmware layout\<close>

record cpu_range =
  r_start :: u32
  r_end :: u32
  r_length :: u32

record fw_layout =
  image_base :: "u32 option"
  overlay_ranges :: "cpu_range list"
  structural_gaps :: "cpu_range list"
  global_canaries :: "u32 list"
  buffer_tables :: "(u32 \<Rightarrow> u32 \<Rightarrow> cpu_range option option) list list"

record opcode_site =
  os_object_address :: u32
  os_table_address :: u32
  os_main_address :: u32
  os_check_address :: u32
  os_prepare_address :: u32

section \<open>Code that talks to a drive\<close>

text \<open>
  The crate's drive functions are generic over a trait \<open>Transport\<close> with one method \<open>exec\<close> that
  sends a command. Such a function can do nothing but send commands and look at the replies: it is
  a finite tree of calls, each with a continuation for every reply. The caller's transport gives
  the calls their meaning (\<open>run_calls\<close>). A call hands over a buffer to fill, a buffer to send or
  nothing; the reply is the error of the transport, or the byte count and the filled buffer.
\<close>

datatype drive_data = DataNone | DataIn bytes | DataOut bytes

datatype ('e, 'a) calls =
    Done 'a
  | Call bytes drive_data "'e + nat \<times> bytes \<Rightarrow> ('e, 'a) calls"

primrec run_calls :: "(bytes \<Rightarrow> drive_data \<Rightarrow> ('w, 'v, 'e + nat \<times> bytes) prog) \<Rightarrow> ('e, 'a) calls \<Rightarrow> ('w, 'v, 'a) prog" where
  "run_calls ex (Done a) = ret a"
| "run_calls ex (Call cdb data k) = bind_io (ex cdb data) (\<lambda>r. run_calls ex (k r))"

datatype 'e drive_error = DriveTransport 'e | DriveOther string

text \<open>The settings call of the vendor's device type; a state it reports is only printed.\<close>

datatype quiet_mode = QuietStandard | QuietOther
datatype persistence = Volatile | PersistenceOther

type_synonym quiet_state = string

datatype ('a, 'e) write_outcome = Verified 'a | Unchanged 'a | Mismatch 'a | Unverified "'e drive_error"

section \<open>The parameter\<close>

text \<open>
  \<open>anyhow::Error\<close> as far as the code looks into it: a dead bus is the type \<open>DeadTransport\<close>,
  everything else is opaque.
\<close>

datatype anyhow = DeadTransport | Message

record 's external =
  x_find :: "bytes \<Rightarrow> needle \<Rightarrow> nat \<Rightarrow> nat option"
  x_read_u32 :: "bytes \<Rightarrow> nat \<Rightarrow> u32 option"
  x_read_u16 :: "bytes \<Rightarrow> nat \<Rightarrow> u16 option"
  x_reachable :: "bytes \<Rightarrow> u32 \<Rightarrow> u32 list option"
  x_xrefs :: "bytes \<Rightarrow> nat \<Rightarrow> nat \<Rightarrow> xref list option"
  x_encode :: "h8_insn \<Rightarrow> bytes option"
  x_decode :: "bytes \<Rightarrow> (h8_insn \<times> nat) option"
  x_asm_new :: "'s option"
  x_instruction :: "bytes \<Rightarrow> 's \<Rightarrow> 's option"
  x_label :: "string \<Rightarrow> 's \<Rightarrow> 's option"
  x_branch :: "u8 \<Rightarrow> string \<Rightarrow> 's \<Rightarrow> 's option"
  x_finish :: "'s \<Rightarrow> bytes option"
  x_inspect :: "bytes \<Rightarrow> fw_layout option"
  x_free_ranges :: "cpu_range list \<Rightarrow> cpu_range list \<Rightarrow> u32 \<Rightarrow> cpu_range list option"
  x_range_new :: "u32 \<Rightarrow> u32 \<Rightarrow> cpu_range option"
  x_range_from_bounds :: "u32 \<Rightarrow> u32 \<Rightarrow> cpu_range option"
  x_range_contains :: "cpu_range \<Rightarrow> cpu_range \<Rightarrow> bool"
  x_opcode_site :: "bytes \<Rightarrow> u32 \<Rightarrow> u8 \<Rightarrow> opcode_site option"
  x_read_buffer_site :: "bytes \<Rightarrow> u32 \<Rightarrow> opcode_site option"
  x_memory_call :: "bytes \<Rightarrow> u32 \<Rightarrow> u32 \<Rightarrow> u8 \<Rightarrow> bool \<Rightarrow> u32 option"
  x_controller_error :: "bytes \<Rightarrow> u32 \<Rightarrow> u32 \<Rightarrow> u32 option"
  x_sha256_digest :: "bytes \<Rightarrow> bytes"
  x_identity_len :: nat
  x_vendor_identity :: bytes
  x_knock :: bytes
  x_read_memory :: "u32 \<Rightarrow> u32 \<Rightarrow> bytes"
  x_diagnostic_memory :: "u8 \<Rightarrow> u32 \<Rightarrow> drive_data \<Rightarrow> (anyhow, anyhow drive_error + bytes) calls"
  x_set_quiet_drive :: "quiet_mode \<Rightarrow> persistence \<Rightarrow> (scsi_error, scsi_error drive_error + (quiet_state, scsi_error) write_outcome) calls"

end
