(* ===== verification/Renesas_Scan.thy ===== *)
theory Renesas_Scan
  imports H8
begin

text \<open>
  Reading a Renesas drive's firmware image, first part (modules \<open>firmware\<close> and \<open>operations\<close> of
  \<open>src/freemkv/renesas.rs\<close>): unique byte signatures, the OEM functions and variables found by
  them, and the checks that tie them to each other. Words of a signature are pairs of a value and
  a mask.
\<close>

unbundle bit_operations_syntax

type_synonym signature = "(u16 \<times> u16) list"

definition hi16 :: "u32 \<Rightarrow> u16" where "hi16 w = ucast (drop_bit 16 w)"
definition lo16 :: "u32 \<Rightarrow> u16" where "lo16 w = ucast w"

section \<open>Absolute transfers\<close>

definition encode_insn :: "'s external \<Rightarrow> h8_insn \<Rightarrow> bytes option" where
  "encode_insn X insn = x_encode X insn"

definition abs_transfer :: "'s external \<Rightarrow> u8 \<Rightarrow> u32 \<Rightarrow> bytes option" where
  "abs_transfer X opcode addr = do {
     ensure (addr < 0x1000000 \<and> addr mod 2 = 0);
     mnem \<leftarrow> (if opcode = 0x5e then Some ''JSR'' else if opcode = 0x5a then Some ''JMP'' else None);
     bs \<leftarrow> encode_insn X (Insn mnem None [Address (Absolute addr 24), OpNone, OpNone]);
     ensure (length bs = 4);
     Some bs }"

section \<open>Unique signatures\<close>

primrec unique_loop :: "'s external \<Rightarrow> bytes \<Rightarrow> nat option \<Rightarrow> signature list \<Rightarrow> nat option option" where
  "unique_loop X img found [] = Some found"
| "unique_loop X img found (p # ps) =
     (case x_find X img (Masked p) 0 of
        None \<Rightarrow> unique_loop X img found ps
      | Some at \<Rightarrow>
          if found = None \<and> x_find X img (Masked p) (at + 2) = None
          then unique_loop X img (Some at) ps
          else None)"

definition unique_signatures :: "'s external \<Rightarrow> bytes \<Rightarrow> signature list \<Rightarrow> nat option" where
  "unique_signatures X img patterns = do { found \<leftarrow> unique_loop X img None patterns; found }"

definition unique_signature :: "'s external \<Rightarrow> bytes \<Rightarrow> signature \<Rightarrow> nat option" where
  "unique_signature X img p = unique_signatures X img [p]"

text \<open>
  \<open>while let Some(at) = find(img, needle, start)\<close> with \<open>start = at + 2\<close> after each match. The
  search moves forward, so the image's length is enough fuel.
\<close>

primrec scan_matches :: "'s external \<Rightarrow> bytes \<Rightarrow> needle \<Rightarrow> (nat \<Rightarrow> 'a \<Rightarrow> 'a option) \<Rightarrow> nat \<Rightarrow> nat \<Rightarrow> 'a \<Rightarrow> 'a option" where
  "scan_matches X img n body 0 start acc = None"
| "scan_matches X img n body (Suc fuel) start acc =
     (case x_find X img n start of
        None \<Rightarrow> Some acc
      | Some at \<Rightarrow> do { acc \<leftarrow> body at acc; scan_matches X img n body fuel (at + 2) acc })"

definition mapped_image :: "u32 \<Rightarrow> bytes \<Rightarrow> bytes" where
  "mapped_image base img = zeros (unat base) @ img"

definition RTS_BYTES :: bytes where [const_defs]: "RTS_BYTES = [0x54, 0x70]"

definition code_at :: "bytes \<Rightarrow> nat \<Rightarrow> bytes \<Rightarrow> bool" where
  "code_at mapped at code \<longleftrightarrow> get_slice mapped at (at + length code) = Some code"

section \<open>The READ BUFFER callback\<close>

definition hook_site :: "'s external \<Rightarrow> bytes \<Rightarrow> u32 \<Rightarrow> opcode_site option" where
  "hook_site X img base = do {
     site \<leftarrow> x_read_buffer_site X img base;
     let check = unat (os_check_address site - base);
     let prepare = unat (os_prepare_address site - base);
     ensure (get_slice img check (check + 2) = Some [0x54, 0x70]);
     ensure (get_slice img prepare (prepare + 4) = Some [0x18, 0x88, 0x54, 0x70]);
     Some site }"

definition targets :: "'s external \<Rightarrow> bytes \<Rightarrow> (u32 \<times> u32 \<times> u32) option" where
  "targets X img = do {
     lay \<leftarrow> x_inspect X img;
     base \<leftarrow> image_base lay;
     site \<leftarrow> hook_site X img base;
     helper \<leftarrow> x_memory_call X img base (os_main_address site) 0x93 False;
     invalid \<leftarrow> x_controller_error X img base helper;
     Some (os_main_address site, helper, invalid) }"

definition write_paths :: "'s external \<Rightarrow> bytes \<Rightarrow> u32 \<Rightarrow> u32 \<Rightarrow> unit option" where
  "write_paths X img main controller_helper = do {
     lay \<leftarrow> x_inspect X img;
     base \<leftarrow> image_base lay;
     write \<leftarrow> x_opcode_site X img base 0x3b;
     helper \<leftarrow> x_memory_call X img base (os_main_address write) 0x93 True;
     ensure (helper = controller_helper);
     cpu_write \<leftarrow> x_memory_call X img base (os_main_address write) 0xb0 True;
     cpu_read \<leftarrow> x_memory_call X img base main 0xb0 False;
     ensure (cpu_write = cpu_read) }"

section \<open>Eligibility state\<close>

definition eligibility_getter_signature :: signature where
  "eligibility_getter_signature =
   [(0x0100, 0xffff), (0x6df3, 0xffff), (0x6a28, 0xffff), (0x0000, 0x0000), (0x0000, 0x0000),
     (0x4634, 0xffff), (0x0100, 0xffff), (0x6b23, 0xffff), (0x0000, 0x0000), (0x0000, 0x0000),
     (0x0100, 0xffff), (0x6930, 0xffff), (0x0100, 0xffff), (0x6f02, 0xffff), (0x0100, 0xffff),
     (0x0100, 0xffff), (0x6f00, 0xffff), (0x00fa, 0xffff), (0x0ab0, 0xffff), (0x5d20, 0xffff),
     (0x0c88, 0xffff), (0x4704, 0xffff), (0xf801, 0xffff), (0x4002, 0xffff), (0x1888, 0xffff),
     (0x6aa8, 0xffff), (0x0000, 0x0000), (0x0000, 0x0000), (0xf801, 0xffff), (0x6aa8, 0xffff),
     (0x0000, 0x0000), (0x0000, 0x0000), (0x6a28, 0xffff), (0x0000, 0x0000), (0x0000, 0x0000),
     (0x0100, 0xffff), (0x6d73, 0xffff), (0x5470, 0xffff)]"

definition eligibility_getter :: "'s external \<Rightarrow> bytes \<Rightarrow> nat option" where
  "eligibility_getter X img = unique_signature X img eligibility_getter_signature"

definition eligibility_state :: "'s external \<Rightarrow> bytes \<Rightarrow> (u32 \<times> u32 \<times> u32) option" where
  "eligibility_state X img = do {
     at \<leftarrow> eligibility_getter X img;
     entry \<leftarrow> u32_try at;
     x_reachable X img entry;
     checked \<leftarrow> x_read_u32 X img (at + 6);
     object \<leftarrow> x_read_u32 X img (at + 16);
     result \<leftarrow> x_read_u32 X img (at + 52);
     ensure (x_read_u32 X img (at + 60) = Some checked \<and> x_read_u32 X img (at + 66) = Some result);
     ensure (checked \<noteq> result \<and> 0 < checked \<and> 0 < result \<and> checked < 0x1000000 \<and> result < 0x1000000
       \<and> 0 < object \<and> object < 0x1000000 \<and> object mod 2 = 0);
     Some (checked, result, object) }"

section \<open>Delay, read engine and buffers\<close>

definition scheduler_delay_signature :: signature where
  "scheduler_delay_signature =
   [(0x1770, 0xffff), (0x5e00, 0xff00), (0, 0), (0x0d08, 0xffff), (0x1911, 0xffff),
     (0x0d00, 0xffff), (0x4602, 0xffff), (0xf901, 0xffff), (0x0d10, 0xffff), (0xf016, 0xffff),
     (0x1899, 0xffff), (0x5e00, 0xff00), (0, 0), (0x5470, 0xffff)]"

definition scheduler_delay :: "'s external \<Rightarrow> bytes \<Rightarrow> u32 option" where
  "scheduler_delay X img = do {
     at \<leftarrow> unique_signature X img scheduler_delay_signature;
     w \<leftarrow> x_read_u32 X img (at + 2);
     let target = w AND 0xffffff;
     ensure (0x400000 \<le> target \<and> target < 0x410000 \<and> target mod 2 = 0);
     Some target }"

definition read_engine_state_signature :: signature where
  "read_engine_state_signature =
   [(0x6a08, 0xffff), (0, 0), (0xa808, 0xffff), (0x4408, 0xffff), (0x0c88, 0xffff),
     (0x4704, 0xffff), (0xf801, 0xffff), (0x4002, 0xffff), (0x1888, 0xffff), (0x5470, 0xffff)]"

definition read_engine_state :: "'s external \<Rightarrow> bytes \<Rightarrow> u32 option" where
  "read_engine_state X img = do {
     at \<leftarrow> unique_signature X img read_engine_state_signature;
     w \<leftarrow> x_read_u16 X img (at + 2);
     let state = (ucast w :: u32);
     ensure (1 \<le> state \<and> state < 0x8000);
     Some state }"

definition activation_buffers_signature :: signature where
  "activation_buffers_signature =
   [(0x1933, 0xffff), (0x0d31, 0xffff), (0x1771, 0xffff), (0x6e1c, 0xffff), (0, 0),
     (0x7810, 0xffff), (0x6aac, 0xffff), (0, 0), (0, 0), (0x0b53, 0xffff), (0x7923, 0xffff),
     (0x0010, 0xffff), (0x45e8, 0xffff)]"

definition activation_buffers :: "'s external \<Rightarrow> bytes \<Rightarrow> (u32 \<times> u32) option" where
  "activation_buffers X img = do {
     at \<leftarrow> unique_signature X img activation_buffers_signature;
     w \<leftarrow> x_read_u16 X img (at + 8);
     let source = (ucast w :: u32);
     destination \<leftarrow> x_read_u32 X img (at + 14);
     ensure (2 \<le> source \<and> source \<le> 0x7ff0 \<and> 0xa00000 \<le> destination \<and> destination \<le> 0xdffff0
       \<and> source mod 2 = 0 \<and> destination mod 2 = 0);
     Some (source, destination) }"

section \<open>Guards\<close>

record hook_guard =
  cpu_address :: u32
  expected :: bytes

definition u16_try :: "u32 \<Rightarrow> u16 option" where
  "u16_try w = (if w < 0x10000 then Some (ucast w) else None)"

text \<open>The consumer of the acquisition output, and the instruction that fills the buffer.\<close>

definition buffer_consumer :: "'s external \<Rightarrow> u32 \<Rightarrow> u32 \<times> u32 \<Rightarrow> bytes option" where
  "buffer_consumer X dispatcher buffers = do {
     call \<leftarrow> abs_transfer X 0x5e dispatcher;
     source \<leftarrow> u16_try (fst buffers);
     Some ([0x79, 0x01, 0x01, 0x3a, 0x69, 0xf1, 0x18, 0x99, 0x6e, 0xf9, 0x00, 0x02, 0x0f, 0xf1,
            0x1a, 0xa2]
       @ call
       @ [0x6e, 0xf8, 0x00, 0x2c, 0xa8, 0x01, 0x58, 0x70, 0x00, 0xcc, 0x19, 0x33, 0x0d, 0x31,
          0x17, 0x71, 0x6e, 0x1c]
       @ [hi_byte source, lo_byte source]
       @ [0x78, 0x10, 0x6a, 0xac]
       @ be32 (snd buffers)) }"

definition verify_buffer_owner :: "'s external \<Rightarrow> bytes \<Rightarrow> u32 \<Rightarrow> u32 \<Rightarrow> hook_guard \<Rightarrow> u32 \<times> u32 \<Rightarrow> unit option" where
  "verify_buffer_owner X img base dispatcher acquisition buffers = do {
     consumer \<leftarrow> buffer_consumer X dispatcher buffers;
     consumer_at \<leftarrow> x_find X img (NeedleBytes consumer) 0;
     ensure (x_find X img (NeedleBytes consumer) (consumer_at + 1) = None);
     table \<leftarrow> x_read_u32 X (expected acquisition) 0;
     table_offset \<leftarrow> checked_sub table base;
     main \<leftarrow> x_read_u32 X img (unat table_offset + 16);
     let mapped = mapped_image base img;
     reachable \<leftarrow> x_reachable X mapped main;
     let out = [0x7a, 0x02] @ be32 (fst buffers) @ [0x18, 0x99, 0x5d, 0x30];
     ensure (list_ex (\<lambda>at. code_at mapped (unat at) out) reachable) }"

section \<open>Loaded flag\<close>

definition cache_reset_signature :: signature where
  "cache_reset_signature =
   [(0x1888, 0xffff), (0x6aa8, 0xffff), (0, 0), (0, 0), (0x6aa8, 0xffff), (0, 0), (0, 0),
     (0x6aa8, 0xffff), (0, 0), (0, 0), (0x6aa8, 0xffff), (0, 0), (0, 0), (0x6aa8, 0xffff), (0, 0),
     (0, 0), (0x5470, 0xffff), (0x6a28, 0xffff), (0, 0), (0, 0), (0x5470, 0xffff)]"

definition cache_reset :: "'s external \<Rightarrow> bytes \<Rightarrow> nat option" where
  "cache_reset X img = unique_signature X img cache_reset_signature"

definition loaded_state :: "'s external \<Rightarrow> bytes \<Rightarrow> u32 \<Rightarrow> u32 \<Rightarrow> u32 option" where
  "loaded_state X img checked result = do {
     at \<leftarrow> cache_reset X img;
     loaded \<leftarrow> x_read_u32 X img (at + 10);
     ensure (x_read_u32 X img (at + 22) = Some checked \<and> x_read_u32 X img (at + 28) = Some result
       \<and> x_read_u32 X img (at + 36) = Some loaded);
     ensure (0 < loaded \<and> loaded < 0x1000000 \<and> loaded \<noteq> checked \<and> loaded \<noteq> result);
     Some loaded }"

section \<open>The operation table and its dispatcher\<close>

definition operation_lookup_signature :: signature where
  "operation_lookup_signature =
   [(0x17f0, 0xffff), (0x0f81, 0xffff), (0x1030, 0xffff), (0x0a90, 0xffff), (0x1030, 0xffff),
     (0x7a10, 0xffff), (0, 0), (0, 0), (0x5470, 0xffff)]"

definition operation_lookup :: "'s external \<Rightarrow> bytes \<Rightarrow> u32 \<Rightarrow> (u32 \<times> u32) option" where
  "operation_lookup X img base = do {
     at \<leftarrow> x_find X img (Masked operation_lookup_signature) 0;
     ensure (x_find X img (Masked operation_lookup_signature) (at + 2) = None);
     table \<leftarrow> x_read_u32 X img (at + 12);
     off \<leftarrow> u32_try at;
     address \<leftarrow> checked_add base off;
     Some (address, table) }"

definition DISPATCHER_EPILOGUE :: bytes where
  "DISPATCHER_EPILOGUE =
     [0x0c, 0xd8, 0x79, 0x17, 0x00, 0x20, 0x01, 0x20, 0x6d, 0x76, 0x01, 0x00, 0x6d, 0x73,
      0x54, 0x70]"

text \<open>The loop over the reachable returns: how many there are, and the image cut at each epilogue.\<close>

primrec dispatcher_returns :: "bytes \<Rightarrow> u32 list \<Rightarrow> u32 list \<Rightarrow> nat \<Rightarrow> bytes \<Rightarrow> (nat \<times> bytes) option" where
  "dispatcher_returns mapped reachable [] returns cutimg = Some (returns, cutimg)"
| "dispatcher_returns mapped reachable (address # rest) returns cutimg =
     (let fin = unat address in
      if \<not> code_at mapped fin RTS_BYTES then dispatcher_returns mapped reachable rest returns cutimg
      else if fin < 14 then None
      else let start = fin - 14 in do {
        ensure (get_slice mapped start (fin + 2) = Some DISPATCHER_EPILOGUE);
        ensure (list_all (\<lambda>offset. of_nat (start + offset) \<in> set reachable) [0, 2, 6, 10]);
        dispatcher_returns mapped reachable rest (returns + 1) (put_at start RTS_BYTES cutimg) })"

definition verify_dispatcher_returns :: "'s external \<Rightarrow> bytes \<Rightarrow> u32 \<Rightarrow> nat \<Rightarrow> unit option" where
  "verify_dispatcher_returns X img base entry = do {
     let mapped = mapped_image base img;
     off \<leftarrow> u32_try entry;
     reachable \<leftarrow> x_reachable X mapped (base + off);
     (returns, cutimg) \<leftarrow> dispatcher_returns mapped reachable reachable 0 mapped;
     ensure (0 < returns);
     bypass \<leftarrow> x_reachable X cutimg (base + off);
     ensure (\<not> list_ex (\<lambda>at. code_at mapped (unat at) RTS_BYTES) bypass) }"

definition internal_dispatcher_signature :: signature where
  "internal_dispatcher_signature =
   [(0x0100, 0xffff), (0x6df3, 0xffff), (0x0120, 0xffff), (0x6df4, 0xffff), (0x7937, 0xffff),
     (0x0020, 0xffff), (0x0100, 0xffff), (0x6ff2, 0xffff), (0x001c, 0xffff), (0x0100, 0xffff),
     (0x6ff1, 0xffff), (0x0016, 0xffff), (0xfd01, 0xffff), (0x6910, 0xffff), (0x5e00, 0xff00),
     (0x0000, 0x0000), (0x0f86, 0xffff), (0x0100, 0xffff), (0x6901, 0xffff), (0x0100, 0xffff),
     (0x6910, 0xffff), (0x0100, 0xffff), (0x6f03, 0xffff), (0x0010, 0xffff)]"

definition internal_dispatcher :: "'s external \<Rightarrow> bytes \<Rightarrow> u32 \<Rightarrow> u32 option" where
  "internal_dispatcher X img base = do {
     at \<leftarrow> unique_signature X img internal_dispatcher_signature;
     refs \<leftarrow> x_xrefs X img at (at + 48);
     ensure (length refs = 1 \<and> xref_kind (refs ! 0) = XrefCall);
     (lookup_address, _) \<leftarrow> operation_lookup X img base;
     ensure (xref_to (refs ! 0) = Some lookup_address);
     address \<leftarrow> xref_to (refs ! 0);
     lookup \<leftarrow> checked_sub address base;
     let prefix = [0x17, 0xf0, 0x0f, 0x81, 0x10, 0x30, 0x0a, 0x90, 0x10, 0x30, 0x7a, 0x10];
     ensure (get_slice img (unat lookup) (unat lookup + length prefix) = Some prefix);
     verify_dispatcher_returns X img base at;
     off \<leftarrow> u32_try at;
     checked_add base off }"

end
