(* ===== verification/Renesas_Sites.thy ===== *)
theory Renesas_Sites
  imports Renesas_Scan
begin

text \<open>
  Reading a Renesas drive's firmware image, second part (module \<open>operations\<close> of
  \<open>src/freemkv/renesas.rs\<close>): the security object and its method table, the acquisition and reset
  operations, the hardware Volume ID reader, and \<open>Sites\<close>, everything the runtime is built on.
\<close>

unbundle bit_operations_syntax

section \<open>RAM that may be written\<close>

definition writable_ram :: "u32 \<Rightarrow> u32 \<Rightarrow> bool" where
  "writable_ram cpu len \<longleftrightarrow> len \<noteq> 0
     \<and> (case checked_add cpu len of None \<Rightarrow> False
        | Some fin \<Rightarrow> (0 < cpu \<and> fin \<le> 0x8000) \<or> (0xa00000 \<le> cpu \<and> fin \<le> 0xe00000))"

section \<open>The security object\<close>

definition object_assignment_signature :: "u32 \<Rightarrow> signature" where
  "object_assignment_signature object =
   [(0x5e00, 0xff00), (0, 0), (0x0100, 0xffff), (0x6ba0, 0xffff), (hi16 object, 0xffff),
     (lo16 object, 0xffff)]"

definition object_accessor_signature :: signature where
  "object_accessor_signature =
   [(0x7a00, 0xffff), (0, 0), (0, 0), (0x5e00, 0xff00), (0, 0), (0x7a00, 0xffff), (0, 0), (0, 0),
     (0x5470, 0xffff)]"

definition security_constructor_signature :: "u32 \<Rightarrow> signature" where
  "security_constructor_signature object_slot =
   [(0x7a00, 0xfff8), (0, 0), (0, 0), (0x0100, 0xffff), (0x6ba0, 0xfff8),
     (hi16 object_slot, 0xffff), (lo16 object_slot, 0xffff)]"

definition a_check_signature :: signature where
  "a_check_signature =
   [(0x6df3, 0xffff), (0x18bb, 0xffff), (0xf802, 0xffff), (0x5e00, 0xff00), (0, 0),
     (0x5e00, 0xff00), (0, 0), (0xa821, 0xffff)]"

definition boundary_constructor_signature :: "u16 \<Rightarrow> u32 \<Rightarrow> signature" where
  "boundary_constructor_signature reg next_address =
     [(0x7a00 OR reg, 0xffff), (hi16 next_address, 0xffff), (lo16 next_address, 0xffff),
      (0x0100, 0xffff), (0x6980 OR reg, 0xff8f)]"

definition security_initializer_signature :: "u16 \<Rightarrow> u32 \<Rightarrow> signature" where
  "security_initializer_signature reg table_address =
     [(0x7a00 OR reg, 0xffff), (hi16 table_address, 0xffff), (lo16 table_address, 0xffff),
      (0x0100, 0xffff), (0x6ba0 OR reg, 0xffff), (0, 0), (0, 0)]"

definition data_registers :: "u16 list" where
  "data_registers = [0, 1, 2, 3, 4, 5, 6]"

text \<open>
  The extent of the method table: methods of ten bytes, checked one by one, until the end of a
  method is the start of another table an OEM constructor refers to.
\<close>

definition method_ok :: "bytes \<Rightarrow> u32 \<Rightarrow> nat \<Rightarrow> u32 \<Rightarrow> bool" where
  "method_ok img base fin callback \<longleftrightarrow>
     (callback = 0 \<or> (callback mod 2 = 0
        \<and> (case checked_sub callback base of None \<Rightarrow> False | Some off \<Rightarrow> unat off < length img)))
     \<and> all_zero (get_slice img (fin - 6) fin)"

definition boundary_referenced :: "'s external \<Rightarrow> bytes \<Rightarrow> u32 \<Rightarrow> bool" where
  "boundary_referenced X img next_address =
     list_ex (\<lambda>reg. x_find X img (Masked (boundary_constructor_signature reg next_address)) 0 \<noteq> None)
       data_registers"

primrec security_length :: "'s external \<Rightarrow> bytes \<Rightarrow> u32 \<Rightarrow> nat \<Rightarrow> nat list \<Rightarrow> nat option option" where
  "security_length X img base table [] = Some None"
| "security_length X img base table (m # ms) =
     (let fin = table + 16 + m * 10; nxt = fin + 4 in do {
        callback \<leftarrow> x_read_u32 X img fin;
        ensure (method_ok img base fin callback);
        if m < 24 \<or> \<not> all_zero (get_slice img nxt (nxt + 16)) then security_length X img base table ms
        else do {
          off \<leftarrow> u32_try nxt;
          next_address \<leftarrow> checked_add base off;
          if boundary_referenced X img next_address then Some (Some (nxt - table))
          else security_length X img base table ms } })"

text \<open>The one initializer that stores the table into an object slot, over all registers.\<close>

definition slot_body :: "'s external \<Rightarrow> bytes \<Rightarrow> nat \<Rightarrow> u32 option \<Rightarrow> u32 option option" where
  "slot_body X img at slot = do {
     ensure (slot = None);
     Some (x_read_u32 X img (at + 10)) }"

primrec security_slot_loop :: "'s external \<Rightarrow> bytes \<Rightarrow> u32 \<Rightarrow> u16 list \<Rightarrow> u32 option \<Rightarrow> u32 option option" where
  "security_slot_loop X img table_address [] slot = Some slot"
| "security_slot_loop X img table_address (reg # regs) slot = do {
     slot \<leftarrow> scan_matches X img (Masked (security_initializer_signature reg table_address))
       (slot_body X img) (Suc (length img)) 0 slot;
     security_slot_loop X img table_address regs slot }"

definition security_table_offset :: "'s external \<Rightarrow> bytes \<Rightarrow> u32 \<Rightarrow> u32 \<Rightarrow> nat option" where
  "security_table_offset X img base object = do {
     assignment \<leftarrow> unique_signature X img (object_assignment_signature object);
     w \<leftarrow> x_read_u32 X img assignment;
     off \<leftarrow> checked_sub (w AND 0xffffff) base;
     let accessor = unat off;
     ensure (x_find X img (Masked object_accessor_signature) accessor = Some accessor);
     object_slot \<leftarrow> x_read_u32 X img (accessor + 12);
     constructor \<leftarrow> unique_signature X img (security_constructor_signature object_slot);
     ensure (byte_at img (constructor + 1) AND 7 = byte_at img (constructor + 9) AND 7);
     t \<leftarrow> x_read_u32 X img (constructor + 2);
     off \<leftarrow> checked_sub t base;
     Some (unat off) }"

definition eligibility_method_ok :: "'s external \<Rightarrow> bytes \<Rightarrow> u32 \<Rightarrow> nat \<Rightarrow> unit option" where
  "eligibility_method_ok X img base table = do {
     address \<leftarrow> x_read_u32 X img (table + 0x100);
     off \<leftarrow> checked_sub address base;
     let root = unat off;
     ensure (x_find X img (Masked a_check_signature) root = Some root);
     entry \<leftarrow> u32_try root;
     x_reachable X img entry;
     ensure (all_zero (get_slice img table (table + 16))) }"

definition security_layout :: "'s external \<Rightarrow> bytes \<Rightarrow> u32 \<Rightarrow> u32 \<Rightarrow> (u32 \<times> u32 \<times> nat) option" where
  "security_layout X img base object = do {
     table \<leftarrow> security_table_offset X img base object;
     eligibility_method_ok X img base table;
     found \<leftarrow> security_length X img base table [0..<256];
     len \<leftarrow> found;
     off \<leftarrow> u32_try table;
     table_address \<leftarrow> checked_add base off;
     found \<leftarrow> security_slot_loop X img table_address data_registers None;
     slot \<leftarrow> found;
     ensure (writable_ram slot 4 \<and> slot mod 2 = 0);
     Some (slot, table_address, len) }"

definition security_accessor_signature :: "u32 \<Rightarrow> signature" where
  "security_accessor_signature slot =
   [(0x7a00, 0xffff), (0, 0), (0, 0), (0x5e00, 0xff00), (0, 0), (0x7a00, 0xffff),
     (hi16 slot, 0xffff), (lo16 slot, 0xffff), (0x5470, 0xffff)]"

definition verify_security_object :: "'s external \<Rightarrow> bytes \<Rightarrow> u32 \<Rightarrow> u32 \<Rightarrow> u32 \<Rightarrow> unit option" where
  "verify_security_object X img base slot object = do {
     stub \<leftarrow> unique_signature X img (security_accessor_signature slot);
     off \<leftarrow> u32_try stub;
     address \<leftarrow> checked_add base off;
     call \<leftarrow> abs_transfer X 0x5e address;
     at \<leftarrow> x_find X img (NeedleBytes (call @ [1, 0, 0x6b, 0xa0] @ be32 object)) 0;
     ensure (at mod 2 = 0) }"

section \<open>Operation guards\<close>

definition operation_initializer_signature :: "u16 \<Rightarrow> u32 \<Rightarrow> signature" where
  "operation_initializer_signature reg slot =
     [(0x7a00 OR reg, 0xffff), (0, 0), (0, 0), (0x0100, 0xffff), (0x6ba0 OR reg, 0xffff),
      (hi16 slot, 0xffff), (lo16 slot, 0xffff)]"

definition callback_field_ok :: "'s external \<Rightarrow> bytes \<Rightarrow> u32 \<Rightarrow> nat \<Rightarrow> nat \<Rightarrow> bool" where
  "callback_field_ok X img base offset field \<longleftrightarrow>
     all_zero (get_slice img (offset + field - 6) (offset + field))
     \<and> (case x_read_u32 X img (offset + field) of None \<Rightarrow> False
        | Some callback \<Rightarrow> callback mod 2 = 0
            \<and> (case checked_sub callback base of None \<Rightarrow> False | Some off \<Rightarrow> unat off < length img))"

definition initializer_body :: "'s external \<Rightarrow> bytes \<Rightarrow> u32 \<Rightarrow> nat list \<Rightarrow> nat \<Rightarrow> u32 option \<Rightarrow> u32 option option" where
  "initializer_body X img base members at original = do {
     address \<leftarrow> x_read_u32 X img (at + 2);
     off \<leftarrow> checked_sub address base;
     ensure (list_all (callback_field_ok X img base (unat off)) members);
     ensure (original = None);
     Some (Some address) }"

primrec initializer_loop :: "'s external \<Rightarrow> bytes \<Rightarrow> u32 \<Rightarrow> nat list \<Rightarrow> u32 \<Rightarrow> u16 list \<Rightarrow> u32 option \<Rightarrow> u32 option option" where
  "initializer_loop X img base members slot [] original = Some original"
| "initializer_loop X img base members slot (reg # regs) original = do {
     original \<leftarrow> scan_matches X img (Masked (operation_initializer_signature reg slot))
       (initializer_body X img base members) (Suc (length img)) 0 original;
     initializer_loop X img base members slot regs original }"

definition dispatcher_caller :: "bytes \<Rightarrow> bytes" where
  "dispatcher_caller call = [0x69, 0x10] @ call
     @ [0x0f, 0x86, 1, 0, 0x69, 1, 1, 0, 0x69, 0x10, 1, 0, 0x6f, 3, 0, 0x10]"

definition operation_guard :: "'s external \<Rightarrow> bytes \<Rightarrow> u32 \<Rightarrow> u32 \<Rightarrow> bytes \<Rightarrow> hook_guard option" where
  "operation_guard X img base operation flags = do {
     (lookup_address, table) \<leftarrow> operation_lookup X img base;
     off \<leftarrow> checked_sub table base;
     off \<leftarrow> checked_add off (operation * 6);
     let entry = unat off;
     ensure (get_slice img (entry + 4) (entry + 6) = Some flags);
     slot \<leftarrow> x_read_u32 X img entry;
     ensure (slot mod 2 = 0 \<and> writable_ram slot 4);
     call \<leftarrow> abs_transfer X 0x5e lookup_address;
     ensure (x_find X img (NeedleBytes (dispatcher_caller call)) 0 \<noteq> None);
     found \<leftarrow> initializer_loop X img base (if flags = [0, 0] then [16] else [16, 26, 36, 46, 56, 66])
       slot data_registers None;
     original \<leftarrow> found;
     Some \<lparr> cpu_address = slot, expected = be32 original \<rparr> }"

definition acquisition_guard :: "'s external \<Rightarrow> bytes \<Rightarrow> u32 \<Rightarrow> hook_guard option" where
  "acquisition_guard X img base = operation_guard X img base 0x13a [1, 0]"

section \<open>The reset operation CF\<close>

definition cf_tail_signature :: signature where
  "cf_tail_signature =
   [(0x7901, 0xffff), (0x012b, 0xffff), (0x0f80, 0xff8f), (0x5e00, 0xff00), (0x0000, 0x0000),
     (0xf858, 0xffff), (0x5e00, 0xff00), (0x0000, 0x0000), (0x5e00, 0xff00), (0x0000, 0x0000),
     (0x0c88, 0xffff), (0x471a, 0xffff), (0x7901, 0xffff), (0x013d, 0xffff), (0x0f80, 0xff8f),
     (0x5e00, 0xff00), (0x0000, 0x0000), (0xa801, 0xffff), (0x460c, 0xffff), (0x7a00, 0xffff),
     (0x0000, 0x0000), (0x0000, 0x0000), (0x5e00, 0xff00), (0x0000, 0x0000), (0x4004, 0xffff),
     (0x1888, 0xffff), (0x4002, 0xffff), (0xf801, 0xffff), (0x7917, 0xffff), (0x0000, 0x0000),
     (0x0100, 0xffcf), (0x6d70, 0xfff8), (0x5470, 0xffff)]"

definition cf_acquisition_signature :: "u16 \<Rightarrow> u8 \<Rightarrow> u32 \<Rightarrow> signature" where
  "cf_acquisition_signature descriptor ctx dispatcher =
     [(0x6ef9, 0xffff), (descriptor + 2, 0xffff), (0x0ff1, 0xffff), (0x7911, 0xffff),
      (descriptor, 0xffff), (0x0f80 OR push_bit 4 (ucast ctx), 0xffff), (0x1aa2, 0xffff),
      (0x5e00 OR hi16 dispatcher, 0xffff), (lo16 dispatcher, 0xffff), (0xa801, 0xffff),
      (0x4608, 0xffff), (0x7a00, 0xffff), (0, 0), (0, 0)]"

definition cf_descriptor_signature :: "u16 \<Rightarrow> signature" where
  "cf_descriptor_signature descriptor =
     [(0x7901, 0xffff), (0x013a, 0xffff), (0x6ff1, 0xffff), (descriptor, 0xffff)]"

definition cf_entry :: "u8 \<Rightarrow> u16 \<Rightarrow> u8 \<Rightarrow> bytes" where
  "cf_entry saved frame ctx =
     [1, saved, 0x6d, 0xf4, 0x79, 0x37, hi_byte frame, lo_byte frame, 0x0f, 0x80 OR ctx]"

text \<open>
  The instructions between the descriptor and the dispatch may not touch the descriptor or the
  stack. Each takes at least one byte, so the distance is enough fuel.
\<close>

definition setup_operand_ok :: "nat \<Rightarrow> nat \<Rightarrow> nat \<Rightarrow> h8_operand \<Rightarrow> bool" where
  "setup_operand_ok at len acquisition operand = (case operand of
     OpNone \<Rightarrow> True
   | Immediate _ _ \<Rightarrow> True
   | Register (RegByte r) \<Rightarrow> r \<noteq> 7 \<and> r \<noteq> 15
   | Address (PcRelative value) \<Rightarrow>
       let target = int at + int len + value in int at < target \<and> target \<le> int acquisition
   | _ \<Rightarrow> False)"

primrec setup_loop :: "'s external \<Rightarrow> bytes \<Rightarrow> nat \<Rightarrow> nat \<Rightarrow> nat \<Rightarrow> nat option" where
  "setup_loop X img acquisition 0 at = (if at < acquisition then None else Some at)"
| "setup_loop X img acquisition (Suc fuel) at =
     (if at < acquisition then do {
        (insn, len) \<leftarrow> x_decode X (drop at img);
        ensure (mnemonic insn \<in> {''MOV'', ''SUB'', ''BNE''});
        ensure (list_all (setup_operand_ok at len acquisition) (operands insn));
        setup_loop X img acquisition fuel (at + len) }
      else Some at)"

definition cf_call :: "'s external \<Rightarrow> bytes \<Rightarrow> nat \<Rightarrow> u32 option" where
  "cf_call X img at = do { w \<leftarrow> x_read_u32 X img at; Some (w AND 0xffffff) }"

definition cut_clears :: "bytes \<Rightarrow> bytes \<Rightarrow> u32 list \<Rightarrow> bytes \<Rightarrow> bytes" where
  "cut_clears mapped clear reset_path cutimg =
     fold (\<lambda>at c. if code_at mapped (unat at) clear then put_at (unat at) RTS_BYTES c else c)
       reset_path cutimg"

text \<open>Every return of the reset path crosses a call that clears the security cache.\<close>

definition verify_cf_reset :: "'s external \<Rightarrow> bytes \<Rightarrow> u32 \<Rightarrow> bytes \<Rightarrow> u32 \<Rightarrow> unit option" where
  "verify_cf_reset X img base mapped main = do {
     w \<leftarrow> x_read_u32 X mapped (unat main + 10);
     let reset = w AND 0xffffff;
     reset_path \<leftarrow> x_reachable X mapped reset;
     at \<leftarrow> cache_reset X img;
     clear \<leftarrow> abs_transfer X 0x5e (base + of_nat at);
     ensure (list_ex (\<lambda>at. code_at mapped (unat at) clear) reset_path);
     bypass \<leftarrow> x_reachable X (cut_clears mapped clear reset_path mapped) reset;
     ensure (\<not> list_ex (\<lambda>at. code_at mapped (unat at) RTS_BYTES) bypass) }"

definition verify_cf :: "'s external \<Rightarrow> bytes \<Rightarrow> u32 \<Rightarrow> u32 \<Rightarrow> hook_guard option" where
  "verify_cf X img base dispatcher = do {
     g \<leftarrow> operation_guard X img base 0xcf [0, 0];
     table \<leftarrow> x_read_u32 X (expected g) 0;
     main \<leftarrow> x_read_u32 X img (unat (table - base) + 16);
     tail \<leftarrow> unique_signature X img cf_tail_signature;
     frame \<leftarrow> x_read_u16 X img (tail + 58);
     descriptor \<leftarrow> checked_sub frame 20;
     let ctx = drop_bit 4 (byte_at img (tail + 5)) AND 7;
     let saved = byte_at img (tail + 61);
     ensure (byte_at img (tail + 29) = byte_at img (tail + 5)
       \<and> byte_at img (tail + 63) = 0x74 + drop_bit 4 saved
       \<and> 4 \<le> ctx \<and> ctx \<le> 4 + drop_bit 4 saved);
     acquisition \<leftarrow> unique_signature X img (cf_acquisition_signature descriptor ctx dispatcher);
     ensure (16 \<le> acquisition);
     let start = acquisition - 16;
     found \<leftarrow> unique_signature X (slice img start acquisition) (cf_descriptor_signature descriptor);
     let assignment = found + start;
     call16 \<leftarrow> cf_call X img (tail + 16);
     getter \<leftarrow> eligibility_getter X img;
     ensure (call16 = base + of_nat getter);
     call6 \<leftarrow> cf_call X img (tail + 6);
     call30 \<leftarrow> cf_call X img (tail + 30);
     ensure (call6 = call30);
     let mapped = mapped_image base img;
     reachable \<leftarrow> x_reachable X mapped main;
     ensure (base + of_nat tail \<in> set reachable);
     ensure (list_all (\<lambda>at. base + of_nat at \<in> set reachable) [assignment, acquisition]);
     at \<leftarrow> setup_loop X img acquisition (acquisition - assignment) (assignment + 8);
     ensure (at = acquisition);
     ensure (get_slice mapped (unat main) (unat main + 10) = Some (cf_entry saved frame ctx));
     ensure (get_slice mapped (unat main + 10) (unat main + 11) = Some [0x5e]);
     verify_cf_reset X img base mapped main;
     Some g }"

section \<open>The hardware Volume ID reader\<close>

record vid_site =
  vid_slot :: u32
  vid_table :: u32
  vid_main :: u32
  vid_status :: u32
  vid_source :: u32

definition vid_reader_signature :: signature where
  "vid_reader_signature =
   [(0x6a08, 0xffff), (0, 0), (0x7718, 0xffff), (0x4400, 0xff00), (0x0c99, 0xffff),
     (0x4600, 0xff00), (0x7a00, 0xffff), (0, 0), (0, 0), (0x5e00, 0xff00), (0, 0),
     (0x1933, 0xffff), (0x7a06, 0xffff), (0, 0), (0, 0), (0x0d31, 0xffff), (0x1771, 0xffff),
     (0x0f90, 0xffff), (0x0ae0, 0xffff), (0x680c, 0xffff), (0x0f90, 0xffff), (0x0ad0, 0xffff),
     (0x688c, 0xffff)]"

definition vid_sites :: "'s external \<Rightarrow> bytes \<Rightarrow> u32 \<Rightarrow> vid_site option" where
  "vid_sites X img base = do {
     site \<leftarrow> x_opcode_site X img base 0xad;
     at \<leftarrow> unique_signature X img vid_reader_signature;
     status \<leftarrow> x_read_u16 X img (at + 2);
     source \<leftarrow> x_read_u32 X img (at + 26);
     ensure (0xe000 \<le> status \<and> 0xffffe000 \<le> source \<and> source \<le> 0xfffffff0);
     ensure (writable_ram (os_object_address site) 4);
     Some \<lparr> vid_slot = os_object_address site, vid_table = os_table_address site,
            vid_main = os_main_address site, vid_status = 0xffff0000 OR ucast status,
            vid_source = source \<rparr> }"

section \<open>Sites\<close>

record sites =
  site_vid :: vid_site
  site_read_engine :: u32
  site_delay :: u32
  site_acquisition :: hook_guard
  site_reset :: hook_guard
  site_loaded :: u32
  site_checked :: u32
  site_result :: u32
  site_security_slot :: u32
  site_security_table :: u32
  site_table_length :: nat
  site_dispatcher :: u32
  site_buffers :: "u32 \<times> u32"

definition discover :: "'s external \<Rightarrow> bytes \<Rightarrow> u32 \<Rightarrow> sites option" where
  "discover X img base = do {
     (chk, res, object) \<leftarrow> eligibility_state X img;
     ldd \<leftarrow> loaded_state X img chk res;
     (slot, table, len) \<leftarrow> security_layout X img base object;
     verify_security_object X img base slot object;
     ensure (chk < 0x8000 \<and> res < 0x8000);
     disp \<leftarrow> internal_dispatcher X img base;
     rst \<leftarrow> verify_cf X img base disp;
     acq \<leftarrow> acquisition_guard X img base;
     bufs \<leftarrow> activation_buffers X img;
     verify_buffer_owner X img base disp acq bufs;
     v \<leftarrow> vid_sites X img base;
     engine \<leftarrow> read_engine_state X img;
     del \<leftarrow> scheduler_delay X img;
     Some \<lparr> site_vid = v, site_read_engine = engine, site_delay = del, site_acquisition = acq, site_reset = rst,
            site_loaded = ldd, site_checked = chk, site_result = res, site_security_slot = slot,
            site_security_table = table, site_table_length = len, site_dispatcher = disp, site_buffers = bufs \<rparr> }"

definition policy_table :: "sites \<Rightarrow> u32 \<Rightarrow> nat \<Rightarrow> u32" where
  "policy_table s base payload_len = base + of_nat (payload_len - site_table_length s)"

end
