(* ===== verification/Unlock.thy ===== *)
theory Unlock
  imports Scsi
begin

text \<open>
  The unlocker contract of \<open>src/lib.rs\<close>: the data every unlocker exchanges with the consumer,
  the outcome type, the shared \<open>fallthrough\<close> rule, and the trait \<open>Unlocker\<close> as a locale. The
  locale's laws are what the trait documentation promises: the only error is a dead bus, and
  the bus is left outside any critical span. Each unlocker interprets it in its own theory, for
  every host or, where the code needs it, for the hosts that conform to the transport contract.
\<close>

section \<open>Data\<close>

record drive_id =
  vendor_id :: string
  product_id :: string
  product_revision :: string
  vendor_specific :: string
  firmware_date :: string

definition drive_id_default :: drive_id where
  "drive_id_default = \<lparr> vendor_id = [], product_id = [], product_revision = [],
     vendor_specific = [], firmware_date = [] \<rparr>"

datatype disc_kind = Unknown | Unencrypted | Aacs | Css

record host_cert =
  private_key :: bytes
  certificate :: bytes
  private_key_v2 :: "bytes option"
  certificate_v2 :: "bytes option"

record unlock_ctx =
  ctx_drive_id :: drive_id
  ctx_kind :: disc_kind

definition unlock_ctx_new :: "drive_id \<Rightarrow> disc_kind \<Rightarrow> unlock_ctx" where
  "unlock_ctx_new d k = \<lparr> ctx_drive_id = d, ctx_kind = k \<rparr>"

record unlocked =
  vid :: "bytes option"
  bus_key :: "bytes option"

definition unlocked_default :: unlocked where
  "unlocked_default = \<lparr> vid = None, bus_key = None \<rparr>"

datatype unlock_error =
    NotApplicable
  | NoUsableHostCert
  | HandshakeRejected
  | VidUnavailable
  | Transport

section \<open>Only a dead bus is fatal\<close>

definition fallthrough :: "unlock_error + unlocked \<Rightarrow> unlock_error + unlocked option" where
  "fallthrough r = (case r of
     Inr u \<Rightarrow> Inr (Some u)
   | Inl Transport \<Rightarrow> Inl Transport
   | Inl _ \<Rightarrow> Inr None)"

lemma fallthrough_Inl_iff: "fallthrough r = Inl e \<longleftrightarrow> e = Transport \<and> r = Inl Transport"
  by (auto simp: fallthrough_def split: sum.splits unlock_error.splits)

lemma fallthrough_Some_iff: "fallthrough r = Inr (Some u) \<longleftrightarrow> r = Inr u"
  by (auto simp: fallthrough_def split: sum.splits unlock_error.splits)

lemma fallthrough_None_iff: "fallthrough r = Inr None \<longleftrightarrow> (\<exists>e. r = Inl e \<and> e \<noteq> Transport)"
  by (auto simp: fallthrough_def split: sum.splits unlock_error.splits)

text \<open>
  Each module has its own error type with a conversion in from \<open>ScsiError\<close> and a conversion out
  to \<open>UnlockError\<close>. The interface they share: a dead bus keeps its classification on the whole
  way, and nothing else becomes one.
\<close>

locale error_class =
  fixes of_scsi :: "scsi_error \<Rightarrow> 'e"
    and is_transport :: "'e \<Rightarrow> bool"
    and to_unlock :: "'e \<Rightarrow> unlock_error"
  assumes transport_of_scsi: "is_transport (of_scsi e) \<longleftrightarrow> is_dead_bus e"
    and to_unlock_transport: "to_unlock x = Transport \<longleftrightarrow> is_transport x"
begin

lemma dead_bus_iff: "to_unlock (of_scsi e) = Transport \<longleftrightarrow> is_dead_bus e"
  by (simp add: transport_of_scsi to_unlock_transport)

lemma fallthrough_error:
  "fallthrough (Inl (to_unlock x)) = (if is_transport x then Inl Transport else Inr None)"
  using to_unlock_transport [of x] by (cases "to_unlock x") (auto simp: fallthrough_def)

end

section \<open>The trait\<close>

text \<open>
  The outcome of \<open>unlock\<close>. A method that polls the drive may never return; its model has fuel
  and its result is an option, \<open>None\<close> when the fuel ran out. The contract is stated for those,
  and \<open>returning\<close> turns a method that always returns into one.
\<close>

type_synonym outcome = "unlock_error + unlocked option"
type_synonym 'w unlock_fn = "'w host \<Rightarrow> unlock_ctx \<Rightarrow> ('w, outcome) io"
type_synonym 'w partial_unlock_fn = "'w host \<Rightarrow> unlock_ctx \<Rightarrow> ('w, outcome option) io"

record 'w unlocker =
  u_name :: string
  u_claims :: "drive_id \<Rightarrow> bool"
  u_unlock :: "'w partial_unlock_fn"

definition returning :: "'w unlock_fn \<Rightarrow> 'w partial_unlock_fn" where
  "returning unlock = (\<lambda>H ctx. bind_io (unlock H ctx) (\<lambda>r. ret (Some r)))"

locale unlocker_contract =
  fixes unlock :: "'w partial_unlock_fn"
    and admissible :: "'w host \<Rightarrow> bool"
  assumes only_transport: "admissible H \<Longrightarrow> result_of (unlock H ctx) w = Some (Inl e) \<Longrightarrow> e = Transport"
    and spans_closed: "spans False (events_of (unlock H ctx) w) = Some False"
begin

lemma outcome:
  assumes "admissible H"
  shows "result_of (unlock H ctx) w = None \<or> result_of (unlock H ctx) w = Some (Inl Transport)
    \<or> result_of (unlock H ctx) w = Some (Inr None) \<or> (\<exists>u. result_of (unlock H ctx) w = Some (Inr (Some u)))"
proof (cases "result_of (unlock H ctx) w")
  case (Some r)
  show ?thesis
  proof (cases r)
    case (Inl e)
    with Some only_transport [OF assms, of ctx w e] show ?thesis by simp
  next
    case (Inr u)
    with Some show ?thesis by (cases u) simp_all
  qed
qed simp

lemma sat_contract:
  "sat (unlock H ctx) (\<lambda>r es. (admissible H \<longrightarrow> (\<forall>e. r = Some (Inl e) \<longrightarrow> e = Transport))
     \<and> spans False es = Some False)"
  by (auto simp: sat_def only_transport spans_closed)

lemma restrict: "unlocker_contract unlock (\<lambda>H. admissible H \<and> P H)"
  by unfold_locales (auto simp: only_transport spans_closed)

end

lemma contract_returning:
  assumes "\<And>H ctx. sat (unlock H ctx) (\<lambda>r es. (admissible H \<longrightarrow> (\<forall>e. r = Inl e \<longrightarrow> e = Transport))
     \<and> spans False es = Some False)"
  shows "unlocker_contract (returning unlock) admissible"
proof -
  have "sat (returning unlock H ctx) (\<lambda>r es. (admissible H \<longrightarrow> (\<forall>e. r = Some (Inl e) \<longrightarrow> e = Transport))
     \<and> spans False es = Some False)" for H ctx
    unfolding returning_def by (rule sat_bind [OF assms]) simp
  then show ?thesis
    by unfold_locales (auto simp: sat_def)
qed

text \<open>
  The transport contract (\<open>ScsiTransport::execute\<close>): a drive sense comes back in the result,
  an error is only a transport-layer fault.
\<close>

definition conforming :: "'w host \<Rightarrow> bool" where
  "conforming H \<longleftrightarrow> (\<forall>cdb dir data tmo w.
     case h_execute H cdb dir data tmo w of (Inl e, _) \<Rightarrow> is_dead_bus e | _ \<Rightarrow> True)"

end
