(* ===== verification/Vid.thy ===== *)
theory Vid
  imports Unlock
begin

text \<open>
  The bare Volume ID read of \<open>src/vid.rs\<close>: one READ DISC STRUCTURE, format 80h. Its result is
  best effort: only a dead bus is an error.
\<close>

unbundle bit_operations_syntax

definition VID_LEN :: nat where [const_defs]: "VID_LEN = 16"
definition DISC_STRUCT_FMT_VID :: u8 where [const_defs]: "DISC_STRUCT_FMT_VID = 0x80"
definition VID_STRUCT_LEN :: u16 where [const_defs]: "VID_STRUCT_LEN = 36"

definition build_vid_cdb :: bytes where
  "build_vid_cdb = (zeros 12)
     [0 := SCSI_READ_DISC_STRUCTURE,
      1 := 0x01,
      7 := DISC_STRUCT_FMT_VID,
      8 := hi_byte VID_STRUCT_LEN,
      9 := lo_byte (VID_STRUCT_LEN AND 0xFF)]"

definition read_aacs_vid :: "'w host \<Rightarrow> ('w, unlock_error + bytes option) io" where
  "read_aacs_vid H =
     bind_io (execute H build_vid_cdb FromDevice (zeros (unat VID_STRUCT_LEN)) 5000) (\<lambda>(r, buf).
     case r of
       Inl e \<Rightarrow> if is_dead_bus e then errE Transport else okE None
     | Inr result \<Rightarrow>
         if res_status result \<noteq> 0 then okE None
         else if res_transferred result < 4 + VID_LEN then okE None
         else
           let vid = slice buf 4 (4 + VID_LEN) in
           if list_all (\<lambda>b. b = 0) vid \<or> list_all (\<lambda>b. b = 0xFF) vid then okE None
           else okE (Some vid))"

lemma build_vid_cdb_bytes: "build_vid_cdb = [0xAD, 1, 0, 0, 0, 0, 0, 0x80, 0, 36, 0, 0]"
  by code_simp

text \<open>What a VID is: 16 bytes that are neither all zero nor all FFh.\<close>

definition vid_ok :: "bytes \<Rightarrow> bool" where
  "vid_ok v \<longleftrightarrow> length v = 16 \<and> \<not> list_all (\<lambda>b. b = 0) v \<and> \<not> list_all (\<lambda>b. b = 0xFF) v"

lemma sat_read_aacs_vid: "sat (read_aacs_vid H) (\<lambda>r es.
    (\<exists>reply buf. es = [Exec build_vid_cdb FromDevice (zeros 36) 5000 reply buf]
      \<and> r = (case reply of
          Inl e \<Rightarrow> if is_dead_bus e then Inl Transport else Inr None
        | Inr res \<Rightarrow> if res_status res = 0 \<and> 20 \<le> res_transferred res \<and> vid_ok (slice buf 4 20)
             then Inr (Some (slice buf 4 20)) else Inr None)))"
  unfolding read_aacs_vid_def
  by (rule sat_bind [OF sat_execute])
     (auto simp: Let_def const_defs vid_ok_def split: sum.split)

lemma emits_read_aacs_vid [emits_intros]:
  assumes "\<And>r buf. P (Exec build_vid_cdb FromDevice (zeros 36) 5000 r buf)"
  shows "emits P (read_aacs_vid H)"
  unfolding emits_def by (rule sat_weaken [OF sat_read_aacs_vid]) (auto simp: assms)

end
