(* ===== verification/Protocol.thy ===== *)
theory Protocol
  imports Vid "HOL-Library.Product_Lexorder"
begin

text \<open>
  The freemkv vendor-command wire format of \<open>src/protocol.rs\<close>: the CDB builders, the IDENTITY
  reply and its version, the capability descriptor. The version token is ASCII, so the Rust
  \<open>String\<close> is kept as its bytes.
\<close>

unbundle bit_operations_syntax

section \<open>Wire constants\<close>

definition READ_BUFFER_OPCODE :: u8 where [const_defs]: "READ_BUFFER_OPCODE = 0x3C"
definition KNOCK_MODE :: u8 where [const_defs]: "KNOCK_MODE = 0x0E"
definition KNOCK :: bytes where [const_defs]: "KNOCK = [0xC0, 0xDE]"
definition DEBUG_KNOCK :: bytes where [const_defs]: "DEBUG_KNOCK = [0xDE, 0xB9]"
definition RESP_MAGIC :: bytes where
  [const_defs]: "RESP_MAGIC = [0x66, 0x72, 0x65, 0x65, 0x6D, 0x6B, 0x76]"
definition MIN_FW_VERSION :: "u32 \<times> u32" where [const_defs]: "MIN_FW_VERSION = (0, 9)"
definition CDB_LEN :: nat where [const_defs]: "CDB_LEN = 10"
definition CDB_OPCODE :: nat where [const_defs]: "CDB_OPCODE = 0"
definition CDB_MODE :: nat where [const_defs]: "CDB_MODE = 1"
definition CDB_KNOCK :: nat where [const_defs]: "CDB_KNOCK = 2"
definition CDB_VERB :: nat where [const_defs]: "CDB_VERB = 4"
definition CDB_FEATURE :: nat where [const_defs]: "CDB_FEATURE = 5"
definition CDB_STATE :: nat where [const_defs]: "CDB_STATE = 6"
definition CDB_ALLOC_LEN :: nat where [const_defs]: "CDB_ALLOC_LEN = 7"
definition MEMREAD_LEN :: nat where [const_defs]: "MEMREAD_LEN = 64"
definition MIN_ALLOC_LEN :: u16 where [const_defs]: "MIN_ALLOC_LEN = 64"
definition STATE_PASSTHROUGH :: u8 where [const_defs]: "STATE_PASSTHROUGH = 0xFF"
definition STATE_OFF :: u8 where [const_defs]: "STATE_OFF = 0x00"
definition STATE_ON :: u8 where [const_defs]: "STATE_ON = 0x01"
definition SPEED_MAX :: u8 where [const_defs]: "SPEED_MAX = STATE_ON"
definition REGION_BD_A :: u8 where [const_defs]: "REGION_BD_A = 0x0A"
definition REGION_BD_B :: u8 where [const_defs]: "REGION_BD_B = 0x0B"
definition REGION_BD_C :: u8 where [const_defs]: "REGION_BD_C = 0x0C"
definition REGION_DVD_BASE :: u8 where [const_defs]: "REGION_DVD_BASE = 0x10"
definition REGION_FREE :: u8 where [const_defs]: "REGION_FREE = STATE_ON"
definition RESET_TO_FLASH :: u8 where [const_defs]: "RESET_TO_FLASH = 0x00"
definition RESET_TO_DEFAULTS :: u8 where [const_defs]: "RESET_TO_DEFAULTS = 0x01"
definition RESET_TO_OEM :: u8 where [const_defs]: "RESET_TO_OEM = 0xFF"

section \<open>Verbs, features, regions\<close>

datatype verb =
    VIdentity | VSet | VGet | VReset | VDumpAll | VFlashWrite | VSave | VCall | VPoke | VReboot

fun verb_code :: "verb \<Rightarrow> u8" where
  "verb_code VIdentity = 0x01"
| "verb_code VSet = 0x02"
| "verb_code VGet = 0x03"
| "verb_code VReset = 0x04"
| "verb_code VDumpAll = 0x09"
| "verb_code VFlashWrite = 0x0A"
| "verb_code VSave = 0x0B"
| "verb_code VCall = 0x0C"
| "verb_code VPoke = 0x0D"
| "verb_code VReboot = 0x0F"

lemma verb_code_inject [simp]: "verb_code v = verb_code v' \<longleftrightarrow> v = v'"
  by (cases v; cases v') auto

datatype feature = Speed | Region | Unrestricted | Hrl | Encryption

fun feature_code :: "feature \<Rightarrow> u8" where
  "feature_code Speed = 0x01"
| "feature_code Region = 0x02"
| "feature_code Unrestricted = 0x03"
| "feature_code Hrl = 0x05"
| "feature_code Encryption = 0x06"

lemma feature_code_inject [simp]: "feature_code f = feature_code g \<longleftrightarrow> f = g"
  by (cases f; cases g) auto

text \<open>Features are ordered by wire id, the order \<open>ALL_FEATURES\<close> lists them in.\<close>

instantiation feature :: linorder
begin

definition less_eq_feature :: "feature \<Rightarrow> feature \<Rightarrow> bool" where
  "less_eq_feature f g \<longleftrightarrow> feature_code f \<le> feature_code g"

definition less_feature :: "feature \<Rightarrow> feature \<Rightarrow> bool" where
  "less_feature f g \<longleftrightarrow> feature_code f < feature_code g"

instance
  by standard (auto simp: less_eq_feature_def less_feature_def order_less_le)

end

definition ALL_FEATURES :: "feature list" where
  "ALL_FEATURES = [Speed, Region, Unrestricted, Hrl, Encryption]"

lemma ALL_FEATURES_complete: "f \<in> set ALL_FEATURES"
  by (cases f) (auto simp: ALL_FEATURES_def)

lemma ALL_FEATURES_ordered: "sorted_wrt (<) ALL_FEATURES"
  by (simp add: ALL_FEATURES_def less_feature_def)

datatype bd_region = RegionA | RegionB | RegionC

fun bd_region_state :: "bd_region \<Rightarrow> u8" where
  "bd_region_state RegionA = REGION_BD_A"
| "bd_region_state RegionB = REGION_BD_B"
| "bd_region_state RegionC = REGION_BD_C"

section \<open>CDB builders\<close>

definition build_cdb :: "verb \<Rightarrow> feature option \<Rightarrow> u8 option \<Rightarrow> u16 \<Rightarrow> bytes" where
  "build_cdb v f st alloc_len =
     (let cdb = zeros CDB_LEN;
          cdb = cdb[CDB_OPCODE := READ_BUFFER_OPCODE];
          cdb = cdb[CDB_MODE := KNOCK_MODE];
          cdb = put_at CDB_KNOCK KNOCK cdb;
          cdb = cdb[CDB_VERB := verb_code v];
          cdb = cdb[CDB_FEATURE := (case f of None \<Rightarrow> 0 | Some g \<Rightarrow> feature_code g)];
          cdb = cdb[CDB_STATE := (case st of None \<Rightarrow> 0 | Some s \<Rightarrow> s)];
          cdb = cdb[CDB_ALLOC_LEN := hi_byte alloc_len]
      in cdb[CDB_ALLOC_LEN + 1 := lo_byte alloc_len])"

definition build_set_cdb :: "feature \<Rightarrow> u8 \<Rightarrow> bytes" where
  "build_set_cdb f st = build_cdb VSet (Some f) (Some st) MIN_ALLOC_LEN"

definition build_get_cdb :: "feature \<Rightarrow> bytes" where
  "build_get_cdb f = build_cdb VGet (Some f) None MIN_ALLOC_LEN"

definition build_reset_cdb :: "u8 \<Rightarrow> bytes" where
  "build_reset_cdb mode = build_cdb VReset None (Some mode) MIN_ALLOC_LEN"

definition build_save_cdb :: bytes where
  "build_save_cdb = build_cdb VSave None None MIN_ALLOC_LEN"

definition build_identity_cdb :: "u16 \<Rightarrow> bytes" where
  "build_identity_cdb alloc_len = build_cdb VIdentity None None alloc_len"

text \<open>The frames that carry a 32-bit address: DumpAll (safe knock), Call and Poke (debug knock).\<close>

definition build_memread_cdb :: "u32 \<Rightarrow> bytes" where
  "build_memread_cdb addr =
     (let cdb = zeros CDB_LEN;
          cdb = cdb[CDB_OPCODE := READ_BUFFER_OPCODE];
          cdb = cdb[CDB_MODE := KNOCK_MODE];
          cdb = put_at CDB_KNOCK KNOCK cdb;
          cdb = cdb[CDB_VERB := verb_code VDumpAll]
      in cdb[5 := be32 addr ! 0, 6 := be32 addr ! 1, 7 := be32 addr ! 2, 8 := be32 addr ! 3])"

definition build_call_cdb :: "u32 \<Rightarrow> u8 \<Rightarrow> bytes" where
  "build_call_cdb target r0 =
     (let cdb = zeros CDB_LEN;
          cdb = cdb[CDB_OPCODE := READ_BUFFER_OPCODE];
          cdb = cdb[CDB_MODE := KNOCK_MODE];
          cdb = put_at CDB_KNOCK DEBUG_KNOCK cdb;
          cdb = cdb[CDB_VERB := verb_code VCall];
          cdb = cdb[5 := be32 target ! 0, 6 := be32 target ! 1, 7 := be32 target ! 2, 8 := be32 target ! 3]
      in cdb[9 := r0])"

definition build_poke_cdb :: "u32 \<Rightarrow> u8 \<Rightarrow> bytes" where
  "build_poke_cdb target val =
     (let cdb = zeros CDB_LEN;
          cdb = cdb[CDB_OPCODE := READ_BUFFER_OPCODE];
          cdb = cdb[CDB_MODE := KNOCK_MODE];
          cdb = put_at CDB_KNOCK DEBUG_KNOCK cdb;
          cdb = cdb[CDB_VERB := verb_code VPoke];
          cdb = cdb[5 := be32 target ! 0, 6 := be32 target ! 1, 7 := be32 target ! 2, 8 := be32 target ! 3]
      in cdb[9 := val])"

definition build_reboot_cdb :: bytes where
  "build_reboot_cdb =
     (let cdb = zeros CDB_LEN;
          cdb = cdb[CDB_OPCODE := READ_BUFFER_OPCODE];
          cdb = cdb[CDB_MODE := KNOCK_MODE];
          cdb = put_at CDB_KNOCK DEBUG_KNOCK cdb;
          cdb = cdb[CDB_VERB := verb_code VReboot];
          cdb = cdb[CDB_ALLOC_LEN := hi_byte MIN_ALLOC_LEN]
      in cdb[CDB_ALLOC_LEN + 1 := lo_byte MIN_ALLOC_LEN])"

text \<open>The bytes each builder produces, spelled out.\<close>

lemma build_cdb_bytes: "build_cdb v f st n =
    [0x3C, 0x0E, 0xC0, 0xDE, verb_code v, (case f of None \<Rightarrow> 0 | Some g \<Rightarrow> feature_code g),
     (case st of None \<Rightarrow> 0 | Some s \<Rightarrow> s), hi_byte n, lo_byte n, 0]"
  by (simp add: build_cdb_def const_defs zeros_unfold put_at_def Let_def)

lemma build_memread_cdb_bytes: "build_memread_cdb a = [0x3C, 0x0E, 0xC0, 0xDE, 0x09] @ be32 a @ [0]"
  by (simp add: build_memread_cdb_def const_defs zeros_unfold put_at_def be32_def Let_def)

lemma build_call_cdb_bytes: "build_call_cdb a r = [0x3C, 0x0E, 0xDE, 0xB9, 0x0C] @ be32 a @ [r]"
  by (simp add: build_call_cdb_def const_defs zeros_unfold put_at_def be32_def Let_def)

lemma build_poke_cdb_bytes: "build_poke_cdb a v = [0x3C, 0x0E, 0xDE, 0xB9, 0x0D] @ be32 a @ [v]"
  by (simp add: build_poke_cdb_def const_defs zeros_unfold put_at_def be32_def Let_def)

lemma hi_lo_byte_64: "hi_byte 64 = 0" "lo_byte 64 = 64"
  by code_simp+

lemma build_reboot_cdb_bytes: "build_reboot_cdb = [0x3C, 0x0E, 0xDE, 0xB9, 0x0F, 0, 0, 0, 64, 0]"
  by (simp add: build_reboot_cdb_def const_defs zeros_unfold put_at_def hi_lo_byte_64 Let_def)

lemmas cdb_bytes = build_cdb_bytes build_memread_cdb_bytes build_call_cdb_bytes
  build_poke_cdb_bytes build_reboot_cdb_bytes

section \<open>The IDENTITY reply\<close>

definition verify_response :: "bytes \<Rightarrow> bool" where
  "verify_response bs \<longleftrightarrow> starts_with bs RESP_MAGIC"

definition is_ascii_graphic :: "u8 \<Rightarrow> bool" where
  "is_ascii_graphic b \<longleftrightarrow> 0x21 \<le> b \<and> b \<le> 0x7E"

definition is_ascii_digit :: "u8 \<Rightarrow> bool" where
  "is_ascii_digit b \<longleftrightarrow> 0x30 \<le> b \<and> b \<le> 0x39"

record firmware_identity =
  version :: bytes

definition firmware_identity_parse :: "bytes \<Rightarrow> firmware_identity option" where
  "firmware_identity_parse bs =
     (if \<not> verify_response bs then None
      else Some \<lparr> version = (case drop (length RESP_MAGIC) bs of
             [] \<Rightarrow> []
           | b # rest \<Rightarrow> if b = 0x20 then takeWhile is_ascii_graphic rest else []) \<rparr>)"

text \<open>
  \<open>str::split('.')\<close> yields at least one part; \<open>u32::from_str\<close> strips one leading plus sign,
  refuses an empty or sign-only string, a non-digit and an overflow.
\<close>

fun split_on :: "'a \<Rightarrow> 'a list \<Rightarrow> 'a list list" where
  "split_on c [] = [[]]"
| "split_on c (x # xs) =
     (if x = c then [] # split_on c xs
      else case split_on c xs of [] \<Rightarrow> [[x]] | p # ps \<Rightarrow> (x # p) # ps)"

fun parse_digits :: "int \<Rightarrow> bytes \<Rightarrow> int option" where
  "parse_digits acc [] = Some acc"
| "parse_digits acc (c # cs) =
     (if \<not> is_ascii_digit c then None
      else let v = acc * 10 + uint (c - 0x30)
           in if 4294967296 \<le> v then None else parse_digits v cs)"

definition parse_u32 :: "bytes \<Rightarrow> u32 option" where
  "parse_u32 s = map_option of_int
     (case s of
        [] \<Rightarrow> None
      | c # cs \<Rightarrow> if c = 0x2B then (if cs = [] then None else parse_digits 0 cs)
                  else parse_digits 0 s)"

definition major_minor :: "firmware_identity \<Rightarrow> (u32 \<times> u32) option" where
  "major_minor i =
     (case split_on 0x2E (version i) of
        [] \<Rightarrow> None
      | p # ps \<Rightarrow> (case parse_u32 p of
          None \<Rightarrow> None
        | Some major \<Rightarrow> (case ps of
            [] \<Rightarrow> None
          | minor # _ \<Rightarrow> (case parse_u32 (takeWhile is_ascii_digit minor) of
              None \<Rightarrow> None
            | Some m \<Rightarrow> Some (major, m)))))"

definition is_supported :: "firmware_identity \<Rightarrow> bool" where
  "is_supported i = (case major_minor i of None \<Rightarrow> False | Some v \<Rightarrow> MIN_FW_VERSION \<le> v)"

section \<open>The capability descriptor\<close>

datatype implementation = Firmware | PioneerRuntime

record capabilities =
  implementation_of :: implementation

definition PIONEER_RUNTIME :: capabilities where
  [const_defs]: "PIONEER_RUNTIME = \<lparr> implementation_of = PioneerRuntime \<rparr>"

definition supports_set :: "capabilities \<Rightarrow> feature \<Rightarrow> u8 \<Rightarrow> bool" where
  "supports_set c f st = (case implementation_of c of
     Firmware \<Rightarrow> True
   | PioneerRuntime \<Rightarrow> f \<noteq> Speed
       \<and> (f \<noteq> Encryption \<or> st = STATE_OFF \<or> st = STATE_ON \<or> st = STATE_PASSTHROUGH))"

record protocol_identity =
  identity :: firmware_identity
  caps :: capabilities

definition EXTENSION_OFFSET :: nat where [const_defs]: "EXTENSION_OFFSET = 32"
definition PIONEER_EXTENSION :: bytes where
  [const_defs]: "PIONEER_EXTENSION = [0x46, 0x4D, 0x43, 0x50, 0x05, 0x01, 0x6C, 0x00]"

definition protocol_identity_parse :: "bytes \<Rightarrow> protocol_identity option" where
  "protocol_identity_parse bs =
     (if length bs \<noteq> MEMREAD_LEN then None
      else case firmware_identity_parse bs of
        None \<Rightarrow> None
      | Some i \<Rightarrow>
          if \<not> is_supported i then None
          else let tail = drop EXTENSION_OFFSET bs in
            if list_all (\<lambda>b. b = 0) tail
            then Some \<lparr> identity = i, caps = \<lparr> implementation_of = Firmware \<rparr> \<rparr>
            else if starts_with tail PIONEER_EXTENSION
                 \<and> list_all (\<lambda>b. b = 0) (drop (length PIONEER_EXTENSION) tail)
            then Some \<lparr> identity = i, caps = \<lparr> implementation_of = PioneerRuntime \<rparr> \<rparr>
            else None)"

definition pioneer_identity :: bytes where
  "pioneer_identity =
     (let bytes = zeros MEMREAD_LEN;
          banner = RESP_MAGIC @ [0x20, 0x30, 0x2E, 0x39, 0x2E, 0x32];
          bytes = put_at 0 banner bytes;
          bytes = put_at (length banner) (replicate 6 STATE_PASSTHROUGH) bytes
      in put_at EXTENSION_OFFSET PIONEER_EXTENSION bytes)"

section \<open>The wire format is unambiguous\<close>

text \<open>
  The requests the builders encode, and the reading of a frame the module documentation gives
  (opcode and mode, knock, verb, then the verb's own fields). This is the specification the
  builders are checked against.
\<close>

datatype frame =
    FIdentity u16 | FSet feature u8 | FGet feature | FReset u8 | FSave
  | FMemread u32 | FCall u32 u8 | FPoke u32 u8 | FReboot

fun encode_frame :: "frame \<Rightarrow> bytes" where
  "encode_frame (FIdentity n) = build_identity_cdb n"
| "encode_frame (FSet f st) = build_set_cdb f st"
| "encode_frame (FGet f) = build_get_cdb f"
| "encode_frame (FReset mode) = build_reset_cdb mode"
| "encode_frame FSave = build_save_cdb"
| "encode_frame (FMemread a) = build_memread_cdb a"
| "encode_frame (FCall a r) = build_call_cdb a r"
| "encode_frame (FPoke a v) = build_poke_cdb a v"
| "encode_frame FReboot = build_reboot_cdb"

definition feature_of_code :: "u8 \<Rightarrow> feature option" where
  "feature_of_code c = find (\<lambda>f. feature_code f = c) ALL_FEATURES"

definition decode_frame :: "bytes \<Rightarrow> frame option" where
  "decode_frame cdb =
     (if length cdb \<noteq> 10 \<or> byte_at cdb 0 \<noteq> 0x3C \<or> byte_at cdb 1 \<noteq> 0x0E then None
      else if slice cdb 2 4 = [0xC0, 0xDE] then
        (if byte_at cdb 4 = 0x01 then Some (FIdentity (from_be16 (byte_at cdb 7) (byte_at cdb 8)))
         else if byte_at cdb 4 = 0x02 then map_option (\<lambda>f. FSet f (byte_at cdb 6)) (feature_of_code (byte_at cdb 5))
         else if byte_at cdb 4 = 0x03 then map_option FGet (feature_of_code (byte_at cdb 5))
         else if byte_at cdb 4 = 0x04 then Some (FReset (byte_at cdb 6))
         else if byte_at cdb 4 = 0x09 then Some (FMemread (from_be32 (slice cdb 5 9)))
         else if byte_at cdb 4 = 0x0B then Some FSave
         else None)
      else if slice cdb 2 4 = [0xDE, 0xB9] then
        (if byte_at cdb 4 = 0x0C then Some (FCall (from_be32 (slice cdb 5 9)) (byte_at cdb 9))
         else if byte_at cdb 4 = 0x0D then Some (FPoke (from_be32 (slice cdb 5 9)) (byte_at cdb 9))
         else if byte_at cdb 4 = 0x0F then Some FReboot
         else None)
      else None)"

lemma feature_of_code_inverse [simp]: "feature_of_code (feature_code f) = Some f"
  by (cases f) (simp_all add: feature_of_code_def ALL_FEATURES_def)

lemma slice_be32 [simp]: "slice (a # b # c # d # e # be32 w @ xs) 5 9 = be32 w"
  by (simp add: slice_def)

lemma byte_at_be32_last [simp]: "byte_at (a # b # c # d # e # be32 w @ [x]) 9 = x"
  by (simp add: byte_at_def be32_def)

lemmas builder_defs = build_identity_cdb_def build_set_cdb_def build_get_cdb_def
  build_reset_cdb_def build_save_cdb_def

text \<open>
  C28. The freemkv wire format is unambiguous: every request the crate can build (Identity, Set,
  Get, Reset, Save, DumpAll, and the debug verbs Call, Poke, Reboot) is read back exactly, with
  all its arguments, from the ten bytes its builder produces, and a request carries the debug
  knock only if it is one of the three debug verbs.
\<close>
theorem frame_roundtrip:
  "decode_frame (encode_frame fr) = Some fr
   \<and> (slice (encode_frame fr) 2 4 = DEBUG_KNOCK \<longleftrightarrow> (\<exists>a r. fr = FCall a r \<or> fr = FPoke a r \<or> fr = FReboot))"
  by (cases fr) (simp_all add: decode_frame_def builder_defs cdb_bytes const_defs slice_def
      byte_at_def from_be16_inverse from_be32_inverse nth_append)

section \<open>The version gate\<close>

text \<open>Decimal digits of a number, as a firmware prints its version.\<close>

fun decimal :: "nat \<Rightarrow> bytes" where
  "decimal n = (if n < 10 then [0x30 + of_nat n] else decimal (n div 10) @ [0x30 + of_nat (n mod 10)])"

declare decimal.simps [simp del]

lemma digit_byte:
  assumes "d < 10"
  shows "is_ascii_digit (0x30 + of_nat d)" and "uint (0x30 + of_nat d - 0x30 :: u8) = int d"
    and "is_ascii_graphic (0x30 + of_nat d)" and "0x30 + of_nat d \<noteq> (0x2E :: u8)"
    and "0x30 + of_nat d \<noteq> (0x2B :: u8)"
proof -
  from assms have "d \<in> {0,1,2,3,4,5,6,7,8,9}" by auto
  then show "is_ascii_digit (0x30 + of_nat d)" and "uint (0x30 + of_nat d - 0x30 :: u8) = int d"
    and "is_ascii_graphic (0x30 + of_nat d)" and "0x30 + of_nat d \<noteq> (0x2E :: u8)"
    and "0x30 + of_nat d \<noteq> (0x2B :: u8)"
    by (auto simp: is_ascii_digit_def is_ascii_graphic_def)
qed

definition digit_like :: "u8 \<Rightarrow> bool" where
  "digit_like b \<longleftrightarrow> is_ascii_digit b \<and> is_ascii_graphic b \<and> b \<noteq> 0x2E \<and> b \<noteq> 0x2B"

lemma digit_like_digit: "d < 10 \<Longrightarrow> digit_like (0x30 + of_nat d)"
  by (simp add: digit_like_def digit_byte)

lemma decimal_digit_like: "list_all digit_like (decimal n)"
proof (induction n rule: decimal.induct)
  case (1 n)
  have "n mod 10 < 10" by simp
  then have "digit_like (0x30 + of_nat (n mod 10))" by (rule digit_like_digit)
  with 1 show ?case
    using digit_like_digit [of n] by (simp add: decimal.simps [of n])
qed

lemma decimal_not_Nil: "decimal n \<noteq> []"
  by (simp add: decimal.simps [of n])

lemma decimal_digits:
  "list_all is_ascii_digit (decimal n)" "list_all is_ascii_graphic (decimal n)"
  "list_all (\<lambda>x. x \<noteq> 0x2E) (decimal n)" "list_all (\<lambda>x. x \<noteq> 0x2B) (decimal n)"
  using decimal_digit_like [of n] by (auto simp: list_all_iff digit_like_def)

lemma parse_digits_append:
  "parse_digits acc (xs @ ys) = (case parse_digits acc xs of None \<Rightarrow> None | Some a \<Rightarrow> parse_digits a ys)"
  by (induction acc xs rule: parse_digits.induct) (auto simp: Let_def)

lemma parse_decimal: "int n < 4294967296 \<Longrightarrow> parse_digits 0 (decimal n) = Some (int n)"
proof (induction n rule: decimal.induct)
  case (1 n)
  show ?case
  proof (cases "n < 10")
    case True
    with digit_byte [OF this] show ?thesis
      by (subst decimal.simps) (simp add: Let_def)
  next
    case False
    have "parse_digits 0 (decimal (n div 10)) = Some (int (n div 10))"
      using False "1.prems" by (intro "1.IH") auto
    moreover have "int (n div 10) * 10 + int (n mod 10) = int n"
      by (metis of_nat_add of_nat_mult of_nat_numeral div_mult_mod_eq)
    ultimately show ?thesis
      using False "1.prems" digit_byte [of "n mod 10"]
      by (subst decimal.simps) (simp add: parse_digits_append Let_def)
  qed
qed

lemma parse_u32_decimal: "n < 4294967296 \<Longrightarrow> parse_u32 (decimal n) = Some (of_nat n)"
  using decimal_digits(4) [of n] decimal_not_Nil [of n] parse_decimal [of n]
  by (cases "decimal n") (simp_all add: parse_u32_def)

lemma split_on_prefix:
  "list_all (\<lambda>x. x \<noteq> c) xs \<Longrightarrow> split_on c (xs @ c # ys) = xs # split_on c ys"
  by (induction xs) auto

lemma split_on_head: "split_on c xs \<noteq> [] \<and> hd (split_on c xs) = takeWhile (\<lambda>x. x \<noteq> c) xs"
  by (induction xs) (auto split: list.split)

lemma takeWhile_all_append:
  "list_all P xs \<Longrightarrow> takeWhile P (xs @ ys) = xs @ takeWhile P ys"
  by (induction xs) auto

lemma major_minor_decimal:
  assumes "M < 4294967296" and "m < 4294967296"
    and "rest = [] \<or> \<not> is_ascii_digit (hd rest)"
  shows "major_minor \<lparr> version = decimal M @ [0x2E] @ decimal m @ rest \<rparr> = Some (of_nat M, of_nat m)"
proof -
  obtain ps where ps: "split_on 0x2E (decimal m @ rest) = takeWhile (\<lambda>x. x \<noteq> 0x2E) (decimal m @ rest) # ps"
    using split_on_head by (metis list.exhaust_sel)
  have "takeWhile (\<lambda>x. x \<noteq> 0x2E) (decimal m @ rest) = decimal m @ takeWhile (\<lambda>x. x \<noteq> 0x2E) rest"
    using decimal_digits(3) by (rule takeWhile_all_append)
  moreover have "takeWhile is_ascii_digit (takeWhile (\<lambda>x. x \<noteq> 0x2E) rest) = []"
    using assms(3) by (cases rest) auto
  ultimately have minor: "takeWhile is_ascii_digit (takeWhile (\<lambda>x. x \<noteq> 0x2E) (decimal m @ rest)) = decimal m"
    by (simp add: takeWhile_all_append decimal_digits(1))
  show ?thesis
    using ps minor assms(1,2) split_on_prefix [of "0x2E" "decimal M" "decimal m @ rest"] decimal_digits(3) [of M]
    by (simp add: major_minor_def parse_u32_decimal)
qed

text \<open>
  C27. The firmware version gate decides exactly \<open>version \<ge> 0.9\<close>: for an IDENTITY reply
  \<open>freemkv <major>.<minor>...\<close> (decimal numbers that fit 32 bits, then anything that does not go
  on with a digit: a patch level, raw flag bytes, padding) the reply parses and is supported
  if and only if the major number is positive or the minor number is at least 9.
\<close>
theorem version_gate:
  assumes "M < 4294967296" and "m < 4294967296"
    and "rest = [] \<or> \<not> is_ascii_digit (hd rest)"
  shows "map_option is_supported
      (firmware_identity_parse (RESP_MAGIC @ [0x20] @ decimal M @ [0x2E] @ decimal m @ rest))
    = Some (0 < M \<or> 9 \<le> m)"
proof -
  let ?rest = "takeWhile is_ascii_graphic rest"
  have rest: "?rest = [] \<or> \<not> is_ascii_digit (hd ?rest)"
    using assms(3) by (cases rest) auto
  have "firmware_identity_parse (RESP_MAGIC @ [0x20] @ decimal M @ [0x2E] @ decimal m @ rest)
      = Some \<lparr> version = decimal M @ [0x2E] @ decimal m @ ?rest \<rparr>"
    using decimal_digits(2)
    by (simp add: firmware_identity_parse_def verify_response_def starts_with_def const_defs
        takeWhile_all_append) (simp add: is_ascii_graphic_def)
  moreover have "(0, 9) \<le> (of_nat M :: u32, of_nat m :: u32) \<longleftrightarrow> 0 < M \<or> 9 \<le> m"
    using assms(1,2) by (auto simp: word_of_nat_less_iff less_eq_prod_def word_le_nat_alt
        word_less_nat_alt unat_of_nat)
  ultimately show ?thesis
    using major_minor_decimal [OF assms(1,2) rest] by (simp add: is_supported_def MIN_FW_VERSION_def)
qed

theorem version_gate_witness:
  "map_option is_supported
      (firmware_identity_parse (RESP_MAGIC @ [0x20] @ decimal 0 @ [0x2E] @ decimal 10 @ [0x2E, 0x32]))
    = Some True"
  using version_gate [of 0 10 "[0x2E, 0x32]"] by (simp add: is_ascii_digit_def)

section \<open>Capability descriptors fail closed\<close>

lemma list_all_zero_iff: "list_all (\<lambda>b. b = (0::u8)) xs \<longleftrightarrow> xs = zeros (length xs)"
  by (induction xs) (auto simp: zeros_def)

lemma starts_with_iff: "starts_with xs p \<longleftrightarrow> (\<exists>ys. xs = p @ ys)"
  by (metis append_eq_conv_conj append_take_drop_id starts_with_def)

lemma extension_tail_iff:
  "length tail = 32 \<Longrightarrow> starts_with tail PIONEER_EXTENSION
     \<and> list_all (\<lambda>b. b = 0) (drop (length PIONEER_EXTENSION) tail)
   \<longleftrightarrow> tail = PIONEER_EXTENSION @ zeros 24"
  by (auto simp: starts_with_iff list_all_zero_iff const_defs)

text \<open>
  C34. The capability descriptor fails closed: a reply is accepted exactly when it is a full
  64-byte window of a supported freemkv banner whose last 32 bytes are all zero (flashed
  firmware) or are the eight Pioneer extension bytes followed by zeros (runtime). Every other
  extension, and every shorter reply, is refused, never read as legacy firmware.
\<close>
theorem descriptor_fail_closed:
  "protocol_identity_parse bs = Some p \<longleftrightarrow>
     length bs = 64 \<and> firmware_identity_parse bs = Some (identity p) \<and> is_supported (identity p)
     \<and> (drop 32 bs = zeros 32 \<and> caps p = \<lparr> implementation_of = Firmware \<rparr>
        \<or> drop 32 bs = PIONEER_EXTENSION @ zeros 24 \<and> caps p = PIONEER_RUNTIME)"
proof -
  have ne: "PIONEER_EXTENSION @ zeros 24 \<noteq> zeros 32"
    by (simp add: const_defs zeros_def numeral_eq_Suc)
  define tail where "tail = drop 32 bs"
  show ?thesis
  proof (cases "length bs = 64")
    case True
    then have len: "length tail = 32" by (simp add: tail_def)
    show ?thesis
      using True ne unfolding protocol_identity_parse_def EXTENSION_OFFSET_def tail_def [symmetric]
      by (cases p) (auto simp: Let_def MEMREAD_LEN_def PIONEER_RUNTIME_def extension_tail_iff [OF len]
          list_all_zero_iff [of tail] len split: option.splits if_splits)
  next
    case False
    then show ?thesis by (simp add: protocol_identity_parse_def MEMREAD_LEN_def)
  qed
qed

text \<open>
  The runtime's own identity block is accepted by the parser and read back as the Pioneer
  runtime, whose capabilities refuse every Speed SET and every Encryption SET other than off,
  on and passthrough, and accept every other request.
\<close>
theorem pioneer_identity_roundtrip:
  "\<exists>p. protocol_identity_parse pioneer_identity = Some p \<and> caps p = PIONEER_RUNTIME
     \<and> (\<forall>f st. supports_set (caps p) f st =
          (case f of Speed \<Rightarrow> False
           | Encryption \<Rightarrow> st \<in> {STATE_OFF, STATE_ON, STATE_PASSTHROUGH}
           | _ \<Rightarrow> True))"
proof -
  have "protocol_identity_parse pioneer_identity =
      Some \<lparr> identity = \<lparr> version = [0x30, 0x2E, 0x39, 0x2E, 0x32] \<rparr>, caps = PIONEER_RUNTIME \<rparr>"
    by code_simp
  then show ?thesis
    by (auto simp: supports_set_def PIONEER_RUNTIME_def split: feature.split)
qed

end
