(* ===== verification/Renesas_Code.thy ===== *)
theory Renesas_Code
  imports Renesas_Sites Protocol
begin

text \<open>
  The code the runtime installs on a Renesas drive (modules \<open>firmware\<close>, \<open>routing\<close> and \<open>operations\<close> of
  \<open>src/freemkv/renesas.rs\<close>). The source drives an assembler object call by call; here a routine is
  the list of those calls in order, and \<open>assemble_steps\<close> performs them, stopping at the first that
  fails. \<open>assemble\<close> lays out code, callback tables, data and the copied security table, and
  records the words to relocate.
\<close>

unbundle bit_operations_syntax

section \<open>Assembling\<close>

datatype asm_step =
    Instruction h8_insn
  | Transfer u8 u32
  | Label string
  | Branch u8 string
  | Refused

primrec emit_step :: "'s external \<Rightarrow> asm_step \<Rightarrow> 's \<Rightarrow> 's option" where
  "emit_step X (Instruction insn) a = do { bs \<leftarrow> encode_insn X insn; x_instruction X bs a }"
| "emit_step X (Transfer opcode addr) a = do { bs \<leftarrow> abs_transfer X opcode addr; x_instruction X bs a }"
| "emit_step X (Label s) a = x_label X s a"
| "emit_step X (Branch c s) a = x_branch X c s a"
| "emit_step X Refused a = None"

primrec emit_steps :: "'s external \<Rightarrow> asm_step list \<Rightarrow> 's \<Rightarrow> 's option" where
  "emit_steps X [] a = Some a"
| "emit_steps X (s # ss) a = do { a \<leftarrow> emit_step X s a; emit_steps X ss a }"

definition assemble_steps :: "'s external \<Rightarrow> asm_step list \<Rightarrow> bytes option" where
  "assemble_steps X steps = do {
     a \<leftarrow> x_asm_new X;
     a \<leftarrow> emit_steps X steps a;
     x_finish X a }"

section \<open>Single instructions\<close>

definition emit_op :: "string \<Rightarrow> h8_size option \<Rightarrow> h8_operand \<Rightarrow> h8_operand \<Rightarrow> asm_step" where
  "emit_op name sz source dest = Instruction (Insn name sz [source, dest, OpNone])"

definition push :: "u8 \<Rightarrow> asm_step" where
  "push r = emit_op ''MOV'' (Some SizeLong) (Register (RegLong r)) (Address (PreDecrement (RegLong 7)))"

definition pop :: "u8 \<Rightarrow> asm_step" where
  "pop r = emit_op ''MOV'' (Some SizeLong) (Address (PostIncrement (RegLong 7))) (Register (RegLong r))"

definition cdb_byte :: "nat \<Rightarrow> asm_step" where
  "cdb_byte offset = (if offset < 2 ^ 31
     then emit_op ''MOV'' (Some SizeByte) (Address (Displacement (RegLong 1) (int offset) 16)) (Register (RegByte 10))
     else Refused)"

definition compare_byte :: "u8 \<Rightarrow> asm_step" where
  "compare_byte v = emit_op ''CMP'' (Some SizeByte) (Immediate (ucast v) 8) (Register (RegByte 10))"

definition imm :: "u8 \<Rightarrow> u32 \<Rightarrow> asm_step" where
  "imm r v =
     (if r < 8 \<or> (0x20 \<le> r \<and> r < 0x28)
      then Instruction (Insn (if r < 8 then ''MOV'' else ''CMP'') (Some SizeLong)
             [Immediate v 32, Register (RegLong (r AND 7)), OpNone])
      else Refused)"

definition store_long :: "u8 \<Rightarrow> u32 \<Rightarrow> asm_step" where
  "store_long r at = Instruction (Insn ''MOV'' (Some SizeLong)
     [Register (RegLong r), Address (Absolute at 32), OpNone])"

definition load_long :: "u8 \<Rightarrow> u32 \<Rightarrow> asm_step" where
  "load_long r at = Instruction (Insn ''MOV'' (Some SizeLong)
     [Address (Absolute at 32), Register (RegLong r), OpNone])"

definition restore_registers :: "asm_step list" where
  "restore_registers = map pop [6, 5, 4, 3, 2, 1, 0]"

definition rts :: asm_step where
  "rts = emit_op ''RTS'' None OpNone OpNone"

text \<open>A byte of the CDB must have a value, else branch.\<close>

definition require_byte :: "nat \<Rightarrow> u8 \<Rightarrow> string \<Rightarrow> asm_step list" where
  "require_byte offset v target = [cdb_byte offset, compare_byte v, Branch 6 target]"

section \<open>Routing\<close>

definition routing_enter :: "asm_step list" where
  "routing_enter = push 2 #
     concat (map (\<lambda>(offset, v). [cdb_byte offset, compare_byte v, Branch 6 ''foundation_oem''])
       (enumerate 0 [0x3c, 0x0e, 0xc0, 0xde]))"

definition routing_oem :: "u32 \<Rightarrow> asm_step list" where
  "routing_oem main = [Label ''foundation_oem'', pop 2, Transfer 0x5a main]"

section \<open>The Volume ID wrapper\<close>

definition clear_byte :: "u8 \<Rightarrow> asm_step" where
  "clear_byte r = emit_op ''SUB'' (Some SizeByte) (Register (RegByte r)) (Register (RegByte r))"

definition vid_wrapper_checks :: "sites \<Rightarrow> asm_step list" where
  "vid_wrapper_checks s =
     [push 2]
     @ concat (map (\<lambda>(offset, v). require_byte offset v ''vid_oem'') [(0, 0xad), (1, 1), (7, 0x80)])
     @ [load_long 2 (site_security_slot s),
        imm 0x22 0x00999990,
        Branch 6 ''vid_oem'',
        cdb_byte 10,
        emit_op ''AND'' (Some SizeByte) (Immediate 0x3f 8) (Register (RegByte 10)),
        Branch 6 ''vid_invalid'']
     @ require_byte 10 0 ''vid_oem''
     @ concat (map (\<lambda>offset. require_byte offset 0 ''vid_invalid'') [2, 3, 4, 5, 6, 11])"

definition vid_wrapper_copy :: "sites \<Rightarrow> asm_step list" where
  "vid_wrapper_copy s =
     [push 3, push 4,
      emit_op ''MOV'' (Some SizeWord) (Address (Displacement (RegLong 1) 8 16)) (Register (RegWord 3)),
      emit_op ''EXTU'' (Some SizeLong) (Register (RegLong 3)) OpNone,
      imm 0x23 0, Branch 7 ''vid_empty'',
      imm 0x23 36, Branch 5 ''vid_length'',
      imm 3 36,
      Label ''vid_length'',
      emit_op ''MOV'' (Some SizeByte) (Address (Absolute (vid_status (site_vid s)) 32)) (Register (RegByte 10)),
      emit_op ''AND'' (Some SizeByte) (Immediate 2 8) (Register (RegByte 10)),
      Branch 7 ''vid_unavailable'',
      imm 4 0x00888880]
     @ concat (map (\<lambda>offset.
         [emit_op ''MOV'' (Some SizeByte) (Address (Absolute (vid_source (site_vid s) + of_nat offset) 32)) (Register (RegByte 10)),
          emit_op ''MOV'' (Some SizeByte) (Register (RegByte 10)) (Address (Displacement (RegLong 4) (int offset + 4) 16))])
         [0..<16])"

definition vid_wrapper_send :: "u32 \<Rightarrow> asm_step list" where
  "vid_wrapper_send helper =
     [emit_op ''MOV'' (Some SizeLong) (Register (RegLong 4)) (Register (RegLong 2)),
      emit_op ''SUB'' (Some SizeLong) (Immediate 0xa00000 32) (Register (RegLong 2)),
      push 3,
      clear_byte 9,
      Transfer 0x5e helper,
      emit_op ''ADDS'' (Some SizeLong) (Immediate 4 0) (Register (RegLong 7)),
      clear_byte 10]
     @ map (\<lambda>offset. emit_op ''MOV'' (Some SizeByte) (Register (RegByte 10)) (Address (Displacement (RegLong 4) (int offset) 16)))
         [4..<20]
     @ [Branch 0 ''vid_return'']"

definition vid_wrapper_exits :: "sites \<Rightarrow> u32 \<Rightarrow> asm_step list" where
  "vid_wrapper_exits s invalid =
     [Label ''vid_empty'',
      clear_byte 8,
      Label ''vid_return'',
      pop 4, pop 3, pop 2,
      rts,
      Label ''vid_unavailable'',
      pop 4, pop 3,
      Label ''vid_invalid'',
      pop 2,
      Transfer 0x5e invalid,
      emit_op ''MOV'' (Some SizeByte) (Immediate 1 8) (Register (RegByte 8)),
      rts,
      Label ''vid_oem'',
      pop 2,
      Transfer 0x5a (vid_main (site_vid s))]"

definition vid_wrapper_code :: "sites \<Rightarrow> u32 \<Rightarrow> u32 \<Rightarrow> asm_step list" where
  "vid_wrapper_code s helper invalid =
     vid_wrapper_checks s @ vid_wrapper_copy s @ vid_wrapper_send helper @ vid_wrapper_exits s invalid"

definition vid_wrapper :: "'s external \<Rightarrow> sites \<Rightarrow> u32 \<Rightarrow> u32 \<Rightarrow> bytes option" where
  "vid_wrapper X s helper invalid = assemble_steps X (vid_wrapper_code s helper invalid)"

section \<open>The command hook\<close>

datatype hook_operation = Suppress

fun op_cdb :: "hook_operation \<Rightarrow> bytes" where
  "op_cdb Suppress = build_set_cdb Encryption STATE_OFF"

fun op_length :: "hook_operation \<Rightarrow> nat" where
  "op_length Suppress = 64"

text \<open>Which commands of the namespace are served, and with which feature and state.\<close>

definition hook_frame :: "hook_operation \<Rightarrow> asm_step list" where
  "hook_frame op =
     routing_enter
     @ [cdb_byte CDB_VERB, compare_byte (verb_code VIdentity), Branch 7 ''identity'']
     @ concat (map (\<lambda>(off, v). if off = 5 \<or> off = 6 then [] else require_byte off v ''invalid'')
         (drop 4 (enumerate 0 (op_cdb op))))
     @ [cdb_byte CDB_FEATURE]
     @ concat (map (\<lambda>f. [compare_byte (feature_code f), Branch 7 ''acknowledge'']) [Region, Unrestricted, Hrl])
     @ [compare_byte (feature_code Encryption), Branch 6 ''invalid'',
        cdb_byte 6,
        compare_byte STATE_ON, Branch 7 ''transition'',
        compare_byte STATE_PASSTHROUGH, Branch 7 ''transition'',
        compare_byte STATE_OFF, Branch 6 ''invalid'']"

text \<open>Wait for the read engine, at most 500 delays of ten ticks.\<close>

definition hook_wait :: "sites \<Rightarrow> asm_step list" where
  "hook_wait s =
     [Label ''transition'']
     @ map push [0, 1, 2, 3, 4, 5, 6]
     @ [emit_op ''MOV'' (Some SizeLong) (Register (RegLong 1)) (Register (RegLong 6)),
        imm 5 500,
        Label ''wait_read_idle'',
        emit_op ''MOV'' (Some SizeByte) (Address (Absolute (site_read_engine s) 32)) (Register (RegByte 10)),
        compare_byte 0, Branch 7 ''read_idle'',
        compare_byte 8, Branch 4 ''read_idle'',
        imm 0x25 0, Branch 7 ''refused'',
        imm 0 10,
        Transfer 0x5e (site_delay s),
        emit_op ''MOV'' (Some SizeWord) (Register (RegWord 0)) (Register (RegWord 0)),
        Branch 6 ''refused'',
        emit_op ''SUBS'' (Some SizeLong) (Immediate 1 0) (Register (RegLong 5)),
        Branch 0 ''wait_read_idle'',
        Label ''read_idle'',
        emit_op ''MOV'' (Some SizeLong) (Register (RegLong 6)) (Register (RegLong 1))]"

text \<open>Check both guards and the policy slot, then switch the policy or restore it.\<close>

definition hook_policy :: "sites \<Rightarrow> u32 \<Rightarrow> u32 \<Rightarrow> asm_step list" where
  "hook_policy s original cf =
     [load_long 2 (cpu_address (site_acquisition s)),
      imm 0x22 original, Branch 6 ''refused'',
      load_long 2 (cpu_address (site_reset s)),
      imm 0x22 cf, Branch 6 ''refused'',
      load_long 2 (site_security_slot s),
      imm 0x22 (site_security_table s), Branch 7 ''owned_policy'',
      imm 0x22 0x00666660, Branch 6 ''refused'',
      Label ''owned_policy'',
      cdb_byte 6, compare_byte STATE_OFF, Branch 6 ''restore_policy'',
      imm 2 0x00777770,
      store_long 2 (site_security_slot s),
      imm 2 0x00111110,
      store_long 2 (cpu_address (site_acquisition s)),
      Branch 0 ''reinitialize'',
      Label ''restore_policy'',
      imm 2 (site_security_table s),
      store_long 2 (site_security_slot s)]"

text \<open>Reset both buffers, run the CF operation with a local descriptor, restore the callback.\<close>

definition hook_reinitialize :: "sites \<Rightarrow> u32 \<Rightarrow> asm_step list" where
  "hook_reinitialize s original =
     [Label ''reinitialize'']
     @ concat (map (\<lambda>dest. concat (map (\<lambda>offset. [load_long 2 (0x10 + offset), store_long 2 (dest + offset)]) [0, 4, 8, 12]))
         [fst (site_buffers s), snd (site_buffers s)])
     @ [emit_op ''SUBS'' (Some SizeLong) (Immediate 4 0) (Register (RegLong 7)),
        imm 2 0x00cf0000,
        emit_op ''MOV'' (Some SizeLong) (Register (RegLong 2)) (Address (Indirect (RegLong 7))),
        emit_op ''MOV'' (Some SizeLong) (Register (RegLong 7)) (Register (RegLong 1)),
        emit_op ''SUB'' (Some SizeLong) (Register (RegLong 0)) (Register (RegLong 0)),
        emit_op ''SUB'' (Some SizeLong) (Register (RegLong 2)) (Register (RegLong 2)),
        Transfer 0x5e (site_dispatcher s),
        emit_op ''ADDS'' (Some SizeLong) (Immediate 4 0) (Register (RegLong 7)),
        imm 2 original,
        store_long 2 (cpu_address (site_acquisition s)),
        emit_op ''MOV'' (Some SizeByte) (Register (RegByte 8)) (Register (RegByte 8)),
        Branch 6 ''refused'']
     @ restore_registers"

definition hook_reply :: "hook_operation \<Rightarrow> u32 \<Rightarrow> asm_step list" where
  "hook_reply op helper =
     [Label ''acknowledge'',
      imm 2 0x00333330,
      Label ''reply'',
      push 3,
      imm 3 (of_nat (op_length op)),
      push 3,
      clear_byte 9,
      Transfer 0x5e helper,
      emit_op ''ADDS'' (Some SizeLong) (Immediate 4 0) (Register (RegLong 7)),
      pop 3, pop 2,
      rts,
      Label ''refused'']
     @ restore_registers
     @ [Branch 0 ''invalid'']"

definition hook_identity :: "u32 \<Rightarrow> u32 \<Rightarrow> asm_step list" where
  "hook_identity invalid main =
     [Label ''identity'']
     @ concat (map (\<lambda>(off, v). require_byte off v ''invalid'') (drop 5 (enumerate 0 (build_identity_cdb 64))))
     @ [imm 2 0x00444440,
        Branch 0 ''reply'',
        Label ''invalid'',
        pop 2,
        Transfer 0x5e invalid,
        emit_op ''MOV'' (Some SizeByte) (Immediate 1 8) (Register (RegByte 8)),
        rts]
     @ routing_oem main"

definition hook_code :: "hook_operation \<Rightarrow> sites \<Rightarrow> u32 \<Rightarrow> u32 \<Rightarrow> u32 \<Rightarrow> u32 \<Rightarrow> u32 \<Rightarrow> asm_step list" where
  "hook_code op s main helper invalid original cf =
     hook_frame op @ hook_wait s @ hook_policy s original cf @ hook_reinitialize s original
     @ hook_reply op helper @ hook_identity invalid main"

text \<open>The temporary acquisition callback, and the eligibility method that returns zero.\<close>

definition callback_code :: "sites \<Rightarrow> asm_step list" where
  "callback_code s =
     [emit_op ''MOV'' (Some SizeByte) (Immediate 1 8) (Register (RegByte 10)),
      emit_op ''MOV'' (Some SizeByte) (Register (RegByte 10)) (Address (Absolute (site_checked s) 16)),
      clear_byte 10,
      emit_op ''MOV'' (Some SizeByte) (Register (RegByte 10)) (Address (Absolute (site_result s) 16)),
      emit_op ''SUB'' (Some SizeLong) (Register (RegLong 0)) (Register (RegLong 0)),
      rts]"

definition eligibility_code :: "asm_step list" where
  "eligibility_code = [emit_op ''SUB'' (Some SizeLong) (Register (RegLong 0)) (Register (RegLong 0)), rts]"

section \<open>The payload\<close>

record relocation =
  rel_offset :: nat
  rel_addend :: u32
  controller_relative :: bool

record trampoline =
  source_sha256 :: string
  tr_bytes :: bytes
  tr_alignment :: u32
  wrapper_offset :: u32
  table_offset :: u32
  vid_wrapper_offset :: u32
  vid_table_offset :: u32
  relocations :: "relocation list"
  mutable_state_offset :: "nat option"

definition hex_chars :: "u8 \<Rightarrow> string" where
  "hex_chars b = [''0123456789abcdef'' ! unat (drop_bit 4 b), ''0123456789abcdef'' ! unat (b AND 15)]"

definition sha256 :: "'s external \<Rightarrow> bytes \<Rightarrow> string" where
  "sha256 X bs = concat (map hex_chars (x_sha256_digest X bs))"

text \<open>The words of the hook that stand for addresses: each marker occurs exactly once.\<close>

primrec marker_relocations :: "'s external \<Rightarrow> bytes \<Rightarrow> (u32 \<times> nat \<times> bool) list \<Rightarrow> relocation list option" where
  "marker_relocations X code [] = Some []"
| "marker_relocations X code (m # ms) =
     (case m of (marker, addend, relative) \<Rightarrow> do {
        offset \<leftarrow> x_find X code (NeedleWord marker) 0;
        ensure (x_find X code (NeedleWord marker) (offset + 1) = None);
        rest \<leftarrow> marker_relocations X code ms;
        Some (\<lparr> rel_offset = offset, rel_addend = of_nat addend, controller_relative = relative \<rparr> # rest) })"

definition assemble :: "'s external \<Rightarrow> u32 \<Rightarrow> u32 \<Rightarrow> u32 \<Rightarrow> sites \<Rightarrow> hook_operation \<Rightarrow> string \<Rightarrow> bytes \<Rightarrow> trampoline option" where
  "assemble X main helper invalid s op hash security_tab = do {
     ensure (length (expected (site_acquisition s)) = 4);
     let original = from_be32 (expected (site_acquisition s));
     cf \<leftarrow> x_read_u32 X (expected (site_reset s)) 0;
     code \<leftarrow> assemble_steps X (hook_code op s main helper invalid original cf);
     let bs = code;
     let callback = length bs;
     cb \<leftarrow> assemble_steps X (callback_code s);
     let bs = bs @ cb;
     let tab = (of_nat (length bs) :: u32);
     let bs = bs @ zeros 40;
     let temp = length bs;
     let bs = bs @ zeros 70;
     let callbacks = map (\<lambda>off. \<lparr> rel_offset = temp + off, rel_addend = of_nat callback, controller_relative = False \<rparr>)
       [0x10, 0x1a, 0x24, 0x2e, 0x38, 0x42];
     let data = length bs;
     let bs = bs @ zeros 64;
     let identity_data = length bs;
     let bs = bs @ pioneer_identity;
     let eligibility_callback = length bs;
     el \<leftarrow> assemble_steps X eligibility_code;
     let bs = bs @ el;
     let vid_wrapper_at = length bs;
     vid_code \<leftarrow> vid_wrapper X s helper invalid;
     vid_pointer \<leftarrow> x_find X vid_code (NeedleWord 0x00888880) 0;
     let bs = bs @ vid_code;
     let vid_tab = (of_nat (length bs) :: u32);
     let bs = bs @ zeros 40;
     let vid_data = length bs;
     let bs = bs @ [0, 0x22, 0, 0] @ zeros 32;
     let policy = length bs;
     vid_policy \<leftarrow> x_find X vid_code (NeedleWord 0x00999990) 0;
     ensure (length security_tab = site_table_length s);
     let bs = bs @ security_tab;
     markers \<leftarrow> marker_relocations X code
       [(0x00111110, temp, False), (0x00333330, data, True), (0x00444440, identity_data, True),
        (0x00666660, policy, False), (0x00777770, policy, False)];
     Some \<lparr> source_sha256 = hash, tr_bytes = bs, tr_alignment = 32, wrapper_offset = 0,
            table_offset = tab, vid_wrapper_offset = of_nat vid_wrapper_at, vid_table_offset = vid_tab,
            relocations = callbacks
              @ [\<lparr> rel_offset = vid_wrapper_at + vid_pointer, rel_addend = of_nat vid_data, controller_relative = False \<rparr>,
                 \<lparr> rel_offset = vid_wrapper_at + vid_policy, rel_addend = of_nat policy, controller_relative = False \<rparr>,
                 \<lparr> rel_offset = policy + 0x100, rel_addend = of_nat eligibility_callback, controller_relative = False \<rparr>]
              @ markers,
            mutable_state_offset = None \<rparr> }"

definition build :: "'s external \<Rightarrow> bytes \<Rightarrow> hook_operation \<Rightarrow> (trampoline \<times> sites) option" where
  "build X img op = do {
     lay \<leftarrow> x_inspect X img;
     base \<leftarrow> image_base lay;
     s \<leftarrow> discover X img base;
     (main, helper, invalid) \<leftarrow> targets X img;
     write_paths X img main helper;
     let tab = unat (site_security_table s - base);
     bs \<leftarrow> get_slice img tab (tab + site_table_length s);
     payload \<leftarrow> assemble X main helper invalid s op (sha256 X img) bs;
     Some (payload, s) }"

end
