(* ===== verification/Ld_Profile.thy ===== *)
theory Ld_Profile
  imports Unlock "HOL-Library.Monad_Syntax"
begin

text \<open>
  The MT1959 unlocker's error type (\<open>src/ld/error.rs\<close>), its wire-format seam (\<open>src/ld/cdb.rs\<close>)
  and the drive catalog (\<open>src/ld/profile.rs\<close>): the profile record, the hex decoding of its
  fields, the loading of the bundled catalog, and the two-pass lookup of a drive identity. The
  parser of the JSON text (\<open>serde_json\<close>) and the base64 decoder are parameters of the loading.

  INQUIRY strings are ASCII, so \<open>trim\<close> strips the ASCII white space of \<open>str::trim\<close>.
\<close>

unbundle bit_operations_syntax

section \<open>Errors\<close>

datatype ld_error =
    ProfileParse
  | UnlockFailed
  | SignatureMismatch bytes bytes
  | LdScsi u8 u8 "bytes option"

fun ld_code :: "ld_error \<Rightarrow> u16" where
  "ld_code ProfileParse = 7101"
| "ld_code UnlockFailed = 7102"
| "ld_code (SignatureMismatch _ _) = 7103"
| "ld_code (LdScsi _ _ _) = 7199"

fun sense_triple :: "ld_error \<Rightarrow> (u8 \<times> u8 \<times> u8) option" where
  "sense_triple (LdScsi _ _ (Some s)) = Some (byte_at s 2 AND 0x0F, byte_at s 12, byte_at s 13)"
| "sense_triple _ = None"

fun ld_is_transport_failure :: "ld_error \<Rightarrow> bool" where
  "ld_is_transport_failure (LdScsi _ status None) \<longleftrightarrow> status = SCSI_STATUS_TRANSPORT_FAILURE"
| "ld_is_transport_failure _ \<longleftrightarrow> False"

definition ld_from_scsi :: "scsi_error \<Rightarrow> ld_error" where
  "ld_from_scsi e = LdScsi 0 (err_status e) (err_sense e)"

definition ld_unlock_error :: "ld_error \<Rightarrow> unlock_error" where
  "ld_unlock_error e = (if ld_is_transport_failure e then Transport else NotApplicable)"

lemma ld_from_scsi_transport [simp]: "ld_is_transport_failure (ld_from_scsi e) \<longleftrightarrow> is_dead_bus e"
  by (cases "err_sense e") (auto simp: ld_from_scsi_def is_dead_bus_def)

interpretation ld: error_class ld_from_scsi ld_is_transport_failure ld_unlock_error
  by unfold_locales (simp_all add: ld_unlock_error_def)

section \<open>The emulator's wire format\<close>

definition UNLOCK_MARKER :: bytes where
  "UNLOCK_MARKER = [0x4D, 0x4D, 0x6B, 0x76]"

definition is_unlock_read_buffer :: "u8 \<Rightarrow> u8 \<Rightarrow> bool" where
  "is_unlock_read_buffer mode buf_id \<longleftrightarrow> (mode, buf_id) = (1, 0x44) \<or> (mode, buf_id) = (2, 0x77)"

section \<open>Profiles\<close>

record identity =
  id_vendor_id :: string
  id_product_id :: string
  id_product_revision :: string
  id_vendor_specific :: string
  id_firmware_date :: string

record drive_profile =
  p_identity :: identity
  signature :: bytes
  firmware :: bytes
  unlock_init_value :: u8
  unlock_response_size :: u8
  read_vid_cdb :: "bytes option"
  read_disc_keys_cdb :: "bytes option"
  drive_nominal_speed_cdb :: "bytes option"
  set_speed_max_cdb :: "bytes option"
  read10_raw_2sec_cdb :: "bytes option"
  read10_raw_1sec_cdb :: "bytes option"
  read_buffer_verify_cdb :: "bytes option"
  write_buffer_cdb :: "bytes option"
  read_buffer_unlock_cdb :: "bytes option"
  fw_verify_cdb :: "bytes option"
  speed_zone_table :: "bytes option"
  speed_calc_table :: "bytes option"

record profiles =
  mt1959_a :: "drive_profile list"
  mt1959_b :: "drive_profile list"
  renesas :: "drive_profile list"

datatype platform = Mt1959A | Mt1959B | Renesas

fun platform_name :: "platform \<Rightarrow> string" where
  "platform_name Mt1959A = ''MediaTek MT1959-A''"
| "platform_name Mt1959B = ''MediaTek MT1959-B''"
| "platform_name Renesas = ''Renesas''"

record profile_match =
  m_profile :: drive_profile
  m_platform :: platform

section \<open>Hex fields\<close>

text \<open>\<open>(b as char).to_digit(16)\<close> on a byte, and the decoding of pairs.\<close>

definition to_digit16 :: "u8 \<Rightarrow> u32 option" where
  "to_digit16 b =
     (if 0x30 \<le> b \<and> b \<le> 0x39 then Some (ucast b - 0x30)
      else if 0x61 \<le> b \<and> b \<le> 0x66 then Some (ucast b - 0x61 + 10)
      else if 0x41 \<le> b \<and> b \<le> 0x46 then Some (ucast b - 0x41 + 10)
      else None)"

fun decode_pairs :: "bytes \<Rightarrow> bytes option" where
  "decode_pairs (h # l # rest) =
     (case to_digit16 h of None \<Rightarrow> None
      | Some hi \<Rightarrow> (case to_digit16 l of None \<Rightarrow> None
        | Some lo \<Rightarrow> (case decode_pairs rest of None \<Rightarrow> None
          | Some out \<Rightarrow> Some (ucast (hi * 16 + lo) # out))))"
| "decode_pairs _ = Some []"

definition decode_hex :: "bytes \<Rightarrow> bytes option" where
  "decode_hex bs = (if length bs mod 2 \<noteq> 0 then None else decode_pairs bs)"

definition parse_hex4 :: "bytes \<Rightarrow> ld_error + bytes" where
  "parse_hex4 s = (case decode_hex s of
     None \<Rightarrow> Inl ProfileParse
   | Some bs \<Rightarrow> if length bs = 4 then Inr bs else Inl ProfileParse)"

definition deserialize_hex4 :: "bytes \<Rightarrow> ld_error + bytes" where
  "deserialize_hex4 s = (if s = [] then Inr [0, 0, 0, 0] else parse_hex4 s)"

text \<open>An optional hex field: absent, null or empty is no value.\<close>

definition deserialize_opt_hex_bytes :: "bytes option \<Rightarrow> string + bytes option" where
  "deserialize_opt_hex_bytes opt = (case opt of
     None \<Rightarrow> Inr None
   | Some s \<Rightarrow>
       if s = [] then Inr None
       else case decode_hex s of None \<Rightarrow> Inl ''hex'' | Some bs \<Rightarrow> Inr (Some bs))"

definition deserialize_opt_hex_bytes_n :: "nat \<Rightarrow> bytes option \<Rightarrow> string + bytes option" where
  "deserialize_opt_hex_bytes_n n opt = (case opt of
     None \<Rightarrow> Inr None
   | Some s \<Rightarrow>
       if s = [] then Inr None
       else case decode_hex s of None \<Rightarrow> Inl ''hex''
         | Some bs \<Rightarrow> if length bs = n then Inr (Some bs) else Inl ''len'')"

definition deserialize_opt_hex_bytes_10 :: "bytes option \<Rightarrow> string + bytes option" where
  "deserialize_opt_hex_bytes_10 = deserialize_opt_hex_bytes_n 10"

definition deserialize_opt_hex_bytes_12 :: "bytes option \<Rightarrow> string + bytes option" where
  "deserialize_opt_hex_bytes_12 = deserialize_opt_hex_bytes_n 12"

text \<open>Base64 is the alphabet of the \<open>base64\<close> crate's standard engine, a parameter.\<close>

definition deserialize_base64 :: "(bytes \<Rightarrow> bytes option) \<Rightarrow> bytes \<Rightarrow> string + bytes" where
  "deserialize_base64 b64 s =
     (if s = [] then Inr []
      else case b64 s of None \<Rightarrow> Inl ''base64'' | Some bs \<Rightarrow> Inr bs)"

section \<open>Loading the catalog\<close>

text \<open>
  What \<open>serde_json\<close> hands to the field decoders of one profile: \<open>None\<close> is a field that the JSON does
  not have, for the optional fields also a \<open>null\<close>. The parser of the text is a parameter.
\<close>

record raw_profile =
  raw_identity :: identity
  raw_signature :: "bytes option"
  raw_firmware :: "bytes option"
  raw_unlock_init_value :: u8
  raw_unlock_response_size :: u8
  raw_read_vid_cdb :: "bytes option"
  raw_read_disc_keys_cdb :: "bytes option"
  raw_drive_nominal_speed_cdb :: "bytes option"
  raw_set_speed_max_cdb :: "bytes option"
  raw_read10_raw_2sec_cdb :: "bytes option"
  raw_read10_raw_1sec_cdb :: "bytes option"
  raw_read_buffer_verify_cdb :: "bytes option"
  raw_write_buffer_cdb :: "bytes option"
  raw_read_buffer_unlock_cdb :: "bytes option"
  raw_fw_verify_cdb :: "bytes option"
  raw_speed_zone_table :: "bytes option"
  raw_speed_calc_table :: "bytes option"

type_synonym raw_profiles = "raw_profile list \<times> raw_profile list \<times> raw_profile list"

definition decoded :: "'e + 'a \<Rightarrow> 'a option" where
  "decoded r = (case r of Inl _ \<Rightarrow> None | Inr a \<Rightarrow> Some a)"

definition deserialize_profile :: "(bytes \<Rightarrow> bytes option) \<Rightarrow> raw_profile \<Rightarrow> drive_profile option" where
  "deserialize_profile b64 raw = do {
     sig \<leftarrow> decoded (case raw_signature raw of None \<Rightarrow> Inr [0, 0, 0, 0] | Some s \<Rightarrow> deserialize_hex4 s);
     fw \<leftarrow> decoded (case raw_firmware raw of None \<Rightarrow> Inr [] | Some s \<Rightarrow> deserialize_base64 b64 s);
     vid_cdb \<leftarrow> decoded (deserialize_opt_hex_bytes_10 (raw_read_vid_cdb raw));
     keys_cdb \<leftarrow> decoded (deserialize_opt_hex_bytes_10 (raw_read_disc_keys_cdb raw));
     nominal \<leftarrow> decoded (deserialize_opt_hex_bytes_12 (raw_drive_nominal_speed_cdb raw));
     speed_max \<leftarrow> decoded (deserialize_opt_hex_bytes_12 (raw_set_speed_max_cdb raw));
     raw2 \<leftarrow> decoded (deserialize_opt_hex_bytes_10 (raw_read10_raw_2sec_cdb raw));
     raw1 \<leftarrow> decoded (deserialize_opt_hex_bytes_10 (raw_read10_raw_1sec_cdb raw));
     verify \<leftarrow> decoded (deserialize_opt_hex_bytes_10 (raw_read_buffer_verify_cdb raw));
     upload \<leftarrow> decoded (deserialize_opt_hex_bytes_10 (raw_write_buffer_cdb raw));
     unlock \<leftarrow> decoded (deserialize_opt_hex_bytes_10 (raw_read_buffer_unlock_cdb raw));
     fw_verify \<leftarrow> decoded (deserialize_opt_hex_bytes_10 (raw_fw_verify_cdb raw));
     zones \<leftarrow> decoded (deserialize_opt_hex_bytes (raw_speed_zone_table raw));
     calc \<leftarrow> decoded (deserialize_opt_hex_bytes (raw_speed_calc_table raw));
     Some \<lparr> p_identity = raw_identity raw, signature = sig, firmware = fw,
       unlock_init_value = raw_unlock_init_value raw, unlock_response_size = raw_unlock_response_size raw,
       read_vid_cdb = vid_cdb, read_disc_keys_cdb = keys_cdb, drive_nominal_speed_cdb = nominal,
       set_speed_max_cdb = speed_max, read10_raw_2sec_cdb = raw2, read10_raw_1sec_cdb = raw1,
       read_buffer_verify_cdb = verify, write_buffer_cdb = upload, read_buffer_unlock_cdb = unlock,
       fw_verify_cdb = fw_verify, speed_zone_table = zones, speed_calc_table = calc \<rparr> }"

fun deserialize_section :: "(bytes \<Rightarrow> bytes option) \<Rightarrow> raw_profile list \<Rightarrow> drive_profile list option" where
  "deserialize_section b64 [] = Some []"
| "deserialize_section b64 (raw # raws) = do {
     p \<leftarrow> deserialize_profile b64 raw;
     ps \<leftarrow> deserialize_section b64 raws;
     Some (p # ps) }"

definition deserialize_profiles :: "(bytes \<Rightarrow> bytes option) \<Rightarrow> raw_profiles \<Rightarrow> profiles option" where
  "deserialize_profiles b64 raw = (case raw of (as, bs, rs) \<Rightarrow> do {
     as \<leftarrow> deserialize_section b64 as;
     bs \<leftarrow> deserialize_section b64 bs;
     rs \<leftarrow> deserialize_section b64 rs;
     Some \<lparr> mt1959_a = as, mt1959_b = bs, renesas = rs \<rparr> })"

definition load_from_str :: "('t \<Rightarrow> raw_profiles option) \<Rightarrow> (bytes \<Rightarrow> bytes option) \<Rightarrow> 't \<Rightarrow> ld_error + profiles" where
  "load_from_str json b64 data =
     (case Option.bind (json data) (deserialize_profiles b64) of
        None \<Rightarrow> Inl ProfileParse
      | Some ps \<Rightarrow> Inr ps)"

text \<open>The cached value of \<open>bundled\<close>: the embedded text either loads for good or never does.\<close>

definition bundled_catalog :: "('t \<Rightarrow> raw_profiles option) \<Rightarrow> (bytes \<Rightarrow> bytes option) \<Rightarrow> 't \<Rightarrow> profiles option" where
  "bundled_catalog json b64 data = (case load_from_str json b64 data of
     Inr ps \<Rightarrow> Some ps
   | Inl _ \<Rightarrow> None)"

section \<open>Lookup\<close>

definition is_whitespace :: "char \<Rightarrow> bool" where
  "is_whitespace c \<longleftrightarrow> c = CHR '' '' \<or> 9 \<le> (of_char c :: nat) \<and> (of_char c :: nat) \<le> 13"

definition trim :: "string \<Rightarrow> string" where
  "trim s = rev (dropWhile is_whitespace (rev (dropWhile is_whitespace s)))"

definition four_field :: "drive_id \<Rightarrow> drive_profile \<Rightarrow> bool" where
  "four_field d p \<longleftrightarrow>
     trim (id_vendor_id (p_identity p)) = trim (vendor_id d)
   \<and> trim (id_product_revision (p_identity p)) = trim (product_revision d)
   \<and> trim (id_vendor_specific (p_identity p)) = trim (vendor_specific d)
   \<and> trim (id_firmware_date (p_identity p)) = trim (firmware_date d)"

definition catalog_all :: "profiles \<Rightarrow> (platform \<times> drive_profile) list" where
  "catalog_all ps =
     concat (map (\<lambda>(platform, list). map (\<lambda>p. (platform, p)) list)
       [(Mt1959A, mt1959_a ps), (Mt1959B, mt1959_b ps), (Renesas, renesas ps)])"

definition to_match :: "platform \<times> drive_profile \<Rightarrow> profile_match" where
  "to_match e = \<lparr> m_profile = snd e, m_platform = fst e \<rparr>"

definition find_by_drive_id :: "profiles \<Rightarrow> drive_id \<Rightarrow> profile_match option" where
  "find_by_drive_id ps d =
     (let prod = trim (product_id d);
          exact = (if prod \<noteq> []
            then find (\<lambda>(_, p). four_field d p \<and> trim (id_product_id (p_identity p)) = prod) (catalog_all ps)
            else None)
      in case exact of
           Some e \<Rightarrow> Some (to_match e)
         | None \<Rightarrow>
             (case filter (\<lambda>(_, p). four_field d p) (catalog_all ps) of
                [] \<Rightarrow> None
              | m # others \<Rightarrow>
                  if others \<noteq> [] \<and> prod \<noteq> [] then None else Some (to_match m)))"

text \<open>
  The catalog of the users of the lookup is the value of \<open>bundled_catalog\<close>, which they take as an
  argument.
\<close>

definition find_bundled :: "profiles option \<Rightarrow> drive_id \<Rightarrow> profile_match option" where
  "find_bundled bundled d = (case bundled of None \<Rightarrow> None | Some ps \<Rightarrow> find_by_drive_id ps d)"

definition ld_claims_in :: "profiles \<Rightarrow> drive_id \<Rightarrow> bool" where
  "ld_claims_in catalog d = (case find_by_drive_id catalog d of
     None \<Rightarrow> False | Some m \<Rightarrow> m_platform m = Mt1959A \<or> m_platform m = Mt1959B)"

definition ld_claims :: "profiles option \<Rightarrow> drive_id \<Rightarrow> bool" where
  "ld_claims bundled d = (case bundled of None \<Rightarrow> False | Some c \<Rightarrow> ld_claims_in c d)"

section \<open>Hex decoding\<close>

text \<open>The specification: lower-case encoding, and what counts as a hex digit.\<close>

definition hex_digit :: "u8 \<Rightarrow> u8" where
  "hex_digit n = (if n < 10 then 0x30 + n else 0x61 + (n - 10))"

definition encode_hex :: "bytes \<Rightarrow> bytes" where
  "encode_hex bs = concat (map (\<lambda>b. [hex_digit (drop_bit 4 b), hex_digit (b AND 0x0F)]) bs)"

definition is_hex_digit :: "u8 \<Rightarrow> bool" where
  "is_hex_digit b \<longleftrightarrow> 0x30 \<le> b \<and> b \<le> 0x39 \<or> 0x61 \<le> b \<and> b \<le> 0x66 \<or> 0x41 \<le> b \<and> b \<le> 0x46"

lemma to_digit16_iff: "to_digit16 b = None \<longleftrightarrow> \<not> is_hex_digit b"
  by (simp add: to_digit16_def is_hex_digit_def)

lemma to_digit16_hex_digit:
  assumes "n < 16"
  shows "to_digit16 (hex_digit n) = Some (ucast n)"
proof -
  have all: "list_all (\<lambda>n. to_digit16 (hex_digit n) = Some (ucast n)) (map of_nat [0..<16])"
    by code_simp
  have "unat n < 16" using assms by (simp add: word_less_nat_alt)
  moreover have "n = of_nat (unat n)" by (simp add: of_nat_unat)
  ultimately have "n \<in> set (map of_nat [0..<16])"
    by (metis atLeastLessThan_iff image_eqI le0 list.set_map set_upt)
  with all show ?thesis by (simp only: list_all_iff)
qed

lemma nibbles:
  "drop_bit 4 (b :: u8) < 16" "b AND 0x0F < 16"
  "ucast (ucast (drop_bit 4 b) * 16 + ucast (b AND 0x0F) :: u32) = b"
proof -
  have "unat (drop_bit 4 b) = unat b div 16" by (simp add: drop_bit_eq_div unat_div_distrib)
  moreover have "unat b < 2 ^ LENGTH(8)" by (rule unsigned_less)
  ultimately show "drop_bit 4 b < 16" by (simp add: word_less_nat_alt)
  have low: "b AND 0x0F = take_bit 4 b" by (simp add: take_bit_eq_mask mask_eq_exp_minus_1)
  have "unat (take_bit 4 b) = unat b mod 16" by (simp add: unsigned_take_bit_eq take_bit_eq_mod unat_mod_distrib)
  then show "b AND 0x0F < 16" by (simp add: low word_less_nat_alt)
  have "ucast (drop_bit 4 b) * 16 = push_bit 4 (ucast (drop_bit 4 b) :: u32)"
    by (simp add: push_bit_eq_mult)
  moreover have "push_bit 4 (ucast (drop_bit 4 b) :: u32) AND ucast (b AND 0x0F) = 0"
    by (rule bit_word_eqI) (auto simp: low bit_simps)
  then have "push_bit 4 (ucast (drop_bit 4 b) :: u32) + ucast (b AND 0x0F)
      = push_bit 4 (ucast (drop_bit 4 b)) OR ucast (b AND 0x0F)"
    using word_plus_and_or [of "push_bit 4 (ucast (drop_bit 4 b) :: u32)" "ucast (b AND 0x0F)"] by simp
  moreover have "ucast (push_bit 4 (ucast (drop_bit 4 b) :: u32) OR ucast (b AND 0x0F)) = b"
    by (rule bit_word_eqI) (auto simp: low bit_simps)
  ultimately show "ucast (ucast (drop_bit 4 b) * 16 + ucast (b AND 0x0F) :: u32) = b" by simp
qed

lemma decode_encode_pairs: "decode_pairs (encode_hex bs) = Some bs"
proof (induction bs)
  case (Cons b bs)
  have "encode_hex (b # bs) = hex_digit (drop_bit 4 b) # hex_digit (b AND 0x0F) # encode_hex bs"
    by (simp add: encode_hex_def)
  with Cons show ?case
    by (simp only: decode_pairs.simps to_digit16_hex_digit nibbles option.case)
qed (simp add: encode_hex_def)

lemma even_encode_hex: "length (encode_hex bs) = 2 * length bs"
  by (induction bs) (simp_all add: encode_hex_def)

lemma decode_pairs_spec:
  "even (length s) \<Longrightarrow> (case decode_pairs s of
     None \<Rightarrow> \<not> list_all is_hex_digit s
   | Some bs \<Rightarrow> list_all is_hex_digit s \<and> 2 * length bs = length s)"
proof (induction s rule: decode_pairs.induct)
  case (1 h l rest)
  show ?case
  proof (cases "is_hex_digit h \<and> is_hex_digit l")
    case True
    then obtain hi lo where digits: "to_digit16 h = Some hi" "to_digit16 l = Some lo"
      using to_digit16_iff by (metis option.exhaust)
    with 1(1) [OF digits] "1.prems" True show ?thesis by (auto split: option.splits)
  next
    case False
    then have "to_digit16 h = None \<or> to_digit16 l = None" by (simp add: to_digit16_iff)
    with False show ?thesis by (auto split: option.split)
  qed
qed auto

text \<open>
  Hex fields round-trip: decoding the lower-case encoding of any bytes gives them back; and
  the decoder accepts exactly the strings of even length made of hex digits, with one byte out
  per two digits in, whatever else the string holds.
\<close>
theorem decode_hex_correct:
  "decode_hex (encode_hex bs) = Some bs
   \<and> (case decode_hex s of
        None \<Rightarrow> \<not> (even (length s) \<and> list_all is_hex_digit s)
      | Some out \<Rightarrow> even (length s) \<and> list_all is_hex_digit s \<and> 2 * length out = length s)"
  using decode_pairs_spec [of s]
  by (auto simp: decode_hex_def decode_encode_pairs even_encode_hex even_iff_mod_2_eq_zero
      odd_iff_mod_2_eq_one split: option.splits)

section \<open>A loaded catalog is well formed\<close>

text \<open>The fields that the code declares as arrays have the lengths of their types.\<close>

definition opt_length :: "nat \<Rightarrow> bytes option \<Rightarrow> bool" where
  "opt_length n x \<longleftrightarrow> (case x of None \<Rightarrow> True | Some bs \<Rightarrow> length bs = n)"

definition wf_profile :: "drive_profile \<Rightarrow> bool" where
  "wf_profile p \<longleftrightarrow> length (signature p) = 4
     \<and> list_all (opt_length 10) [read_vid_cdb p, read_disc_keys_cdb p, read10_raw_2sec_cdb p, read10_raw_1sec_cdb p,
         read_buffer_verify_cdb p, write_buffer_cdb p, read_buffer_unlock_cdb p, fw_verify_cdb p]
     \<and> list_all (opt_length 12) [drive_nominal_speed_cdb p, set_speed_max_cdb p]
     \<and> speed_zone_table p \<noteq> Some [] \<and> speed_calc_table p \<noteq> Some []"

lemma decoded_Some: "decoded r = Some a \<longleftrightarrow> r = Inr a"
  by (cases r) (simp_all add: decoded_def)

lemma hex4_length: "deserialize_hex4 s = Inr bs \<Longrightarrow> length bs = 4"
  by (auto simp: deserialize_hex4_def parse_hex4_def split: if_splits option.splits)

lemma opt_hex_length: "deserialize_opt_hex_bytes_n n opt = Inr x \<Longrightarrow> opt_length n x"
  by (auto simp: deserialize_opt_hex_bytes_n_def opt_length_def split: if_splits option.splits)

lemma opt_hex_nonempty: "deserialize_opt_hex_bytes opt \<noteq> Inr (Some [])"
proof
  assume "deserialize_opt_hex_bytes opt = Inr (Some [])"
  then obtain s where s: "s \<noteq> []" "decode_hex s = Some []"
    by (auto simp: deserialize_opt_hex_bytes_def split: if_splits option.splits)
  then obtain h l rest where "s = h # l # rest"
    by (cases s rule: decode_pairs.cases) (auto simp: decode_hex_def)
  with s(2) show False by (auto simp: decode_hex_def split: if_splits option.splits)
qed

lemma deserialize_profile_wf: "deserialize_profile b64 raw = Some p \<Longrightarrow> wf_profile p"
  unfolding deserialize_profile_def deserialize_opt_hex_bytes_10_def deserialize_opt_hex_bytes_12_def
  by (auto simp: wf_profile_def decoded_Some bind_eq_Some_conv opt_hex_nonempty
      dest!: opt_hex_length hex4_length split: option.splits)

lemma deserialize_section_wf: "deserialize_section b64 raws = Some ps \<Longrightarrow> list_all wf_profile ps"
  by (induction raws arbitrary: ps) (auto simp: bind_eq_Some_conv dest: deserialize_profile_wf)

lemma deserialize_section_None: "deserialize_section b64 raws = None \<longleftrightarrow> (\<exists>raw \<in> set raws. deserialize_profile b64 raw = None)"
  by (induction raws) (auto simp: bind_eq_None_conv)

lemma load_from_str_catalog:
  "load_from_str json b64 data = Inr ps \<Longrightarrow> list_all (\<lambda>(_, p). wf_profile p) (catalog_all ps)"
  by (auto simp: load_from_str_def deserialize_profiles_def bind_eq_Some_conv catalog_all_def list_all_iff
      dest!: deserialize_section_wf split: option.splits)

lemma find_mem: "find P xs = Some x \<Longrightarrow> x \<in> set xs"
  by (auto simp: find_Some_iff)

lemma lookup_in_catalog: "find_by_drive_id ps d = Some m \<Longrightarrow> (m_platform m, m_profile m) \<in> set (catalog_all ps)"
  by (auto simp: find_by_drive_id_def to_match_def Let_def
      split: option.splits list.splits if_splits dest!: filter_eq_ConsD find_mem)

text \<open>
  C31. Whatever text is bundled and however it parses, the profile a drive is bound to has a
  signature of four bytes, command templates of exactly ten or twelve bytes where it has them, and
  no empty table; a catalog in which one profile has a field that does not decode is refused as a
  whole, so no drive is bound at all.
\<close>
theorem bundled_profiles_well_formed:
  "(case find_bundled (bundled_catalog json b64 data) d of None \<Rightarrow> True | Some m \<Rightarrow> wf_profile (m_profile m))
   \<and> (bundled_catalog json b64 data = None \<longleftrightarrow>
        (case json data of None \<Rightarrow> True
         | Some (as, bs, rs) \<Rightarrow> list_ex (\<lambda>raw. deserialize_profile b64 raw = None) (as @ bs @ rs)))"
proof
  show "case find_bundled (bundled_catalog json b64 data) d of None \<Rightarrow> True | Some m \<Rightarrow> wf_profile (m_profile m)"
    by (auto simp: find_bundled_def bundled_catalog_def list_all_iff
        dest!: load_from_str_catalog lookup_in_catalog split: option.split sum.splits)
  show "bundled_catalog json b64 data = None \<longleftrightarrow>
        (case json data of None \<Rightarrow> True
         | Some (as, bs, rs) \<Rightarrow> list_ex (\<lambda>raw. deserialize_profile b64 raw = None) (as @ bs @ rs))"
    by (auto simp: bundled_catalog_def load_from_str_def deserialize_profiles_def bind_eq_None_conv list_ex_iff
        deserialize_section_None simp flip: not_None_eq split: option.splits)
qed

section \<open>The lookup binds the right profile\<close>

abbreviation product_matches :: "drive_id \<Rightarrow> platform \<times> drive_profile \<Rightarrow> bool" where
  "product_matches d e \<equiv> trim (id_product_id (p_identity (snd e))) = trim (product_id d)"

definition candidates :: "profiles \<Rightarrow> drive_id \<Rightarrow> (platform \<times> drive_profile) list" where
  "candidates ps d = filter (\<lambda>(_, p). four_field d p) (catalog_all ps)"

text \<open>
  C30. What the catalog lookup binds. A match is a catalog entry with the drive's vendor, revision,
  vendor-specific and date fields. For a drive that reports a product id, it also has that product
  id or is the only such entry: a doubtful profile is not bound. For a drive that reports none (only
  white space), it is the first such entry, however many share the four fields. The lookup fails
  exactly when there is no such entry, or the drive reports a product id and there are several
  entries and none with that product id.
\<close>
theorem profile_lookup_correct:
  "case find_by_drive_id ps d of
     Some m \<Rightarrow> (m_platform m, m_profile m) \<in> set (candidates ps d)
       \<and> (if trim (product_id d) = [] then (m_platform m, m_profile m) = hd (candidates ps d)
          else product_matches d (m_platform m, m_profile m) \<or> candidates ps d = [(m_platform m, m_profile m)])
   | None \<Rightarrow> candidates ps d = []
       \<or> (trim (product_id d) \<noteq> [] \<and> length (candidates ps d) \<ge> 2
          \<and> (\<nexists>e. e \<in> set (candidates ps d) \<and> product_matches d e))"
proof -
  let ?exact = "\<lambda>(_, p). four_field d p \<and> trim (id_product_id (p_identity p)) = trim (product_id d)"
  have hit: "e \<in> set (candidates ps d) \<and> product_matches d e" if "find ?exact (catalog_all ps) = Some e" for e
    using that by (auto simp: find_Some_iff candidates_def in_set_conv_nth)
  have miss: "\<nexists>e. e \<in> set (candidates ps d) \<and> product_matches d e" if "find ?exact (catalog_all ps) = None"
    using that by (auto simp: find_None_iff candidates_def)
  have second: "case (case candidates ps d of [] \<Rightarrow> None
      | m # others \<Rightarrow> if others \<noteq> [] \<and> trim (product_id d) \<noteq> [] then None else Some (to_match m)) of
      Some m \<Rightarrow> (m_platform m, m_profile m) \<in> set (candidates ps d)
        \<and> (if trim (product_id d) = [] then (m_platform m, m_profile m) = hd (candidates ps d)
           else candidates ps d = [(m_platform m, m_profile m)])
    | None \<Rightarrow> candidates ps d = [] \<or> trim (product_id d) \<noteq> [] \<and> 2 \<le> length (candidates ps d)"
    by (cases "candidates ps d") (auto simp: to_match_def Suc_le_eq)
  show ?thesis
  proof (cases "trim (product_id d) = [] \<or> find ?exact (catalog_all ps) = None")
    case True
    then have "find_by_drive_id ps d = (case candidates ps d of [] \<Rightarrow> None
      | m # others \<Rightarrow> if others \<noteq> [] \<and> trim (product_id d) \<noteq> [] then None else Some (to_match m))"
      by (auto simp: find_by_drive_id_def candidates_def Let_def)
    with second True miss show ?thesis by (auto split: option.splits)
  next
    case False
    then show ?thesis
      using hit by (auto simp: find_by_drive_id_def to_match_def Let_def)
  qed
qed

end
