(* ===== verification/Renesas_Hook.thy ===== *)
theory Renesas_Hook
  imports Renesas_Code Ld_Profile
begin

text \<open>
  The transaction layer of the Renesas runtime (module \<open>hook\<close> of \<open>src/freemkv/renesas.rs\<close>):
  profiles of a drive's memory map, reads and writes of its memory, and the preparation,
  installation, verification and removal of the runtime. Errors are \<open>anyhow\<close>.
\<close>

unbundle bit_operations_syntax

section \<open>Steps\<close>

definition ensureE :: "bool \<Rightarrow> ('w, anyhow + unit) io" where
  "ensureE b = (if b then okE () else errE Message)"

definition optE :: "'a option \<Rightarrow> ('w, anyhow + 'a) io" where
  "optE x = (case x of None \<Rightarrow> errE Message | Some a \<Rightarrow> okE a)"

definition HOOK_TIMEOUT_MS :: u32 where [const_defs]: "HOOK_TIMEOUT_MS = 10000"
definition MAX_PAYLOAD :: nat where [const_defs]: "MAX_PAYLOAD = 65536"

section \<open>Profiles\<close>

record hook_profile =
  normal_address :: u32
  normal_length :: u32
  normal_sha256 :: string
  controller_cpu_base :: u32
  pointer_address :: u32
  original_table :: u32
  write_pointer_address :: u32
  write_original_table :: u32
  table_length :: u32
  main_callback_offset :: u32
  reserved_windows :: "cpu_range list"
  occupied :: "cpu_range list"
  profile_guards :: "hook_guard list"
  ownership_evidence :: string
  write_path_evidence :: string

record free_space =
  fs_cpu :: cpu_range
  fs_length :: u32
  controller_offset :: u32
  firmware_sha256 :: string
  fs_ownership_evidence :: string

record cdb_reply =
  reply_cdb :: bytes
  reply_status :: u8
  reply_transferred :: nat
  reply_sense :: bytes
  reply_data :: bytes

definition OWNERSHIP_EVIDENCE :: string where
  "OWNERSHIP_EVIDENCE = ''Derived global-data end: initializer copy end equals final 16-bit canary; upper bound is first OEM buffer; all recognized buffer maps excluded. Temporary allocation candidate, not a permanent RAM reservation.''"

definition WRITE_PATH_EVIDENCE :: string where
  "WRITE_PATH_EVIDENCE = ''Address discovery only. The stock payload builders additionally validate READ/WRITE helper call relationships; this field is descriptive, not an authorization bypass.''"

text \<open>\<open>discovery::profile\<close>: an audit profile derived from the image.\<close>

definition derive_profile :: "'s external \<Rightarrow> bytes \<Rightarrow> hook_profile option" where
  "derive_profile X img = do {
     lay \<leftarrow> x_inspect X img;
     ensure (structural_gaps lay \<noteq> []);
     base \<leftarrow> image_base lay;
     site \<leftarrow> hook_site X img base;
     write \<leftarrow> x_opcode_site X img base 0x3b;
     let canaries = global_canaries lay;
     ensure (canaries \<noteq> []);
     let last_guard = Max (set canaries) + 2;
     globals \<leftarrow> x_range_from_bounds X 0xa00000 last_guard;
     len \<leftarrow> u32_try (length img);
     Some \<lparr> normal_address = base, normal_length = len, normal_sha256 = sha256 X img,
            controller_cpu_base = 0xa00000,
            pointer_address = os_object_address site, original_table = os_table_address site,
            write_pointer_address = os_object_address write, write_original_table = os_table_address write,
            table_length = 40, main_callback_offset = 0x24, reserved_windows = structural_gaps lay,
            occupied = overlay_ranges lay @ [globals],
            profile_guards = map (\<lambda>a. \<lparr> cpu_address = a, expected = [0xa5, 0xa5] \<rparr>) canaries,
            ownership_evidence = OWNERSHIP_EVIDENCE, write_path_evidence = WRITE_PATH_EVIDENCE \<rparr> }"

section \<open>Single commands\<close>

definition command_error :: "scsi_error \<Rightarrow> anyhow" where
  "command_error e = (if is_dead_bus e then DeadTransport else Message)"

definition generic_cdb :: "'w host \<Rightarrow> bytes \<Rightarrow> data_direction \<Rightarrow> bytes \<Rightarrow> ('w, anyhow + cdb_reply) io" where
  "generic_cdb H cdb dir data =
     bindE (ensureE (length cdb \<in> {6, 10, 12, 16})) (\<lambda>_.
     bindE (ensureE (length data \<le> 4096)) (\<lambda>_.
     bindE (ensureE (dir \<noteq> DirNone \<or> data = [])) (\<lambda>_.
     bind_io (execute H cdb dir data HOOK_TIMEOUT_MS) (\<lambda>(r, buf).
     case r of
       Inl e \<Rightarrow> errE (command_error e)
     | Inr res \<Rightarrow>
         bindE (ensureE (res_transferred res \<le> length buf)) (\<lambda>_.
         okE \<lparr> reply_cdb = cdb, reply_status = res_status res, reply_transferred = res_transferred res,
               reply_sense = res_sense res,
               reply_data = (if dir = FromDevice then take (res_transferred res) buf else []) \<rparr>)))))"

text \<open>\<open>OpticalTransport::exec\<close>: how the vendor crate's calls reach the bus.\<close>

definition optical_exec :: "'w host \<Rightarrow> bytes \<Rightarrow> drive_data \<Rightarrow> ('w, anyhow + nat \<times> bytes) io" where
  "optical_exec H cdb data =
     (let (dir, bs) = (case data of
        DataNone \<Rightarrow> (DirNone, [])
      | DataIn b \<Rightarrow> (FromDevice, zeros (length b))
      | DataOut b \<Rightarrow> (ToDevice, b)) in
     bind_io (execute H cdb dir bs HOOK_TIMEOUT_MS) (\<lambda>(r, buf).
     case r of
       Inl e \<Rightarrow> errE (command_error e)
     | Inr res \<Rightarrow>
         bindE (ensureE (res_status res = 0)) (\<lambda>_.
         bindE (ensureE (res_transferred res \<le> length buf)) (\<lambda>_.
         okE (res_transferred res, (case data of
           DataIn b \<Rightarrow> overlay (take (res_transferred res) buf) b
         | DataOut b \<Rightarrow> b
         | DataNone \<Rightarrow> []))))))"

section \<open>Drive memory\<close>

definition address :: "'s external \<Rightarrow> hook_profile \<Rightarrow> u32 \<Rightarrow> u32 \<Rightarrow> (u8 \<times> u32) option" where
  "address X p cpu len = do {
     r \<leftarrow> x_range_new X cpu len;
     if controller_cpu_base p \<le> cpu then do {
       let offset = cpu - controller_cpu_base p;
       fin \<leftarrow> checked_add offset len;
       ensure (fin \<le> 0x400000);
       Some (0x93, offset) }
     else do {
       ensure (r_end r \<le> 0x880000);
       Some (0xb0, cpu) } }"

definition memory :: "'w host \<Rightarrow> 's external \<Rightarrow> hook_profile \<Rightarrow> u32 \<Rightarrow> bytes \<Rightarrow> bool \<Rightarrow> ('w, anyhow + bytes) io" where
  "memory H X p cpu bs write =
     bindE (optE (u32_try (length bs))) (\<lambda>total.
     bindE (optE (address X p cpu total)) (\<lambda>_.
     bindE (if write then ensureE (writable_ram cpu total) else okE ()) (\<lambda>_.
     bindE (optE (address X p cpu total)) (\<lambda>(selector, offset).
     bind_io (run_calls (optical_exec H)
         (x_diagnostic_memory X selector offset (if write then DataOut bs else DataIn bs))) (\<lambda>r.
     case r of
       Inl (DriveTransport e) \<Rightarrow> errE e
     | Inl (DriveOther _) \<Rightarrow> errE Message
     | Inr new \<Rightarrow> okE (overlay new bs))))))"

definition mem_read :: "'w host \<Rightarrow> 's external \<Rightarrow> hook_profile \<Rightarrow> u32 \<Rightarrow> u32 \<Rightarrow> ('w, anyhow + bytes) io" where
  "mem_read H X p cpu len =
     bindE (ensureE (0 < len \<and> len \<le> 0x400000)) (\<lambda>_. memory H X p cpu (zeros (unat len)) False)"

definition mem_write :: "'w host \<Rightarrow> 's external \<Rightarrow> hook_profile \<Rightarrow> u32 \<Rightarrow> bytes \<Rightarrow> ('w, anyhow + unit) io" where
  "mem_write H X p cpu bs = bindE (memory H X p cpu bs True) (\<lambda>_. okE ())"

text \<open>\<open>ensure!(read(..)? == want)\<close>\<close>

definition require_read :: "'w host \<Rightarrow> 's external \<Rightarrow> hook_profile \<Rightarrow> u32 \<Rightarrow> u32 \<Rightarrow> bytes \<Rightarrow> ('w, anyhow + unit) io" where
  "require_read H X p cpu len want = bindE (mem_read H X p cpu len) (\<lambda>bs. ensureE (bs = want))"

primrec guards_loop :: "'w host \<Rightarrow> 's external \<Rightarrow> hook_profile \<Rightarrow> hook_guard list \<Rightarrow> ('w, anyhow + unit) io" where
  "guards_loop H X p [] = okE ()"
| "guards_loop H X p (g # gs) =
     bindE (ensureE (expected g \<noteq> [] \<and> length (expected g) \<le> 4096)) (\<lambda>_.
     bindE (optE (u32_try (length (expected g)))) (\<lambda>len.
     bindE (require_read H X p (cpu_address g) len (expected g)) (\<lambda>_.
     guards_loop H X p gs)))"

definition guards :: "'w host \<Rightarrow> 's external \<Rightarrow> hook_profile \<Rightarrow> ('w, anyhow + unit) io" where
  "guards H X p =
     bindE (ensureE (profile_guards p \<noteq> [])) (\<lambda>_. guards_loop H X p (profile_guards p))"

section \<open>Validation and free space\<close>

definition validate_profile :: "'s external \<Rightarrow> hook_profile \<Rightarrow> unit option" where
  "validate_profile X p = do {
     ensure (trim (ownership_evidence p) \<noteq> []);
     ensure (trim (write_path_evidence p) \<noteq> []);
     ensure (0x1100 \<le> normal_length p \<and> normal_length p \<le> 0x400000);
     ensure (case checked_add (normal_address p) (normal_length p) of None \<Rightarrow> False | Some e \<Rightarrow> e \<le> 0x880000);
     ensure (controller_cpu_base p = 0xa00000);
     ensure (pointer_address p mod 2 = 0
       \<and> (case checked_add (pointer_address p) 4 of None \<Rightarrow> False | Some e \<Rightarrow> e \<le> 0x8000));
     ensure (table_length p = 40 \<and> main_callback_offset p = 0x24);
     ensure (write_pointer_address p mod 2 = 0
       \<and> (case checked_add (write_pointer_address p) 4 of None \<Rightarrow> False | Some e \<Rightarrow> e \<le> 0x8000)
       \<and> write_pointer_address p \<noteq> pointer_address p);
     normal \<leftarrow> x_range_new X (normal_address p) (normal_length p);
     table \<leftarrow> x_range_new X (original_table p) (table_length p);
     ensure (x_range_contains X normal table);
     write_table \<leftarrow> x_range_new X (write_original_table p) (table_length p);
     ensure (x_range_contains X normal write_table);
     ram \<leftarrow> x_range_new X (controller_cpu_base p) 0x400000;
     ensure (reserved_windows p \<noteq> []
       \<and> list_all (\<lambda>w. r_start w < r_end w \<and> x_range_contains X ram w) (reserved_windows p)) }"

primrec guard_ranges :: "'s external \<Rightarrow> hook_guard list \<Rightarrow> cpu_range list option" where
  "guard_ranges X [] = Some []"
| "guard_ranges X (g # gs) = do {
     len \<leftarrow> u32_try (length (expected g));
     r \<leftarrow> x_range_new X (cpu_address g) len;
     rs \<leftarrow> guard_ranges X gs;
     Some (r # rs) }"

primrec entry_ranges :: "u32 \<Rightarrow> (u32 \<Rightarrow> u32 \<Rightarrow> cpu_range option option) list \<Rightarrow> cpu_range list option" where
  "entry_ranges base [] = Some []"
| "entry_ranges base (e # es) = do {
     r \<leftarrow> e base 0x400000;
     rs \<leftarrow> entry_ranges base es;
     Some (case r of None \<Rightarrow> rs | Some used \<Rightarrow> used # rs) }"

text \<open>
  The checks of \<open>find_free_spaces\<close> that need the drive are its reads and guards; what lies between
  and after them is computed from the image.
\<close>

definition layout_of :: "'s external \<Rightarrow> hook_profile \<Rightarrow> bytes \<Rightarrow> fw_layout option" where
  "layout_of X p img = do {
     ensure (sha256 X img = normal_sha256 p);
     lay \<leftarrow> x_inspect X img;
     ensure (image_base lay = Some (normal_address p) \<and> overlay_ranges lay \<noteq> [] \<and> buffer_tables lay \<noteq> []);
     Some lay }"

definition derived_profile :: "'s external \<Rightarrow> hook_profile \<Rightarrow> bytes \<Rightarrow> hook_profile option" where
  "derived_profile X p img = do {
     d \<leftarrow> derive_profile X img;
     ensure (pointer_address p = pointer_address d \<and> original_table p = original_table d
       \<and> table_length p = table_length d \<and> write_pointer_address p = write_pointer_address d
       \<and> write_original_table p = write_original_table d);
     ensure (list_all (\<lambda>w. list_ex (\<lambda>g. x_range_contains X g w) (reserved_windows d)) (reserved_windows p));
     Some d }"

definition free_ranges_of :: "'s external \<Rightarrow> hook_profile \<Rightarrow> hook_profile \<Rightarrow> fw_layout \<Rightarrow> u32 \<Rightarrow> free_space list option" where
  "free_ranges_of X p d lay alignment = do {
     from_guards \<leftarrow> guard_ranges X (profile_guards p @ profile_guards d);
     from_tables \<leftarrow> entry_ranges (controller_cpu_base p) (concat (buffer_tables lay));
     free \<leftarrow> x_free_ranges X (reserved_windows p)
       (occupied d @ occupied p @ from_guards @ overlay_ranges lay @ from_tables) alignment;
     Some (map (\<lambda>cpu. \<lparr> fs_cpu = cpu, fs_length = r_length cpu,
         controller_offset = r_start cpu - controller_cpu_base p, firmware_sha256 = normal_sha256 p,
         fs_ownership_evidence = ownership_evidence p \<rparr>) free) }"

definition find_free_spaces :: "'w host \<Rightarrow> 's external \<Rightarrow> hook_profile \<Rightarrow> u32 \<Rightarrow> ('w, anyhow + free_space list) io" where
  "find_free_spaces H X p alignment =
     bindE (optE (validate_profile X p)) (\<lambda>_.
     bindE (mem_read H X p (normal_address p) (normal_length p)) (\<lambda>img.
     bindE (optE (layout_of X p img)) (\<lambda>lay.
     bindE (guards H X p) (\<lambda>_.
     bindE (optE (derived_profile X p img)) (\<lambda>d.
     bindE (guards H X d) (\<lambda>_.
     optE (free_ranges_of X p d lay alignment)))))))"

definition find_free_space :: "'w host \<Rightarrow> 's external \<Rightarrow> hook_profile \<Rightarrow> u32 \<Rightarrow> u32 \<Rightarrow> ('w, anyhow + free_space) io" where
  "find_free_space H X p sz alignment =
     bindE (ensureE (0 < sz \<and> unat sz \<le> MAX_PAYLOAD)) (\<lambda>_.
     bindE (find_free_spaces H X p alignment) (\<lambda>spaces.
     bindE (optE (find (\<lambda>space. sz \<le> r_length (fs_cpu space)) spaces)) (\<lambda>space.
     bindE (optE (x_range_new X (r_start (fs_cpu space)) sz)) (\<lambda>cpu.
     okE (space\<lparr> fs_cpu := cpu, fs_length := sz \<rparr>)))))"

section \<open>Session set-up\<close>

text \<open>
  The vendor knock that enables diagnostic reads, and the read of the firmware image in chunks of
  4096 bytes (each chunk is not empty, so the image's length is enough fuel).
\<close>

definition enable_diagnostic_reads :: "'w host \<Rightarrow> 's external \<Rightarrow> ('w, anyhow + unit) io" where
  "enable_diagnostic_reads H X =
     bindE (generic_cdb H (x_knock X) DirNone []) (\<lambda>reply.
     ensureE (reply_status reply = 0 \<and> reply_transferred reply = 0))"

definition LOAD_CHUNK :: nat where [const_defs]: "LOAD_CHUNK = 4096"

primrec load_loop :: "'w host \<Rightarrow> 's external \<Rightarrow> nat \<Rightarrow> nat \<Rightarrow> bytes \<Rightarrow> ('w, anyhow + bytes) io" where
  "load_loop H X n 0 img = okE img"
| "load_loop H X n (Suc fuel) img =
     (if length img < n then
        let len = min LOAD_CHUNK (n - length img) in
        bindE (generic_cdb H (x_read_memory X (0x410000 + of_nat (length img)) (of_nat len)) FromDevice (zeros len)) (\<lambda>reply.
        bindE (ensureE (reply_status reply = 0 \<and> reply_transferred reply = len)) (\<lambda>_.
        load_loop H X n fuel (img @ reply_data reply)))
      else okE img)"

definition load_normal :: "'w host \<Rightarrow> 's external \<Rightarrow> ('w, anyhow + bytes) io" where
  "load_normal H X =
     bindE (generic_cdb H (x_read_memory X 0x410000 256) FromDevice (zeros 256)) (\<lambda>reply.
     bindE (ensureE (reply_status reply = 0 \<and> reply_transferred reply = 256)) (\<lambda>_.
     bindE (ensureE (starts_with (reply_data reply) [0x50, 0x49, 0x4F, 0x4E, 0x45, 0x45, 0x52, 0x20])) (\<lambda>_.
     bindE (optE (x_read_u32 X (reply_data reply) 20)) (\<lambda>n.
     bindE (ensureE (0x1100 \<le> n \<and> n \<le> 0x3f0000)) (\<lambda>_.
     load_loop H X (unat n) (unat n) [])))))"

section \<open>Preparation\<close>

record prepared =
  prep_profile :: hook_profile
  prep_sites :: sites
  allocation :: cpu_range
  original :: bytes
  payload :: bytes
  installed_pointer :: bytes
  vid_installed_pointer :: bytes

text \<open>The variables the runtime uses are occupied, its two object slots are guarded.\<close>

primrec site_ranges :: "'s external \<Rightarrow> (u32 \<times> u32) list \<Rightarrow> cpu_range list option" where
  "site_ranges X [] = Some []"
| "site_ranges X (a # as) = do {
     r \<leftarrow> x_range_new X (fst a) (snd a);
     rs \<leftarrow> site_ranges X as;
     Some (r # rs) }"

definition runtime_profile :: "'s external \<Rightarrow> bytes \<Rightarrow> sites \<Rightarrow> hook_profile option" where
  "runtime_profile X img s = do {
     p \<leftarrow> derive_profile X img;
     let p = p\<lparr> profile_guards := profile_guards p @ [site_acquisition s, site_reset s] \<rparr>;
     used \<leftarrow> site_ranges X
       [(vid_slot (site_vid s), 4), (site_security_slot s, 4),
        (cpu_address (site_acquisition s), 4), (cpu_address (site_reset s), 4),
        (site_loaded s, 1), (site_checked s, 1), (site_result s, 1), (site_read_engine s, 1),
        (fst (site_buffers s), 16), (snd (site_buffers s), 16)];
     Some (p\<lparr> occupied := occupied p @ used \<rparr>) }"

text \<open>Words of the payload are relocated, a table is copied into it with its callback replaced.\<close>

definition put_slice :: "nat \<Rightarrow> bytes \<Rightarrow> bytes \<Rightarrow> bytes option" where
  "put_slice at new bs = (if at + length new \<le> length bs then Some (put_at at new bs) else None)"

primrec relocate :: "free_space \<Rightarrow> relocation list \<Rightarrow> bytes \<Rightarrow> bytes option" where
  "relocate space [] bs = Some bs"
| "relocate space (r # rs) bs = do {
     v \<leftarrow> checked_add (if controller_relative r then controller_offset space else r_start (fs_cpu space)) (rel_addend r);
     bs \<leftarrow> put_slice (rel_offset r) (be32 v) bs;
     relocate space rs bs }"

definition adjustments_zero :: "bytes \<Rightarrow> bool" where
  "adjustments_zero table \<longleftrightarrow> slice table 0x14 0x18 = zeros 4 \<and> slice table 0x1e 0x22 = zeros 4"

definition hooked_table :: "bytes \<Rightarrow> u32 \<Rightarrow> bytes" where
  "hooked_table table wrapper = put_at 0x24 (be32 wrapper) table"

definition prepare :: "'w host \<Rightarrow> 's external \<Rightarrow> hook_operation \<Rightarrow> bool \<Rightarrow> ('w, anyhow + prepared) io" where
  "prepare H X op existing =
     bindE (enable_diagnostic_reads H X) (\<lambda>_.
     bindE (load_normal H X) (\<lambda>img.
     bindE (optE (build X img op)) (\<lambda>(tramp, s).
     bindE (optE (runtime_profile X img s)) (\<lambda>p.
     bindE (find_free_space H X p (of_nat (length (tr_bytes tramp))) (tr_alignment tramp)) (\<lambda>space.
     let start = r_start (fs_cpu space);
         pointer = be32 (start + table_offset tramp);
         vid_pointer = be32 (start + vid_table_offset tramp);
         v = site_vid s in
     bindE (require_read H X p (pointer_address p) 4 (if existing then pointer else be32 (original_table p))) (\<lambda>_.
     bindE (require_read H X p (write_pointer_address p) 4 (be32 (write_original_table p))) (\<lambda>_.
     bindE (require_read H X p (vid_slot v) 4 (if existing then vid_pointer else be32 (vid_table v))) (\<lambda>_.
     bindE (mem_read H X p (original_table p) 40) (\<lambda>table.
     bindE (ensureE (adjustments_zero table)) (\<lambda>_.
     bindE (optE (relocate space (relocations tramp) (tr_bytes tramp))) (\<lambda>body.
     bindE (optE (put_slice (unat (table_offset tramp)) (hooked_table table (start + wrapper_offset tramp)) body)) (\<lambda>body.
     bindE (mem_read H X p (vid_table v) 40) (\<lambda>table.
     bindE (ensureE (adjustments_zero table)) (\<lambda>_.
     bindE (optE (put_slice (unat (vid_table_offset tramp)) (hooked_table table (start + vid_wrapper_offset tramp)) body)) (\<lambda>body.
     bindE (mem_read H X p start (of_nat (length body))) (\<lambda>before.
     bindE (require_read H X p start (of_nat (length body)) before) (\<lambda>_.
     bindE (ensureE (existing \<longrightarrow> before = body)) (\<lambda>_.
     bindE (mem_read H X p (site_security_slot s) 4) (\<lambda>security.
     bindE (ensureE (security = be32 (site_security_table s)
         \<or> (existing \<and> security = be32 (policy_table s start (length body))))) (\<lambda>_.
     okE \<lparr> prep_profile = p, prep_sites = s, allocation = fs_cpu space, original = before,
           payload = body, installed_pointer = pointer, vid_installed_pointer = vid_pointer \<rparr>))))))))))))))))))))"

section \<open>The transaction\<close>

definition policy_word :: "prepared \<Rightarrow> bytes" where
  "policy_word p = be32 (policy_table (prep_sites p) (r_start (allocation p)) (length (payload p)))"

definition verify_state :: "'w host \<Rightarrow> 's external \<Rightarrow> prepared \<Rightarrow> ('w, anyhow + unit) io" where
  "verify_state H X p =
     bindE (mem_read H X (prep_profile p) (site_loaded (prep_sites p)) 1) (\<lambda>bs.
     if bs \<noteq> [0] then errE Message else
     bindE (mem_read H X (prep_profile p) (site_checked (prep_sites p)) 1) (\<lambda>bs.
     if bs \<noteq> [1] then errE Message else
     bindE (mem_read H X (prep_profile p) (site_result (prep_sites p)) 1) (\<lambda>bs.
     ensureE (bs = [0]))))"

definition restore_policy :: "'w host \<Rightarrow> 's external \<Rightarrow> prepared \<Rightarrow> ('w, anyhow + unit) io" where
  "restore_policy H X p =
     (let slot = site_security_slot (prep_sites p); orig = be32 (site_security_table (prep_sites p)) in
      bindE (mem_read H X (prep_profile p) slot 4) (\<lambda>current.
      bindE (ensureE (current = orig \<or> current = policy_word p)) (\<lambda>_.
      if current = policy_word p then
        bindE (mem_write H X (prep_profile p) slot orig) (\<lambda>_.
        require_read H X (prep_profile p) slot 4 orig)
      else okE ())))"

definition cleanup :: "'w host \<Rightarrow> 's external \<Rightarrow> prepared \<Rightarrow> ('w, anyhow + unit) io" where
  "cleanup H X p =
     (let q = prep_profile p; v = site_vid (prep_sites p) in
      bindE (mem_write H X q (pointer_address q) (be32 (original_table q))) (\<lambda>_.
      bindE (require_read H X q (pointer_address q) 4 (be32 (original_table q))) (\<lambda>_.
      bindE (mem_write H X q (vid_slot v) (be32 (vid_table v))) (\<lambda>_.
      bindE (require_read H X q (vid_slot v) 4 (be32 (vid_table v))) (\<lambda>_.
      bindE (require_read H X q (write_pointer_address q) 4 (be32 (write_original_table q))) (\<lambda>_.
      bindE (guards H X q) (\<lambda>_.
      bindE (restore_policy H X p) (\<lambda>_.
      bindE (mem_write H X q (r_start (allocation p)) (original p)) (\<lambda>_.
      require_read H X q (r_start (allocation p)) (of_nat (length (original p))) (original p))))))))))"

definition check_prepared :: "'w host \<Rightarrow> 's external \<Rightarrow> prepared \<Rightarrow> bool \<Rightarrow> ('w, anyhow + unit) io" where
  "check_prepared H X p existing =
     (let q = prep_profile p; s = prep_sites p; v = site_vid s in
      bindE (guards H X q) (\<lambda>_.
      bindE (mem_read H X q (site_security_slot s) 4) (\<lambda>security.
      bindE (ensureE (security = be32 (site_security_table s) \<or> (existing \<and> security = policy_word p))) (\<lambda>_.
      bindE (require_read H X q (pointer_address q) 4 (if existing then installed_pointer p else be32 (original_table q))) (\<lambda>_.
      bindE (require_read H X q (write_pointer_address q) 4 (be32 (write_original_table q))) (\<lambda>_.
      bindE (require_read H X q (vid_slot v) 4 (if existing then vid_installed_pointer p else be32 (vid_table v))) (\<lambda>_.
      require_read H X q (r_start (allocation p)) (of_nat (length (original p))) (original p))))))))"

definition stage :: "'w host \<Rightarrow> 's external \<Rightarrow> prepared \<Rightarrow> ('w, anyhow + unit) io" where
  "stage H X p =
     (let q = prep_profile p; v = site_vid (prep_sites p) in
      bindE (mem_write H X q (r_start (allocation p)) (payload p)) (\<lambda>_.
      bindE (require_read H X q (r_start (allocation p)) (of_nat (length (payload p))) (payload p)) (\<lambda>_.
      bindE (mem_write H X q (vid_slot v) (vid_installed_pointer p)) (\<lambda>_.
      bindE (require_read H X q (vid_slot v) 4 (vid_installed_pointer p)) (\<lambda>_.
      bindE (mem_write H X q (pointer_address q) (installed_pointer p)) (\<lambda>_.
      require_read H X q (pointer_address q) 4 (installed_pointer p)))))))"

definition verify_resident :: "'w host \<Rightarrow> 's external \<Rightarrow> prepared \<Rightarrow> ('w, anyhow + unit) io" where
  "verify_resident H X p =
     (let q = prep_profile p; v = site_vid (prep_sites p) in
      bindE (require_read H X q (site_security_slot (prep_sites p)) 4 (policy_word p)) (\<lambda>_.
      bindE (guards H X q) (\<lambda>_.
      bindE (require_read H X q (pointer_address q) 4 (installed_pointer p)) (\<lambda>_.
      bindE (require_read H X q (vid_slot v) 4 (vid_installed_pointer p)) (\<lambda>_.
      bindE (require_read H X q (write_pointer_address q) 4 (be32 (write_original_table q))) (\<lambda>_.
      require_read H X q (r_start (allocation p)) (of_nat (length (payload p))) (payload p)))))))"

text \<open>Before the first write a failure is a refusal, from then on it is fatal to the session.\<close>

definition preparation_error :: "anyhow \<Rightarrow> bool \<Rightarrow> unlock_error" where
  "preparation_error e existing = (if existing \<or> e = DeadTransport then Transport else NotApplicable)"

definition transaction_error :: "anyhow \<Rightarrow> unlock_error" where
  "transaction_error e = Transport"

section \<open>What reaches the bus\<close>

text \<open>
  \<open>only P t\<close>: every call the tree can make satisfies \<open>P\<close>. The vendor crate reads memory without
  sending data (\<open>reads_only\<close>), which is what its \<open>Data::In\<close> means.
\<close>

primrec only :: "(bytes \<Rightarrow> drive_data \<Rightarrow> bool) \<Rightarrow> ('e, 'a) calls \<Rightarrow> bool" where
  "only P (Done a) \<longleftrightarrow> True"
| "only P (Call cdb data k) \<longleftrightarrow> P cdb data \<and> (\<forall>r. only P (k r))"

lemma only_True: "(\<And>cdb data. P cdb data) \<Longrightarrow> only P t"
  by (induction t) auto

lemma emits_run_calls: "only (\<lambda>cdb data. emits P (ex cdb data)) t \<Longrightarrow> emits P (run_calls ex t)"
  by (induction t) (auto intro!: emits_intros)

definition no_data_out :: "drive_data \<Rightarrow> bool" where
  "no_data_out d \<longleftrightarrow> (case d of DataOut _ \<Rightarrow> False | _ \<Rightarrow> True)"

definition reads_only :: "'s external \<Rightarrow> bool" where
  "reads_only X \<longleftrightarrow> (\<forall>selector offset bs. only (\<lambda>_. no_data_out) (x_diagnostic_memory X selector offset (DataIn bs)))"

lemma emits_ensureE [emits_intros]: "emits P (ensureE b)"
  by (simp add: ensureE_def emits_ret)

lemma emits_optE [emits_intros]: "emits P (optE x)"
  by (cases x) (simp_all add: optE_def emits_ret)

lemma emits_case_drive_error [emits_intros]:
  "(\<And>e. x = DriveTransport e \<Longrightarrow> emits P (f e)) \<Longrightarrow> (\<And>s. x = DriveOther s \<Longrightarrow> emits P (g s))
    \<Longrightarrow> emits P (case x of DriveTransport e \<Rightarrow> f e | DriveOther s \<Rightarrow> g s)"
  by (cases x) auto

lemma emits_optical:
  assumes "\<And>dir bs r buf. dir = ToDevice \<longrightarrow> \<not> no_data_out data \<Longrightarrow> P (Exec cdb dir bs HOOK_TIMEOUT_MS r buf)"
  shows "emits P (optical_exec H cdb data)"
  unfolding optical_exec_def
  by (cases data) (auto intro!: emits_intros assms simp: no_data_out_def)

lemma emits_generic [emits_intros]:
  assumes "\<And>r buf. P (Exec cdb dir data HOOK_TIMEOUT_MS r buf)"
  shows "emits P (generic_cdb H cdb dir data)"
  unfolding generic_cdb_def by (intro emits_intros assms)

text \<open>Two event predicates at once: one for every command, one for a crate that only reads.\<close>

definition bus_ok :: "'s external \<Rightarrow> bool \<Rightarrow> (event \<Rightarrow> bool) \<Rightarrow> bool" where
  "bus_ok X write P \<longleftrightarrow> (\<forall>cdb dir bs r buf. dir \<noteq> ToDevice \<or> write \<or> \<not> reads_only X
     \<longrightarrow> P (Exec cdb dir bs HOOK_TIMEOUT_MS r buf))"

lemma bus_okD: "bus_ok X write P \<Longrightarrow> dir \<noteq> ToDevice \<or> write \<or> \<not> reads_only X \<Longrightarrow> P (Exec cdb dir bs HOOK_TIMEOUT_MS r buf)"
  by (simp add: bus_ok_def)

lemma emits_memory: "bus_ok X write P \<Longrightarrow> emits P (memory H X p cpu bs write)"
proof -
  assume ok: "bus_ok X write P"
  have calls: "emits P (run_calls (optical_exec H) (x_diagnostic_memory X sel off (if write then DataOut bs else DataIn bs)))" for sel off
  proof (cases "write \<or> \<not> reads_only X")
    case True
    then show ?thesis
      by (intro emits_run_calls only_True emits_optical) (use ok True in \<open>auto intro: bus_okD\<close>)
  next
    case False
    have "only (\<lambda>cdb data. emits P (optical_exec H cdb data)) t" if "only (\<lambda>_. no_data_out) t" for t :: "(anyhow, anyhow drive_error + bytes) calls"
      using that by (induction t) (auto intro!: emits_optical bus_okD [OF ok])
    with False show ?thesis by (intro emits_run_calls) (simp add: reads_only_def)
  qed
  show ?thesis unfolding memory_def by (intro emits_intros calls)
qed

lemma emits_mem_read: "bus_ok X False P \<Longrightarrow> emits P (mem_read H X p cpu len)"
  unfolding mem_read_def by (intro emits_intros emits_memory)

lemma emits_require_read: "bus_ok X False P \<Longrightarrow> emits P (require_read H X p cpu len want)"
  unfolding require_read_def by (intro emits_intros emits_mem_read)

lemma emits_guards: "bus_ok X False P \<Longrightarrow> emits P (guards H X p)"
proof -
  assume ok: "bus_ok X False P"
  have "emits P (guards_loop H X p gs)" for gs
    by (induction gs) (auto intro!: emits_intros emits_require_read ok)
  then show ?thesis unfolding guards_def by (intro emits_intros)
qed

lemma bus_ok_exec: "bus_ok X write P \<Longrightarrow> dir \<noteq> ToDevice \<Longrightarrow> P (Exec cdb dir bs HOOK_TIMEOUT_MS r buf)"
  by (rule bus_okD) auto

lemma bus_ok_read: "bus_ok X True P \<Longrightarrow> bus_ok X False P"
  by (simp add: bus_ok_def)

lemmas emits_reads = emits_mem_read emits_require_read emits_guards

lemma emits_prepare: "bus_ok X False P \<Longrightarrow> emits P (prepare H X op existing)"
proof -
  assume ok: "bus_ok X False P"
  have "emits P (load_loop H X n fuel img)" for n fuel img
    by (induction fuel arbitrary: img) (auto intro!: emits_intros bus_ok_exec [OF ok] simp: Let_def)
  then have load: "emits P (load_normal H X)"
    unfolding load_normal_def by (auto intro!: emits_intros bus_ok_exec [OF ok])
  have space: "emits P (find_free_space H X p sz al)" for p sz al
    unfolding find_free_space_def find_free_spaces_def by (intro emits_intros emits_reads ok)
  have knock: "emits P (enable_diagnostic_reads H X)"
    unfolding enable_diagnostic_reads_def by (auto intro!: emits_intros bus_ok_exec [OF ok])
  show ?thesis
    unfolding prepare_def Let_def
    by (intro emits_intros knock load space emits_reads ok)
qed

lemma emits_check_prepared: "bus_ok X False P \<Longrightarrow> emits P (check_prepared H X p existing)"
  unfolding check_prepared_def Let_def by (intro emits_intros emits_reads)

lemma emits_verify_state: "bus_ok X False P \<Longrightarrow> emits P (verify_state H X p)"
  unfolding verify_state_def by (intro emits_intros emits_reads)

lemma emits_verify_resident: "bus_ok X False P \<Longrightarrow> emits P (verify_resident H X p)"
  unfolding verify_resident_def Let_def by (intro emits_intros emits_reads)

lemma emits_stage: "bus_ok X True P \<Longrightarrow> emits P (stage H X p)"
  unfolding stage_def Let_def mem_write_def
  by (intro emits_intros emits_reads emits_memory bus_ok_read)

lemma emits_cleanup: "bus_ok X True P \<Longrightarrow> emits P (cleanup H X p)"
  unfolding cleanup_def restore_policy_def Let_def mem_write_def
  by (intro emits_intros emits_reads emits_memory bus_ok_read)

end
