(* ===== verification/Freemkv_Backend.thy ===== *)
theory Freemkv_Backend
  imports Vid Protocol
begin

text \<open>
  The common unlock sequence of \<open>src/freemkv/mod.rs\<close> over its \<open>Backend\<close> trait, and the live-loader
  seam of \<open>src/freemkv/mediatek.rs\<close>. A trait object is a record of its methods and the state they
  work on; a method that takes \<open>&mut self\<close> returns the new state with its result.
\<close>

section \<open>The Backend trait\<close>

type_synonym ('w, 'b) changing = "('w, (unlock_error + unit) \<times> 'b) io"

record ('w, 'b) backend =
  b_timeout :: "'b \<Rightarrow> feature \<Rightarrow> u32"
  b_prepare :: "'w host \<Rightarrow> 'b \<Rightarrow> bool \<Rightarrow> ('w, 'b) changing"
  b_validate :: "'b \<Rightarrow> scsi_result \<Rightarrow> bytes \<Rightarrow> unlock_error + unit"
  b_install :: "'w host \<Rightarrow> 'b \<Rightarrow> bool \<Rightarrow> ('w, 'b) changing"
  b_capabilities :: "'b \<Rightarrow> capabilities"
  b_verify :: "'w host \<Rightarrow> 'b \<Rightarrow> ('w, unlock_error + unit) io"
  b_tune :: "'w host \<Rightarrow> 'b \<Rightarrow> ('w, unlock_error + unit) io"
  b_get_vid :: "'w host \<Rightarrow> 'b \<Rightarrow> ('w, unlock_error + bytes option) io"
  b_finish :: "'w host \<Rightarrow> 'b \<Rightarrow> bool \<Rightarrow> ('w, 'b) changing"

text \<open>The trait's default methods; \<open>capabilities\<close> has none.\<close>

definition backend_defaults :: "('b \<Rightarrow> capabilities) \<Rightarrow> ('w, 'b) backend" where
  "backend_defaults c = \<lparr>
     b_timeout = (\<lambda>_ _. 5000),
     b_prepare = (\<lambda>_ b _. ret (Inr (), b)),
     b_validate = (\<lambda>_ _ _. Inr ()),
     b_install = (\<lambda>_ b installed. ret (if installed then Inr () else Inl NotApplicable, b)),
     b_capabilities = c,
     b_verify = (\<lambda>_ _. okE ()),
     b_tune = (\<lambda>_ _. okE ()),
     b_get_vid = (\<lambda>H _. read_aacs_vid H),
     b_finish = (\<lambda>_ b _. ret (Inr (), b)) \<rparr>"

text \<open>Drives whose firmware was flashed: the state is the capabilities, every method the default.\<close>

record preinstalled =
  pre_capabilities :: capabilities

definition Preinstalled :: "('w, preinstalled) backend" where
  "Preinstalled = backend_defaults pre_capabilities"

section \<open>The live-loader seam\<close>

record 'w live_loader =
  l_is_mediatek :: "drive_id \<Rightarrow> bool"
  l_load :: "'w host \<Rightarrow> ('w, unlock_error + unit) io"

record 'w freemkv_unlocker =
  mediatek_loader :: "'w live_loader option"

definition freemkv_unlocker_new :: "'w freemkv_unlocker" where
  "freemkv_unlocker_new = \<lparr> mediatek_loader = None \<rparr>"

definition with_mediatek_loader :: "'w freemkv_unlocker \<Rightarrow> 'w live_loader \<Rightarrow> 'w freemkv_unlocker" where
  "with_mediatek_loader u loader = u\<lparr> mediatek_loader := Some loader \<rparr>"

section \<open>Commands\<close>

definition RESP_LEN :: nat where [const_defs]: "RESP_LEN = MEMREAD_LEN"

definition probe :: "'w host \<Rightarrow> ('w, unlock_error + protocol_identity option) io" where
  "probe H =
     bind_io (execute H (build_identity_cdb (of_nat RESP_LEN)) FromDevice (zeros RESP_LEN) 5000) (\<lambda>(r, buf).
     case r of
       Inr res \<Rightarrow>
         if res_status res = 0 \<and> res_transferred res \<le> length buf then
           let bs = take (res_transferred res) buf in
           case protocol_identity_parse bs of
             Some i \<Rightarrow> okE (Some i)
           | None \<Rightarrow> if firmware_identity_parse bs \<noteq> None then errE NotApplicable else okE None
         else okE None
     | Inl e \<Rightarrow> if is_dead_bus e then errE Transport else okE None)"

definition set_checked :: "'w host \<Rightarrow> feature \<Rightarrow> u8 \<Rightarrow> (('w, 'b) backend \<times> 'b) option \<Rightarrow> ('w, unlock_error + unit) io" where
  "set_checked H f state backend =
     bind_io (execute H (build_set_cdb f state) FromDevice (zeros (unat MIN_ALLOC_LEN))
         (case backend of None \<Rightarrow> 5000 | Some (B, b) \<Rightarrow> b_timeout B b f)) (\<lambda>(r, buf).
     case r of
       Inr res \<Rightarrow>
         if res_status res = 0 then
           (case backend of Some (B, b) \<Rightarrow> ret (b_validate B b res buf) | None \<Rightarrow> okE ())
         else errE NotApplicable
     | Inl e \<Rightarrow> if is_dead_bus e then errE Transport else errE NotApplicable)"

section \<open>Activation\<close>

text \<open>
  The optional settings in order: one the implementation does not offer is skipped, a refused one
  is passed over, only \<open>Transport\<close> stops.
\<close>

definition optional_settings :: "(feature \<times> u8) list" where
  "optional_settings = [(Region, REGION_FREE), (Speed, SPEED_MAX), (Unrestricted, STATE_ON)]"

primrec activate_optional :: "'w host \<Rightarrow> ('w, 'b) backend \<Rightarrow> 'b \<Rightarrow> (feature \<times> u8) list \<Rightarrow> ('w, unlock_error + unit) io" where
  "activate_optional H B b [] = okE ()"
| "activate_optional H B b (s # rest) =
     (if supports_set (b_capabilities B b) (fst s) (snd s) then
        bind_io (set_checked H (fst s) (snd s) (Some (B, b))) (\<lambda>r.
        if r = Inl Transport then errE Transport else activate_optional H B b rest)
      else activate_optional H B b rest)"

definition encryption_error :: "unlock_error \<Rightarrow> unlock_error" where
  "encryption_error e = (case e of Transport \<Rightarrow> e | _ \<Rightarrow> VidUnavailable)"

definition activate :: "'w host \<Rightarrow> ('w, 'b) backend \<Rightarrow> 'b \<Rightarrow> ('w, unlock_error + unit) io" where
  "activate H B b =
     bindE (activate_optional H B b optional_settings) (\<lambda>_.
     if \<not> supports_set (b_capabilities B b) Encryption STATE_OFF then errE NotApplicable
     else map_errE encryption_error (set_checked H Encryption STATE_OFF (Some (B, b))))"

definition activate_backend :: "'w host \<Rightarrow> ('w, 'b) backend \<Rightarrow> 'b \<Rightarrow> ('w, unlock_error + unlocked) io" where
  "activate_backend H B b =
     bindE (activate H B b) (\<lambda>_.
     bindE (b_verify B H b) (\<lambda>_.
     bindE (b_get_vid B H b) (\<lambda>v.
     okE \<lparr> vid = v, bus_key = None \<rparr>)))"

section \<open>The unlock sequence\<close>

text \<open>
  The closure inside the critical span: install, identify a runtime that was just installed,
  activate. The backend changes only in \<open>install\<close>.
\<close>

definition require_identity :: "'w host \<Rightarrow> ('w, unlock_error + protocol_identity) io" where
  "require_identity H =
     bindE (probe H) (\<lambda>i. case i of None \<Rightarrow> errE NotApplicable | Some i \<Rightarrow> okE i)"

definition installed_identity :: "'w host \<Rightarrow> ('w, 'b) backend \<Rightarrow> 'b \<Rightarrow> bool \<Rightarrow> ('w, unlock_error + unit) io" where
  "installed_identity H B b installed =
     (if installed then okE ()
      else bindE (require_identity H) (\<lambda>i.
        if caps i \<noteq> b_capabilities B b then errE NotApplicable else okE ()))"

definition transaction :: "'w host \<Rightarrow> ('w, 'b) backend \<Rightarrow> 'b \<Rightarrow> bool \<Rightarrow> ('w, (unlock_error + unlocked) \<times> 'b) io" where
  "transaction H B b installed =
     bind_io (b_install B H b installed) (\<lambda>(r, b).
     case r of
       Inl e \<Rightarrow> ret (Inl e, b)
     | Inr _ \<Rightarrow>
         bind_io (bindE (installed_identity H B b installed) (\<lambda>_. activate_backend H B b)) (\<lambda>r.
         ret (r, b)))"

text \<open>
  \<open>unlock_backend\<close>: the transaction and the backend's \<open>finish\<close> run inside one critical span; an
  error of \<open>finish\<close> replaces the result. A zero pause then delivers a deferred cancellation.
  The span's own result carries the backend state that the tuning works on.
\<close>

definition guarded_transaction :: "'w host \<Rightarrow> ('w, 'b) backend \<Rightarrow> 'b \<Rightarrow> bool \<Rightarrow> ('w, unlock_error + (unlock_error + unlocked) \<times> 'b) io" where
  "guarded_transaction H B b installed =
     bind_io (transaction H B b installed) (\<lambda>(r, b).
     bind_io (b_finish B H b (case r of Inr _ \<Rightarrow> True | Inl _ \<Rightarrow> False)) (\<lambda>(f, b).
     case f of
       Inl e \<Rightarrow> errE e
     | Inr _ \<Rightarrow> okE (r, b)))"

definition unlock_backend :: "'w host \<Rightarrow> ('w, 'b) backend \<Rightarrow> 'b \<Rightarrow> bool \<Rightarrow> ('w, unlock_error + unlocked) io" where
  "unlock_backend H B b installed =
     bindE (with_critical H (\<lambda>_. Transport) (guarded_transaction H B b installed)) (\<lambda>(r, b).
     bindE (map_errE (\<lambda>_. Transport) (pause H 0)) (\<lambda>_.
     case r of
       Inr u \<Rightarrow> bindE (b_tune B H b) (\<lambda>_. okE u)
     | Inl e \<Rightarrow> errE e))"

text \<open>The tail of \<open>full_unlock_with_drive\<close>, once the backend is chosen.\<close>

definition run_backend :: "'w host \<Rightarrow> ('w, 'b) backend \<Rightarrow> 'b \<Rightarrow> bool \<Rightarrow> ('w, unlock_error + unlocked) io" where
  "run_backend H B b installed =
     bind_io (b_prepare B H b installed) (\<lambda>(r, b).
     case r of
       Inl e \<Rightarrow> errE e
     | Inr _ \<Rightarrow> unlock_backend H B b installed)"

definition load_mediatek :: "'w host \<Rightarrow> 'w live_loader \<Rightarrow> ('w, unlock_error + unlocked) io" where
  "load_mediatek H loader =
     bindE (with_critical H (\<lambda>_. Transport)
       (bind_io
         (bindE (l_load loader H) (\<lambda>_.
          bindE (require_identity H) (\<lambda>i.
          if implementation_of (caps i) \<noteq> Firmware then errE NotApplicable
          else activate_backend H Preinstalled \<lparr> pre_capabilities = caps i \<rparr>)))
         okE)) (\<lambda>r.
     bindE (map_errE (\<lambda>_. Transport) (pause H 0)) (\<lambda>_.
     ret r))"

section \<open>The contract of a backend\<close>

text \<open>
  What the sequence needs of a backend. It leaves the critical spans to the sequence; and, with a
  vendor crate that keeps its own contract (\<open>sane\<close>), it writes to the drive only while installing
  and finishing, it knows from then on that it owns the drive (\<open>owns\<close>), and as the owner it
  finishes successfully only after a success and reports everything else as \<open>Transport\<close>.
\<close>

abbreviation spanless :: "event \<Rightarrow> bool" where
  "spanless ev \<equiv> \<not> is_span_event ev"

locale spanless_backend =
  fixes B :: "('w, 'b) backend"
  assumes spanless_prepare: "emits spanless (b_prepare B H b installed)"
    and spanless_install: "emits spanless (b_install B H b installed)"
    and spanless_verify: "emits spanless (b_verify B H b)"
    and spanless_tune: "emits spanless (b_tune B H b)"
    and spanless_vid: "emits spanless (b_get_vid B H b)"
    and spanless_finish: "emits spanless (b_finish B H b success)"
begin

lemma spanless_activate: "emits spanless (activate H B b)"
proof -
  have set: "emits spanless (set_checked H f st k)" for f st and k :: "(('w, 'b) backend \<times> 'b) option"
    unfolding set_checked_def by (auto intro!: emits_intros split: option.split)
  have "emits spanless (activate_optional H B b fs)" for fs
    by (induction fs) (auto intro!: emits_intros set)
  with set show ?thesis unfolding activate_def by (auto intro!: emits_intros)
qed

lemma spanless_probe: "emits spanless (probe H)" "emits spanless (require_identity H)"
proof -
  show p: "emits spanless (probe H)"
    unfolding probe_def by (auto intro!: emits_intros simp: Let_def)
  then show "emits spanless (require_identity H)"
    unfolding require_identity_def by (auto intro!: emits_intros)
qed

lemma spanless_activate_backend: "emits spanless (activate_backend H B b)"
  unfolding activate_backend_def
  by (intro emits_intros spanless_activate spanless_verify spanless_vid)

lemma spanless_transaction: "emits spanless (guarded_transaction H B b installed)"
  unfolding guarded_transaction_def transaction_def installed_identity_def
  by (auto intro!: emits_intros spanless_install spanless_activate_backend spanless_finish spanless_probe)

lemma spans_unlock: "sat (unlock_backend H B b installed) (\<lambda>_ es. spans False es = Some False)"
proof -
  have rest: "emits spanless (bindE (map_errE (\<lambda>_. Transport) (pause H 0)) (\<lambda>_. case r of
      Inr u \<Rightarrow> bindE (b_tune B H b') (\<lambda>_. okE u) | Inl e \<Rightarrow> errE e))" for r b'
    by (auto intro!: emits_intros spanless_tune)
  show ?thesis
    unfolding unlock_backend_def
    by (rule sat_bindE [OF sat_with_critical_spans [OF spanless_transaction]])
       (auto simp: spans_append spans_none intro!: sat_weaken [OF rest [unfolded emits_def]])
qed

lemma spans_run: "sat (run_backend H B b installed) (\<lambda>_ es. spans False es = Some False)"
  unfolding run_backend_def
  by (rule sat_bind [OF spanless_prepare [unfolded emits_def]])
     (auto simp: spans_append spans_none split: sum.split intro!: sat_weaken [OF spans_unlock])

end

fun is_write :: "event \<Rightarrow> bool" where
  "is_write (Exec _ dir _ _ _ _) \<longleftrightarrow> dir = ToDevice"
| "is_write (Cleanup _ dir _ _ _ _) \<longleftrightarrow> dir = ToDevice"
| "is_write _ \<longleftrightarrow> False"

definition written :: "event list \<Rightarrow> bool" where
  "written es \<longleftrightarrow> list_ex is_write es"

lemma written_simps [simp]:
  "\<not> written []" "written (es @ es') \<longleftrightarrow> written es \<or> written es'" "written (ev # es) \<longleftrightarrow> is_write ev \<or> written es"
  by (simp_all add: written_def)

lemma quiet_not_written: "list_all quiet es \<Longrightarrow> \<not> written es"
  unfolding written_def by (induction es) (auto, metis quiet.simps(1,2) is_write.elims(2))

lemma quiet_spanless: "list_all quiet es \<Longrightarrow> list_all spanless es"
  by (induction es) (auto, metis quiet.simps(4,5) is_span_event.elims(2))

locale careful_backend = spanless_backend B for B :: "('w, 'b) backend" +
  fixes owns :: "'b \<Rightarrow> bool" and fresh :: "'b \<Rightarrow> bool" and sane :: bool
  assumes quiet_prepare: "sane \<Longrightarrow> fresh b \<Longrightarrow> sat (b_prepare B H b installed) (\<lambda>(r, b') es. list_all quiet es \<and> fresh b')"
    and install_owns: "sane \<Longrightarrow> fresh b \<Longrightarrow> sat (b_install B H b installed) (\<lambda>(r, b') es. written es \<longrightarrow> owns b')"
    and quiet_verify: "sane \<Longrightarrow> emits quiet (b_verify B H b)"
    and quiet_vid: "sane \<Longrightarrow> emits quiet (b_get_vid B H b)"
    and quiet_tune: "emits quiet (b_tune B H b)"
    and tune_error: "sat (b_tune B H b) (\<lambda>r _. \<forall>e. r = Inl e \<longrightarrow> e = Transport)"
    and finish_idle: "\<not> owns b \<Longrightarrow> emits quiet (b_finish B H b success)"
    and finish_owned: "owns b \<Longrightarrow> sat (b_finish B H b success) (\<lambda>(r, b') es. case r of Inl e \<Rightarrow> e = Transport | Inr _ \<Rightarrow> success)"
begin

lemma quiet_activate_backend: "sane \<Longrightarrow> emits quiet (activate_backend H B b)"
proof -
  have set: "emits quiet (set_checked H f st k)" for f st and k :: "(('w, 'b) backend \<times> 'b) option"
    unfolding set_checked_def by (auto intro!: emits_intros split: option.split)
  have "emits quiet (activate_optional H B b fs)" for fs
    by (induction fs) (auto intro!: emits_intros set)
  with set have "emits quiet (activate H B b)" unfolding activate_def by (auto intro!: emits_intros)
  then show "sane \<Longrightarrow> ?thesis"
    unfolding activate_backend_def by (auto intro!: emits_intros quiet_verify quiet_vid)
qed

lemma quiet_probe: "emits quiet (probe H)" "emits quiet (installed_identity H B b installed)"
proof -
  show p: "emits quiet (probe H)"
    unfolding probe_def by (auto intro!: emits_intros simp: Let_def)
  then show "emits quiet (installed_identity H B b installed)"
    unfolding installed_identity_def require_identity_def by (auto intro!: emits_intros)
qed

text \<open>After a write the span's result is an unlock or \<open>Transport\<close>.\<close>

definition committed :: "unlock_error + (unlock_error + unlocked) \<times> 'b \<Rightarrow> bool" where
  "committed x \<longleftrightarrow> (case x of Inl e \<Rightarrow> e = Transport | Inr (r, _) \<Rightarrow> (\<exists>u. r = Inr u))"

lemma transaction_owns:
  assumes sane "fresh b"
  shows "sat (transaction H B b installed) (\<lambda>(r, b') es. written es \<longrightarrow> owns b')"
proof -
  have quiet: "sat (bindE (installed_identity H B b' installed) (\<lambda>_. activate_backend H B b')) (\<lambda>_ es. \<not> written es)" for b'
  proof -
    have "emits quiet (bindE (installed_identity H B b' installed) (\<lambda>_. activate_backend H B b'))"
      by (intro emits_bindE quiet_probe quiet_activate_backend assms(1))
    then show ?thesis by (auto simp: emits_def elim!: sat_weaken dest: quiet_not_written)
  qed
  show ?thesis
    unfolding transaction_def
    by (rule sat_bind [OF install_owns [OF assms]])
       (auto split: sum.split intro!: sat_bind [OF quiet])
qed

lemma committed_transaction:
  assumes sane "fresh b"
  shows "sat (guarded_transaction H B b installed) (\<lambda>x es. written es \<longrightarrow> committed x)"
  unfolding guarded_transaction_def
proof (rule sat_bind [OF transaction_owns [OF assms]], goal_cases)
  case (1 rb es)
  obtain r b' where rb: "rb = (r, b')" by (cases rb)
  show ?case
  proof (cases "owns b'")
    case True
    show ?thesis
      unfolding rb
      by (auto intro!: sat_bind [OF finish_owned [OF True]] simp: committed_def split: sum.splits)
  next
    case False
    with 1 have "\<not> written es" by (simp add: rb)
    then show ?thesis
      unfolding rb using finish_idle [OF False, of H, unfolded emits_def]
      by (auto intro!: sat_bind [OF finish_idle [OF False, unfolded emits_def]] dest: quiet_not_written split: sum.splits)
  qed
qed

lemma unlock_guarded:
  assumes sane "fresh b"
  shows "sat (unlock_backend H B b installed) (\<lambda>r es. guarded False es = Some False
    \<and> (written es \<longrightarrow> r = Inl Transport \<or> (\<exists>u. r = Inr u)))"
proof -
  have span: "sat (guarded_transaction H B b installed) (\<lambda>x es. list_all spanless es \<and> (written es \<longrightarrow> committed x))"
    by (rule sat_conj [OF spanless_transaction [unfolded emits_def] committed_transaction [OF assms]])
  have inside: "guarded True es = Some True" if "list_all spanless es" for es
    using that by (induction "True" es rule: guarded.induct) auto
  show ?thesis
    unfolding unlock_backend_def
  proof (rule sat_bindE [OF sat_with_critical [OF span, of H "\<lambda>_. Transport"]], goal_cases)
    case (1 e es)
    then show ?case by (auto simp: committed_def guarded_append inside)
  next
    case (2 rb es)
    obtain r b' where rb: "rb = (r, b')" by (cases rb)
    with 2 obtain es' where es: "es = BeginCritical (Inr ()) # es' @ [EndCritical]" "list_all spanless es'"
        "written es' \<longrightarrow> (\<exists>u. r = Inr u)" by (auto simp: committed_def)
    have span: "guarded False es = Some False" "written es \<longleftrightarrow> written es'"
      using es by (simp_all add: guarded_append inside)
    have tune: "sat (bindE (b_tune B H b') (\<lambda>_. okE u)) (\<lambda>r es. list_all quiet es \<and> (r = Inl Transport \<or> r = Inr u))" for u :: unlocked
      by (rule sat_bindE [OF sat_conj [OF quiet_tune [unfolded emits_def] tune_error]]) auto
    show ?case
      unfolding rb prod.case
    proof (rule sat_bindE [OF sat_map_errE [OF sat_pause, where Q = "\<lambda>r es. (\<exists>x. es = [Pause 0 x]) \<and> (\<forall>e. r = Inl e \<longrightarrow> e = Transport)"]],
        goal_cases)
      case (4 a esp)
      then show ?case
        using es(3) span
        by (cases r) (auto simp: guarded_append quiet_guarded dest: quiet_not_written intro!: sat_weaken [OF tune])
    qed (use span in \<open>auto simp: guarded_append\<close>)
  qed
qed

lemma run_guarded:
  assumes sane "fresh b"
  shows "sat (run_backend H B b installed) (\<lambda>r es. guarded False es = Some False
    \<and> (written es \<longrightarrow> r = Inl Transport \<or> (\<exists>u. r = Inr u)))"
  unfolding run_backend_def
proof (rule sat_bind [OF quiet_prepare [OF assms]], goal_cases)
  case (1 rb es)
  then show ?case
    by (cases rb) (auto split: sum.split simp: guarded_append quiet_guarded dest: quiet_not_written
        intro!: sat_weaken [OF unlock_guarded [OF assms(1)]])
qed

end

text \<open>The flashed firmware never owns the drive: nothing is installed.\<close>

interpretation pre: careful_backend Preinstalled "\<lambda>_. False" "\<lambda>_. True" True
proof -
  have vid: "emits P (read_aacs_vid H)" if "\<And>r buf. P (Exec build_vid_cdb FromDevice (zeros 36) 5000 r buf)" for P H
    using that by (rule emits_read_aacs_vid)
  show "careful_backend Preinstalled (\<lambda>_. False) (\<lambda>_. True) True"
    by unfold_locales (auto simp: Preinstalled_def backend_defaults_def intro!: emits_intros)
qed

end
