(* ===== verification/Renesas.thy ===== *)
theory Renesas
  imports Renesas_Hook Freemkv_Backend
begin

text \<open>
  The Renesas platform (\<open>src/freemkv/renesas.rs\<close>, \<open>renesas/speed.rs\<close>): its detection, the read of
  the hardware Volume ID, the speed policy, and the \<open>Backend\<close> that runs the transaction of
  \<open>Renesas_Hook\<close>.
\<close>

unbundle bit_operations_syntax

section \<open>Detection\<close>

definition RENESAS_MARKER :: bytes where [const_defs]: "RENESAS_MARKER = [0x53, 0x41, 0x54]"
definition RENESAS_MARKER_OFFSET :: nat where [const_defs]: "RENESAS_MARKER_OFFSET = 16"

definition is_renesas :: "'w host \<Rightarrow> 's external \<Rightarrow> ('w, unlock_error + bool) io" where
  "is_renesas H X =
     bind_io (execute H (x_vendor_identity X) FromDevice (zeros (x_identity_len X)) 5000) (\<lambda>(r, buf).
     case r of
       Inr res \<Rightarrow>
         let fin = RENESAS_MARKER_OFFSET + length RENESAS_MARKER in
         okE (res_status res = 0 \<and> fin \<le> res_transferred res \<and> res_transferred res \<le> length buf
           \<and> slice buf RENESAS_MARKER_OFFSET fin = RENESAS_MARKER)
     | Inl e \<Rightarrow> if is_dead_bus e then errE Transport else okE False)"

section \<open>The hardware Volume ID\<close>

definition VID_STATUS_CDB :: bytes where "VID_STATUS_CDB = [0x3c, 2, 0x92, 0, 0x0d, 0x3c, 0, 0, 1, 0]"
definition VID_CDB :: bytes where "VID_CDB = [0x3c, 2, 0x92, 0, 0x0d, 0x20, 0, 0, 16, 0]"

definition renesas_read_vid :: "'w host \<Rightarrow> ('w, unlock_error + bytes option) io" where
  "renesas_read_vid H =
     bind_io (execute H VID_STATUS_CDB FromDevice (zeros 1) 5000) (\<lambda>(r, status).
     if (case r of Inr res \<Rightarrow> res_status res = 0 \<and> res_transferred res = 1 \<and> byte_at status 0 AND 2 \<noteq> 0
         | Inl _ \<Rightarrow> False)
     then bind_io (execute H VID_CDB FromDevice (zeros 16) 5000) (\<lambda>(r, buf). case r of
       Inl e \<Rightarrow> if is_dead_bus e then errE Transport else okE None
     | Inr res \<Rightarrow>
         okE (if res_status res \<noteq> 0 \<or> res_transferred res \<noteq> length buf
                \<or> list_all (\<lambda>b. b = 0) buf \<or> list_all (\<lambda>b. b = 0xff) buf
              then None else Some buf))
     else (case r of
       Inl e \<Rightarrow> if is_dead_bus e then errE Transport else okE None
     | Inr _ \<Rightarrow> okE None))"

section \<open>Speed policy\<close>

definition SENSELESS :: bytes where "SENSELESS = zeros 32"

definition adapter_exec :: "'w host \<Rightarrow> bytes \<Rightarrow> drive_data \<Rightarrow> ('w, scsi_error + nat \<times> bytes) io" where
  "adapter_exec H cdb data =
     (let send = (\<lambda>dir bs.
        bind_io (execute H cdb dir bs 5000) (\<lambda>(r, buf). case r of
          Inl e \<Rightarrow> errE e
        | Inr res \<Rightarrow>
            if res_status res \<noteq> 0 then errE \<lparr> err_status = res_status res, err_sense = Some (res_sense res) \<rparr>
            else okE (res_transferred res, buf))) in
      case data of
        DataNone \<Rightarrow> send DirNone []
      | DataIn b \<Rightarrow> send FromDevice b
      | DataOut _ \<Rightarrow> errE \<lparr> err_status = 2, err_sense = Some SENSELESS \<rparr>)"

definition speed_select :: "'w host \<Rightarrow> 's external
    \<Rightarrow> ('w, scsi_error drive_error + (quiet_state, scsi_error) write_outcome) io" where
  "speed_select H X = run_calls (adapter_exec H) (x_set_quiet_drive X QuietStandard Volatile)"

definition speed_error :: "scsi_error drive_error \<Rightarrow> unlock_error + unit" where
  "speed_error e = (case e of
     DriveTransport source \<Rightarrow> if is_dead_bus source then Inl Transport else Inr ()
   | DriveOther _ \<Rightarrow> Inr ())"

definition speed_configure :: "'w host \<Rightarrow> 's external \<Rightarrow> ('w, unlock_error + unit) io" where
  "speed_configure H X =
     bind_io (speed_select H X) (\<lambda>r. ret (case r of
       Inl e \<Rightarrow> speed_error e
     | Inr (Unverified e) \<Rightarrow> speed_error e
     | Inr (Verified _) \<Rightarrow> Inr ()
     | Inr (Unchanged _) \<Rightarrow> Inr ()
     | Inr (Mismatch _) \<Rightarrow> Inr ()))"

section \<open>The backend\<close>

record renesas_backend =
  rb_prepared :: "prepared option"
  rb_existing :: bool
  rb_touched :: bool

definition renesas_backend_new :: renesas_backend where
  "renesas_backend_new = \<lparr> rb_prepared = None, rb_existing = False, rb_touched = False \<rparr>"

definition renesas_timeout :: "feature \<Rightarrow> u32" where
  "renesas_timeout f = (if f = Encryption then 30000 else 5000)"

definition renesas_prepare :: "'s external \<Rightarrow> 'w host \<Rightarrow> renesas_backend \<Rightarrow> bool \<Rightarrow> ('w, renesas_backend) changing" where
  "renesas_prepare X H b installed =
     bind_io (prepare H X Suppress installed) (\<lambda>r. case r of
       Inl e \<Rightarrow> ret (Inl (preparation_error e installed), b)
     | Inr p \<Rightarrow> ret (Inr (), b\<lparr> rb_existing := installed, rb_prepared := Some p \<rparr>))"

definition renesas_install :: "'s external \<Rightarrow> 'w host \<Rightarrow> renesas_backend \<Rightarrow> bool \<Rightarrow> ('w, renesas_backend) changing" where
  "renesas_install X H b installed = (case rb_prepared b of
     None \<Rightarrow> ret (Inl NotApplicable, b)
   | Some p \<Rightarrow>
       bind_io (check_prepared H X p installed) (\<lambda>r. case r of
         Inl e \<Rightarrow> ret (Inl (preparation_error e installed), b)
       | Inr _ \<Rightarrow>
           let b = b\<lparr> rb_touched := True \<rparr> in
           if installed then ret (Inr (), b)
           else bind_io (map_errE transaction_error (stage H X p)) (\<lambda>r. ret (r, b))))"

definition renesas_validate :: "scsi_result \<Rightarrow> bytes \<Rightarrow> unlock_error + unit" where
  "renesas_validate reply data =
     (if res_transferred reply = 64 \<and> data = zeros 64 then Inr () else Inl Transport)"

definition renesas_verify :: "'s external \<Rightarrow> 'w host \<Rightarrow> renesas_backend \<Rightarrow> ('w, unlock_error + unit) io" where
  "renesas_verify X H b = (case rb_prepared b of
     None \<Rightarrow> errE NotApplicable
   | Some p \<Rightarrow>
       bindE (map_errE transaction_error (verify_state H X p)) (\<lambda>_.
       map_errE transaction_error (verify_resident H X p)))"

definition renesas_finish :: "'s external \<Rightarrow> 'w host \<Rightarrow> renesas_backend \<Rightarrow> bool \<Rightarrow> ('w, renesas_backend) changing" where
  "renesas_finish X H b success =
     (if \<not> rb_touched b then ret (Inr (), b)
      else case rb_prepared b of
        None \<Rightarrow> ret (Inr (), b)
      | Some p \<Rightarrow>
          bind_io (if success
                   then bind_io (verify_resident H X p) (\<lambda>r. ret (case r of Inr _ \<Rightarrow> True | Inl _ \<Rightarrow> False))
                   else ret False) (\<lambda>verified.
          if verified then ret (Inr (), b)
          else if rb_existing b then ret (Inl Transport, b)
          else bind_io (map_errE transaction_error (cleanup H X p)) (\<lambda>r. case r of
            Inl e \<Rightarrow> ret (Inl e, b)
          | Inr _ \<Rightarrow> ret (Inl Transport, b))))"

text \<open>\<open>get_vid\<close> is the trait's default: the bare Volume ID read, which the hook serves.\<close>

definition renesas_runtime :: "'s external \<Rightarrow> ('w, renesas_backend) backend" where
  "renesas_runtime X = (backend_defaults (\<lambda>_. PIONEER_RUNTIME))\<lparr>
     b_timeout := (\<lambda>_. renesas_timeout),
     b_prepare := renesas_prepare X,
     b_install := renesas_install X,
     b_validate := (\<lambda>_. renesas_validate),
     b_tune := (\<lambda>H _. speed_configure H X),
     b_verify := renesas_verify X,
     b_finish := renesas_finish X \<rparr>"

section \<open>The backend keeps its contract\<close>

lemma emits_adapter: "(\<And>dir bs r buf. dir \<noteq> ToDevice \<Longrightarrow> P (Exec cdb dir bs 5000 r buf)) \<Longrightarrow> emits P (adapter_exec H cdb data)"
  unfolding adapter_exec_def Let_def
  by (cases data) (auto intro!: emits_intros)

lemma emits_speed_configure:
  "(\<And>cdb dir bs r buf. dir \<noteq> ToDevice \<Longrightarrow> P (Exec cdb dir bs 5000 r buf)) \<Longrightarrow> emits P (speed_configure H X)"
  unfolding speed_configure_def speed_select_def
  by (intro emits_intros emits_run_calls only_True emits_adapter)

lemma emits_is_renesas: "(\<And>cdb dir bs r buf. dir \<noteq> ToDevice \<Longrightarrow> P (Exec cdb dir bs 5000 r buf)) \<Longrightarrow> emits P (is_renesas H X)"
  unfolding is_renesas_def by (auto intro!: emits_intros simp: Let_def)

definition renesas_owns :: "renesas_backend \<Rightarrow> bool" where
  "renesas_owns b \<longleftrightarrow> rb_touched b \<and> rb_prepared b \<noteq> None"

lemma spanless_bus_ok: "bus_ok X write (\<lambda>ev. \<not> is_span_event ev)"
  by (simp add: bus_ok_def)

lemma quiet_bus_ok: "reads_only X \<Longrightarrow> bus_ok X False quiet"
  by (simp add: bus_ok_def)

lemma renesas_install_owns:
  assumes "reads_only X" "\<not> rb_touched b"
  shows "sat (renesas_install X H b installed) (\<lambda>(r, b') es. written es \<longrightarrow> renesas_owns b')"
proof (cases "rb_prepared b")
  case (Some p)
  have check: "sat (check_prepared H X p installed) (\<lambda>_ es. \<not> written es)"
    using emits_check_prepared [OF quiet_bus_ok [OF assms(1)], of H p installed]
    by (auto simp: emits_def elim!: sat_weaken dest: quiet_not_written)
  show ?thesis
    unfolding renesas_install_def Some option.case
    by (rule sat_bind [OF check])
       (auto split: sum.split simp: Let_def renesas_owns_def Some intro!: sat_bind [OF sat_True])
qed (simp add: renesas_install_def)

lemma renesas_finish_owned:
  assumes "renesas_owns b"
  shows "sat (renesas_finish X H b success) (\<lambda>(r, b') es. case r of Inl e \<Rightarrow> e = Transport | Inr _ \<Rightarrow> success)"
proof -
  from assms obtain p where p: "rb_touched b" "rb_prepared b = Some p" by (auto simp: renesas_owns_def)
  have verified: "sat (if success then bind_io (verify_resident H X p) (\<lambda>r. ret (case r of Inr _ \<Rightarrow> True | Inl _ \<Rightarrow> False))
      else ret False) (\<lambda>v _. v \<longrightarrow> success)"
    by (auto intro!: sat_bind [OF sat_True])
  have clean: "sat (map_errE transaction_error (cleanup H X p)) (\<lambda>r _. \<forall>e. r = Inl e \<longrightarrow> e = Transport)"
    by (rule sat_map_errE [OF sat_True]) (auto simp: transaction_error_def)
  have "renesas_finish X H b success = bind_io (if success
      then bind_io (verify_resident H X p) (\<lambda>r. ret (case r of Inr _ \<Rightarrow> True | Inl _ \<Rightarrow> False)) else ret False)
      (\<lambda>verified. if verified then ret (Inr (), b)
        else if rb_existing b then ret (Inl Transport, b)
        else bind_io (map_errE transaction_error (cleanup H X p)) (\<lambda>r. case r of
          Inl e \<Rightarrow> ret (Inl e, b) | Inr _ \<Rightarrow> ret (Inl Transport, b)))"
    by (simp add: renesas_finish_def p)
  then show ?thesis
    by (simp only:) (rule sat_bind [OF verified], auto intro!: sat_bind [OF clean] split: sum.split)
qed

lemma renesas_runtime_methods:
  "b_prepare (renesas_runtime X) = renesas_prepare X" "b_install (renesas_runtime X) = renesas_install X"
  "b_verify (renesas_runtime X) = renesas_verify X" "b_tune (renesas_runtime X) = (\<lambda>H _. speed_configure H X)"
  "b_get_vid (renesas_runtime X) = (\<lambda>H _. read_aacs_vid H)" "b_finish (renesas_runtime X) = renesas_finish X"
  "b_capabilities (renesas_runtime X) b = PIONEER_RUNTIME"
  by (simp_all add: renesas_runtime_def backend_defaults_def)

text \<open>Each method sends only what its reads and writes send.\<close>

lemma emits_renesas_reads:
  "bus_ok X False P \<Longrightarrow> emits P (renesas_prepare X H b installed)"
  "bus_ok X False P \<Longrightarrow> emits P (renesas_verify X H b)"
  unfolding renesas_prepare_def renesas_verify_def
  by (auto intro!: emits_intros emits_prepare emits_verify_state emits_verify_resident)

lemma emits_renesas_writes:
  "bus_ok X True P \<Longrightarrow> emits P (renesas_install X H b installed)"
  "bus_ok X True P \<Longrightarrow> emits P (renesas_finish X H b success)"
  unfolding renesas_install_def renesas_finish_def Let_def
  by (auto intro!: emits_intros emits_check_prepared emits_stage emits_verify_resident emits_cleanup bus_ok_read)

interpretation renesas: careful_backend "renesas_runtime X" renesas_owns "\<lambda>b. \<not> rb_touched b" "reads_only X"
proof (unfold_locales, unfold renesas_runtime_methods, goal_cases)
  case (7 b H installed)
  show ?case
    using 7 emits_prepare [OF quiet_bus_ok [OF 7(1)], unfolded emits_def, of H Suppress installed]
    unfolding renesas_prepare_def by (auto elim!: sat_bind split: sum.split)
next
  case (8 b H installed)
  then show ?case by (rule renesas_install_owns)
next
  case (12 b H)
  then show ?case
    unfolding speed_configure_def
    by (rule_tac sat_bind [OF sat_True])
       (auto simp: speed_error_def split: sum.splits write_outcome.splits drive_error.splits if_splits)
next
  case (13 b H success)
  then show ?case
    by (auto simp: renesas_finish_def renesas_owns_def intro!: emits_intros split: option.split)
next
  case (14 b H success)
  then show ?case by (rule renesas_finish_owned)
qed (auto intro!: emits_renesas_reads emits_renesas_writes emits_speed_configure emits_read_aacs_vid
      spanless_bus_ok quiet_bus_ok)

end
