(* ===== verification/Replay.thy ===== *)
theory Replay
  imports Scsi
begin

text \<open>
  A concrete host for evaluating programs: its world is the list of replies the drive is going
  to give, each a SCSI answer and the bytes it writes, and a clock that advances by the time
  slept and by one millisecond per command. When the script is exhausted the bus is dead.
\<close>

record replay =
  replay_script :: "((scsi_error + scsi_result) \<times> bytes) list"
  replay_clock :: int

definition dead_bus :: scsi_error where
  "dead_bus = \<lparr> err_status = SCSI_STATUS_TRANSPORT_FAILURE, err_sense = None \<rparr>"

definition good :: "bytes \<Rightarrow> (scsi_error + scsi_result) \<times> bytes" where
  "good bs = (Inr \<lparr> res_status = 0, res_transferred = length bs, res_sense = [] \<rparr>, bs)"

definition refusal :: "(scsi_error + scsi_result) \<times> bytes" where
  "refusal = (Inl \<lparr> err_status = 2, err_sense = Some [0x70, 0, 0x05] \<rparr>, [])"

definition replay_execute ::
  "bytes \<Rightarrow> data_direction \<Rightarrow> bytes \<Rightarrow> u32 \<Rightarrow> replay \<Rightarrow> (scsi_error + scsi_result) \<times> bytes \<times> replay" where
  "replay_execute cdb dir data tmo w = (case replay_script w of
     [] \<Rightarrow> (Inl dead_bus, [], w)
   | (r, bs) # rest \<Rightarrow> (r, bs, w\<lparr> replay_script := rest, replay_clock := replay_clock w + millis 1 \<rparr>))"

definition replay_host :: "replay host" where
  "replay_host = default_host replay_execute (\<lambda>d w. w\<lparr> replay_clock := replay_clock w + d \<rparr>)
     (\<lambda>w. (\<lambda>i. of_nat i, w)) (\<lambda>w. (replay_clock w, w))"

definition replaying :: "((scsi_error + scsi_result) \<times> bytes) list \<Rightarrow> replay" where
  "replaying replies = \<lparr> replay_script = replies, replay_clock = 0 \<rparr>"

end
