(* ===== verification/Renesas_Memory.thy ===== *)
theory Renesas_Memory
  imports Renesas_Hook Replay
begin

text \<open>
  What the transaction of \<open>Renesas_Hook\<close> does to the memory of a drive. The drive is a parameter:
  all that is assumed of it is that its diagnostic commands read and write memory
  (\<open>memory_drive\<close>), as the vendor crate documents them.
\<close>

unbundle bit_operations_syntax

section \<open>A drive with memory\<close>

text \<open>A cell is an address in the space of a selector; \<open>peek\<close> reads consecutive cells.\<close>

type_synonym cell = "u8 \<times> u32"

definition cells :: "u8 \<Rightarrow> u32 \<Rightarrow> nat \<Rightarrow> cell set" where
  "cells sel off n = (\<lambda>i. (sel, off + of_nat i)) ` {..<n}"

definition peek :: "(cell \<Rightarrow> u8) \<Rightarrow> u8 \<Rightarrow> u32 \<Rightarrow> nat \<Rightarrow> bytes" where
  "peek m sel off n = map (\<lambda>i. m (sel, off + of_nat i)) [0..<n]"

definition agree :: "cell set \<Rightarrow> (cell \<Rightarrow> u8) \<Rightarrow> (cell \<Rightarrow> u8) \<Rightarrow> bool" where
  "agree A m m' \<longleftrightarrow> (\<forall>c \<in> A. m c = m' c)"

definition world_of :: "('w, 'v, 'a) prog \<Rightarrow> 'w \<Rightarrow> 'w" where
  "world_of m w = snd (snd (m w))"

text \<open>The cells behind a CPU address, and what they hold.\<close>

definition place :: "'s external \<Rightarrow> hook_profile \<Rightarrow> u32 \<Rightarrow> nat \<Rightarrow> cell set" where
  "place X p cpu n = (case address X p cpu (of_nat n) of None \<Rightarrow> {} | Some (sel, off) \<Rightarrow> cells sel off n)"

definition holds :: "'s external \<Rightarrow> hook_profile \<Rightarrow> (cell \<Rightarrow> u8) \<Rightarrow> u32 \<Rightarrow> bytes \<Rightarrow> bool" where
  "holds X p m cpu bs \<longleftrightarrow> (case address X p cpu (of_nat (length bs)) of None \<Rightarrow> False
     | Some (sel, off) \<Rightarrow> peek m sel off (length bs) = bs)"

lemma length_peek [simp]: "length (peek m sel off n) = n"
  by (simp add: peek_def)

lemma peek_agree: "peek m sel off n = peek m' sel off n \<longleftrightarrow> agree (cells sel off n) m m'"
  by (auto simp: peek_def agree_def cells_def)

lemma holds_agree:
  assumes "holds X p m cpu bs" "holds X p m' cpu bs"
  shows "agree (place X p cpu (length bs)) m m'"
  using assms by (auto simp: holds_def place_def simp flip: peek_agree split: option.splits)

lemma agree_trans: "agree A m m' \<Longrightarrow> agree A m' m'' \<Longrightarrow> agree A m m''"
  by (simp add: agree_def)

lemma agree_sym: "agree A m m' \<Longrightarrow> agree A m' m"
  by (simp add: agree_def)

lemma agree_mono: "agree A m m' \<Longrightarrow> B \<subseteq> A \<Longrightarrow> agree B m m'"
  by (auto simp: agree_def)

section \<open>Memory in every run\<close>

text \<open>
  \<open>holdsw\<close> is a triple over the worlds of a run: started from \<open>w\<close> with \<open>P\<close>, the result and the
  final world satisfy \<open>Q\<close>.
\<close>

definition triple :: "('w \<Rightarrow> bool) \<Rightarrow> ('w, 'v, 'a) prog \<Rightarrow> ('a \<Rightarrow> 'w \<Rightarrow> bool) \<Rightarrow> bool" where
  "triple P m Q \<longleftrightarrow> (\<forall>w. P w \<longrightarrow> Q (result_of m w) (world_of m w))"

lemma tripleD: "triple P m Q \<Longrightarrow> P w \<Longrightarrow> Q (result_of m w) (world_of m w)"
  by (simp add: triple_def)

lemma triple_ret [simp]: "triple P (ret a) Q \<longleftrightarrow> (\<forall>w. P w \<longrightarrow> Q a w)"
  by (simp add: triple_def run_simps world_of_def)

lemma triple_bind:
  assumes "triple P m R" and "\<And>a. triple (R a) (f a) Q"
  shows "triple P (bind_io m f) Q"
  using assms by (auto simp: triple_def run_simps world_of_def split: prod.splits) (metis fst_conv snd_conv)

lemma triple_bindE:
  assumes "triple P m R" and "\<And>e w. R (Inl e) w \<Longrightarrow> Q (Inl e) w" and "\<And>a. triple (R (Inr a)) (f a) Q"
  shows "triple P (bindE m f) Q"
  unfolding bindE_def
  by (rule triple_bind [OF assms(1)]) (auto split: sum.split intro: assms(2,3))

lemma triple_pre: "triple P' m Q \<Longrightarrow> (\<And>w. P w \<Longrightarrow> P' w) \<Longrightarrow> triple P m Q"
  by (auto simp: triple_def)

lemma triple_post: "triple P m R \<Longrightarrow> (\<And>a w. R a w \<Longrightarrow> Q a w) \<Longrightarrow> triple P m Q"
  by (auto simp: triple_def)

lemma triple_false: "(\<And>w. \<not> P w) \<Longrightarrow> triple P m Q"
  by (auto simp: triple_def)

lemma triple_pure: "(b \<Longrightarrow> triple P m Q) \<Longrightarrow> triple (\<lambda>w. b \<and> P w) m Q"
  by (auto simp: triple_def)

lemma triple_ensureE: "triple P (ensureE b) (\<lambda>r w. P w \<and> when_Inr (\<lambda>_. b) r)"
  by (simp add: ensureE_def)

lemma triple_optE: "triple P (optE x) (\<lambda>r w. P w \<and> when_Inr (\<lambda>a. x = Some a) r)"
  by (cases x) (simp_all add: optE_def)

section \<open>The drive\<close>

text \<open>
  A read changes nothing and returns the cells; a write, even one that fails, changes at most the
  cells it names, and one that succeeds leaves the bytes there.
\<close>

definition memory_drive :: "'w host \<Rightarrow> 's external \<Rightarrow> ('w \<Rightarrow> cell \<Rightarrow> u8) \<Rightarrow> bool" where
  "memory_drive H X M \<longleftrightarrow> (\<forall>sel off bs m. length bs < 2 ^ 32 \<longrightarrow>
     triple (\<lambda>w. M w = m) (run_calls (optical_exec H) (x_diagnostic_memory X sel off (DataIn bs)))
       (\<lambda>r w. M w = m \<and> when_Inr (\<lambda>new. new = peek m sel off (length bs)) r)
   \<and> triple (\<lambda>w. M w = m) (run_calls (optical_exec H) (x_diagnostic_memory X sel off (DataOut bs)))
       (\<lambda>r w. agree (- cells sel off (length bs)) (M w) m
         \<and> when_Inr (\<lambda>_. peek (M w) sel off (length bs) = bs) r))"

lemma drive_call:
  assumes "memory_drive H X M" "length bs < 2 ^ 32"
  shows "triple (\<lambda>w. M w = m) (run_calls (optical_exec H) (x_diagnostic_memory X sel off (DataIn bs)))
      (\<lambda>r w. M w = m \<and> when_Inr (\<lambda>new. new = peek m sel off (length bs)) r)"
    and "triple (\<lambda>w. M w = m) (run_calls (optical_exec H) (x_diagnostic_memory X sel off (DataOut bs)))
      (\<lambda>r w. agree (- cells sel off (length bs)) (M w) m
        \<and> when_Inr (\<lambda>_. peek (M w) sel off (length bs) = bs) r)"
  using assms unfolding memory_drive_def by blast+

text \<open>An access in bounds is one call of the vendor crate, any other sends nothing.\<close>

lemma memory_call:
  assumes "length bs < 2 ^ 32" "address X p cpu (of_nat (length bs)) = Some (sel, off)"
  shows "memory H X p cpu bs write =
    (if write \<and> \<not> writable_ram cpu (of_nat (length bs)) then errE Message
     else bind_io (run_calls (optical_exec H) (x_diagnostic_memory X sel off (if write then DataOut bs else DataIn bs)))
       (\<lambda>r. case r of Inl (DriveTransport e) \<Rightarrow> errE e | Inl (DriveOther _) \<Rightarrow> errE Message | Inr new \<Rightarrow> okE (overlay new bs)))"
  using assms by (simp add: memory_def optE_def ensureE_def u32_try_def)

lemma memory_none:
  assumes "\<not> length bs < 2 ^ 32 \<or> address X p cpu (of_nat (length bs)) = None"
  shows "\<exists>e. memory H X p cpu bs write = errE e"
  using assms by (auto simp: memory_def optE_def u32_try_def)

lemma triple_reply:
  "(\<And>w e. P (Inl (DriveTransport e)) w \<Longrightarrow> Q (Inl e) w) \<Longrightarrow> (\<And>w s. P (Inl (DriveOther s)) w \<Longrightarrow> Q (Inl Message) w)
    \<Longrightarrow> (\<And>w new. P (Inr new) w \<Longrightarrow> Q (Inr (g new)) w)
    \<Longrightarrow> triple (P r) (case r of Inl (DriveTransport e) \<Rightarrow> errE e | Inl (DriveOther _) \<Rightarrow> errE Message | Inr new \<Rightarrow> okE (g new)) Q"
  by (auto split: sum.split drive_error.split)

lemma triple_memory_read:
  assumes "memory_drive H X M"
  shows "triple (\<lambda>w. M w = m) (memory H X p cpu bs False)
      (\<lambda>r w. M w = m \<and> when_Inr (\<lambda>new. length new = length bs \<and> holds X p m cpu new) r)"
proof (cases "length bs < 2 ^ 32 \<and> address X p cpu (of_nat (length bs)) \<noteq> None")
  case True
  then obtain sel off where call: "length bs < 2 ^ 32" "address X p cpu (of_nat (length bs)) = Some (sel, off)" by auto
  have eq: "memory H X p cpu bs False = bind_io (run_calls (optical_exec H) (x_diagnostic_memory X sel off (DataIn bs)))
     (\<lambda>r. case r of Inl (DriveTransport e) \<Rightarrow> errE e | Inl (DriveOther _) \<Rightarrow> errE Message | Inr new \<Rightarrow> okE (overlay new bs))"
    unfolding memory_call [OF call] by simp
  show ?thesis
    unfolding eq
    by (rule triple_bind [OF drive_call(1) [OF assms call(1)]], rule triple_reply)
       (simp_all add: holds_def overlay_full call(2))
next
  case False
  then obtain e where "memory H X p cpu bs False = errE e" using memory_none by blast
  then show ?thesis by simp
qed

lemma triple_memory_write:
  assumes "memory_drive H X M"
  shows "triple (\<lambda>w. M w = m) (memory H X p cpu bs True)
      (\<lambda>r w. agree (- place X p cpu (length bs)) (M w) m \<and> when_Inr (\<lambda>_. holds X p (M w) cpu bs) r)"
proof (cases "length bs < 2 ^ 32 \<and> address X p cpu (of_nat (length bs)) \<noteq> None \<and> writable_ram cpu (of_nat (length bs))")
  case True
  then obtain sel off where call: "length bs < 2 ^ 32" "address X p cpu (of_nat (length bs)) = Some (sel, off)"
    and ram: "writable_ram cpu (of_nat (length bs))" by auto
  have eq: "memory H X p cpu bs True = bind_io (run_calls (optical_exec H) (x_diagnostic_memory X sel off (DataOut bs)))
     (\<lambda>r. case r of Inl (DriveTransport e) \<Rightarrow> errE e | Inl (DriveOther _) \<Rightarrow> errE Message | Inr new \<Rightarrow> okE (overlay new bs))"
    unfolding memory_call [OF call] using ram by simp
  show ?thesis
    unfolding eq
    by (rule triple_bind [OF drive_call(2) [OF assms call(1)]], rule triple_reply)
       (simp_all add: holds_def place_def call(2))
next
  case False
  then have "\<exists>e. memory H X p cpu bs True = errE e"
    using memory_none memory_call by (metis option.exhaust surj_pair)
  then show ?thesis by (auto simp: agree_def)
qed

lemma triple_read:
  assumes "memory_drive H X M"
  shows "triple (\<lambda>w. M w = m) (mem_read H X p cpu len)
    (\<lambda>r w. M w = m \<and> when_Inr (\<lambda>new. length new = unat len \<and> holds X p m cpu new) r)"
  unfolding mem_read_def
  by (rule triple_bindE [OF triple_ensureE])
     (auto intro!: triple_pre [OF triple_memory_read [OF assms, where bs = "zeros (unat len)", unfolded length_zeros]])

lemma triple_require:
  assumes "memory_drive H X M"
  shows "triple (\<lambda>w. M w = m) (require_read H X p cpu len want)
    (\<lambda>r w. M w = m \<and> when_Inr (\<lambda>_. length want = unat len \<and> holds X p m cpu want) r)"
  unfolding require_read_def
  by (rule triple_bindE [OF triple_read [OF assms]]) (auto simp: ensureE_def)

lemma triple_write:
  assumes "memory_drive H X M"
  shows "triple (\<lambda>w. M w = m) (mem_write H X p cpu bs)
    (\<lambda>r w. agree (- place X p cpu (length bs)) (M w) m \<and> when_Inr (\<lambda>_. holds X p (M w) cpu bs) r)"
  unfolding mem_write_def
  by (rule triple_bindE [OF triple_memory_write [OF assms]]) auto

text \<open>Programs that only read.\<close>

text \<open>Sequencing of programs that only read.\<close>

lemma triple_readsE:
  assumes "triple (\<lambda>w. M w = m) c (\<lambda>r w. M w = m \<and> when_Inr R r)"
    and "\<And>a. R a \<Longrightarrow> triple (\<lambda>w. M w = m) (f a) (\<lambda>r w. M w = m \<and> when_Inr Q r)"
  shows "triple (\<lambda>w. M w = m) (bindE c f) (\<lambda>r w. M w = m \<and> when_Inr Q r)"
proof (rule triple_bindE [OF assms(1)])
  show "triple (\<lambda>w. M w = m \<and> when_Inr R (Inr a)) (f a) (\<lambda>r w. M w = m \<and> when_Inr Q r)" for a
    using assms(2) [of a] by (auto simp: triple_def)
qed simp

lemma triple_guards:
  assumes "memory_drive H X M"
  shows "triple (\<lambda>w. M w = m) (guards H X p)
    (\<lambda>r w. M w = m \<and> when_Inr (\<lambda>_. list_all (\<lambda>g. holds X p m (cpu_address g) (expected g)) (profile_guards p)) r)"
proof -
  have "triple (\<lambda>w. M w = m) (guards_loop H X p gs)
      (\<lambda>r w. M w = m \<and> when_Inr (\<lambda>_. list_all (\<lambda>g. holds X p m (cpu_address g) (expected g)) gs) r)" for gs
  proof (induction gs)
    case (Cons g gs)
    have step: "triple (\<lambda>w. M w = m) (bindE (require_read H X p (cpu_address g) len (expected g)) (\<lambda>_. guards_loop H X p gs))
        (\<lambda>r w. M w = m \<and> when_Inr (\<lambda>_. list_all (\<lambda>g. holds X p m (cpu_address g) (expected g)) (g # gs)) r)" for len
      by (rule triple_readsE [OF triple_require [OF assms]], rule triple_post [OF Cons.IH]) (auto elim!: when_Inr_mono)
    then show ?case
      by (auto simp: optE_def ensureE_def split: option.split)
  qed simp
  then show ?thesis
    unfolding guards_def by (auto simp: ensureE_def)
qed

section \<open>Agreement with an earlier memory\<close>

lemma triple_of_memory:
  assumes "\<And>m. P m \<Longrightarrow> triple (\<lambda>w. M w = m) c Q"
  shows "triple (\<lambda>w. P (M w)) c Q"
  using assms by (auto simp: triple_def)

lemma agree_read:
  assumes "memory_drive H X M"
  shows "triple (\<lambda>w. agree A (M w) m) (require_read H X q cpu len want) (\<lambda>r w. agree A (M w) m)"
    and "triple (\<lambda>w. agree A (M w) m) (guards H X q) (\<lambda>r w. agree A (M w) m)"
proof -
  note memory = triple_of_memory [where P = "\<lambda>m'. agree A m' m" and M = M]
  show "triple (\<lambda>w. agree A (M w) m) (require_read H X q cpu len want) (\<lambda>r w. agree A (M w) m)"
    by (rule memory, rule triple_post [OF triple_require [OF assms]]) simp
  show "triple (\<lambda>w. agree A (M w) m) (guards H X q) (\<lambda>r w. agree A (M w) m)"
    by (rule memory, rule triple_post [OF triple_guards [OF assms]]) simp
qed

text \<open>Any write leaves the other cells; one that puts back what was there gains the cells it names.\<close>

lemma agree_write:
  assumes "memory_drive H X M"
  shows "triple (\<lambda>w. agree A (M w) m) (mem_write H X q cpu bs) (\<lambda>r w. agree (A - place X q cpu (length bs)) (M w) m)"
  by (rule triple_of_memory [where P = "\<lambda>m'. agree A m' m" and M = M], rule triple_post [OF triple_write [OF assms]])
     (auto simp: agree_def)

lemma agree_put_back:
  assumes "memory_drive H X M" "holds X q m cpu bs"
  shows "triple (\<lambda>w. agree A (M w) m) (mem_write H X q cpu bs)
    (\<lambda>r w. when_Inr (\<lambda>_. agree (A \<union> place X q cpu (length bs)) (M w) m) r)"
proof (rule triple_of_memory [where P = "\<lambda>m'. agree A m' m" and M = M],
    rule triple_post [OF triple_write [OF assms(1)]], elim conjE, goal_cases)
  case (1 m' r w)
  have "agree (A \<union> place X q cpu (length bs)) (M w) m"
    if "holds X q (M w) cpu bs"
    using 1(1,2) holds_agree [OF that assms(2)] by (auto simp: agree_def) 
  with 1(3) show ?case by (cases r) auto
qed

definition slots_restored :: "'s external \<Rightarrow> prepared \<Rightarrow> (cell \<Rightarrow> u8) \<Rightarrow> bool" where
  "slots_restored X p m \<longleftrightarrow> (let q = prep_profile p; s = prep_sites p in
     holds X q m (pointer_address q) (be32 (original_table q))
   \<and> holds X q m (vid_slot (site_vid s)) (be32 (vid_table (site_vid s)))
   \<and> holds X q m (site_security_slot s) (be32 (site_security_table s))
   \<and> holds X q m (r_start (allocation p)) (original p))"

text \<open>The cells the runtime lives in: the payload, both object slots and the policy slot.\<close>

definition runtime_cells :: "'s external \<Rightarrow> prepared \<Rightarrow> cell set" where
  "runtime_cells X p = (let q = prep_profile p; s = prep_sites p in
     place X q (r_start (allocation p)) (length (payload p))
     \<union> place X q (vid_slot (site_vid s)) 4 \<union> place X q (pointer_address q) 4
     \<union> place X q (site_security_slot s) 4)"

lemma triple_check:
  assumes "memory_drive H X M"
  shows "triple (\<lambda>w. M w = m) (check_prepared H X p False)
    (\<lambda>r w. M w = m \<and> when_Inr (\<lambda>_. slots_restored X p m) r)"
proof -
  note req = triple_require [OF assms]
  show ?thesis
    unfolding check_prepared_def Let_def
    by (rule triple_readsE [where R = "\<lambda>_. True"], simp add: triple_post [OF triple_guards [OF assms]] when_Inr_def)
       (auto intro!: triple_readsE [OF triple_read [OF assms]] triple_readsE [OF req] triple_post [OF req]
         elim!: when_Inr_mono simp: ensureE_def slots_restored_def Let_def)
qed

text \<open>Sequencing of programs that write: what still agrees, and what agrees again.\<close>

lemma agree_thenE:
  assumes "triple (\<lambda>w. agree A (M w) m) c (\<lambda>r w. agree B (M w) m)" "C \<subseteq> B"
    and "\<And>a. triple (\<lambda>w. agree B (M w) m) (f a) (\<lambda>r w. agree C (M w) m)"
  shows "triple (\<lambda>w. agree A (M w) m) (bindE c f) (\<lambda>r w. agree C (M w) m)"
  by (rule triple_bindE [OF assms(1)]) (use assms(2,3) in \<open>auto intro: agree_mono\<close>)

lemma restore_thenE:
  assumes "triple (\<lambda>w. agree A (M w) m) c (\<lambda>r w. when_Inr (\<lambda>_. agree B (M w) m) r)"
    and "\<And>a. triple (\<lambda>w. agree B (M w) m) (f a) (\<lambda>r w. when_Inr (\<lambda>_. agree C (M w) m) r)"
  shows "triple (\<lambda>w. agree A (M w) m) (bindE c f) (\<lambda>r w. when_Inr (\<lambda>_. agree C (M w) m) r)"
  by (rule triple_bindE [OF assms(1)]) (use assms(2) in auto)

lemma triple_stage:
  assumes "memory_drive H X M" "length (vid_installed_pointer p) = 4" "length (installed_pointer p) = 4"
  shows "triple (\<lambda>w. agree UNIV (M w) m) (stage H X p) (\<lambda>r w. agree (- runtime_cells X p) (M w) m)"
proof -
  note poke = agree_thenE [OF agree_write [OF assms(1)]] and read = agree_thenE [OF agree_read(1) [OF assms(1)]]
  show ?thesis
    unfolding stage_def Let_def
    by (rule poke, (auto simp: runtime_cells_def Let_def) [], rule read, (auto simp: runtime_cells_def Let_def) [],
        rule poke, (auto simp: runtime_cells_def Let_def assms) [], rule read, (auto simp: runtime_cells_def Let_def assms) [],
        rule poke, (auto simp: runtime_cells_def Let_def assms) [], rule triple_post [OF agree_read(1) [OF assms(1)]])
       (auto simp: runtime_cells_def Let_def assms elim!: agree_mono)
qed

lemma triple_restore_policy:
  assumes "memory_drive H X M"
    and orig: "holds X (prep_profile p) m (site_security_slot (prep_sites p)) (be32 (site_security_table (prep_sites p)))"
  shows "triple (\<lambda>w. agree A (M w) m) (restore_policy H X p)
    (\<lambda>r w. when_Inr (\<lambda>_. agree (A \<union> place X (prep_profile p) (site_security_slot (prep_sites p)) 4) (M w) m) r)"
proof (rule triple_of_memory [where P = "\<lambda>m'. agree A m' m" and M = M])
  let ?q = "prep_profile p" and ?slot = "site_security_slot (prep_sites p)" and ?orig = "be32 (site_security_table (prep_sites p))"
  fix m' assume start: "agree A m' m"
  note put = agree_put_back [OF assms(1) orig, of A, unfolded length_be32]
  have poke: "triple (\<lambda>w. M w = m') (bindE (mem_write H X ?q ?slot ?orig) (\<lambda>_. require_read H X ?q ?slot 4 ?orig))
      (\<lambda>r w. when_Inr (\<lambda>_. agree (A \<union> place X ?q ?slot 4) (M w) m) r)"
  proof (rule triple_pre)
    show "triple (\<lambda>w. agree A (M w) m) (bindE (mem_write H X ?q ?slot ?orig) (\<lambda>_. require_read H X ?q ?slot 4 ?orig))
        (\<lambda>r w. when_Inr (\<lambda>_. agree (A \<union> place X ?q ?slot 4) (M w) m) r)"
      by (rule restore_thenE [OF put], rule triple_post [OF agree_read(1) [OF assms(1)]]) (simp add: when_Inr_def split: sum.split)
  qed (use start in simp)
  have kept: "agree (A \<union> place X ?q ?slot 4) m' m" if "holds X ?q m' ?slot ?orig"
    using start holds_agree [OF that orig] by (auto simp: agree_def)
  show "triple (\<lambda>w. M w = m') (restore_policy H X p)
      (\<lambda>r w. when_Inr (\<lambda>_. agree (A \<union> place X ?q ?slot 4) (M w) m) r)"
    unfolding restore_policy_def Let_def
  proof (rule triple_bindE [OF triple_read [OF assms(1)]], goal_cases)
    case (2 a)
    show ?case
      using poke kept
      by (auto simp: ensureE_def intro: triple_pre)
  qed simp
qed

lemma triple_cleanup:
  assumes "memory_drive H X M" "slots_restored X p m" "length (original p) = length (payload p)"
  shows "triple (\<lambda>w. agree A (M w) m) (cleanup H X p)
    (\<lambda>r w. when_Inr (\<lambda>_. agree (A \<union> runtime_cells X p) (M w) m) r)"
proof -
  from assms(2) have slots:
    "holds X (prep_profile p) m (pointer_address (prep_profile p)) (be32 (original_table (prep_profile p)))"
    "holds X (prep_profile p) m (vid_slot (site_vid (prep_sites p))) (be32 (vid_table (site_vid (prep_sites p))))"
    "holds X (prep_profile p) m (site_security_slot (prep_sites p)) (be32 (site_security_table (prep_sites p)))"
    "holds X (prep_profile p) m (r_start (allocation p)) (original p)"
    by (simp_all add: slots_restored_def Let_def)
  note put = restore_thenE [OF agree_put_back [OF assms(1)]]
  note stay = restore_thenE [OF triple_post [OF agree_read(1) [OF assms(1)]]]
  have keepI: "agree A m' m \<Longrightarrow> when_Inr (\<lambda>_. agree A m' m) r" for A m' and r :: "anyhow + unit"
    by (cases r) auto
  show ?thesis
    unfolding cleanup_def Let_def
    by (rule put [OF slots(1)], rule stay, erule keepI, rule put [OF slots(2)], rule stay, erule keepI,
        rule stay, erule keepI, rule restore_thenE [OF triple_post [OF agree_read(2) [OF assms(1)]]], erule keepI,
        rule restore_thenE [OF triple_restore_policy [OF assms(1) slots(3)]], rule put [OF slots(4)],
        rule triple_post [OF agree_read(1) [OF assms(1)]], rule keepI, erule agree_mono)
       (auto simp: runtime_cells_def Let_def assms(3))
qed

section \<open>What a preparation is\<close>

lemma sat_thenE: "(\<And>a. sat (f a) (\<lambda>r _. when_Inr Q r)) \<Longrightarrow> sat (bindE m f) (\<lambda>r _. when_Inr Q r)"
  by (rule sat_bindE [OF sat_True]) auto

lemma sat_read_thenE:
  assumes "\<And>bs. length bs = unat len \<Longrightarrow> sat (f bs) (\<lambda>r _. when_Inr Q r)"
  shows "sat (bindE (mem_read H X p cpu len) f) (\<lambda>r _. when_Inr Q r)"
proof (rule sat_bindE)
  have "sat (memory H X p cpu bs wr) (\<lambda>r _. when_Inr (\<lambda>new. length new = length bs) r)" for bs wr
    unfolding memory_def
    by (intro sat_thenE) (auto split: prod.split sum.split drive_error.split intro!: sat_thenE sat_bind [OF sat_True])
  then show "sat (mem_read H X p cpu len) (\<lambda>r _. when_Inr (\<lambda>new. length new = unat len) r)"
    unfolding mem_read_def by (intro sat_thenE) (metis length_zeros)
qed (use assms in auto)

lemma prepare_lengths:
  "sat (prepare H X op existing) (\<lambda>r _. when_Inr (\<lambda>p. length (installed_pointer p) = 4 \<and> length (vid_installed_pointer p) = 4
     \<and> (length (payload p) < 2 ^ 32 \<longrightarrow> length (original p) = length (payload p))) r)"
  unfolding prepare_def Let_def prod.case_eq_if
  by (rule sat_read_thenE sat_thenE)+ (simp add: unsigned_of_nat take_bit_nat_eq_self)

section \<open>A failed installation leaves no trace\<close>

text \<open>
  C6. A failed installation is undone byte for byte. Take any drive whose diagnostic commands
  read and write memory, and any preparation \<open>p\<close> that passed its last ownership check. Let the
  staging run, wherever it stops; let the drive then run, changing any cells \<open>D\<close>, those of the
  runtime included; and let the clean-up report success. Then every cell the runtime occupied, its
  payload, both object slots and the policy slot, holds what it held before the installation, and
  so does every other cell that the drive itself did not change, even where these areas overlap.
\<close>
theorem failed_install_restores_memory:
  assumes drive: "memory_drive H X M"
    and lengths: "length (original p) = length (payload p)" "length (installed_pointer p) = 4" "length (vid_installed_pointer p) = 4"
    and check: "result_of (check_prepared H X p False) w = Inr ()"
    and ran: "agree (- D) (M w') (M (world_of (stage H X p) (world_of (check_prepared H X p False) w)))"
    and clean: "result_of (cleanup H X p) w' = Inr ()"
  shows "agree (runtime_cells X p \<union> - D) (M (world_of (cleanup H X p) w')) (M w)"
proof -
  let ?w0 = "world_of (check_prepared H X p False) w"
  from tripleD [OF triple_check [OF drive], of w "M w" p] check
  have w0: "M ?w0 = M w" and slots: "slots_restored X p (M w)" by auto
  from tripleD [OF triple_stage [OF drive lengths(3,2)], of ?w0 "M w"] w0
  have "agree (- runtime_cells X p) (M (world_of (stage H X p) ?w0)) (M w)" by (simp add: agree_def)
  with ran have start: "agree (- runtime_cells X p - D) (M w') (M w)" by (auto simp: agree_def)
  from tripleD [OF triple_cleanup [OF drive slots lengths(1)], OF start] clean
  have "agree (- runtime_cells X p - D \<union> runtime_cells X p) (M (world_of (cleanup H X p) w')) (M w)" by simp
  then show ?thesis by (rule agree_mono) auto
qed

section \<open>A drive of plain memory\<close>

text \<open>
  The world is the list of the cells written, the last one first, over a memory of zeros; a
  command names a selector and an address.
\<close>

type_synonym ram = "(cell \<times> u8) list"

definition ram_cells :: "ram \<Rightarrow> cell \<Rightarrow> u8" where
  "ram_cells m c = (case map_of m c of None \<Rightarrow> 0 | Some b \<Rightarrow> b)"

definition poke :: "u8 \<Rightarrow> u32 \<Rightarrow> bytes \<Rightarrow> ram \<Rightarrow> ram" where
  "poke sel off bs m = zip (map (\<lambda>i. (sel, off + of_nat i)) [0..<length bs]) bs @ m"

definition ram_execute :: "bytes \<Rightarrow> data_direction \<Rightarrow> bytes \<Rightarrow> u32 \<Rightarrow> ram \<Rightarrow> (scsi_error + scsi_result) \<times> bytes \<times> ram" where
  "ram_execute cdb dir data tmo m =
     (let sel = byte_at cdb 0; off = from_be32 (drop 1 cdb);
          ok = Inr \<lparr> res_status = 0, res_transferred = length data, res_sense = [] \<rparr> in
      case dir of
        FromDevice \<Rightarrow> (ok, peek (ram_cells m) sel off (length data), m)
      | ToDevice \<Rightarrow> (ok, data, poke sel off data m)
      | DirNone \<Rightarrow> (ok, [], m))"

definition ram_host :: "ram host" where
  "ram_host = default_host ram_execute (\<lambda>_ m. m) (\<lambda>m. (\<lambda>_. 0, m)) (\<lambda>m. (0, m))"

definition ram_external :: "unit external" where
  "ram_external = \<lparr>
     x_find = \<lambda>_ _ _. None, x_read_u32 = \<lambda>_ _. None, x_read_u16 = \<lambda>_ _. None, x_reachable = \<lambda>_ _. None,
     x_xrefs = \<lambda>_ _ _. None, x_encode = \<lambda>_. None, x_decode = \<lambda>_. None, x_asm_new = None,
     x_instruction = \<lambda>_ _. None, x_label = \<lambda>_ _. None, x_branch = \<lambda>_ _ _. None, x_finish = \<lambda>_. None,
     x_inspect = \<lambda>_. None, x_free_ranges = \<lambda>_ _ _. None,
     x_range_new = \<lambda>start len. Some \<lparr> r_start = start, r_end = start + len, r_length = len \<rparr>,
     x_range_from_bounds = \<lambda>start fin. Some \<lparr> r_start = start, r_end = fin, r_length = fin - start \<rparr>,
     x_range_contains = \<lambda>r r'. r_start r \<le> r_start r' \<and> r_end r' \<le> r_end r,
     x_opcode_site = \<lambda>_ _ _. None, x_read_buffer_site = \<lambda>_ _. None, x_memory_call = \<lambda>_ _ _ _ _. None,
     x_controller_error = \<lambda>_ _ _. None, x_sha256_digest = \<lambda>_. [], x_identity_len = 36,
     x_vendor_identity = [0x12, 0, 0, 0, 36, 0], x_knock = zeros 10, x_read_memory = \<lambda>off len. 0 # be32 off,
     x_diagnostic_memory = (\<lambda>sel off d. Call (sel # be32 off) d
       (\<lambda>r. Done (case r of Inl e \<Rightarrow> Inl (DriveTransport e) | Inr (n, b) \<Rightarrow> Inr b))),
     x_set_quiet_drive = \<lambda>_ _. Done (Inl (DriveOther ''unsupported'')) \<rparr>"

lemma reads_only_ram: "reads_only ram_external"
  by (simp add: reads_only_def ram_external_def no_data_out_def)

lemma inj_cells: "n \<le> 2 ^ 32 \<Longrightarrow> inj_on (\<lambda>i. (sel :: u8, off + of_nat i :: u32)) {..<n}"
  by (auto simp: inj_on_def word_of_nat_eq_iff take_bit_nat_eq_self)

lemma peek_poke:
  assumes "length bs < 2 ^ 32"
  shows "peek (ram_cells (poke sel off bs m)) sel off (length bs) = bs"
proof (rule nth_equalityI)
  let ?cs = "map (\<lambda>i. (sel, off + of_nat i)) [0..<length bs] :: cell list"
  fix i assume "i < length (peek (ram_cells (poke sel off bs m)) sel off (length bs))"
  then have i: "i < length bs" by simp
  have "distinct ?cs"
    using inj_cells [of "length bs" sel off] assms by (simp add: distinct_map atLeast0LessThan)
  with i have "map_of (zip ?cs bs) (?cs ! i) = Some (bs ! i)"
    by (intro map_of_zip_nth) simp_all
  with i show "peek (ram_cells (poke sel off bs m)) sel off (length bs) ! i = bs ! i"
    by (simp add: peek_def ram_cells_def poke_def)
qed simp

lemma agree_poke: "agree (- cells sel off (length bs)) (ram_cells (poke sel off bs m)) (ram_cells m)"
  unfolding agree_def
proof (intro ballI)
  fix c assume "c \<in> - cells sel off (length bs)"
  then have none: "map_of (zip (map (\<lambda>i. (sel, off + of_nat i)) [0..<length bs]) bs) c = None"
    unfolding cells_def by (subst map_of_zip_is_None) (simp_all add: atLeast0LessThan)
  show "ram_cells (poke sel off bs m) c = ram_cells m c"
    by (simp only: ram_cells_def poke_def map_of_append map_add_def none option.case)
qed

lemma ram_calls:
  "result_of (run_calls (optical_exec ram_host) (x_diagnostic_memory ram_external sel off (DataIn bs))) m
     = Inr (peek (ram_cells m) sel off (length bs))"
  "world_of (run_calls (optical_exec ram_host) (x_diagnostic_memory ram_external sel off (DataIn bs))) m = m"
  "result_of (run_calls (optical_exec ram_host) (x_diagnostic_memory ram_external sel off (DataOut bs))) m = Inr bs"
  "world_of (run_calls (optical_exec ram_host) (x_diagnostic_memory ram_external sel off (DataOut bs))) m = poke sel off bs m"
  by (simp_all add: ram_external_def ram_host_def default_host_def optical_exec_def execute_def ram_execute_def
      run_simps world_of_def Let_def ensureE_def byte_at_def from_be32_inverse overlay_full)

lemma memory_drive_ram: "memory_drive ram_host ram_external ram_cells"
  unfolding memory_drive_def triple_def by (simp add: ram_calls peek_poke agree_poke)

text \<open>A preparation on it: one guard, a payload of two bytes, the last one its policy table.\<close>

definition ram_prepared :: prepared where
  "ram_prepared = \<lparr>
     prep_profile = \<lparr> normal_address = 0, normal_length = 0, normal_sha256 = [], controller_cpu_base = 0xa00000,
       pointer_address = 0x100, original_table = 0, write_pointer_address = 0x104, write_original_table = 0,
       table_length = 40, main_callback_offset = 0x24, reserved_windows = [], occupied = [],
       profile_guards = [\<lparr> cpu_address = 0x200, expected = [0] \<rparr>],
       ownership_evidence = [], write_path_evidence = [] \<rparr>,
     prep_sites = \<lparr> site_vid = \<lparr> vid_slot = 0x108, vid_table = 0, vid_main = 0, vid_status = 0, vid_source = 0 \<rparr>,
       site_read_engine = 0, site_delay = 0, site_acquisition = \<lparr> cpu_address = 0x200, expected = [0] \<rparr>,
       site_reset = \<lparr> cpu_address = 0x200, expected = [0] \<rparr>, site_loaded = 0x310, site_checked = 0x311, site_result = 0x312,
       site_security_slot = 0x10c, site_security_table = 0, site_table_length = 1, site_dispatcher = 0,
       site_buffers = (0, 0) \<rparr>,
     allocation = \<lparr> r_start = 0x2000, r_end = 0x2002, r_length = 2 \<rparr>,
     original = zeros 2, payload = [1, 2],
     installed_pointer = [0, 0, 0x20, 0], vid_installed_pointer = [0, 0, 0x20, 1] \<rparr>"

text \<open>
  The staging succeeds; the drive then switches the policy slot to the payload's table and sets a
  variable of its own; the clean-up puts back everything but that variable.
\<close>

definition ram_staged :: ram where
  "ram_staged = world_of (stage ram_host ram_external ram_prepared)
     (world_of (check_prepared ram_host ram_external ram_prepared False) [])"

definition ram_activated :: ram where
  "ram_activated = poke 0xb0 0x300 [1] (poke 0xb0 0x10c (policy_word ram_prepared) ram_staged)"

lemma run_of_bindE:
  "result_of (bindE c f) w = (case result_of c w of Inl e \<Rightarrow> Inl e | Inr a \<Rightarrow> result_of (f a) (world_of c w))"
  "world_of (bindE c f) w = (case result_of c w of Inl e \<Rightarrow> world_of c w | Inr a \<Rightarrow> world_of (f a) (world_of c w))"
  by (simp_all add: run_simps world_of_def split: prod.split sum.split)

lemma run_of_bind_io:
  "result_of (bind_io c f) w = result_of (f (result_of c w)) (world_of c w)"
  "world_of (bind_io c f) w = world_of (f (result_of c w)) (world_of c w)"
  by (simp_all add: run_simps world_of_def split: prod.split)

lemma run_of_ret: "result_of (ret a) w = a" "world_of (ret a) w = w"
  by (simp_all add: run_simps world_of_def)

text \<open>An access on the plain memory, evaluated.\<close>

lemma ram_read:
  assumes "0 < len" "len \<le> 0x400000" "address ram_external q cpu len = Some (sel, off)"
  shows "result_of (mem_read ram_host ram_external q cpu len) m = Inr (peek (ram_cells m) sel off (unat len))"
    and "world_of (mem_read ram_host ram_external q cpu len) m = m"
proof -
  have "unat len < 2 ^ 32" using unsigned_less [of len, where 'a = nat] by simp
  with assms show "result_of (mem_read ram_host ram_external q cpu len) m = Inr (peek (ram_cells m) sel off (unat len))"
    and "world_of (mem_read ram_host ram_external q cpu len) m = m"
    by (simp_all add: mem_read_def ensureE_def memory_call run_of_bind_io run_of_ret ram_calls overlay_full)
qed

lemma ram_write:
  assumes "length bs < 2 ^ 32" "writable_ram cpu (of_nat (length bs))" "address ram_external q cpu (of_nat (length bs)) = Some (sel, off)"
  shows "result_of (mem_write ram_host ram_external q cpu bs) m = Inr ()"
    and "world_of (mem_write ram_host ram_external q cpu bs) m = poke sel off bs m"
  using assms by (simp_all add: mem_write_def memory_call run_of_bindE run_of_bind_io run_of_ret ram_calls)

lemma ram_address:
  assumes "cpu < controller_cpu_base q" "cpu + len \<le> 0x880000"
  shows "address ram_external q cpu len = Some (0xb0, cpu)"
  using assms by (simp add: address_def ram_external_def ensure_def not_le [symmetric])

lemma ram_fields:
  "controller_cpu_base (prep_profile ram_prepared) = 0xa00000"
  "pointer_address (prep_profile ram_prepared) = 0x100" "original_table (prep_profile ram_prepared) = 0"
  "write_pointer_address (prep_profile ram_prepared) = 0x104" "write_original_table (prep_profile ram_prepared) = 0"
  "profile_guards (prep_profile ram_prepared) = [\<lparr> cpu_address = 0x200, expected = [0] \<rparr>]"
  "vid_slot (site_vid (prep_sites ram_prepared)) = 0x108" "vid_table (site_vid (prep_sites ram_prepared)) = 0"
  "site_security_slot (prep_sites ram_prepared) = 0x10c" "site_security_table (prep_sites ram_prepared) = 0"
  "policy_word ram_prepared = be32 0x2001"
  "r_start (allocation ram_prepared) = 0x2000" "original ram_prepared = zeros 2" "payload ram_prepared = [1, 2]"
  "installed_pointer ram_prepared = [0, 0, 0x20, 0]" "vid_installed_pointer ram_prepared = [0, 0, 0x20, 1]"
  by (simp_all add: ram_prepared_def policy_word_def policy_table_def)

text \<open>The accesses below the controller's address space, evaluated.\<close>

lemma low_read:
  assumes "0 < len" "len \<le> 0x400000" "cpu < 0xa00000" "cpu + len \<le> 0x880000"
  shows "result_of (mem_read ram_host ram_external (prep_profile ram_prepared) cpu len) m = Inr (peek (ram_cells m) 0xb0 cpu (unat len))"
    and "world_of (mem_read ram_host ram_external (prep_profile ram_prepared) cpu len) m = m"
  using assms by (simp_all add: ram_read ram_address ram_fields)

lemma low_write:
  assumes "length bs < 2 ^ 32" "writable_ram cpu (of_nat (length bs))" "cpu < 0xa00000" "cpu + of_nat (length bs) \<le> 0x880000"
  shows "result_of (mem_write ram_host ram_external (prep_profile ram_prepared) cpu bs) m = Inr ()"
    and "world_of (mem_write ram_host ram_external (prep_profile ram_prepared) cpu bs) m = poke 0xb0 cpu bs m"
  using assms by (simp_all add: ram_write ram_address ram_fields)

lemma peek_step:
  "peek m sel off 0 = []" "peek m sel off (Suc n) = m (sel, off) # peek m sel (off + 1) n"
  "peek m sel off (numeral k) = m (sel, off) # peek m sel (off + 1) (pred_numeral k)"
proof -
  show step: "peek m sel off (Suc n) = m (sel, off) # peek m sel (off + 1) n" for n off
    by (simp add: peek_def upt_conv_Cons map_Suc_upt [symmetric] add.assoc del: upt_Suc)
  show "peek m sel off (numeral k) = m (sel, off) # peek m sel (off + 1) (pred_numeral k)"
    by (simp add: numeral_eq_Suc step)
qed (simp add: peek_def)

lemma poke_step:
  "poke sel off [] m = m" "poke sel off (b # bs) m = ((sel, off), b) # poke sel (off + 1) bs m"
  by (simp_all add: poke_def upt_conv_Cons map_Suc_upt [symmetric] comp_def add.assoc del: upt_Suc)

lemmas ram_eval = run_of_bindE run_of_bind_io run_of_ret low_read low_write require_read_def ensureE_def optE_def u32_try_def
  ram_fields Let_def peek_step poke_step ram_cells_def be32_def zeros_unfold writable_ram_def checked_add_def

lemma ram_check: "result_of (check_prepared ram_host ram_external ram_prepared False) [] = Inr ()"
    "world_of (check_prepared ram_host ram_external ram_prepared False) [] = []"
  by (simp_all add: check_prepared_def guards_def ram_eval)

lemma ram_staged_eq: "ram_staged =
    zip (map (Pair 0xb0) [0x100, 0x101, 0x102, 0x103]) (installed_pointer ram_prepared)
  @ zip (map (Pair 0xb0) [0x108, 0x109, 0x10a, 0x10b]) (vid_installed_pointer ram_prepared)
  @ zip (map (Pair 0xb0) [0x2000, 0x2001]) (payload ram_prepared)"
  by (simp add: ram_staged_def ram_check stage_def ram_eval)

lemmas ram_activated_eq = ram_activated_def [unfolded ram_staged_eq ram_fields be32_def, simplified poke_step, simplified]

lemma ram_guards:
  "result_of (guards ram_host ram_external (prep_profile ram_prepared)) m = (if ram_cells m (0xb0, 0x200) = 0 then Inr () else Inl Message)"
  "world_of (guards ram_host ram_external (prep_profile ram_prepared)) m = m"
  by (simp_all add: guards_def run_of_bindE run_of_bind_io run_of_ret low_read require_read_def ensureE_def optE_def u32_try_def
      ram_fields peek_step)

lemma ram_restore:
  assumes "peek (ram_cells m) 0xb0 0x10c 4 = be32 0x2001"
  shows "result_of (restore_policy ram_host ram_external ram_prepared) m = Inr ()"
    and "world_of (restore_policy ram_host ram_external ram_prepared) m = poke 0xb0 0x10c (zeros 4) m"
  using assms by (simp_all add: restore_policy_def ram_eval)

lemma ram_clean: "result_of (cleanup ram_host ram_external ram_prepared) ram_activated = Inr ()"
  unfolding cleanup_def Let_def
  by (subst run_of_bindE, simp add: ram_activated_eq ram_eval, simp add: ram_guards, simp add: ram_cells_def,
      simp add: run_of_bindE ram_restore ram_eval)

lemma failed_install_restores_memory_witness:
  "result_of (cleanup ram_host ram_external ram_prepared) ram_activated = Inr ()
   \<and> agree (- cells 0xb0 0x300 1) (ram_cells (world_of (cleanup ram_host ram_external ram_prepared) ram_activated)) (\<lambda>_. 0)"
proof -
  let ?D = "cells 0xb0 0x10c 4 \<union> cells 0xb0 0x300 1"
  have "agree (- ?D) (ram_cells ram_activated) (ram_cells ram_staged)"
    using agree_poke [of "0xb0" "0x10c" "policy_word ram_prepared" ram_staged]
      agree_poke [of "0xb0" "0x300" "[1]" "poke 0xb0 0x10c (policy_word ram_prepared) ram_staged"]
    by (auto simp: agree_def ram_activated_def ram_fields)
  then have "agree (runtime_cells ram_external ram_prepared \<union> - ?D)
      (ram_cells (world_of (cleanup ram_host ram_external ram_prepared) ram_activated)) (ram_cells [])"
    by (intro failed_install_restores_memory [OF memory_drive_ram _ _ _ ram_check(1) _ ram_clean])
       (simp_all add: ram_fields ram_staged_def)
  moreover have "cells 0xb0 0x10c 4 \<subseteq> runtime_cells ram_external ram_prepared"
    by (simp add: runtime_cells_def place_def ram_address ram_fields Let_def)
  ultimately show ?thesis using ram_clean by (auto simp: agree_def ram_cells_def)
qed

end
