(* ===== verification/Freemkv.thy ===== *)
theory Freemkv
  imports Renesas Renesas_Memory
begin

text \<open>
  The freemkv unlocker (\<open>src/freemkv/mod.rs\<close>): the choice of a backend, and what an unlock of any
  backend means. The catalog and the vendor crates are parameters; a drive is driven through the
  common sequence of \<open>Freemkv_Backend\<close>.
\<close>

unbundle bit_operations_syntax

section \<open>The unlocker\<close>

definition loader_claims :: "'w freemkv_unlocker \<Rightarrow> drive_id \<Rightarrow> bool" where
  "loader_claims u d = (case mediatek_loader u of None \<Rightarrow> False | Some l \<Rightarrow> l_is_mediatek l d)"

definition full_unlock_with_drive ::
  "'s external \<Rightarrow> profiles option \<Rightarrow> 'w freemkv_unlocker \<Rightarrow> 'w host \<Rightarrow> drive_id \<Rightarrow> ('w, unlock_error + unlocked) io" where
  "full_unlock_with_drive X bundled u H d =
     bindE (probe H) (\<lambda>found. case found of
       Some i \<Rightarrow>
         if implementation_of (caps i) = Firmware
         then run_backend H Preinstalled \<lparr> pre_capabilities = caps i \<rparr> True
         else run_backend H (renesas_runtime X) renesas_backend_new True
     | None \<Rightarrow>
         if loader_claims u d then
           (case mediatek_loader u of
              None \<Rightarrow> errE NotApplicable
            | Some loader \<Rightarrow> load_mediatek H loader)
         else if ld_claims bundled d then errE NotApplicable
         else bindE (is_renesas H X) (\<lambda>renesas.
           if renesas then run_backend H (renesas_runtime X) renesas_backend_new False
           else errE NotApplicable))"

text \<open>
  The operations the source keeps for its tests: the probe as a yes or no, a SET without a
  backend, the read of a window of the drive's memory, and the unlock of an unnamed drive.
\<close>

definition identify :: "'w host \<Rightarrow> ('w, unlock_error + bool) io" where
  "identify H = bind_io (probe H) (\<lambda>r. ret (case r of
     Inr (Some _) \<Rightarrow> Inr True
   | Inr None \<Rightarrow> Inr False
   | Inl e \<Rightarrow> if e = NotApplicable then Inr False else Inl e))"

definition plain_set :: "'w host \<Rightarrow> feature \<Rightarrow> u8 \<Rightarrow> ('w, unlock_error + unit) io" where
  "plain_set H f st = set_checked H f st (None :: (('w, renesas_backend) backend \<times> renesas_backend) option)"

definition dump_ram :: "'w host \<Rightarrow> u32 \<Rightarrow> ('w, unlock_error + bytes) io" where
  "dump_ram H addr =
     bind_io (execute H (build_memread_cdb addr) FromDevice (zeros MEMREAD_LEN) 5000) (\<lambda>(r, buf). ret (case r of
       Inr res \<Rightarrow> if res_status res = 0 \<and> MEMREAD_LEN \<le> res_transferred res then Inr buf else Inl NotApplicable
     | Inl e \<Rightarrow> if is_dead_bus e then Inl Transport else Inl NotApplicable))"

definition full_unlock ::
  "'s external \<Rightarrow> profiles option \<Rightarrow> 'w freemkv_unlocker \<Rightarrow> 'w host \<Rightarrow> ('w, unlock_error + unlocked) io" where
  "full_unlock X bundled u H = full_unlock_with_drive X bundled u H drive_id_default"

lemma identify_error: "sat (identify H) (\<lambda>r es. \<forall>e. r = Inl e \<longrightarrow> e \<noteq> NotApplicable)"
  unfolding identify_def by (rule sat_bind [OF sat_True]) (auto split: sum.split option.split)

lemma dump_ram_window: "sat (dump_ram H addr) (\<lambda>r _. when_Inr (\<lambda>bs. length bs = MEMREAD_LEN) r)"
  unfolding dump_ram_def by (rule sat_bind [OF sat_execute]) (auto split: sum.split)

definition freemkv_claims :: "profiles option \<Rightarrow> 'w freemkv_unlocker \<Rightarrow> drive_id \<Rightarrow> bool" where
  "freemkv_claims catalog u d \<longleftrightarrow>
     (case catalog of None \<Rightarrow> False | Some c \<Rightarrow>
        (case find_by_drive_id c d of None \<Rightarrow> False | Some m \<Rightarrow> m_platform m = Renesas))
     \<or> loader_claims u d"

definition freemkv_unlock :: "'s external \<Rightarrow> profiles option \<Rightarrow> 'w freemkv_unlocker \<Rightarrow> 'w unlock_fn" where
  "freemkv_unlock X bundled u H ctx =
     bind_io (full_unlock_with_drive X bundled u H (ctx_drive_id ctx)) (\<lambda>r. ret (fallthrough r))"

definition FreemkvUnlocker :: "'s external \<Rightarrow> profiles option \<Rightarrow> 'w freemkv_unlocker \<Rightarrow> 'w unlocker" where
  "FreemkvUnlocker X bundled u = \<lparr> u_name = ''freemkv'', u_claims = freemkv_claims bundled u,
     u_unlock = returning (freemkv_unlock X bundled u) \<rparr>"

section \<open>Single commands\<close>

definition probed :: "scsi_error + scsi_result \<Rightarrow> bytes \<Rightarrow> unlock_error + protocol_identity option" where
  "probed reply buf = (case reply of
     Inr res \<Rightarrow>
       if res_status res = 0 \<and> res_transferred res \<le> length buf then
         (case protocol_identity_parse (take (res_transferred res) buf) of
            Some i \<Rightarrow> Inr (Some i)
          | None \<Rightarrow> if firmware_identity_parse (take (res_transferred res) buf) \<noteq> None then Inl NotApplicable else Inr None)
       else Inr None
   | Inl e \<Rightarrow> if is_dead_bus e then Inl Transport else Inr None)"

abbreviation identity_exec :: "scsi_error + scsi_result \<Rightarrow> bytes \<Rightarrow> event" where
  "identity_exec \<equiv> Exec (build_identity_cdb 64) FromDevice (zeros 64) 5000"

lemma sat_probe: "sat (probe H) (\<lambda>r es. \<exists>reply buf. es = [identity_exec reply buf] \<and> length buf = 64 \<and> r = probed reply buf)"
  unfolding probe_def
  by (rule sat_bind [OF sat_execute])
     (auto simp: probed_def const_defs Let_def split: sum.split option.split)

definition set_done :: "('w, 'b) backend \<Rightarrow> 'b \<Rightarrow> scsi_error + scsi_result \<Rightarrow> bytes \<Rightarrow> unlock_error + unit" where
  "set_done B b reply buf = (case reply of
     Inr res \<Rightarrow> if res_status res = 0 then b_validate B b res buf else Inl NotApplicable
   | Inl e \<Rightarrow> if is_dead_bus e then Inl Transport else Inl NotApplicable)"

lemma sat_set_checked: "sat (set_checked H f st (Some (B, b))) (\<lambda>r es. \<exists>reply buf.
    es = [Exec (build_set_cdb f st) FromDevice (zeros 64) (b_timeout B b f) reply buf] \<and> r = set_done B b reply buf)"
  unfolding set_checked_def
  by (rule sat_bind [OF sat_execute]) (auto simp: set_done_def const_defs split: sum.split)

section \<open>Unlocked means encryption off\<close>

text \<open>An accepted Encryption=off: good status and a reply the backend takes.\<close>

definition off_accepted :: "(scsi_result \<Rightarrow> bytes \<Rightarrow> bool) \<Rightarrow> event \<Rightarrow> bool" where
  "off_accepted V ev \<longleftrightarrow> (\<exists>tmo res buf. ev = Exec (build_set_cdb Encryption STATE_OFF) FromDevice (zeros 64) tmo (Inr res) buf
     \<and> res_status res = 0 \<and> V res buf)"

definition went_off :: "(scsi_result \<Rightarrow> bytes \<Rightarrow> bool) \<Rightarrow> event list \<Rightarrow> bool" where
  "went_off V es \<longleftrightarrow> (\<exists>ev \<in> set es. off_accepted V ev)"

definition identified :: "capabilities \<Rightarrow> event \<Rightarrow> bool" where
  "identified c ev \<longleftrightarrow> (\<exists>reply buf i. ev = identity_exec reply buf \<and> probed reply buf = Inr (Some i) \<and> caps i = c)"

text \<open>First the identity with the capabilities, later the accepted command.\<close>

definition identified_off :: "capabilities \<Rightarrow> (scsi_result \<Rightarrow> bytes \<Rightarrow> bool) \<Rightarrow> event list \<Rightarrow> bool" where
  "identified_off c V es \<longleftrightarrow> (\<exists>a ev rest. es = a @ ev # rest \<and> identified c ev \<and> went_off V rest)"

lemma went_off_append: "went_off V (es @ es') \<longleftrightarrow> went_off V es \<or> went_off V es'"
  by (auto simp: went_off_def)

lemma went_off_Cons: "went_off V es \<Longrightarrow> went_off V (ev # es)"
  by (auto simp: went_off_def)

lemma identified_off_Cons: "identified c ev \<Longrightarrow> went_off V es \<Longrightarrow> identified_off c V (ev # es)"
  unfolding identified_off_def by (metis append_Nil)

lemma identified_off_append: "identified_off c V es \<Longrightarrow> identified_off c V (xs @ es @ ys)"
  unfolding identified_off_def
proof (elim exE conjE)
  fix a ev rest assume "es = a @ ev # rest" "identified c ev" "went_off V rest"
  then have "xs @ es @ ys = (xs @ a) @ ev # (rest @ ys) \<and> identified c ev \<and> went_off V (rest @ ys)"
    by (simp add: went_off_append)
  then show "\<exists>a ev rest. xs @ es @ ys = a @ ev # rest \<and> identified c ev \<and> went_off V rest" by blast
qed

definition takes :: "('w, 'b) backend \<Rightarrow> scsi_result \<Rightarrow> bytes \<Rightarrow> bool" where
  "takes B res buf \<longleftrightarrow> (\<exists>b. b_validate B b res buf = Inr ())"

lemma set_done_ok: "set_done B b reply buf = Inr u \<longleftrightarrow>
    (\<exists>res. reply = Inr res \<and> res_status res = 0 \<and> b_validate B b res buf = Inr u)"
  by (auto simp: set_done_def split: sum.split)

lemma sat_activate_off: "sat (activate H B b) (\<lambda>r es. when_Inr (\<lambda>_. went_off (takes B) es) r)"
  unfolding activate_def
proof (rule sat_bindE [OF sat_True], goal_cases)
  case (2 a es)
  have "sat (set_checked H Encryption STATE_OFF (Some (B, b))) (\<lambda>r es'. when_Inr (\<lambda>_. went_off (takes B) es') r)"
  proof (rule sat_weaken [OF sat_set_checked], elim exE conjE, goal_cases)
    case (1 r es' reply buf)
    then show ?case
      by (cases "set_done B b reply buf") (auto simp: set_done_ok went_off_def off_accepted_def takes_def)
  qed
  from sat_map_errE [OF this, of "\<lambda>r es'. when_Inr (\<lambda>_. went_off (takes B) (es @ es')) r" encryption_error]
  show ?case by (auto simp: went_off_append)
qed simp

lemma sat_activate_backend_off: "sat (activate_backend H B b) (\<lambda>r es.
    when_Inr (\<lambda>u. bus_key u = None \<and> went_off (takes B) es) r)"
  unfolding activate_backend_def
  by (rule sat_bindE [OF sat_activate_off])
     (auto simp: went_off_append intro!: sat_bindE [OF sat_True])

lemma sat_require_identity: "sat (require_identity H) (\<lambda>r es. \<exists>ev. es = [ev] \<and> when_Inr (\<lambda>i. identified (caps i) ev) r)"
  unfolding require_identity_def
  by (rule sat_bindE [OF sat_probe]) (auto simp: identified_def eq_commute split: option.split)

text \<open>
  What the sequence of a backend shows: the command was accepted, and after an installation the
  runtime had identified itself first.
\<close>

definition shows_off :: "('w, 'b) backend \<Rightarrow> capabilities \<Rightarrow> bool \<Rightarrow> unlocked \<Rightarrow> event list \<Rightarrow> bool" where
  "shows_off B c installed u es \<longleftrightarrow> bus_key u = None
     \<and> (if installed then went_off (takes B) es else identified_off c (takes B) es)"

lemma shows_off_append: "shows_off B c installed u es \<Longrightarrow> shows_off B c installed u (xs @ es @ ys)"
  by (auto simp: shows_off_def went_off_append dest: identified_off_append)

lemma shows_off_prefix: "shows_off B c installed u es \<Longrightarrow> shows_off B c installed u (xs @ es)"
  using shows_off_append [of B c installed u es xs "[]"] by simp

lemma sat_transaction_off:
  assumes "\<And>b. \<not> installed \<Longrightarrow> b_capabilities B b = c"
  shows "sat (transaction H B b installed) (\<lambda>(r, b') es. when_Inr (\<lambda>u. shows_off B c installed u es) r)"
proof -
  have body: "sat (bindE (installed_identity H B b installed) (\<lambda>_. activate_backend H B b)) (\<lambda>r es.
      when_Inr (\<lambda>u. shows_off B c installed u es) r)" for b
  proof (cases installed)
    case True
    then show ?thesis
      by (simp add: installed_identity_def) (rule sat_weaken [OF sat_activate_backend_off], auto simp: when_Inr_def shows_off_def split: sum.splits)
  next
    case False
    have "sat (installed_identity H B b installed) (\<lambda>r es. \<exists>ev. es = [ev] \<and> when_Inr (\<lambda>_. identified c ev) r)"
      using False unfolding installed_identity_def
      by (auto intro!: sat_bindE [OF sat_require_identity] simp: assms [OF False])
    then show ?thesis
    proof (rule sat_bindE, goal_cases)
      case (2 a es)
      then show ?case
        by (intro sat_weaken [OF sat_activate_backend_off])
           (auto simp: when_Inr_def shows_off_def False intro: identified_off_Cons split: sum.splits)
    qed simp
  qed
  show ?thesis
    unfolding transaction_def
    by (rule sat_bind [OF sat_True])
       (auto split: sum.splits intro!: sat_bind [OF body] simp: when_Inr_def shows_off_prefix)
qed

lemma sat_unlock_backend_off:
  assumes "\<And>b. \<not> installed \<Longrightarrow> b_capabilities B b = c"
  shows "sat (unlock_backend H B b installed) (\<lambda>r es. when_Inr (\<lambda>u. shows_off B c installed u es) r)"
proof -
  have "sat (guarded_transaction H B b installed) (\<lambda>x es. when_Inr (\<lambda>(r, b'). when_Inr (\<lambda>u. shows_off B c installed u es) r) x)"
    unfolding guarded_transaction_def
  proof (rule sat_bind [OF sat_transaction_off [of installed B c, OF assms]], goal_cases)
    case (2 rb es)
    then show ?case
      by (cases rb) (auto intro!: sat_bind [OF sat_True] split: sum.split
          simp: when_Inr_def split: sum.splits intro: shows_off_append [where xs = "[]", simplified])
  qed
  note span = sat_with_critical [OF this, of H "\<lambda>_. Transport"]
  show ?thesis
    unfolding unlock_backend_def
  proof (rule sat_bindE [OF span], goal_cases)
    case (2 rb es)
    obtain r b' where rb: "rb = (r, b')" by (cases rb)
    with 2 obtain es' where es: "es = [BeginCritical (Inr ())] @ es' @ [EndCritical]"
        "when_Inr (\<lambda>u. shows_off B c installed u es') r" by auto
    have "sat (case r of Inr u \<Rightarrow> bindE (b_tune B H b') (\<lambda>_. okE u) | Inl e \<Rightarrow> errE e)
        (\<lambda>r' _. when_Inr (\<lambda>u. r = Inr u) r')"
      by (cases r) (auto intro!: sat_bindE [OF sat_True])
    then show ?case
      unfolding rb prod.case es(1)
      by (auto intro!: sat_bindE [OF sat_True] elim!: sat_weaken)
         (use es(2) in \<open>auto simp: when_Inr_def split: sum.splits
            intro: shows_off_append [of B c installed _ es' "[BeginCritical (Inr ())]" "EndCritical # _", simplified]\<close>)
  qed simp
qed

lemma sat_run_backend_off:
  assumes "\<And>b. \<not> installed \<Longrightarrow> b_capabilities B b = c"
  shows "sat (run_backend H B b installed) (\<lambda>r es. when_Inr (\<lambda>u. shows_off B c installed u es) r)"
  unfolding run_backend_def
proof (rule sat_bind [OF sat_True], goal_cases)
  case (1 rb es)
  have "sat (unlock_backend H B b' installed) (\<lambda>r es'. when_Inr (\<lambda>u. shows_off B c installed u (es @ es')) r)" for b'
    by (rule sat_weaken [OF sat_unlock_backend_off [OF assms]])
       (auto simp: when_Inr_def shows_off_prefix split: sum.splits)
  then show ?case by (cases rb) (auto split: sum.split)
qed

text \<open>Which reply counts depends on the implementation that identified itself.\<close>

definition off_reply :: "capabilities \<Rightarrow> scsi_result \<Rightarrow> bytes \<Rightarrow> bool" where
  "off_reply c res buf \<longleftrightarrow> (case implementation_of c of
     Firmware \<Rightarrow> True
   | PioneerRuntime \<Rightarrow> res_transferred res = 64 \<and> buf = zeros 64)"

definition freemkv_unlocked :: "unlocked \<Rightarrow> event list \<Rightarrow> bool" where
  "freemkv_unlocked u es \<longleftrightarrow> bus_key u = None \<and> (\<exists>c. identified_off c (off_reply c) es)"

lemma takes_Preinstalled: "implementation_of c = Firmware \<Longrightarrow> takes Preinstalled = off_reply c"
  by (auto simp: fun_eq_iff takes_def off_reply_def Preinstalled_def backend_defaults_def)

lemma takes_renesas: "implementation_of c \<noteq> Firmware \<Longrightarrow> takes (renesas_runtime X) = off_reply c"
  by (cases "implementation_of c")
     (auto simp: fun_eq_iff takes_def off_reply_def renesas_runtime_def backend_defaults_def renesas_validate_def)

lemma shows_off_unlocked:
  assumes "takes B = off_reply c" "shows_off B c installed u es" "installed \<Longrightarrow> identified c ev"
  shows "freemkv_unlocked u (ev # es)"
  using assms identified_off_append [of c "off_reply c" es "[ev]" "[]"]
  by (auto simp: shows_off_def freemkv_unlocked_def intro: identified_off_Cons split: if_splits)

lemma sat_load_mediatek_off: "sat (load_mediatek H loader) (\<lambda>r es. when_Inr (\<lambda>u. freemkv_unlocked u (x # es)) r)"
proof -
  have found: "sat (bindE (require_identity H) (\<lambda>i.
      if implementation_of (caps i) \<noteq> Firmware then errE NotApplicable
      else activate_backend H Preinstalled \<lparr> pre_capabilities = caps i \<rparr>))
      (\<lambda>r es'. when_Inr (\<lambda>u. freemkv_unlocked u (es @ es')) r)" for es
  proof (rule sat_bindE [OF sat_require_identity], goal_cases)
    case (2 i es')
    then obtain ev where ev: "es' = [ev]" "identified (caps i) ev" by auto
    have "freemkv_unlocked u (es @ ev # es2)"
      if "bus_key u = None" "went_off (off_reply (caps i)) es2" for u es2
      using identified_off_append [OF identified_off_Cons [OF ev(2) that(2)], of es "[]"] that(1)
      by (auto simp: freemkv_unlocked_def)
    with ev(1) show ?case
      by (auto intro!: sat_weaken [OF sat_activate_backend_off] simp: when_Inr_def takes_Preinstalled split: sum.splits)
  qed simp
  have "sat (bind_io (bindE (l_load loader H) (\<lambda>_.
      bindE (require_identity H) (\<lambda>i.
      if implementation_of (caps i) \<noteq> Firmware then errE NotApplicable
      else activate_backend H Preinstalled \<lparr> pre_capabilities = caps i \<rparr>))) okE)
      (\<lambda>x es'. when_Inr (when_Inr (\<lambda>u. freemkv_unlocked u es')) (x :: unlock_error + _))"
    by (rule sat_bind [where R = "\<lambda>r es'. when_Inr (\<lambda>u. freemkv_unlocked u es') r"],
        rule sat_bindE [OF sat_True]) (auto intro: found)
  note span = sat_with_critical [OF this, of H "\<lambda>_. Transport"]
  show ?thesis
    unfolding load_mediatek_def
  proof (rule sat_bindE [OF span], goal_cases)
    case (2 r es)
    then obtain es' where es: "es = BeginCritical (Inr ()) # es' @ [EndCritical]"
        "when_Inr (\<lambda>u. freemkv_unlocked u es') r" by auto
    have "freemkv_unlocked u (x # es @ es'')" if "freemkv_unlocked u es'" for u es''
      using that identified_off_append [of _ _ es' "[x, BeginCritical (Inr ())]" "EndCritical # es''"]
      unfolding es by (auto simp: freemkv_unlocked_def)
    with es(2) show ?case
      by (auto intro!: sat_bindE [OF sat_True] simp: when_Inr_def split: sum.splits)
  qed simp
qed

lemma sat_full_unlock_off: "sat (full_unlock_with_drive X bundled u H d) (\<lambda>r es. when_Inr (\<lambda>got. freemkv_unlocked got es) r)"
  unfolding full_unlock_with_drive_def
proof (rule sat_bindE [OF sat_probe], goal_cases)
  case (2 found es)
  then obtain reply buf where "es = [identity_exec reply buf]" "probed reply buf = Inr found" by auto
  then obtain ev where ev: "es = [ev]" "\<And>i. found = Some i \<Longrightarrow> identified (caps i) ev"
    by (auto simp: identified_def)
  have backend: "sat (run_backend H B b installed) (\<lambda>r es. when_Inr (\<lambda>u. freemkv_unlocked u (ev # es)) r)"
    if "takes B = off_reply c" "installed \<Longrightarrow> identified c ev" "\<And>b. \<not> installed \<Longrightarrow> b_capabilities B b = c"
    for B :: "('a, 'c) backend" and b installed c
    using that
    by (intro sat_weaken [OF sat_run_backend_off [of installed B c]])
       (auto simp: when_Inr_def intro: shows_off_unlocked [of B c installed] split: sum.splits)
  show ?case
  proof (cases found)
    case None
    have "sat (run_backend H (renesas_runtime X) renesas_backend_new False)
        (\<lambda>r es'. when_Inr (\<lambda>u. freemkv_unlocked u (ev # es @ es')) r)" for es
    proof (rule sat_weaken [OF sat_run_backend_off [of False _ PIONEER_RUNTIME]], goal_cases)
      case (2 r es')
      show ?case
      proof (cases r)
        case (Inr u)
        with 2 have "bus_key u = None" "identified_off PIONEER_RUNTIME (off_reply PIONEER_RUNTIME) es'"
          by (simp_all add: shows_off_def takes_renesas [of PIONEER_RUNTIME] PIONEER_RUNTIME_def)
        with identified_off_append [of PIONEER_RUNTIME "off_reply PIONEER_RUNTIME" es' "ev # es" "[]"] Inr
        show ?thesis by (auto simp: freemkv_unlocked_def)
      qed simp
    qed (simp add: renesas_runtime_def backend_defaults_def)
    with None show ?thesis
      by (auto simp: ev(1) intro!: sat_load_mediatek_off sat_bindE [OF sat_True] split: option.split)
  next
    case (Some i)
    then show ?thesis
      using ev(2) [OF Some]
      by (cases "implementation_of (caps i) = Firmware")
         (auto simp: ev(1) intro!: backend takes_Preinstalled takes_renesas)
  qed
qed simp

section \<open>The bus is left outside any span\<close>

text \<open>A loader opens no span of its own, as its documentation demands.\<close>

definition loader_spanless :: "'w freemkv_unlocker \<Rightarrow> bool" where
  "loader_spanless u \<longleftrightarrow> (case mediatek_loader u of None \<Rightarrow> True | Some l \<Rightarrow> \<forall>H. emits spanless (l_load l H))"

lemma loader_spanless_new: "loader_spanless freemkv_unlocker_new"
  by (simp add: loader_spanless_def freemkv_unlocker_new_def)

lemma spans_load_mediatek:
  assumes "\<And>H. emits spanless (l_load loader H)"
  shows "sat (load_mediatek H loader) (\<lambda>_ es. spans False es = Some False)"
proof -
  have body: "emits spanless (bind_io (bindE (l_load loader H) (\<lambda>_.
      bindE (require_identity H) (\<lambda>i.
      if implementation_of (caps i) \<noteq> Firmware then errE NotApplicable
      else activate_backend H Preinstalled \<lparr> pre_capabilities = caps i \<rparr>))) okE)"
    by (intro emits_intros assms pre.spanless_probe pre.spanless_activate_backend)
  show ?thesis
    unfolding load_mediatek_def
    by (rule sat_bindE [OF sat_with_critical_spans [OF body]])
       (auto simp: spans_append intro!: sat_bindE [OF sat_map_errE [OF sat_pause, where Q = "\<lambda>_ es. \<exists>r. es = [Pause 0 r]"]])
qed

lemma spans_full_unlock:
  assumes "loader_spanless u"
  shows "sat (full_unlock_with_drive X bundled u H d) (\<lambda>_ es. spans False es = Some False)"
proof -
  have load: "sat (load_mediatek H l) (\<lambda>_ es. spans False es = Some False)" if "mediatek_loader u = Some l" for l
    using assms that by (intro spans_load_mediatek) (simp add: loader_spanless_def)
  have vendor: "emits spanless (is_renesas H X)"
    by (rule emits_is_renesas) simp
  show ?thesis
    unfolding full_unlock_with_drive_def
  proof (rule sat_bindE [OF pre.spanless_probe(1) [unfolded emits_def]], goal_cases)
    case (2 found es)
    then have es: "spans False es = Some False" by (rule spans_none)
    have after: "sat m (\<lambda>_ es'. spans False (es @ es') = Some False)"
      if "sat m (\<lambda>_ es'. spans False es' = Some False)" for m :: "('a, unlock_error + unlocked) io"
      using that es by (auto elim!: sat_weaken simp: spans_append)
    have renesas: "sat (bindE (is_renesas H X) (\<lambda>renesas. if renesas
        then run_backend H (renesas_runtime X) renesas_backend_new False else errE NotApplicable))
        (\<lambda>_ es'. spans False es' = Some False)"
      by (rule sat_bindE [OF vendor [unfolded emits_def]])
         (auto simp: spans_append spans_none intro!: sat_weaken [OF renesas.spans_run])
    show ?case
      by (auto simp: es intro!: after pre.spans_run renesas.spans_run load renesas split: option.split)
  qed (simp add: spans_none)
qed

lemma freemkv_contract:
  assumes "loader_spanless u"
  shows "unlocker_contract (returning (freemkv_unlock X bundled u)) (\<lambda>_. True)"
proof (rule contract_returning)
  fix H ctx
  show "sat (freemkv_unlock X bundled u H ctx) (\<lambda>r es. (True \<longrightarrow> (\<forall>e. r = Inl e \<longrightarrow> e = Transport)) \<and> spans False es = Some False)"
    unfolding freemkv_unlock_def
    by (rule sat_bind [OF spans_full_unlock [OF assms]]) (auto simp: fallthrough_Inl_iff)
qed

interpretation freemkv: unlocker_contract "returning (freemkv_unlock X bundled freemkv_unlocker_new)" "\<lambda>_. True"
  by (rule freemkv_contract [OF loader_spanless_new])

section \<open>Properties\<close>

text \<open>
  C3. A freemkv unlock means that encryption was turned off on a drive that identified itself.
  Whatever the drive, host, loader and vendor crates do, \<open>Ok(Some)\<close> comes only after an identity
  reply with full capabilities and, later, an Encryption=off command that ended with good status
  and, on the Renesas runtime, a reply of 64 zero bytes; it never carries a bus key, and the only
  error is \<open>Transport\<close>.
\<close>
theorem freemkv_unlock_means_off:
  "case result_of (freemkv_unlock X bundled u H ctx) w of
     Inr (Some got) \<Rightarrow> freemkv_unlocked got (events_of (freemkv_unlock X bundled u H ctx) w)
   | Inr None \<Rightarrow> True
   | Inl e \<Rightarrow> e = Transport"
proof -
  have "sat (freemkv_unlock X bundled u H ctx) (\<lambda>r es. case r of
      Inr (Some got) \<Rightarrow> freemkv_unlocked got es | Inr None \<Rightarrow> True | Inl e \<Rightarrow> e = Transport)"
    unfolding freemkv_unlock_def
    by (rule sat_bind [OF sat_full_unlock_off])
       (auto simp: fallthrough_Inl_iff fallthrough_Some_iff when_Inr_def split: sum.split option.split)
  from sat_run [OF this] show ?thesis .
qed

text \<open>What the first replies decide.\<close>

lemma sat_is_renesas: "sat (is_renesas H X) (\<lambda>r es. \<exists>reply buf.
    es = [Exec (x_vendor_identity X) FromDevice (zeros (x_identity_len X)) 5000 reply buf]
    \<and> (case r of Inl e \<Rightarrow> e = Transport \<and> dead_event (hd es) | Inr b \<Rightarrow> b \<longrightarrow> slice buf 16 19 = RENESAS_MARKER))"
  unfolding is_renesas_def
  by (rule sat_bind [OF sat_execute]) (auto simp: Let_def const_defs split: sum.split)

definition decided_after :: "'s external \<Rightarrow> profiles option \<Rightarrow> 'w freemkv_unlocker \<Rightarrow> drive_id
    \<Rightarrow> unlock_error + protocol_identity option \<Rightarrow> unlock_error + unlocked option \<Rightarrow> event list \<Rightarrow> bool" where
  "decided_after X bundled u d outcome r rest \<longleftrightarrow> (case outcome of
     Inl e \<Rightarrow> rest = [] \<and> r = (if e = Transport then Inl Transport else Inr None)
   | Inr (Some i) \<Rightarrow> True
   | Inr None \<Rightarrow>
       if loader_claims u d then True
       else if ld_claims bundled d then rest = [] \<and> r = Inr None
       else \<exists>vendor vbuf rest'. rest = Exec (x_vendor_identity X) FromDevice (zeros (x_identity_len X)) 5000 vendor vbuf # rest'
         \<and> (if slice vbuf 16 19 = RENESAS_MARKER then True
            else rest' = [] \<and> (case r of Inl e \<Rightarrow> e = Transport \<and> dead_event (hd rest) | Inr got \<Rightarrow> got = None)))"

definition decided :: "'s external \<Rightarrow> profiles option \<Rightarrow> 'w freemkv_unlocker \<Rightarrow> drive_id \<Rightarrow> unlock_error + unlocked option \<Rightarrow> event list \<Rightarrow> bool" where
  "decided X bundled u d r es \<longleftrightarrow> (\<exists>reply buf rest. es = identity_exec reply buf # rest
     \<and> decided_after X bundled u d (probed reply buf) r rest)"

lemma decided_Cons: "decided X bundled u d r (identity_exec reply buf # rest)
    \<longleftrightarrow> decided_after X bundled u d (probed reply buf) r rest"
  by (simp add: decided_def)

lemma fallthrough_simps [simp]:
  "fallthrough (Inl Transport) = Inl Transport" "e \<noteq> Transport \<Longrightarrow> fallthrough (Inl e) = Inr None"
  "fallthrough (Inr a) = Inr (Some a)"
  by (cases e; simp add: fallthrough_def)+

lemma sat_full_unlock_decided:
  "sat (full_unlock_with_drive X bundled u H d) (\<lambda>r es. decided X bundled u d (fallthrough r) es)"
  unfolding full_unlock_with_drive_def
proof (rule sat_bindE [OF sat_probe], goal_cases)
  case (1 e es)
  then obtain reply buf where es: "es = [identity_exec reply buf]" and "probed reply buf = Inl e" by auto
  then show ?case by (cases e) (simp_all add: es decided_Cons decided_after_def)
next
  case (2 found es)
  then obtain reply buf where es: "es = [identity_exec reply buf]" and found: "probed reply buf = Inr found" by auto
  have start: "sat m (\<lambda>r es'. decided X bundled u d (fallthrough r) (es @ es'))"
    if "found \<noteq> None \<or> loader_claims u d" for m :: "('a, unlock_error + unlocked) io"
    using that by (intro sat_weaken [OF sat_True]) (auto simp: decided_Cons decided_after_def es found split: option.split)
  have vendor: "sat (bindE (is_renesas H X) (\<lambda>r. if r then run_backend H (renesas_runtime X) renesas_backend_new False
      else errE NotApplicable)) (\<lambda>r es'. decided X bundled u d (fallthrough r) (es @ es'))"
    if "found = None" "\<not> loader_claims u d" "\<not> ld_claims bundled d"
  proof (rule sat_bindE [OF sat_is_renesas], goal_cases)
    case (1 e es')
    then show ?case using that by (auto simp: decided_Cons decided_after_def es found)
  next
    case (2 b es')
    then obtain reply buf where es': "es' = [Exec (x_vendor_identity X) FromDevice (zeros (x_identity_len X)) 5000 reply buf]"
        "b \<longrightarrow> slice buf 16 19 = RENESAS_MARKER" by auto
    then show ?case
      using that by (cases b) (auto simp: decided_Cons decided_after_def es found intro!: sat_weaken [OF sat_True])
  qed
  show ?case
  proof (cases "found = None \<and> \<not> loader_claims u d")
    case True
    with vendor show ?thesis by (auto simp: decided_Cons decided_after_def es found)
  next
    case False
    then show ?thesis by (intro start) auto
  qed
qed

text \<open>
  C23. The identity reply decides who may go on. The first command is always the identity command.
  After a dead bus nothing more is sent and the result is \<open>Transport\<close>; a firmware that answers
  with an unsupported banner, and a drive without freemkv that the LD unlocker claims, are left
  alone at once with \<open>Ok(None)\<close>, so the vendor probe never reaches a drive of another platform;
  any other drive without freemkv is sent the vendor identity command next, and nothing after it
  unless that reply carries the Renesas marker.
\<close>
theorem freemkv_first_reply_decides:
  "decided X bundled u (ctx_drive_id ctx) (result_of (freemkv_unlock X bundled u H ctx) w)
     (events_of (freemkv_unlock X bundled u H ctx) w)"
proof -
  have "sat (freemkv_unlock X bundled u H ctx) (decided X bundled u (ctx_drive_id ctx))"
    unfolding freemkv_unlock_def by (rule sat_bind [OF sat_full_unlock_decided]) simp
  from sat_run [OF this] show ?thesis .
qed

text \<open>A run that is closed by its writes: the discipline of spans, and no refusal after a write.\<close>

definition settled :: "unlock_error + unlocked \<Rightarrow> event list \<Rightarrow> bool" where
  "settled r es \<longleftrightarrow> guarded False es = Some False \<and> (written es \<longrightarrow> r = Inl Transport \<or> (\<exists>got. r = Inr got))"

lemma settled_quiet: "list_all quiet es \<Longrightarrow> settled r es"
  by (auto simp: settled_def quiet_guarded dest: quiet_not_written)

lemma settled_after: "list_all quiet es \<Longrightarrow> sat m settled \<Longrightarrow> sat m (\<lambda>r es'. settled r (es @ es'))"
  by (auto elim!: sat_weaken simp: settled_def guarded_append quiet_guarded dest: quiet_not_written)

lemma settled_full_unlock:
  assumes "reads_only X"
  shows "sat (full_unlock_with_drive X bundled freemkv_unlocker_new H d) settled"
proof -
  have vendor: "sat (is_renesas H X) (\<lambda>_ es. list_all quiet es)"
    using emits_is_renesas [of quiet H X] by (simp add: emits_def)
  have probe: "sat (probe H) (\<lambda>_ es. list_all quiet es)"
    using pre.quiet_probe(1) by (simp add: emits_def)
  have renesas: "sat (run_backend H (renesas_runtime X) renesas_backend_new installed) settled" for installed
    unfolding settled_def by (rule renesas.run_guarded [OF assms]) (simp add: renesas_backend_new_def)
  have flashed: "sat (run_backend H Preinstalled b True) settled" for b
    unfolding settled_def by (rule pre.run_guarded) auto
  have fallback: "sat (bindE (is_renesas H X) (\<lambda>r. if r then run_backend H (renesas_runtime X) renesas_backend_new False
      else errE NotApplicable)) settled"
    by (rule sat_bindE [OF vendor]) (auto intro!: settled_quiet settled_after renesas)
  show ?thesis
    unfolding full_unlock_with_drive_def
    by (rule sat_bindE [OF probe])
       (auto simp: loader_claims_def freemkv_unlocker_new_def
         intro!: settled_quiet settled_after renesas flashed fallback split: option.split)
qed

text \<open>
  C5. Nothing is written to a drive outside a critical span, and a drive that was written to is
  never handed on. With a vendor crate whose memory reads send no data, every data-out command
  lies inside a span that is closed again; and once one was sent, the unlock ends with
  \<open>Ok(Some)\<close> or \<open>Err(Transport)\<close>, never with the \<open>Ok(None)\<close> that lets the next unlocker run.
\<close>
theorem freemkv_writes_guarded:
  assumes "reads_only X"
  shows "guarded False (events_of (freemkv_unlock X bundled freemkv_unlocker_new H ctx) w) = Some False
    \<and> (if written (events_of (freemkv_unlock X bundled freemkv_unlocker_new H ctx) w)
       then result_of (freemkv_unlock X bundled freemkv_unlocker_new H ctx) w \<noteq> Inr None else True)"
proof -
  have "sat (freemkv_unlock X bundled freemkv_unlocker_new H ctx)
      (\<lambda>r es. guarded False es = Some False \<and> (if written es then r \<noteq> Inr None else True))"
    unfolding freemkv_unlock_def
    by (rule sat_bind [OF settled_full_unlock [OF assms]]) (auto simp: settled_def fallthrough_None_iff)
  from sat_run [OF this] show ?thesis .
qed

text \<open>A drive with flashed firmware: it identifies itself, takes all four settings and answers the Volume ID read.\<close>

definition flashed_replies :: "((scsi_error + scsi_result) \<times> bytes) list" where
  "flashed_replies =
     [good (put_at 0 (RESP_MAGIC @ [0x20, 0x30, 0x2E, 0x39, 0x2E, 0x32]) (zeros 64)),
      good (zeros 64), good (zeros 64), good (zeros 64), good (zeros 64),
      good ([0, 34, 0, 0] @ replicate 16 7 @ zeros 16)]"

definition flashed_ctx :: unlock_ctx where
  "flashed_ctx = unlock_ctx_new drive_id_default Aacs"

lemma freemkv_writes_guarded_witness:
  "result_of (freemkv_unlock ram_external None freemkv_unlocker_new replay_host flashed_ctx) (replaying flashed_replies)
     = Inr (Some \<lparr> vid = Some (replicate 16 7), bus_key = None \<rparr>)
   \<and> guarded False (events_of (freemkv_unlock ram_external None freemkv_unlocker_new replay_host flashed_ctx)
       (replaying flashed_replies)) = Some False"
proof -
  have "result_of (freemkv_unlock ram_external None freemkv_unlocker_new replay_host flashed_ctx) (replaying flashed_replies)
      = Inr (Some \<lparr> vid = Some (replicate 16 7), bus_key = None \<rparr>)"
    by code_simp
  with freemkv_writes_guarded [OF reads_only_ram, of None replay_host flashed_ctx "replaying flashed_replies"]
  show ?thesis by blast
qed

end
