(* ===== verification/Mt1959.thy ===== *)
theory Mt1959
  imports Ld_Profile Replay
begin

text \<open>
  The MT1959 platform of \<open>src/ld/platform/mt1959/\<close>: the driver state, the unlock read, the two
  firmware-upload variants, the three-attempt initialisation, the disc speed probe and the
  readiness poll.

  The driver's methods take the state record and return it updated with their result. Two loops
  poll until the drive answers or the clock says stop, so they have fuel; running out of it is
  \<open>None\<close>. The clock (\<open>WallClock\<close>) is the instant it was started at.
\<close>

unbundle bit_operations_syntax

section \<open>Constants and state\<close>

definition MODE_A :: u8 where [const_defs]: "MODE_A = 0x01"
definition MODE_B :: u8 where [const_defs]: "MODE_B = 0x02"
definition BUFFER_ID_A :: u8 where [const_defs]: "BUFFER_ID_A = 0x44"
definition BUFFER_ID_B :: u8 where [const_defs]: "BUFFER_ID_B = 0x77"
definition SCSI_READ_BUFFER :: u8 where [const_defs]: "SCSI_READ_BUFFER = 0x3C"
definition SCSI_READ_CAPACITY :: u8 where [const_defs]: "SCSI_READ_CAPACITY = 0x25"
definition SCSI_TEST_UNIT_READY :: u8 where [const_defs]: "SCSI_TEST_UNIT_READY = 0x00"
definition SCSI_WRITE_BUFFER :: u8 where [const_defs]: "SCSI_WRITE_BUFFER = 0x3B"
definition SUB_CMD_UNLOCK :: u8 where [const_defs]: "SUB_CMD_UNLOCK = 0x00"
definition SUB_CMD_INIT :: u8 where [const_defs]: "SUB_CMD_INIT = 0x12"
definition SUB_CMD_PROBE :: u8 where [const_defs]: "SUB_CMD_PROBE = 0x14"
definition UNLOCK_RESPONSE_SIZE :: u8 where [const_defs]: "UNLOCK_RESPONSE_SIZE = 64"
definition VALIDATE_RESPONSE_SIZE :: u8 where [const_defs]: "VALIDATE_RESPONSE_SIZE = 4"
definition FIRMWARE_ACTIVE_OFFSET :: nat where [const_defs]: "FIRMWARE_ACTIVE_OFFSET = 12"
definition FIRMWARE_ACTIVE_SIG :: bytes where [const_defs]: "FIRMWARE_ACTIVE_SIG = [0x4D, 0x4D, 0x6B, 0x76]"
definition FIRMWARE_MODE_OFFSET :: nat where [const_defs]: "FIRMWARE_MODE_OFFSET = 16"
definition FIRMWARE_MODE_SIG :: bytes where [const_defs]: "FIRMWARE_MODE_SIG = [0x4C, 0x62, 0x44, 0x72]"
definition MIN_UNLOCK_RESPONSE :: nat where [const_defs]: "MIN_UNLOCK_RESPONSE = FIRMWARE_MODE_OFFSET + 4"
definition READY_POLL :: int where "READY_POLL = millis 500"
definition READY_STALL :: int where "READY_STALL = secs 60"
definition TUR_TIMEOUT_MS :: u32 where [const_defs]: "TUR_TIMEOUT_MS = 5000"
definition READY_MAX_EMPTY_POLLS :: nat where [const_defs]: "READY_MAX_EMPTY_POLLS = 10"
definition START_UNIT :: bytes where [const_defs]: "START_UNIT = [0x1B, 0x00, 0x00, 0x00, 0x01, 0x00]"
definition START_UNIT_TIMEOUT_MS :: u32 where [const_defs]: "START_UNIT_TIMEOUT_MS = 30000"
definition UPLOAD_SETTLE :: int where "UPLOAD_SETTLE = secs 10"
definition UNLOCK_ATTEMPTS :: nat where [const_defs]: "UNLOCK_ATTEMPTS = 3"
definition RECONFIRM_SENSE_PAUSE :: int where "RECONFIRM_SENSE_PAUSE = secs 1"
definition INIT_ADDR_BD :: u16 where [const_defs]: "INIT_ADDR_BD = 0x0100"
definition INIT_ADDR_UHD :: u16 where [const_defs]: "INIT_ADDR_UHD = 0x0200"
definition PROBE_COARSE_END :: u16 where [const_defs]: "PROBE_COARSE_END = 0x5800"
definition PROBE_FINE_END :: u32 where [const_defs]: "PROBE_FINE_END = 0x10000"
definition PROBE_STEP :: u16 where [const_defs]: "PROBE_STEP = 0x0100"
definition PROBE_RESPONSE_SIZE :: u8 where [const_defs]: "PROBE_RESPONSE_SIZE = 4"
definition UHD_SECTOR_THRESHOLD :: u32 where [const_defs]: "UHD_SECTOR_THRESHOLD = 25000000"
definition READ_CAPACITY_RESPONSE_SIZE :: nat where [const_defs]: "READ_CAPACITY_RESPONSE_SIZE = 8"

record mt1959 =
  profile :: drive_profile
  mode :: u8
  buffer_id :: u8
  init_complete :: bool
  mt_unlocked :: bool
  probed :: bool

definition mt1959_new :: "drive_profile \<Rightarrow> platform \<Rightarrow> mt1959 option" where
  "mt1959_new p platform =
     (let driver = (\<lambda>(mode, buffer_id). Some \<lparr> profile = p, mode = mode, buffer_id = buffer_id,
            init_complete = False, mt_unlocked = False, probed = False \<rparr>)
      in case platform of
           Mt1959A \<Rightarrow> driver (MODE_A, BUFFER_ID_A)
         | Mt1959B \<Rightarrow> driver (MODE_B, BUFFER_ID_B)
         | Renesas \<Rightarrow> None)"

section \<open>SCSI helpers\<close>

definition read_buffer_sub :: "mt1959 \<Rightarrow> u8 \<Rightarrow> u16 \<Rightarrow> u8 \<Rightarrow> bytes" where
  "read_buffer_sub mt sub_cmd address len =
     [SCSI_READ_BUFFER, mode mt, buffer_id mt, sub_cmd, hi_byte address, lo_byte address,
      0x00, 0x00, len, 0x00]"

definition read_buffer_probe ::
  "'w host \<Rightarrow> mt1959 \<Rightarrow> u8 \<Rightarrow> u16 \<Rightarrow> bytes \<Rightarrow> nat \<Rightarrow> ('w, ld_error + nat) io" where
  "read_buffer_probe H mt sub_cmd address buf expected =
     bind_io (execute H (read_buffer_sub mt sub_cmd address (of_nat expected)) FromDevice buf 5000) (\<lambda>(r, _).
     case r of
       Inl e \<Rightarrow> errE (ld_from_scsi e)
     | Inr result \<Rightarrow>
         if res_status result \<noteq> 0 \<or> res_transferred result \<noteq> expected
         then errE (LdScsi SCSI_READ_BUFFER (res_status result) (Some (res_sense result)))
         else okE (res_transferred result))"

definition set_cd_speed_max :: "'w host \<Rightarrow> ('w, ld_error + unit) io" where
  "set_cd_speed_max H =
     bind_io (execute H (build_set_cd_speed 0xFFFF) DirNone [] 5000) (\<lambda>(r, _).
     case r of Inl e \<Rightarrow> errE (ld_from_scsi e) | Inr _ \<Rightarrow> okE ())"

section \<open>The unlock read\<close>

definition unlock_cdb :: "mt1959 \<Rightarrow> u8 \<Rightarrow> bytes" where
  "unlock_cdb mt len = [0x3C, mode mt, buffer_id mt, SUB_CMD_UNLOCK, 0x00, 0x00, 0x00, 0x00, len, 0x00]"

definition do_unlock :: "'w host \<Rightarrow> mt1959 \<Rightarrow> ('w, (ld_error + bytes) \<times> mt1959) io" where
  "do_unlock H mt =
     bind_io (execute H (unlock_cdb mt UNLOCK_RESPONSE_SIZE) FromDevice (zeros (unat UNLOCK_RESPONSE_SIZE)) 30000)
     (\<lambda>(r, response).
     case r of
       Inl e \<Rightarrow> ret (Inl (ld_from_scsi e), mt)
     | Inr result \<Rightarrow>
         if res_status result \<noteq> 0
         then ret (Inl (LdScsi SCSI_READ_BUFFER (res_status result) (Some (res_sense result))), mt)
         else if min (res_transferred result) (length response) < MIN_UNLOCK_RESPONSE
         then ret (Inl UnlockFailed, mt)
         else if slice response 0 4 \<noteq> signature (profile mt)
         then ret (Inl (SignatureMismatch (signature (profile mt)) (slice response 0 4)), mt)
         else if slice response FIRMWARE_ACTIVE_OFFSET (FIRMWARE_ACTIVE_OFFSET + 4) \<noteq> FIRMWARE_ACTIVE_SIG
         then ret (Inl UnlockFailed, mt)
         else ret (Inr response, mt\<lparr>
           mt_unlocked := (slice response FIRMWARE_MODE_OFFSET (FIRMWARE_MODE_OFFSET + 4) = FIRMWARE_MODE_SIG),
           init_complete := True \<rparr>))"

primrec validate_loop :: "'w host \<Rightarrow> mt1959 \<Rightarrow> nat list \<Rightarrow> ('w, ld_error + unit) io" where
  "validate_loop H mt [] = errE UnlockFailed"
| "validate_loop H mt (attempt # attempts) =
     bind_io (execute H (unlock_cdb mt VALIDATE_RESPONSE_SIZE) FromDevice (zeros 4) 5000) (\<lambda>(r, _).
     case r of
       Inr r \<Rightarrow> if res_status r = 0 then okE () else validate_loop H mt attempts
     | Inl e \<Rightarrow> errE (ld_from_scsi e))"

definition validate :: "'w host \<Rightarrow> mt1959 \<Rightarrow> ('w, ld_error + unit) io" where
  "validate H mt = validate_loop H mt [0..<5]"

section \<open>Clocks\<close>

definition clock_elapsed :: "'w host \<Rightarrow> int \<Rightarrow> ('w, int) io" where
  "clock_elapsed H start = bind_io (now H) (\<lambda>t. ret (max 0 (t - start)))"

definition clock_wait :: "'w host \<Rightarrow> int \<Rightarrow> ('w, ld_error + unit) io" where
  "clock_wait H d = map_errE ld_from_scsi (pause H d)"

definition settle_after_upload :: "'w host \<Rightarrow> ('w, ld_error + int) io" where
  "settle_after_upload H =
     bind_io (now H) (\<lambda>clock.
     bindE (clock_wait H UPLOAD_SETTLE) (\<lambda>_.
     okE clock))"

definition settle :: "'w host \<Rightarrow> int \<Rightarrow> ('w, ld_error + unit) io" where
  "settle H d = bind_io (now H) (\<lambda>_. bindE (clock_wait H d) (\<lambda>_. okE ()))"

definition is_restart_sense :: "ld_error \<Rightarrow> bool" where
  "is_restart_sense e = (case sense_triple e of
     Some (key, c, q) \<Rightarrow>
       key = 0x06 \<or> (key = 0x02 \<and> c = 0x04 \<and> (q = 0x00 \<or> q = 0x01 \<or> 0x04 \<le> q))
   | None \<Rightarrow> False)"

section \<open>Reading through a restart\<close>

primrec unlock_read_loop ::
  "nat \<Rightarrow> 'w host \<Rightarrow> mt1959 \<Rightarrow> int \<Rightarrow> int \<Rightarrow> ('w, ((ld_error + bytes) \<times> mt1959) option) io" where
  "unlock_read_loop 0 = (\<lambda>H mt clock start. ret None)"
| "unlock_read_loop (Suc fuel) = (\<lambda>H mt clock start.
     bind_io (do_unlock H mt) (\<lambda>(r, mt).
     case r of
       Inr response \<Rightarrow> ret (Some (Inr response, mt))
     | Inl e \<Rightarrow>
         bind_io (clock_elapsed H clock) (\<lambda>t.
         if max 0 (t - start) < READY_STALL \<and> is_restart_sense e
         then bind_io (clock_wait H RECONFIRM_SENSE_PAUSE) (\<lambda>p.
           case p of
             Inl e \<Rightarrow> ret (Some (Inl e, mt))
           | Inr _ \<Rightarrow> unlock_read_loop fuel H mt clock start)
         else ret (Some (Inl e, mt)))))"

definition unlock_read ::
  "nat \<Rightarrow> 'w host \<Rightarrow> mt1959 \<Rightarrow> int option \<Rightarrow> ('w, ((ld_error + bytes) \<times> mt1959) option) io" where
  "unlock_read fuel H mt settled = (case settled of
     None \<Rightarrow> bind_io (do_unlock H mt) (\<lambda>r. ret (Some r))
   | Some clock \<Rightarrow> bind_io (clock_elapsed H clock) (\<lambda>start. unlock_read_loop fuel H mt clock start))"

section \<open>Waiting for the media\<close>

datatype media_ready =
    Ready
  | NoMedium
  | Incompatible u8 u8
  | DriveError u8 u8 u8
  | Stalled u8 u8 u8

type_synonym answer = "u8 \<times> u8 \<times> u8"

record ready_poll =
  seen :: "answer list"
  last_progress :: int
  start_sent :: bool
  empty_run :: nat
  becoming_ready_seen :: bool

text \<open>A TEST UNIT READY reply: ready, a drive answer with its sense, or a dead bus.\<close>

definition tur_sense :: "scsi_error + scsi_result \<Rightarrow> ld_error + bytes option" where
  "tur_sense r = (case r of
     Inr r \<Rightarrow> if res_status r = 0 then Inr None else Inr (Some (res_sense r))
   | Inl e \<Rightarrow> (case err_sense e of Some sense \<Rightarrow> Inr (Some sense) | None \<Rightarrow> Inl (ld_from_scsi e)))"

fun terminal :: "bool \<Rightarrow> nat \<Rightarrow> answer \<Rightarrow> media_ready option" where
  "terminal becoming_ready empties (key, c, q) =
     (if \<not> becoming_ready \<and> READY_MAX_EMPTY_POLLS \<le> empties then Some NoMedium
      else if key = 0x02 \<and> c = 0x30 then Some (Incompatible 0x30 q)
      else if 0x03 \<le> key \<and> key \<le> 0x05 then Some (DriveError key c q)
      else None)"

definition note_answer :: "answer \<Rightarrow> ready_poll \<Rightarrow> ready_poll" where
  "note_answer a p = (case a of (key, c, q) \<Rightarrow>
     p\<lparr> empty_run := (if (key, c) = (0x02, 0x3A) then empty_run p + 1 else 0),
        becoming_ready_seen := (becoming_ready_seen p \<or> a = (0x02, 0x04, 0x01)) \<rparr>)"

text \<open>The one START STOP UNIT; its only failure is a senseless error.\<close>

definition maybe_start_unit :: "'w host \<Rightarrow> int \<Rightarrow> answer \<Rightarrow> ready_poll \<Rightarrow> ('w, ld_error + ready_poll) io" where
  "maybe_start_unit H clock a p =
     (if a = (0x02, 0x04, 0x02) \<and> \<not> start_sent p
      then bind_io (clock_elapsed H clock) (\<lambda>t.
        let p = p\<lparr> start_sent := True, last_progress := t \<rparr> in
        bind_io (execute H START_UNIT DirNone [] START_UNIT_TIMEOUT_MS) (\<lambda>(r, _).
        case r of
          Inl e \<Rightarrow> if err_sense e = None then errE (ld_from_scsi e) else okE p
        | Inr _ \<Rightarrow> okE p))
      else okE p)"

text \<open>The T6 rule: a new answer is progress; otherwise the poll ends after the stall window.\<close>

definition note_progress :: "'w host \<Rightarrow> int \<Rightarrow> answer \<Rightarrow> ready_poll \<Rightarrow> ('w, media_ready + ready_poll) io" where
  "note_progress H clock a p =
     (if a \<notin> set (seen p)
      then bind_io (clock_elapsed H clock) (\<lambda>t.
        okE (p\<lparr> seen := seen p @ [a], last_progress := t \<rparr>))
      else bind_io (clock_elapsed H clock) (\<lambda>t.
        if READY_STALL \<le> max 0 (t - last_progress p)
        then errE (case a of (key, c, q) \<Rightarrow> Stalled key c q)
        else okE p))"

definition TUR :: bytes where
  "TUR = [SCSI_TEST_UNIT_READY, 0x00, 0x00, 0x00, 0x00, 0x00]"

primrec ready_loop :: "nat \<Rightarrow> 'w host \<Rightarrow> int \<Rightarrow> ready_poll \<Rightarrow> ('w, (ld_error + media_ready) option) io" where
  "ready_loop 0 = (\<lambda>H clock p. ret None)"
| "ready_loop (Suc fuel) = (\<lambda>H clock p.
     bind_io (execute H TUR DirNone [] TUR_TIMEOUT_MS) (\<lambda>(r, _).
     case tur_sense r of
       Inl e \<Rightarrow> ret (Some (Inl e))
     | Inr None \<Rightarrow> ret (Some (Inr Ready))
     | Inr (Some sense) \<Rightarrow>
         let s = from_buf sense;
             a = (sense_key s, asc s, ascq s);
             p = note_answer a p
         in case terminal (becoming_ready_seen p) (empty_run p) a of
              Some outcome \<Rightarrow> ret (Some (Inr outcome))
            | None \<Rightarrow>
                bind_io (maybe_start_unit H clock a p) (\<lambda>r.
                case r of
                  Inl e \<Rightarrow> ret (Some (Inl e))
                | Inr p \<Rightarrow>
                    bind_io (note_progress H clock a p) (\<lambda>r.
                    case r of
                      Inl outcome \<Rightarrow> ret (Some (Inr outcome))
                    | Inr p \<Rightarrow>
                        bind_io (clock_wait H READY_POLL) (\<lambda>r.
                        case r of
                          Inl e \<Rightarrow> ret (Some (Inl e))
                        | Inr _ \<Rightarrow> ready_loop fuel H clock p)))))"

definition await_media_ready :: "nat \<Rightarrow> 'w host \<Rightarrow> int \<Rightarrow> ('w, (ld_error + media_ready) option) io" where
  "await_media_ready fuel H clock =
     bind_io (clock_elapsed H clock) (\<lambda>t.
     ready_loop fuel H clock \<lparr> seen = [], last_progress = t, start_sent = False,
       empty_run = 0, becoming_ready_seen = False \<rparr>)"

section \<open>Firmware upload, variant A\<close>

definition VERIFY_BUFFER_ID :: u8 where [const_defs]: "VERIFY_BUFFER_ID = 0x45"
definition WRITE_BUFFER_MAX_LEN :: nat where "WRITE_BUFFER_MAX_LEN = 0x00FFFFFF"

definition write_buffer_cdb :: "nat \<Rightarrow> bytes" where
  "write_buffer_cdb len =
     [SCSI_WRITE_BUFFER, 0x06, 0x00, 0x00, 0x00, 0x00,
      of_nat (len div 65536), of_nat (len div 256), of_nat len, 0x00]"

definition verify_cdb_a :: bytes where
  "verify_cdb_a = [SCSI_READ_BUFFER, MODE_A, VERIFY_BUFFER_ID, 0x00, 0x00, 0x00, 0x00, 0x00,
     VALIDATE_RESPONSE_SIZE, 0x00]"

definition upload_a :: "'w host \<Rightarrow> bytes \<Rightarrow> ('w, ld_error + unit) io" where
  "upload_a H fw =
     bind_io (execute H (write_buffer_cdb (length fw)) ToDevice fw 30000) (\<lambda>(r, _).
     case r of
       Inl e \<Rightarrow> errE (ld_from_scsi e)
     | Inr _ \<Rightarrow>
         bind_io (execute H verify_cdb_a FromDevice (zeros (unat VALIDATE_RESPONSE_SIZE)) 5000) (\<lambda>(r, _).
         case r of
           Inr _ \<Rightarrow> okE ()
         | Inl e \<Rightarrow> let err = ld_from_scsi e in
             if ld_is_transport_failure err then errE err else okE ()))"

definition load_firmware_a :: "'w host \<Rightarrow> mt1959 \<Rightarrow> ('w, (ld_error + unit) \<times> mt1959) io" where
  "load_firmware_a H mt =
     (let fw = firmware (profile mt) in
      if fw = [] then ret (Inl UnlockFailed, mt)
      else if WRITE_BUFFER_MAX_LEN < length fw then ret (Inl UnlockFailed, mt)
      else
        bind_io (with_critical H ld_from_scsi (upload_a H fw)) (\<lambda>r.
        case r of
          Inl e \<Rightarrow> ret (Inl e, mt)
        | Inr _ \<Rightarrow>
            bind_io (do_unlock H mt) (\<lambda>(r, mt).
            case r of
              Inl e \<Rightarrow> ret (Inl e, mt)
            | Inr _ \<Rightarrow> bind_io (do_unlock H mt) (\<lambda>(_, mt). ret (Inr (), mt)))))"

section \<open>Firmware upload, variant B\<close>

definition SCSI_MODE_SELECT :: u8 where [const_defs]: "SCSI_MODE_SELECT = 0x55"
definition FIRMWARE_EXTRA :: bytes where [const_defs]: "FIRMWARE_EXTRA = zeros 16"
definition VENDOR_VERIFY :: bytes where
  "VENDOR_VERIFY = [0xF1, 0x01, 0x02, 0x00, 0x0D, 0x30, 0x01, 0xF3, 0xAD, 0x23]"

definition trace_step :: "scsi_error + scsi_result \<Rightarrow> ld_error + unit" where
  "trace_step r = (case r of
     Inr res \<Rightarrow> Inr ()
   | Inl e \<Rightarrow> let err = ld_from_scsi e in if ld_is_transport_failure err then Inl err else Inr ())"

definition mode_select_cdb :: "nat \<Rightarrow> bytes" where
  "mode_select_cdb write_len =
     [SCSI_MODE_SELECT, 0x10, 0x00, 0x00, 0x00, 0x00,
      of_nat (write_len div 65536), of_nat (write_len div 256), of_nat write_len, 0x00]"

definition read_meta_cdb :: bytes where
  "read_meta_cdb = [SCSI_READ_BUFFER, 0x06, 0x00, 0x00, 0x30, 0x00, 0x00, 0x00, 0x10, 0x00]"

definition write_extra_cdb :: bytes where
  "write_extra_cdb = [SCSI_WRITE_BUFFER, 0x06, 0x00, 0x00, 0x00, 0x00, 0x00, 0x00, 0x10, 0x00]"

definition advisory :: "'w host \<Rightarrow> bytes \<Rightarrow> data_direction \<Rightarrow> bytes \<Rightarrow> ('w, ld_error + unit) io" where
  "advisory H cdb dir data = bind_io (execute H cdb dir data 5000) (\<lambda>(r, _). ret (trace_step r))"

definition upload_b :: "'w host \<Rightarrow> drive_profile \<Rightarrow> ('w, ld_error + unit) io" where
  "upload_b H p =
     bind_io (execute H (mode_select_cdb (length (firmware p))) ToDevice (firmware p) 30000) (\<lambda>(r, _).
     case r of
       Inl e \<Rightarrow> errE (ld_from_scsi e)
     | Inr _ \<Rightarrow>
         bindE (advisory H read_meta_cdb FromDevice (zeros 16)) (\<lambda>_.
         bindE (advisory H write_extra_cdb ToDevice FIRMWARE_EXTRA) (\<lambda>_.
         advisory H (case fw_verify_cdb p of Some c \<Rightarrow> c | None \<Rightarrow> VENDOR_VERIFY) DirNone [])))"

primrec unlock_retries :: "'w host \<Rightarrow> nat list \<Rightarrow> mt1959 \<Rightarrow> ('w, (ld_error + unit) \<times> mt1959) io" where
  "unlock_retries H [] = (\<lambda>mt.
     bind_io (do_unlock H mt) (\<lambda>(r, mt). ret (map_sum id (\<lambda>_. ()) r, mt)))"
| "unlock_retries H (attempt # attempts) = (\<lambda>mt.
     bind_io (do_unlock H mt) (\<lambda>(r, mt).
     case r of
       Inr _ \<Rightarrow> bind_io (do_unlock H mt) (\<lambda>(_, mt). ret (Inr (), mt))
     | Inl e \<Rightarrow> if ld_is_transport_failure e then ret (Inl e, mt) else unlock_retries H attempts mt))"

definition load_firmware_b :: "'w host \<Rightarrow> mt1959 \<Rightarrow> ('w, (ld_error + unit) \<times> mt1959) io" where
  "load_firmware_b H mt =
     (let fw = firmware (profile mt) in
      if fw = [] then ret (Inl UnlockFailed, mt)
      else if 65535 < length fw then ret (Inl UnlockFailed, mt)
      else
        bind_io (with_critical H ld_from_scsi (upload_b H (profile mt))) (\<lambda>r.
        case r of
          Inl e \<Rightarrow> ret (Inl e, mt)
        | Inr _ \<Rightarrow> unlock_retries H [0..<5] mt))"

section \<open>Initialisation\<close>

definition load_firmware :: "'w host \<Rightarrow> mt1959 \<Rightarrow> ('w, (ld_error + unit) \<times> mt1959) io" where
  "load_firmware H mt = (if mode mt = MODE_A then load_firmware_a H mt else load_firmware_b H mt)"

fun is_signature_mismatch :: "ld_error \<Rightarrow> bool" where
  "is_signature_mismatch (SignatureMismatch _ _) = True"
| "is_signature_mismatch _ = False"

text \<open>
  The attempts still to make, the last error and the clock of a settled upload. Attempt 3 is
  only the re-confirm read after the third upload.
\<close>

primrec run_init_loop ::
  "nat \<Rightarrow> 'w host \<Rightarrow> nat list \<Rightarrow> mt1959 \<Rightarrow> ld_error \<Rightarrow> int option
   \<Rightarrow> ('w, ((ld_error + unit) \<times> mt1959) option) io" where
  "run_init_loop fuel H [] = (\<lambda>mt last_err settled. ret (Some (Inl last_err, mt)))"
| "run_init_loop fuel H (attempt # attempts) = (\<lambda>mt last_err settled.
     if attempt = UNLOCK_ATTEMPTS \<and> settled = None then ret (Some (Inl last_err, mt))
     else
       bind_io (unlock_read fuel H mt settled) (\<lambda>out. case out of
         None \<Rightarrow> ret None
       | Some (Inr _, mt) \<Rightarrow>
           (case settled of
              None \<Rightarrow> ret (Some (Inr (), mt))
            | Some clock \<Rightarrow>
                bind_io (await_media_ready fuel H clock) (\<lambda>out. case out of
                  None \<Rightarrow> ret None
                | Some r \<Rightarrow> ret (Some (map_sum id (\<lambda>_. ()) r, mt))))
       | Some (Inl e, mt) \<Rightarrow>
           if is_signature_mismatch e then ret (Some (Inl UnlockFailed, mt))
           else if ld_is_transport_failure e then ret (Some (Inl e, mt))
           else if attempt = UNLOCK_ATTEMPTS then ret (Some (Inl e, mt))
           else
             bind_io (load_firmware H mt) (\<lambda>(loaded, mt). case loaded of
               Inl e \<Rightarrow>
                 if ld_is_transport_failure e then ret (Some (Inl e, mt))
                 else if is_restart_sense e then
                   bind_io (settle_after_upload H) (\<lambda>s. case s of
                     Inl e \<Rightarrow> ret (Some (Inl e, mt))
                   | Inr clock \<Rightarrow> run_init_loop fuel H attempts mt last_err (Some clock))
                 else run_init_loop fuel H attempts mt e None
             | Inr _ \<Rightarrow>
                 bind_io (settle_after_upload H) (\<lambda>s. case s of
                   Inl e \<Rightarrow> ret (Some (Inl e, mt))
                 | Inr clock \<Rightarrow> run_init_loop fuel H attempts mt last_err (Some clock)))))"

definition run_init :: "nat \<Rightarrow> 'w host \<Rightarrow> mt1959 \<Rightarrow> ('w, ((ld_error + unit) \<times> mt1959) option) io" where
  "run_init fuel H mt = run_init_loop fuel H [0..<UNLOCK_ATTEMPTS + 1] mt UnlockFailed None"

section \<open>Disc probe\<close>

lemma coarse_step: "addr < PROBE_COARSE_END \<Longrightarrow> unat (addr + PROBE_STEP) = unat addr + 256"
  by (simp add: const_defs unat_word_ariths word_less_nat_alt)

lemma fine_step: "addr < PROBE_FINE_END \<Longrightarrow> unat (addr + ucast PROBE_STEP) = unat addr + 256"
  by (simp add: const_defs unat_word_ariths word_less_nat_alt)

function probe_coarse :: "'w host \<Rightarrow> mt1959 \<Rightarrow> u16 \<Rightarrow> ('w, ld_error + unit) io" where
  "probe_coarse H mt addr =
     (if addr < PROBE_COARSE_END
      then bind_io (read_buffer_probe H mt SUB_CMD_PROBE addr (zeros (unat PROBE_RESPONSE_SIZE)) (unat PROBE_RESPONSE_SIZE)) (\<lambda>r.
        case r of
          Inl e \<Rightarrow> if ld_is_transport_failure e then errE e else errE UnlockFailed
        | Inr _ \<Rightarrow> probe_coarse H mt (addr + PROBE_STEP))
      else okE ())"
  by pat_completeness auto
termination
  by (relation "measure (\<lambda>(H, mt, addr). unat PROBE_COARSE_END - unat addr)")
     (simp, frule coarse_step, simp add: word_less_nat_alt)

function probe_fine :: "'w host \<Rightarrow> mt1959 \<Rightarrow> u32 \<Rightarrow> ('w, ld_error + unit) io" where
  "probe_fine H mt addr =
     (if addr < PROBE_FINE_END
      then bind_io (read_buffer_probe H mt SUB_CMD_PROBE (ucast addr) (zeros (unat PROBE_RESPONSE_SIZE)) (unat PROBE_RESPONSE_SIZE)) (\<lambda>r.
        case r of
          Inl e \<Rightarrow> if ld_is_transport_failure e then errE e else okE ()
        | Inr _ \<Rightarrow> probe_fine H mt (addr + ucast PROBE_STEP))
      else okE ())"
  by pat_completeness auto
termination
  by (relation "measure (\<lambda>(H, mt, addr). unat PROBE_FINE_END - unat addr)")
     (simp, frule fine_step, simp add: word_less_nat_alt)

declare probe_coarse.simps [simp del] probe_fine.simps [simp del]

definition read_capacity_cdb :: bytes where
  "read_capacity_cdb = SCSI_READ_CAPACITY # zeros 9"

definition saturating_succ :: "u32 \<Rightarrow> u32" where
  "saturating_succ x = (if x = 0xFFFFFFFF then x else x + 1)"

definition disc_sectors :: "scsi_result \<Rightarrow> bytes \<Rightarrow> u32" where
  "disc_sectors cap cap_buf =
     (if res_status cap = 0 \<and> 4 \<le> res_transferred cap then saturating_succ (from_be32 cap_buf) else 0)"

definition probe_init_addr :: "u32 \<Rightarrow> u16" where
  "probe_init_addr sectors = (if UHD_SECTOR_THRESHOLD < sectors then INIT_ADDR_UHD else INIT_ADDR_BD)"

text \<open>The calibration once the drive is initialised.\<close>

definition probe_steps :: "'w host \<Rightarrow> mt1959 \<Rightarrow> ('w, ld_error + unit) io" where
  "probe_steps H mt =
     bind_io (execute H read_capacity_cdb FromDevice (zeros READ_CAPACITY_RESPONSE_SIZE) 5000) (\<lambda>(r, cap_buf).
     case r of
       Inl e \<Rightarrow> errE (ld_from_scsi e)
     | Inr cap \<Rightarrow>
         let init_addr = probe_init_addr (disc_sectors cap cap_buf) in
         bind_io (read_buffer_probe H mt SUB_CMD_INIT init_addr (zeros (unat PROBE_RESPONSE_SIZE)) (unat PROBE_RESPONSE_SIZE)) (\<lambda>r.
         case (case r of Inl e \<Rightarrow> if ld_is_transport_failure e then Inl e else Inr () | Inr _ \<Rightarrow> Inr ()) of
           Inl e \<Rightarrow> errE e
         | Inr _ \<Rightarrow>
             bindE (validate H mt) (\<lambda>_.
             bindE (probe_coarse H mt 0) (\<lambda>_.
             bindE (probe_fine H mt (ucast PROBE_COARSE_END)) (\<lambda>_.
             bind_io (set_cd_speed_max H) (\<lambda>_.
             okE ()))))))"

definition run_probe :: "'w host \<Rightarrow> mt1959 \<Rightarrow> ('w, (ld_error + unit) \<times> mt1959) io" where
  "run_probe H mt =
     bind_io (if \<not> init_complete mt then do_unlock H mt else ret (Inr [], mt)) (\<lambda>(r, mt).
     case r of
       Inl e \<Rightarrow> ret (Inl e, mt)
     | Inr _ \<Rightarrow>
         bind_io (probe_steps H mt) (\<lambda>r.
         case r of
           Inl e \<Rightarrow> ret (Inl e, mt)
         | Inr _ \<Rightarrow> ret (Inr (), mt\<lparr> probed := True \<rparr>)))"

section \<open>Entry points\<close>

definition mt_init :: "nat \<Rightarrow> 'w host \<Rightarrow> mt1959 \<Rightarrow> ('w, ((ld_error + unit) \<times> mt1959) option) io" where
  "mt_init fuel H mt = (if init_complete mt then ret (Some (Inr (), mt)) else run_init fuel H mt)"

definition probe_disc :: "'w host \<Rightarrow> mt1959 \<Rightarrow> ('w, (ld_error + unit) \<times> mt1959) io" where
  "probe_disc H mt =
     (if \<not> init_complete mt then ret (Inr (), mt)
      else if probed mt then ret (Inr (), mt)
      else run_probe H mt)"

definition reconfirm_unlock :: "nat \<Rightarrow> 'w host \<Rightarrow> mt1959 \<Rightarrow> ('w, ((ld_error + bool) \<times> mt1959) option) io" where
  "reconfirm_unlock fuel H mt =
     (let mt = mt\<lparr> mt_unlocked := False \<rparr> in
      bind_io (now H) (\<lambda>clock.
      bind_io (unlock_read fuel H mt (Some clock)) (\<lambda>out. case out of
        None \<Rightarrow> ret None
      | Some (Inl e, mt) \<Rightarrow> ret (Some (Inl e, mt))
      | Some (Inr _, mt) \<Rightarrow> ret (Some (Inr (mt_unlocked mt), mt)))))"

end
