(* ===== verification/Mt1959_Unlock.thy ===== *)
theory Mt1959_Unlock
  imports Mt1959
begin

text \<open>
  What initialising an MT1959 drive guarantees for every drive and host: uploads are few and
  guarded, another make of drive is never written to, and the driver's flag for the
  extended-access state is what the last accepted unlock read showed.
\<close>

unbundle bit_operations_syntax

section \<open>The unlock read, as an event\<close>

text \<open>
  Which reply is accepted: good status, at least 20 bytes, the drive's own signature and the
  primary marker; and whether an accepted reply carries the secondary marker (extended access).
\<close>

fun unlock_ok :: "drive_profile \<Rightarrow> event \<Rightarrow> bool" where
  "unlock_ok p (Exec _ _ _ _ (Inr res) buf) \<longleftrightarrow> res_status res = 0 \<and> 20 \<le> res_transferred res
     \<and> slice buf 0 4 = signature p \<and> slice buf 12 16 = FIRMWARE_ACTIVE_SIG"
| "unlock_ok p _ \<longleftrightarrow> False"

fun unlock_foreign :: "drive_profile \<Rightarrow> event \<Rightarrow> bool" where
  "unlock_foreign p (Exec _ _ _ _ (Inr res) buf) \<longleftrightarrow> res_status res = 0 \<and> 20 \<le> res_transferred res
     \<and> slice buf 0 4 \<noteq> signature p"
| "unlock_foreign p _ \<longleftrightarrow> False"

fun unlock_extended :: "event \<Rightarrow> bool" where
  "unlock_extended (Exec _ _ _ _ _ buf) \<longleftrightarrow> slice buf 16 20 = FIRMWARE_MODE_SIG"
| "unlock_extended _ \<longleftrightarrow> False"

lemma not_mismatch_from_scsi [simp]: "\<not> is_signature_mismatch (ld_from_scsi e)"
  by (simp add: ld_from_scsi_def)

text \<open>The error of a refused reply, by its class.\<close>

definition error_class_of :: "drive_profile \<Rightarrow> event \<Rightarrow> ld_error \<Rightarrow> bool" where
  "error_class_of p ev e \<longleftrightarrow> (is_signature_mismatch e \<longleftrightarrow> unlock_foreign p ev)
     \<and> (ld_is_transport_failure e \<longleftrightarrow> dead_event ev)"

definition accept :: "mt1959 \<Rightarrow> event \<Rightarrow> mt1959" where
  "accept mt ev = mt\<lparr> mt_unlocked := unlock_extended ev, init_complete := True \<rparr>"

lemma sat_bind_do_unlock:
  assumes "\<And>ev resp. \<exists>r buf. ev = Exec (unlock_cdb mt 64) FromDevice (zeros 64) 30000 r buf \<Longrightarrow>
      unlock_ok (profile mt) ev \<Longrightarrow> sat (f (Inr resp, accept mt ev)) (\<lambda>b es. Q b (ev # es))"
    and "\<And>ev e. \<exists>r buf. ev = Exec (unlock_cdb mt 64) FromDevice (zeros 64) 30000 r buf \<Longrightarrow>
      \<not> unlock_ok (profile mt) ev \<Longrightarrow> error_class_of (profile mt) ev e \<Longrightarrow>
      sat (f (Inl e, mt)) (\<lambda>b es. Q b (ev # es))"
  shows "sat (bind_io (do_unlock H mt) f) Q"
  unfolding do_unlock_def bind_io_assoc
proof (rule sat_bind_execute)
  fix reply and buf :: bytes assume len: "length buf = length (zeros (unat UNLOCK_RESPONSE_SIZE))"
  let ?ev = "Exec (unlock_cdb mt UNLOCK_RESPONSE_SIZE) FromDevice (zeros (unat UNLOCK_RESPONSE_SIZE)) 30000 reply buf"
  note ok = assms(1) [of ?ev buf] and err = assms(2) [of ?ev]
  have cs: "UNLOCK_RESPONSE_SIZE = 64" "unat UNLOCK_RESPONSE_SIZE = 64" "MIN_UNLOCK_RESPONSE = 20"
    "FIRMWARE_ACTIVE_OFFSET = 12" "FIRMWARE_MODE_OFFSET = 16"
    by (simp_all add: const_defs)
  have len64: "length buf = 64" using len by (simp add: cs)
  show "sat (bind_io (case (reply, buf) of (r, response) \<Rightarrow> (case r of
       Inl e \<Rightarrow> ret (Inl (ld_from_scsi e), mt)
     | Inr result \<Rightarrow>
         if res_status result \<noteq> 0
         then ret (Inl (LdScsi SCSI_READ_BUFFER (res_status result) (Some (res_sense result))), mt)
         else if min (res_transferred result) (length response) < MIN_UNLOCK_RESPONSE
         then ret (Inl UnlockFailed, mt)
         else if slice response 0 4 \<noteq> signature (profile mt)
         then ret (Inl (SignatureMismatch (signature (profile mt)) (slice response 0 4)), mt)
         else if slice response FIRMWARE_ACTIVE_OFFSET (FIRMWARE_ACTIVE_OFFSET + 4) \<noteq> FIRMWARE_ACTIVE_SIG
         then ret (Inl UnlockFailed, mt)
         else ret (Inr response, mt\<lparr>
           mt_unlocked := (slice response FIRMWARE_MODE_OFFSET (FIRMWARE_MODE_OFFSET + 4) = FIRMWARE_MODE_SIG),
           init_complete := True \<rparr>))) f)
     (\<lambda>b es. Q b (?ev # es))"
  proof (cases reply)
    case (Inl e)
    then show ?thesis
      using err [of "ld_from_scsi e"] by (simp add: cs error_class_of_def ld_from_scsi_def [symmetric])
  next
    case (Inr res)
    then show ?thesis
      using ok err len64
      by (auto simp: cs error_class_of_def accept_def)
  qed
qed

section \<open>Uploads are few and guarded\<close>

text \<open>
  The bus discipline of an upload: \<open>guarded\<close>, and few spans. \<open>uploads\<close> counts the spans that were
  opened or refused.
\<close>

fun is_begin :: "event \<Rightarrow> bool" where
  "is_begin (BeginCritical _) = True"
| "is_begin _ = False"

definition uploads :: "event list \<Rightarrow> nat" where
  "uploads es = length (filter is_begin es)"

lemma uploads_simps [simp]:
  "uploads [] = 0" "uploads (es @ es') = uploads es + uploads es'"
  "uploads (e # es) = (if is_begin e then Suc (uploads es) else uploads es)"
  by (simp_all add: uploads_def)

definition uploads_ok :: "nat \<Rightarrow> event list \<Rightarrow> bool" where
  "uploads_ok n es \<longleftrightarrow> guarded False es = Some False \<and> uploads es \<le> n"

lemma uploads_ok_append: "uploads_ok m es \<Longrightarrow> uploads_ok n es' \<Longrightarrow> k = m + n \<Longrightarrow> uploads_ok k (es @ es')"
  by (auto simp: uploads_ok_def guarded_append)

lemma uploads_ok_mono: "uploads_ok m es \<Longrightarrow> m \<le> n \<Longrightarrow> uploads_ok n es"
  by (auto simp: uploads_ok_def)

lemma uploads_ok_Suc:
  "uploads_ok (Suc 0) es \<Longrightarrow> uploads_ok n es' \<Longrightarrow> uploads_ok (Suc n) (es @ es')"
  "uploads_ok (Suc 0) es \<Longrightarrow> uploads_ok (Suc n) es"
  by (auto simp: uploads_ok_def guarded_append)

lemma quiet_uploads_ok: "list_all quiet es \<Longrightarrow> uploads_ok n es"
proof -
  assume q: "list_all quiet es"
  have "guarded b es = Some b" for b
    using q by (rule quiet_guarded)
  moreover have "uploads es = 0"
    using q by (induction es) (auto, metis is_begin.elims(2) quiet.simps(4))
  ultimately show ?thesis by (simp add: uploads_ok_def)
qed

lemma sat_with_critical_uploads:
  assumes "emits (\<lambda>e. \<not> is_span_event e) body"
  shows "sat (with_critical H conv body) (\<lambda>_ es. uploads_ok 1 es)"
proof -
  have inside: "guarded True es = Some True \<and> uploads es = 0" if "list_all (\<lambda>e. \<not> is_span_event e) es" for es
    using that by (induction "True" es rule: guarded.induct) auto
  have enter: "sat (map_errE conv (critical_enter H))
      (\<lambda>r es. \<exists>b. es = [BeginCritical b] \<and> (case r of Inl _ \<Rightarrow> b \<noteq> Inr () | Inr _ \<Rightarrow> b = Inr ()))"
    by (rule sat_map_errE [OF sat_critical_enter]) auto
  show ?thesis
    unfolding with_critical_def
    by (rule sat_bindE [OF enter])
       (auto simp: uploads_ok_def critical_drop_def guarded_append dest!: inside
          intro!: sat_bind [OF assms [unfolded emits_def]] sat_bind [OF sat_end_critical])
qed

lemma quiet_do_unlock [emits_intros]: "emits quiet (do_unlock H mt)"
proof -
  have "sat (bind_io (do_unlock H mt) ret) (\<lambda>_ es. list_all quiet es)"
    by (rule sat_bind_do_unlock) auto
  then show ?thesis by (simp add: emits_def)
qed

lemma quiet_clocks [emits_intros]:
  "emits quiet (clock_elapsed H c)" "emits quiet (clock_wait H d)"
  by (auto simp: clock_elapsed_def clock_wait_def intro!: emits_intros)

lemma quiet_settle [emits_intros]: "emits quiet (settle_after_upload H)" "emits quiet (settle H d)"
  by (auto simp: settle_after_upload_def settle_def intro!: emits_intros)

lemma quiet_unlock_read_loop [emits_intros]: "emits quiet (unlock_read_loop fuel H mt clock start)"
  by (induction fuel arbitrary: mt) (auto intro!: emits_intros)

lemma quiet_unlock_read [emits_intros]: "emits quiet (unlock_read fuel H mt settled)"
  unfolding unlock_read_def by (auto intro!: emits_intros)

lemma quiet_ready_loop [emits_intros]: "emits quiet (ready_loop fuel H clock p)"
  by (induction fuel arbitrary: p)
     (auto simp: Let_def maybe_start_unit_def note_progress_def intro!: emits_intros)

lemma quiet_await [emits_intros]: "emits quiet (await_media_ready fuel H clock)"
  unfolding await_media_ready_def by (auto intro!: emits_intros)

lemma quiet_unlock_retries [emits_intros]: "emits quiet (unlock_retries H attempts mt)"
  by (induction attempts arbitrary: mt) (auto intro!: emits_intros)

lemma upload_no_span:
  "emits (\<lambda>e. \<not> is_span_event e) (upload_a H fw)" "emits (\<lambda>e. \<not> is_span_event e) (upload_b H p)"
  by (auto simp: upload_a_def upload_b_def advisory_def Let_def intro!: emits_intros)

lemma sat_quiet_uploads: "emits quiet m \<Longrightarrow> sat m (\<lambda>_ es. uploads_ok 0 es)"
  unfolding emits_def by (erule sat_weaken) (rule quiet_uploads_ok)

lemma sat_span_then_quiet:
  assumes "emits (\<lambda>e. \<not> is_span_event e) body" and "\<And>r. emits quiet (f r)"
  shows "sat (bind_io (with_critical H conv body) f) (\<lambda>_ es. uploads_ok 1 es)"
  by (rule sat_bind [OF sat_with_critical_uploads [OF assms(1)]],
      rule sat_weaken [OF sat_quiet_uploads [OF assms(2)]]) (auto intro: uploads_ok_append)

lemma sat_load_firmware_uploads: "sat (load_firmware H mt) (\<lambda>_ es. uploads_ok 1 es)"
proof -
  have A: "sat (load_firmware_a H mt) (\<lambda>_ es. uploads_ok 1 es)"
    unfolding load_firmware_a_def Let_def
    by (simp add: uploads_ok_def [where es = "[]"])
       (intro impI sat_span_then_quiet [simplified] upload_no_span emits_intros)
  have B: "sat (load_firmware_b H mt) (\<lambda>_ es. uploads_ok 1 es)"
    unfolding load_firmware_b_def Let_def
    by (simp add: uploads_ok_def [where es = "[]"])
       (intro impI sat_span_then_quiet [simplified] upload_no_span emits_intros)
  from A B show ?thesis by (simp add: load_firmware_def)
qed

lemma sat_run_init_loop_uploads:
  "sat (run_init_loop fuel H attempts mt last_err settled)
     (\<lambda>_ es. uploads_ok (length (filter (\<lambda>a. a \<noteq> UNLOCK_ATTEMPTS) attempts)) es)"
proof (induction attempts arbitrary: mt last_err settled)
  case Nil
  then show ?case by (simp add: uploads_ok_def)
next
  case (Cons attempt attempts)
  let ?n = "length (filter (\<lambda>a. a \<noteq> UNLOCK_ATTEMPTS) attempts)"
  let ?N = "length (filter (\<lambda>a. a \<noteq> UNLOCK_ATTEMPTS) (attempt # attempts))"
  have settle: "sat (bind_io (settle_after_upload H) (\<lambda>s. case s of
        Inl e \<Rightarrow> ret (Some (Inl e, mt))
      | Inr clock \<Rightarrow> run_init_loop fuel H attempts mt last_err (Some clock)))
      (\<lambda>_ es. uploads_ok ?n es)" for mt
    by (rule sat_bind [OF sat_quiet_uploads [OF quiet_settle(1)]])
       (auto intro: uploads_ok_mono uploads_ok_append elim!: sat_weaken split: sum.split
          intro!: sat_weaken [OF Cons.IH])
  have reload: "sat (bind_io (load_firmware H mt) (\<lambda>(loaded, mt). case loaded of
        Inl e \<Rightarrow>
          if ld_is_transport_failure e then ret (Some (Inl e, mt))
          else if is_restart_sense e then
            bind_io (settle_after_upload H) (\<lambda>s. case s of
              Inl e \<Rightarrow> ret (Some (Inl e, mt))
            | Inr clock \<Rightarrow> run_init_loop fuel H attempts mt last_err (Some clock))
          else run_init_loop fuel H attempts mt e None
      | Inr _ \<Rightarrow>
          bind_io (settle_after_upload H) (\<lambda>s. case s of
            Inl e \<Rightarrow> ret (Some (Inl e, mt))
          | Inr clock \<Rightarrow> run_init_loop fuel H attempts mt last_err (Some clock))))
      (\<lambda>_ es. uploads_ok (Suc ?n) es)" for mt
    by (rule sat_bind [OF sat_load_firmware_uploads])
       (auto intro: uploads_ok_Suc split: sum.split
          intro!: sat_weaken [OF settle] sat_weaken [OF Cons.IH])
  have wait: "sat (bind_io (await_media_ready fuel H clock) (\<lambda>out. case out of
        None \<Rightarrow> ret None | Some r \<Rightarrow> ret (Some (map_sum id (\<lambda>_. ()) r, mt))))
      (\<lambda>_ es. uploads_ok ?N es)" for clock and mt :: mt1959
    by (rule sat_bind [OF sat_quiet_uploads [OF quiet_await]])
       (auto split: option.split intro: uploads_ok_mono)
  show ?case
  proof (cases "attempt = UNLOCK_ATTEMPTS \<and> settled = None")
    case True
    then show ?thesis by (simp add: uploads_ok_def)
  next
    case False
    show ?thesis
      unfolding run_init_loop.simps if_not_P [OF False]
      by (rule sat_bind [OF sat_quiet_uploads [OF quiet_unlock_read]])
         (auto intro: uploads_ok_append uploads_ok_mono split: option.split sum.split
            intro!: sat_weaken [OF reload] sat_weaken [OF wait])
  qed
qed

lemma mt1959_uploads_bound: "uploads_ok 3 (events_of (run_init fuel H mt) w)"
proof -
  have "length (filter (\<lambda>a. a \<noteq> UNLOCK_ATTEMPTS) [0..<UNLOCK_ATTEMPTS + 1]) = 3"
    by (simp add: UNLOCK_ATTEMPTS_def upt_rec)
  with sat_run [OF sat_run_init_loop_uploads] show ?thesis
    unfolding run_init_def by metis
qed

text \<open>
  A drive of another make is never written to: if the first unlock read answers with another
  drive's signature, initialisation fails at once, with no further command.
\<close>
theorem mt1959_foreign_signature_is_final:
  "\<exists>ev es. events_of (run_init fuel H mt) w = ev # es \<and> exec_cdb ev = Some (unlock_cdb mt 64)
     \<and> (if unlock_foreign (profile mt) ev
        then es = [] \<and> result_of (run_init fuel H mt) w = Some (Inl UnlockFailed, mt) else True)"
proof (rule sat_run [where Q = "\<lambda>r events. \<exists>ev es. events = ev # es \<and> exec_cdb ev = Some (unlock_cdb mt 64)
     \<and> (if unlock_foreign (profile mt) ev then es = [] \<and> r = Some (Inl UnlockFailed, mt) else True)"])
  have attempts: "[0..<UNLOCK_ATTEMPTS + 1] = 0 # [1..<UNLOCK_ATTEMPTS + 1]"
    by (simp add: upt_conv_Cons)
  have zero: "0 = UNLOCK_ATTEMPTS \<longleftrightarrow> False"
    by (simp add: UNLOCK_ATTEMPTS_def)
  have foreign: "\<not> unlock_foreign p ev" if "unlock_ok p ev" for p ev
    using that by (cases "(p, ev)" rule: unlock_ok.cases) auto
  have first: "sat (bind_io (bind_io (do_unlock H mt) (\<lambda>r. ret (Some r))) g)
      (\<lambda>r events. \<exists>ev es. events = ev # es \<and> exec_cdb ev = Some (unlock_cdb mt 64)
        \<and> (if unlock_foreign (profile mt) ev then es = [] \<and> r = Some (Inl UnlockFailed, mt) else True))"
    if "\<And>e. is_signature_mismatch e \<Longrightarrow> g (Some (Inl e, mt)) = ret (Some (Inl UnlockFailed, mt))" for g
    unfolding bind_io_assoc
    by (rule sat_bind_do_unlock) (auto simp: foreign error_class_of_def that)
  show "sat (run_init fuel H mt) (\<lambda>r events. \<exists>ev es. events = ev # es \<and> exec_cdb ev = Some (unlock_cdb mt 64)
     \<and> (if unlock_foreign (profile mt) ev then es = [] \<and> r = Some (Inl UnlockFailed, mt) else True))"
    unfolding run_init_def attempts run_init_loop.simps unlock_read_def
    by (simp only: zero simp_thms if_False option.case) (rule first, simp)
qed

section \<open>Unlocked means the drive said so last\<close>

text \<open>
  The unlock reads of a run, and what it is to have a state confirmed by the last of them: it
  was accepted, and the state's flag is what it showed.
\<close>

definition unlock_reads :: "mt1959 \<Rightarrow> event list \<Rightarrow> event list" where
  "unlock_reads mt es = filter (\<lambda>e. exec_cdb e = Some (unlock_cdb mt 64)) es"

definition confirmed :: "mt1959 \<Rightarrow> event list \<Rightarrow> bool \<Rightarrow> bool" where
  "confirmed mt es flag \<longleftrightarrow> unlock_reads mt es \<noteq> []
     \<and> unlock_ok (profile mt) (last (unlock_reads mt es))
     \<and> flag = unlock_extended (last (unlock_reads mt es))"

definition same_drive :: "mt1959 \<Rightarrow> mt1959 \<Rightarrow> bool" where
  "same_drive mt mt' \<longleftrightarrow> profile mt' = profile mt \<and> mode mt' = mode mt \<and> buffer_id mt' = buffer_id mt"

lemma same_drive_refl [simp]: "same_drive mt mt" "same_drive mt (accept mt ev)"
  by (simp_all add: same_drive_def accept_def)

lemma same_drive_trans: "same_drive a b \<Longrightarrow> same_drive b c \<Longrightarrow> same_drive a c"
  by (simp add: same_drive_def)

lemma same_drive_reads: "same_drive mt mt' \<Longrightarrow> unlock_reads mt' es = unlock_reads mt es"
  by (simp add: same_drive_def unlock_reads_def unlock_cdb_def)

lemma confirmed_same: "same_drive mt mt' \<Longrightarrow> confirmed mt' es b = confirmed mt es b"
  using same_drive_reads [of mt mt' es] by (simp add: confirmed_def same_drive_def)

lemma unlock_reads_append [simp]: "unlock_reads mt (es @ es') = unlock_reads mt es @ unlock_reads mt es'"
  by (simp add: unlock_reads_def)

lemma confirmed_append:
  "confirmed mt es' b \<Longrightarrow> confirmed mt (es @ es') b"
  "confirmed mt es b \<Longrightarrow> unlock_reads mt es' = [] \<Longrightarrow> confirmed mt (es @ es') b"
  by (auto simp: confirmed_def)

lemma confirmed_read:
  "exec_cdb ev = Some (unlock_cdb mt 64) \<Longrightarrow> unlock_ok (profile mt) ev \<Longrightarrow>
   confirmed mt [ev] (mt_unlocked (accept mt ev))"
  by (simp add: confirmed_def unlock_reads_def accept_def)

definition no_reads :: "mt1959 \<Rightarrow> ('w, 'a) io \<Rightarrow> bool" where
  "no_reads mt m \<longleftrightarrow> emits (\<lambda>e. exec_cdb e \<noteq> Some (unlock_cdb mt 64)) m"

lemma no_readsD: "no_reads mt m \<Longrightarrow> sat m (\<lambda>_ es. unlock_reads mt es = [])"
  unfolding no_reads_def emits_def
  by (erule sat_weaken) (simp add: unlock_reads_def list_all_iff filter_empty_conv)

lemma no_reads_ready_loop: "no_reads mt (ready_loop fuel H clock p)"
  unfolding no_reads_def
  by (induction fuel arbitrary: p)
     (auto simp: Let_def maybe_start_unit_def note_progress_def clock_elapsed_def clock_wait_def
        TUR_def START_UNIT_def unlock_cdb_def intro!: emits_intros)

lemma no_reads_await: "no_reads mt (await_media_ready fuel H clock)"
  using no_reads_ready_loop
  by (auto simp: await_media_ready_def clock_elapsed_def no_reads_def intro!: emits_intros)

lemma no_reads_settle: "no_reads mt (settle_after_upload H)" "no_reads mt (settle H d)"
  by (auto simp: no_reads_def settle_after_upload_def settle_def clock_wait_def intro!: emits_intros)

definition reads_ok :: "mt1959 \<Rightarrow> ((ld_error + 'a) \<times> mt1959) option \<Rightarrow> event list \<Rightarrow> bool" where
  "reads_ok mt out es \<longleftrightarrow> (case out of
     None \<Rightarrow> True
   | Some (r, mt') \<Rightarrow> same_drive mt mt'
       \<and> (isl r \<or> init_complete mt' \<and> confirmed mt es (mt_unlocked mt')))"

lemma reads_ok_simps [simp]:
  "reads_ok mt None es"
  "reads_ok mt (Some (Inl e, mt')) es \<longleftrightarrow> same_drive mt mt'"
  "reads_ok mt (Some (Inr a, mt')) es \<longleftrightarrow> same_drive mt mt' \<and> init_complete mt' \<and> confirmed mt es (mt_unlocked mt')"
  by (simp_all add: reads_ok_def)

lemma reads_ok_append: "same_drive mt mt' \<Longrightarrow> reads_ok mt' out es' \<Longrightarrow> reads_ok mt out (es @ es')"
  by (auto simp: reads_ok_def confirmed_same intro: confirmed_append same_drive_trans
      split: option.splits)

lemmas reads_ok_appends = reads_ok_append
  reads_ok_append [where es = "x @ y" for x y, simplified append_assoc]
  reads_ok_append [where es = "x @ y @ z" for x y z, simplified append_assoc]

lemma sat_do_unlock_reads: "sat (do_unlock H mt) (\<lambda>(r, mt') es. reads_ok mt (Some (r, mt')) es)"
proof -
  have "sat (bind_io (do_unlock H mt) ret) (\<lambda>(r, mt') es. reads_ok mt (Some (r, mt')) es)"
    by (rule sat_bind_do_unlock) (auto intro: confirmed_read simp: accept_def [THEN arg_cong [of _ _ init_complete]])
  then show ?thesis by simp
qed

lemma sat_unlock_read_loop_reads: "sat (unlock_read_loop fuel H mt clock start) (reads_ok mt)"
proof (induction fuel arbitrary: mt)
  case (Suc fuel)
  show ?case
    unfolding unlock_read_loop.simps
    by (rule sat_bind [OF sat_do_unlock_reads])
       (auto split: sum.split intro!: sat_bind [OF sat_True] sat_weaken [OF Suc.IH]
          intro: reads_ok_appends, blast intro: reads_ok_appends)
qed simp

lemma sat_unlock_read_reads: "sat (unlock_read fuel H mt settled) (reads_ok mt)"
proof (cases settled)
  case None
  then show ?thesis
    by (auto simp: unlock_read_def intro!: sat_bind [OF sat_do_unlock_reads])
next
  case (Some clock)
  then show ?thesis
    by (auto simp: unlock_read_def intro!: sat_bind [OF sat_True]
        sat_weaken [OF sat_unlock_read_loop_reads] intro: reads_ok_append [OF same_drive_refl(1)])
qed

lemma sat_upload_frame: "sat (bind_io (with_critical H conv body) f) (reads_ok mt)"
  if "\<And>r. sat (f r) (\<lambda>out es. reads_ok mt out es)"
  by (rule sat_bind [OF sat_True], rule sat_weaken [OF that])
     (rule reads_ok_append [OF same_drive_refl(1)])

lemma sat_keep: "sat m (\<lambda>(r, mt') es. same_drive mt mt') \<longleftrightarrow> sat m (\<lambda>out es. same_drive mt (snd out))"
  by (simp add: case_prod_unfold)

lemma sat_do_unlock_frame: "sat (do_unlock H mt) (\<lambda>out es. same_drive mt (snd out))"
  by (rule sat_weaken [OF sat_do_unlock_reads]) (auto simp: reads_ok_def)

lemma sat_unlock_retries_frame: "sat (unlock_retries H attempts mt) (\<lambda>out es. same_drive mt (snd out))"
proof (induction attempts arbitrary: mt)
  case Nil
  then show ?case by (auto intro!: sat_bind [OF sat_do_unlock_frame])
next
  case (Cons a as)
  show ?case
    unfolding unlock_retries.simps
    by (rule sat_bind [OF sat_do_unlock_frame])
       (auto split: sum.split intro!: sat_bind [OF sat_do_unlock_frame] sat_weaken [OF Cons.IH],
        (erule (1) same_drive_trans)+)
qed

lemma sat_load_firmware_frame: "sat (load_firmware H mt) (\<lambda>out es. same_drive mt (snd out))"
  unfolding load_firmware_def load_firmware_a_def load_firmware_b_def Let_def
  by (auto split: sum.split intro!: sat_bind [OF sat_True] sat_bind [OF sat_do_unlock_frame]
      sat_unlock_retries_frame, (erule (1) same_drive_trans)+)

lemma sat_run_init_loop_reads:
  "sat (run_init_loop fuel H attempts mt last_err settled) (reads_ok mt)"
proof (induction attempts arbitrary: mt last_err settled)
  case (Cons attempt attempts)
  have again: "sat (run_init_loop fuel H attempts mt' l s) (\<lambda>out es'. reads_ok mt out (es @ es'))"
    if "same_drive mt mt'" for mt' l s es
    by (rule sat_weaken [OF Cons.IH]) (rule reads_ok_append [OF that])
  have settle: "sat (bind_io (settle_after_upload H) (\<lambda>s. case s of
        Inl e \<Rightarrow> ret (Some (Inl e, mt'))
      | Inr clock \<Rightarrow> run_init_loop fuel H attempts mt' last_err (Some clock)))
      (\<lambda>out es'. reads_ok mt out (es @ es'))" if "same_drive mt mt'" for mt' es
    by (rule sat_bind [OF sat_True])
       (auto split: sum.split simp: that append_assoc [symmetric] simp del: append_assoc intro!: again that)
  have wait: "sat (bind_io (await_media_ready fuel H clock) (\<lambda>out. case out of
        None \<Rightarrow> ret None | Some r \<Rightarrow> ret (Some (map_sum id (\<lambda>_. ()) r, mt'))))
      (\<lambda>out es'. reads_ok mt out (es @ es'))"
    if "same_drive mt mt'" "init_complete mt'" "confirmed mt es (mt_unlocked mt')" for clock mt' es
    by (rule sat_bind [OF no_readsD [OF no_reads_await [of mt]]])
       (auto split: option.split simp: reads_ok_def that isl_map_sum intro: confirmed_append(2) [OF that(3)])
  show ?case
  proof (cases "attempt = UNLOCK_ATTEMPTS \<and> settled = None")
    case False
    show ?thesis
      unfolding run_init_loop.simps if_not_P [OF False]
    proof (rule sat_bind [OF sat_unlock_read_reads])
      fix out es assume out: "reads_ok mt out es"
      show "sat (case out of None \<Rightarrow> ret None
       | Some (Inr _, mt) \<Rightarrow>
           (case settled of
              None \<Rightarrow> ret (Some (Inr (), mt))
            | Some clock \<Rightarrow>
                bind_io (await_media_ready fuel H clock) (\<lambda>out. case out of
                  None \<Rightarrow> ret None
                | Some r \<Rightarrow> ret (Some (map_sum id (\<lambda>_. ()) r, mt))))
       | Some (Inl e, mt) \<Rightarrow>
           if is_signature_mismatch e then ret (Some (Inl UnlockFailed, mt))
           else if ld_is_transport_failure e then ret (Some (Inl e, mt))
           else if attempt = UNLOCK_ATTEMPTS then ret (Some (Inl e, mt))
           else
             bind_io (load_firmware H mt) (\<lambda>(loaded, mt). case loaded of
               Inl e \<Rightarrow>
                 if ld_is_transport_failure e then ret (Some (Inl e, mt))
                 else if is_restart_sense e then
                   bind_io (settle_after_upload H) (\<lambda>s. case s of
                     Inl e \<Rightarrow> ret (Some (Inl e, mt))
                   | Inr clock \<Rightarrow> run_init_loop fuel H attempts mt last_err (Some clock))
                 else run_init_loop fuel H attempts mt e None
             | Inr _ \<Rightarrow>
                 bind_io (settle_after_upload H) (\<lambda>s. case s of
                   Inl e \<Rightarrow> ret (Some (Inl e, mt))
                 | Inr clock \<Rightarrow> run_init_loop fuel H attempts mt last_err (Some clock))))
        (\<lambda>out' es'. reads_ok mt out' (es @ es'))"
        using out
        by (auto split: option.split sum.split intro!: wait again settle sat_bind [OF sat_load_firmware_frame]
            simp: append_assoc [symmetric] simp del: append_assoc intro: same_drive_trans)
    qed
  qed simp
qed simp

text \<open>
  The extended-access flag is the drive's own last word: when initialisation succeeds, the
  last unlock read it made was accepted (good status, enough bytes, the drive's own signature,
  the primary marker), and the driver is marked unlocked exactly if that read carried the
  secondary marker too.
\<close>
theorem mt1959_init_confirmed:
  "reads_ok mt (result_of (run_init fuel H mt) w) (events_of (run_init fuel H mt) w)"
  unfolding run_init_def by (rule sat_run [OF sat_run_init_loop_reads])

end
