(* ===== verification/Mt1959_Probe.thy ===== *)
theory Mt1959_Probe
  imports Mt1959
begin

text \<open>
  The speed probe of the MT1959 driver: which regions it asks for, and in which order.
\<close>

section \<open>The speed probe\<close>

text \<open>The probe commands of a run, and the one for the \<open>k\<close>-th region.\<close>

definition is_probe :: "event \<Rightarrow> bool" where
  "is_probe ev = (case exec_cdb ev of
     Some cdb \<Rightarrow> byte_at cdb 0 = SCSI_READ_BUFFER \<and> byte_at cdb 3 = SUB_CMD_PROBE | None \<Rightarrow> False)"

definition probe_cdb :: "mt1959 \<Rightarrow> nat \<Rightarrow> bytes" where
  "probe_cdb mt k = read_buffer_sub mt SUB_CMD_PROBE (of_nat (256 * k)) 4"

definition probed_regions :: "mt1959 \<Rightarrow> event list \<Rightarrow> nat \<Rightarrow> nat \<Rightarrow> bool" where
  "probed_regions mt es m n \<longleftrightarrow> m \<le> n \<and> map exec_cdb (filter is_probe es) = map (\<lambda>k. Some (probe_cdb mt k)) [m..<n]"

lemma is_probe_cdb: "exec_cdb ev = Some (probe_cdb mt k) \<Longrightarrow> is_probe ev"
  by (simp add: is_probe_def probe_cdb_def read_buffer_sub_def const_defs)

lemma probed_regions_Cons:
  "exec_cdb ev = Some (probe_cdb mt m) \<Longrightarrow> probed_regions mt es (Suc m) n \<Longrightarrow> probed_regions mt (ev # es) m n"
  by (simp add: probed_regions_def is_probe_cdb upt_conv_Cons)

lemma probed_regions_append:
  "probed_regions mt es m n \<Longrightarrow> probed_regions mt es' n k \<Longrightarrow> probed_regions mt (es @ es') m k"
proof -
  assume "probed_regions mt es m n" and "probed_regions mt es' n k"
  moreover from this have "[m..<k] = [m..<n] @ [n..<k]"
    by (metis le_iff_add probed_regions_def upt_add_eq_append)
  ultimately show ?thesis by (simp add: probed_regions_def)
qed

lemma probed_regions_none: "list_all (\<lambda>e. \<not> is_probe e) es \<Longrightarrow> probed_regions mt es m m"
  by (simp add: probed_regions_def list_all_iff filter_empty_conv)

lemma sat_bind_probe:
  assumes "\<And>r ev. exec_cdb ev = Some (read_buffer_sub mt sub addr (of_nat n)) \<Longrightarrow>
      sat (f r) (\<lambda>b es. Q b (ev # es))"
  shows "sat (bind_io (read_buffer_probe H mt sub addr buf n) f) Q"
  unfolding read_buffer_probe_def bind_io_assoc
  by (rule sat_bind_execute) (auto split: sum.split intro: assms)

lemma probe_len: "of_nat (unat PROBE_RESPONSE_SIZE) = (4 :: u8)"
  by (simp add: const_defs)

lemma ucast_of_nat_32: "ucast (of_nat n :: u32) = (of_nat n :: u16)"
  by (rule bit_word_eqI) (simp add: bit_simps bit_of_nat_iff)

lemma sat_probe_coarse:
  assumes "k \<le> 88"
  shows "sat (probe_coarse H mt (of_nat (256 * k))) (\<lambda>r es. \<exists>n. n \<le> 88 \<and> probed_regions mt es k n
    \<and> (r = Inr () \<longrightarrow> n = 88))"
  using assms
proof (induction "88 - k" arbitrary: k)
  case 0
  then have "k = 88" by simp
  moreover have "\<not> (22528 :: u16) < PROBE_COARSE_END" by (simp add: const_defs)
  ultimately show ?case
    by (subst probe_coarse.simps) (auto simp: probed_regions_def)
next
  case (Suc d)
  then have k: "k < 88" by simp
  then have lt: "(of_nat (256 * k) :: u16) < PROBE_COARSE_END"
    by (simp add: const_defs word_less_nat_alt unat_word_ariths unat_of_nat)
  have next_addr: "of_nat (256 * k) + PROBE_STEP = (of_nat (256 * Suc k) :: u16)"
    by (simp add: const_defs)
  have IH: "sat (probe_coarse H mt (of_nat (256 * k) + PROBE_STEP))
      (\<lambda>r es. \<exists>n. n \<le> 88 \<and> probed_regions mt es (Suc k) n \<and> (r = Inr () \<longrightarrow> n = 88))"
    unfolding next_addr using Suc.hyps k by (intro Suc.hyps(1)) auto
  show ?case
    unfolding probe_coarse.simps [of H mt "of_nat (256 * k)"] if_P [OF lt]
  proof (rule sat_bind_probe)
    fix r :: "ld_error + nat" and ev
    assume "exec_cdb ev = Some (read_buffer_sub mt SUB_CMD_PROBE (of_nat (256 * k)) (of_nat (unat PROBE_RESPONSE_SIZE)))"
    then have ev: "exec_cdb ev = Some (probe_cdb mt k)" by (simp only: probe_cdb_def probe_len)
    have one: "\<exists>n \<le> 88. probed_regions mt [ev] k n"
      using k ev by (intro exI [of _ "Suc k"]) (simp add: is_probe_cdb probed_regions_def)
    have cont: "sat (probe_coarse H mt (of_nat (256 * k) + PROBE_STEP))
        (\<lambda>r es. \<exists>n. n \<le> 88 \<and> probed_regions mt (ev # es) k n \<and> (r = Inr () \<longrightarrow> n = 88))"
      by (rule sat_weaken [OF IH]) (blast intro: probed_regions_Cons [OF ev])
    show "sat (case r of Inl e \<Rightarrow> if ld_is_transport_failure e then errE e else errE UnlockFailed
        | Inr _ \<Rightarrow> probe_coarse H mt (of_nat (256 * k) + PROBE_STEP))
        (\<lambda>r es. \<exists>n. n \<le> 88 \<and> probed_regions mt (ev # es) k n \<and> (r = Inr () \<longrightarrow> n = 88))"
      using one cont by (cases r) auto
  qed
qed

lemma sat_probe_fine:
  assumes "k \<le> 256"
  shows "sat (probe_fine H mt (of_nat (256 * k))) (\<lambda>r es. \<exists>n. n \<le> 256 \<and> probed_regions mt es k n)"
  using assms
proof (induction "256 - k" arbitrary: k)
  case 0
  then have "k = 256" by simp
  moreover have "\<not> (65536 :: u32) < PROBE_FINE_END" by (simp add: const_defs)
  ultimately show ?case
    by (subst probe_fine.simps) (auto simp: probed_regions_def)
next
  case (Suc d)
  then have k: "k < 256" by simp
  then have lt: "(of_nat (256 * k) :: u32) < PROBE_FINE_END"
    by (simp add: const_defs word_less_nat_alt unat_word_ariths unat_of_nat)
  have next_addr: "of_nat (256 * k) + ucast PROBE_STEP = (of_nat (256 * Suc k) :: u32)"
    by (simp add: const_defs)
  have IH: "sat (probe_fine H mt (of_nat (256 * k) + ucast PROBE_STEP))
      (\<lambda>r es. \<exists>n. n \<le> 256 \<and> probed_regions mt es (Suc k) n)"
    unfolding next_addr using Suc.hyps k by (intro Suc.hyps(1)) auto
  show ?case
    unfolding probe_fine.simps [of H mt "of_nat (256 * k)"] if_P [OF lt]
  proof (rule sat_bind_probe)
    fix r :: "ld_error + nat" and ev
    assume "exec_cdb ev = Some (read_buffer_sub mt SUB_CMD_PROBE (ucast (of_nat (256 * k) :: u32)) (of_nat (unat PROBE_RESPONSE_SIZE)))"
    then have ev: "exec_cdb ev = Some (probe_cdb mt k)" by (simp only: probe_cdb_def probe_len ucast_of_nat_32)
    have one: "\<exists>n \<le> 256. probed_regions mt [ev] k n"
      using k ev by (intro exI [of _ "Suc k"]) (simp add: is_probe_cdb probed_regions_def)
    have cont: "sat (probe_fine H mt (of_nat (256 * k) + ucast PROBE_STEP))
        (\<lambda>r es. \<exists>n. n \<le> 256 \<and> probed_regions mt (ev # es) k n)"
      by (rule sat_weaken [OF IH]) (blast intro: probed_regions_Cons [OF ev])
    show "sat (case r of Inl e \<Rightarrow> if ld_is_transport_failure e then errE e else okE ()
        | Inr _ \<Rightarrow> probe_fine H mt (of_nat (256 * k) + ucast PROBE_STEP))
        (\<lambda>r es. \<exists>n. n \<le> 256 \<and> probed_regions mt (ev # es) k n)"
      using one cont by (cases r) auto
  qed
qed

lemma sat_validate_no_probe: "emits (\<lambda>e. \<not> is_probe e) (validate_loop H mt attempts)"
  by (induction attempts)
     (auto simp: is_probe_def unlock_cdb_def const_defs intro!: emits_intros)

text \<open>
  C32. The disc probe asks for consecutive regions once each: the probe commands of a run are
  those for the addresses 0000h, 0100h, 0200h and so on, in order, without wrap-around (at most
  256 of them), and a successful calibration covered at least the whole coarse range below 5800h.
\<close>
theorem mt1959_probe_sweep:
  "\<exists>n \<le> 256. map exec_cdb (filter is_probe (events_of (probe_steps H mt) w))
        = map (\<lambda>k. Some (probe_cdb mt k)) [0..<n]
     \<and> (case result_of (probe_steps H mt) w of Inr _ \<Rightarrow> 88 \<le> n | Inl _ \<Rightarrow> True)"
proof -
  have coarse: "sat (probe_coarse H mt 0) (\<lambda>r es. \<exists>n. n \<le> 88 \<and> probed_regions mt es 0 n \<and> (r = Inr () \<longrightarrow> n = 88))"
    using sat_probe_coarse [of 0 H mt] by simp
  have fine: "sat (probe_fine H mt (ucast PROBE_COARSE_END)) (\<lambda>r es. \<exists>n. n \<le> 256 \<and> probed_regions mt es 88 n)"
    using sat_probe_fine [of 88 H mt] by (simp add: PROBE_COARSE_END_def)
  let ?Q = "\<lambda>r es. \<exists>n. n \<le> 256 \<and> probed_regions mt es 0 n \<and> (r = Inr () \<longrightarrow> 88 \<le> n)"
  have speed: "emits (\<lambda>e. \<not> is_probe e) (set_cd_speed_max H)"
    by (auto simp: set_cd_speed_max_def build_set_cd_speed_def is_probe_def const_defs intro!: emits_intros)
  have sweep: "sat (bindE (probe_coarse H mt 0) (\<lambda>_.
      bindE (probe_fine H mt (ucast PROBE_COARSE_END)) (\<lambda>_.
      bind_io (set_cd_speed_max H) (\<lambda>_. okE ())))) ?Q"
  proof (rule sat_bindE [OF coarse], goal_cases)
    case (1 e es)
    then obtain n where "n \<le> 88" "probed_regions mt es 0 n" by blast
    then show ?case by (intro exI [of _ n]) simp
  next
    case (2 u es)
    then have c: "probed_regions mt es 0 88" by auto
    show ?case
    proof (rule sat_bindE [OF fine], goal_cases)
      case (1 e es1)
      then show ?case using c by (auto intro: probed_regions_append)
    next
      case (2 u es1)
      then obtain n where n: "n \<le> 256" "probed_regions mt es1 88 n" by auto
      then have "88 \<le> n" by (simp add: probed_regions_def)
      moreover have "probed_regions mt (es @ es1 @ esa) 0 n" if "list_all (\<lambda>e. \<not> is_probe e) esa" for esa
        using c n(2) probed_regions_none [OF that] by (meson probed_regions_append)
      ultimately show ?case
        using n(1) by (intro sat_bind [OF speed [unfolded emits_def]]) (simp, blast)
    qed
  qed
  have before: "sat (bind_io m f) ?Q" if "emits (\<lambda>e. \<not> is_probe e) m" "\<And>a. sat (f a) ?Q"
    for m :: "('a, 'b) io" and f :: "'b \<Rightarrow> ('a, ld_error + unit) io"
    by (rule sat_bind [OF that(1) [unfolded emits_def]], rule sat_weaken [OF that(2)])
       (auto intro: probed_regions_append probed_regions_none)
  have init: "emits (\<lambda>e. \<not> is_probe e) (read_buffer_probe H mt SUB_CMD_INIT addr buf n)" for addr buf n
    by (auto simp: read_buffer_probe_def read_buffer_sub_def is_probe_def const_defs intro!: emits_intros)
  have capacity: "emits (\<lambda>e. \<not> is_probe e) (execute H read_capacity_cdb FromDevice buf 5000)" for buf
    by (auto simp: read_capacity_cdb_def is_probe_def const_defs zeros_unfold intro!: emits_intros)
  have nil: "\<exists>n\<le>256. probed_regions mt [] 0 n" by (auto simp: probed_regions_def intro!: exI [of _ 0])
  have "sat (probe_steps H mt) ?Q"
    unfolding probe_steps_def Let_def bindE_def [of "validate H mt"]
    by (rule before [OF capacity], simp only: split_beta, split sum.split,
        auto intro!: before [OF init] before [OF sat_validate_no_probe [folded validate_def]] sweep
          simp: validate_def nil split: sum.split)
  from sat_run [OF this, of w] show ?thesis
    by (auto simp: probed_regions_def split: sum.split)
qed

end
