(* ===== verification/Timing.thy ===== *)
theory Timing
  imports Replay
begin

text \<open>
  Time. \<open>steady_clock H time\<close> is what \<open>std::time\<close> and \<open>std::thread::sleep\<close> document: the clock
  the host reads never goes back, and a pause that completes lasts at least as long as asked.
  \<open>time\<close> is a ghost function that gives the clock of a world.

  \<open>from_time time t m Q\<close>: started at time \<open>t\<close> or later, \<open>m\<close> does not go back in time, and its
  result and the time it ends at satisfy \<open>Q\<close>. One rule per combinator and per call.
\<close>

named_theorems time_intros \<open>introduction rules for from_time\<close>

definition steady_clock :: "'w host \<Rightarrow> ('w \<Rightarrow> int) \<Rightarrow> bool" where
  "steady_clock H time \<longleftrightarrow>
     (\<forall>cdb dir data tmo w. time w \<le> time (snd (snd (h_execute H cdb dir data tmo w))))
   \<and> (\<forall>cdb dir data tmo w. time w \<le> time (snd (snd (h_execute_cleanup H cdb dir data tmo w))))
   \<and> (\<forall>d w. 0 \<le> d \<longrightarrow> (case h_pause H d w of (Inr _, w') \<Rightarrow> time w + d \<le> time w' \<and> time w \<le> time w' | (Inl _, w') \<Rightarrow> time w \<le> time w'))
   \<and> (\<forall>w. time w \<le> time (snd (h_begin_critical H w)))
   \<and> (\<forall>w. time w \<le> time (h_end_critical H w))
   \<and> (\<forall>w. time w \<le> time (snd (h_random H w)))
   \<and> (\<forall>w. fst (h_now H w) = time w \<and> time w \<le> time (snd (h_now H w)))"

definition from_time :: "('w \<Rightarrow> int) \<Rightarrow> int \<Rightarrow> ('w, 'v, 'a) prog \<Rightarrow> ('a \<Rightarrow> int \<Rightarrow> bool) \<Rightarrow> bool" where
  "from_time time t m Q \<longleftrightarrow> (\<forall>w. t \<le> time w \<longrightarrow> (case m w of (a, es, w') \<Rightarrow> t \<le> time w' \<and> Q a (time w')))"

lemma from_time_run: "from_time time t m Q \<Longrightarrow> t \<le> time w \<Longrightarrow> m w = (a, es, w') \<Longrightarrow> t \<le> time w' \<and> Q a (time w')"
  by (auto simp: from_time_def split: prod.splits)

lemma from_time_result: "from_time time t m (\<lambda>a _. Q a) \<Longrightarrow> t \<le> time w \<Longrightarrow> Q (result_of m w)"
  by (metis from_time_run prod_cases3 result_of_def fst_conv)

lemma from_time_weaken:
  "from_time time t m R \<Longrightarrow> (\<And>a t1. t \<le> t1 \<Longrightarrow> R a t1 \<Longrightarrow> Q a t1) \<Longrightarrow> from_time time t m Q"
  by (fastforce simp: from_time_def split: prod.splits)

lemma from_time_ret [time_intros]: "(\<And>t1. t \<le> t1 \<Longrightarrow> Q a t1) \<Longrightarrow> from_time time t (ret a) Q"
  by (auto simp: from_time_def run_ret)

lemma from_time_bind:
  assumes "from_time time t m R" and "\<And>a t1. t \<le> t1 \<Longrightarrow> R a t1 \<Longrightarrow> from_time time t1 (f a) Q"
  shows "from_time time t (bind_io m f) Q"
  unfolding from_time_def
proof (intro allI impI)
  fix w assume w: "t \<le> time w"
  obtain a es1 w1 where m: "m w = (a, es1, w1)" by (metis prod_cases3)
  obtain b es2 w2 where f: "f a w1 = (b, es2, w2)" by (metis prod_cases3)
  from from_time_run [OF assms(1) w m] have t1: "t \<le> time w1" "R a (time w1)" by auto
  from from_time_run [OF assms(2) [OF this] order_refl f] t1(1)
  show "case bind_io m f w of (a, es, w') \<Rightarrow> t \<le> time w' \<and> Q a (time w')"
    by (simp add: run_bind_io m f)
qed

lemma from_time_True [time_intros]:
  assumes "from_time time t m (\<lambda>_ _. True)" and "\<And>a t1. t \<le> t1 \<Longrightarrow> from_time time t1 (f a) Q"
  shows "from_time time t (bind_io m f) Q"
  by (rule from_time_bind [OF assms(1)]) (rule assms(2))

lemma from_time_bindE:
  assumes "from_time time t m R"
    and "\<And>e t1 t2. t \<le> t1 \<Longrightarrow> t1 \<le> t2 \<Longrightarrow> R (Inl e) t1 \<Longrightarrow> Q (Inl e) t2"
    and "\<And>a t1. t \<le> t1 \<Longrightarrow> R (Inr a) t1 \<Longrightarrow> from_time time t1 (f a) Q"
  shows "from_time time t (bindE m f) Q"
  unfolding bindE_def
  by (rule from_time_bind [OF assms(1)]) (auto intro: from_time_ret assms(2,3) split: sum.split)

lemma from_time_bindE_True [time_intros]:
  assumes "from_time time t m (\<lambda>_ _. True)" and "\<And>a t1. t \<le> t1 \<Longrightarrow> from_time time t1 (f a) (\<lambda>_ _. True)"
  shows "from_time time t (bindE m f) (\<lambda>_ _. True)"
  by (rule from_time_bindE [OF assms(1)]) (auto intro: assms(2))

lemma from_time_map_errE:
  assumes "from_time time t m R"
    and "\<And>r t1 t2. t \<le> t1 \<Longrightarrow> t1 \<le> t2 \<Longrightarrow> R r t1 \<Longrightarrow> Q (map_sum g id r) t2"
  shows "from_time time t (map_errE g m) Q"
  unfolding map_errE_def
proof (rule from_time_bind [OF assms(1)], rule from_time_ret)
  fix r t1 t2 assume "t \<le> t1" "R r t1" "t1 \<le> t2"
  then have "Q (map_sum g id r) t2" by (intro assms(2))
  then show "Q (case r of Inl e \<Rightarrow> Inl (g e) | Inr a \<Rightarrow> Inr a) t2" by (cases r) auto
qed

lemma from_time_if [time_intros]:
  "(b \<Longrightarrow> from_time time t m Q) \<Longrightarrow> (\<not> b \<Longrightarrow> from_time time t n Q) \<Longrightarrow> from_time time t (if b then m else n) Q"
  by simp

lemma from_time_case_sum [time_intros]:
  "(\<And>e. r = Inl e \<Longrightarrow> from_time time t (f e) Q) \<Longrightarrow> (\<And>a. r = Inr a \<Longrightarrow> from_time time t (g a) Q)
   \<Longrightarrow> from_time time t (case r of Inl e \<Rightarrow> f e | Inr a \<Rightarrow> g a) Q"
  by (cases r) auto

lemma from_time_case_option [time_intros]:
  "(r = None \<Longrightarrow> from_time time t m Q) \<Longrightarrow> (\<And>a. r = Some a \<Longrightarrow> from_time time t (g a) Q)
   \<Longrightarrow> from_time time t (case r of None \<Rightarrow> m | Some a \<Rightarrow> g a) Q"
  by (cases r) auto

lemma from_time_case_prod [time_intros]:
  "(\<And>a b. p = (a, b) \<Longrightarrow> from_time time t (f a b) Q) \<Longrightarrow> from_time time t (case p of (a, b) \<Rightarrow> f a b) Q"
  by (cases p) auto

section \<open>Calls on a host with a steady clock\<close>

lemma from_time_execute [time_intros]:
  "steady_clock H time \<Longrightarrow> from_time time t (execute H cdb dir data tmo) (\<lambda>_ _. True)"
  unfolding from_time_def steady_clock_def execute_def
  by (auto split: prod.split) (metis (no_types, lifting) order_trans snd_conv)

lemma from_time_execute_cleanup [time_intros]:
  "steady_clock H time \<Longrightarrow> from_time time t (execute_cleanup H cdb dir data tmo) (\<lambda>_ _. True)"
  unfolding from_time_def steady_clock_def execute_cleanup_def
  by (auto split: prod.split) (metis (no_types, lifting) order_trans snd_conv)

lemma from_time_now:
  "steady_clock H time \<Longrightarrow> from_time time t (now H) (\<lambda>a t1. t \<le> a \<and> a \<le> t1)"
  unfolding from_time_def steady_clock_def now_def
  by (auto split: prod.split) (metis fst_conv order_trans snd_conv)+

lemma from_time_pause:
  assumes "steady_clock H time" and "0 \<le> d"
  shows "from_time time t (pause H d) (\<lambda>r t1. case r of Inr _ \<Rightarrow> t + d \<le> t1 | Inl _ \<Rightarrow> True)"
  unfolding from_time_def
proof (intro allI impI)
  fix w assume w: "t \<le> time w"
  obtain r w' where p: "h_pause H d w = (r, w')" by (cases "h_pause H d w")
  note law = assms(1) [unfolded steady_clock_def, THEN conjunct2, THEN conjunct2, THEN conjunct1]
  from law [rule_format, OF assms(2), of w] w
  show "case pause H d w of (a, es, w') \<Rightarrow> t \<le> time w' \<and> (case a of Inr _ \<Rightarrow> t + d \<le> time w' | Inl _ \<Rightarrow> True)"
    by (cases r) (auto simp: pause_def p)
qed

lemma from_time_critical [time_intros]:
  "steady_clock H time \<Longrightarrow> from_time time t (begin_critical H) (\<lambda>_ _. True)"
  "steady_clock H time \<Longrightarrow> from_time time t (end_critical H) (\<lambda>_ _. True)"
  unfolding from_time_def steady_clock_def begin_critical_def end_critical_def
  by (auto split: prod.split) (metis order_trans snd_conv)+

lemma from_time_with_critical [time_intros]:
  assumes "steady_clock H time" and "\<And>t. from_time time t body (\<lambda>_ _. True)"
  shows "from_time time t (with_critical H conv body) (\<lambda>_ _. True)"
  unfolding with_critical_def critical_enter_def critical_drop_def
  by (rule from_time_bindE_True, rule from_time_map_errE [where R = "\<lambda>_ _. True"])
     (auto intro!: time_intros assms)

text \<open>The replay host keeps a steady clock, with the clock of its world as the time.\<close>

lemma steady_replay: "steady_clock replay_host replay_clock"
  by (auto simp: steady_clock_def replay_host_def default_host_def replay_execute_def millis_def
      split: list.split)

end
