(* ===== verification/Mt1959_Time.thy ===== *)
theory Mt1959_Time
  imports Mt1959 Timing
begin

text \<open>
  The MT1959 driver's polling loops return. Under a steady clock, the re-confirm read needs at
  most 61 reads, and the readiness poll ends although it has no cap of its own: there are
  finitely many drive answers, and between two new ones the stall window passes. \<open>READY_FUEL\<close>
  is enough fuel for every host with such a clock, whatever the drive answers.
\<close>

section \<open>The re-confirm read\<close>

lemma time_do_unlock [time_intros]:
  "steady_clock H time \<Longrightarrow> from_time time t (do_unlock H mt) (\<lambda>_ _. True)"
  unfolding do_unlock_def by (auto intro!: time_intros split: sum.split)

lemma time_elapsed:
  assumes "steady_clock H time" and "clock \<le> t"
  shows "from_time time t (clock_elapsed H clock) (\<lambda>e t1. t \<le> clock + e \<and> clock + e \<le> t1)"
  unfolding clock_elapsed_def
  by (rule from_time_bind [OF from_time_now [OF assms(1)]]) (use assms(2) in \<open>auto intro!: time_intros\<close>)

lemma time_wait:
  assumes "steady_clock H time" and "0 \<le> d"
  shows "from_time time t (clock_wait H d) (\<lambda>r t1. case r of Inr _ \<Rightarrow> t + d \<le> t1 | Inl _ \<Rightarrow> True)"
  unfolding clock_wait_def
  by (rule from_time_map_errE [OF from_time_pause [OF assms]]) (auto split: sum.splits)

lemma time_wait_True [time_intros]:
  "steady_clock H time \<Longrightarrow> 0 \<le> d \<Longrightarrow> from_time time t (clock_wait H d) (\<lambda>_ _. True)"
  by (rule from_time_weaken [OF time_wait]) auto

text \<open>With \<open>n\<close> reads left, at most \<open>61 - n\<close> seconds of the stall window are still to pass.\<close>

lemma unlock_read_loop_returns:
  assumes "steady_clock H time" and "clock \<le> t" and "0 < n" and "clock + start + secs (61 - int n) \<le> t"
  shows "from_time time t (unlock_read_loop n H mt clock start) (\<lambda>out _. out \<noteq> None)"
  using assms(2-)
proof (induction n arbitrary: t mt)
  case (Suc n)
  show ?case
    unfolding unlock_read_loop.simps
  proof (rule from_time_True [OF time_do_unlock [OF assms(1)]])
    fix r_mt :: "(ld_error + bytes) \<times> mt1959" and t1 assume t1: "t \<le> t1"
    obtain r mt' where r: "r_mt = (r, mt')" by (cases r_mt)
    show "from_time time t1 (case r_mt of (r, mt) \<Rightarrow> (case r of
         Inr response \<Rightarrow> ret (Some (Inr response, mt))
       | Inl e \<Rightarrow>
           bind_io (clock_elapsed H clock) (\<lambda>t.
           if max 0 (t - start) < READY_STALL \<and> is_restart_sense e
           then bind_io (clock_wait H RECONFIRM_SENSE_PAUSE) (\<lambda>p.
             case p of
               Inl e \<Rightarrow> ret (Some (Inl e, mt))
             | Inr _ \<Rightarrow> unlock_read_loop n H mt clock start)
           else ret (Some (Inl e, mt))))) (\<lambda>out _. out \<noteq> None)"
    proof (cases r)
      case (Inr response)
      then show ?thesis by (simp add: r from_time_ret)
    next
      case (Inl e)
      have "clock \<le> t1" using t1 Suc.prems(1) by simp
      note elapsed = time_elapsed [OF assms(1) this]
      show ?thesis
        unfolding r Inl prod.case sum.case
      proof (rule from_time_bind [OF elapsed], rule from_time_if)
        fix el t2
        assume t2: "t1 \<le> t2" and el: "t1 \<le> clock + el \<and> clock + el \<le> t2"
          and again: "max 0 (el - start) < READY_STALL \<and> is_restart_sense e"
        have n: "0 < n"
        proof (rule ccontr)
          assume "\<not> 0 < n"
          with Suc.prems(3) t1 el have "start + secs 60 \<le> el" by simp
          with again show False by (simp add: READY_STALL_def)
        qed
        have "0 \<le> RECONFIRM_SENSE_PAUSE" by (simp add: RECONFIRM_SENSE_PAUSE_def secs_def)
        note wait = time_wait [OF assms(1) this]
        show "from_time time t2 (bind_io (clock_wait H RECONFIRM_SENSE_PAUSE) (\<lambda>p.
             case p of Inl e \<Rightarrow> ret (Some (Inl e, mt')) | Inr _ \<Rightarrow> unlock_read_loop n H mt' clock start))
           (\<lambda>out _. out \<noteq> None)"
        proof (rule from_time_bind [OF wait], rule from_time_case_sum)
          fix p t3 and u :: unit
          assume p: "t2 \<le> t3" "case p of Inr _ \<Rightarrow> t2 + RECONFIRM_SENSE_PAUSE \<le> t3 | Inl _ \<Rightarrow> True" "p = Inr u"
          then have "clock + start + secs (61 - int n) \<le> t3"
            using Suc.prems(3) t1 t2 by (simp add: RECONFIRM_SENSE_PAUSE_def secs_def)
          with n p(1) t1 t2 Suc.prems(1)
          show "from_time time t3 (unlock_read_loop n H mt' clock start) (\<lambda>out _. out \<noteq> None)"
            by (intro Suc.IH) auto
        qed (simp add: from_time_ret)
      qed (simp add: from_time_ret)
    qed
  qed
qed simp

lemma unlock_read_returns:
  assumes "steady_clock H time" and "61 \<le> fuel" and "\<And>clock. settled = Some clock \<Longrightarrow> clock \<le> t"
  shows "from_time time t (unlock_read fuel H mt settled) (\<lambda>out _. out \<noteq> None)"
proof (cases settled)
  case None
  then show ?thesis
    by (auto simp: unlock_read_def intro!: time_intros assms(1))
next
  case (Some clock)
  then have clock: "clock \<le> t" by (rule assms(3))
  have "secs (61 - int fuel) \<le> 0" using assms(2) by (simp add: secs_def)
  then show ?thesis
    unfolding unlock_read_def Some option.case
    using assms(2) clock
    by (intro from_time_bind [OF time_elapsed [OF assms(1) clock]] unlock_read_loop_returns assms(1)) auto
qed

section \<open>The readiness poll\<close>

definition unseen :: "ready_poll \<Rightarrow> nat" where
  "unseen p = card (UNIV - set (seen p))"

definition chances :: "ready_poll \<Rightarrow> nat" where
  "chances p = unseen p + (if start_sent p then 0 else 1)"

lemma unseen_new: "a \<notin> set (seen p) \<Longrightarrow> seen q = seen p @ [a] \<Longrightarrow> Suc (unseen q) = unseen p"
proof -
  assume new: "a \<notin> set (seen p)" and q: "seen q = seen p @ [a]"
  have "UNIV - set (seen q) = (UNIV - set (seen p)) - {a}" using q by auto
  then show ?thesis
    using new card_Suc_Diff1 [of "UNIV - set (seen p)" a] unfolding unseen_def by simp
qed

lemma unseen_bound: "unseen p \<le> 2 ^ 24"
proof -
  have "card (UNIV :: answer set) = CARD(u8) * (CARD(u8) * CARD(u8))"
    by (simp add: card_cartesian_product flip: UNIV_Times_UNIV)
  then have "card (UNIV :: answer set) = 2 ^ 24" by (simp add: card_word)
  moreover have "unseen p \<le> card (UNIV :: answer set)"
    unfolding unseen_def by (rule card_mono) simp_all
  ultimately show ?thesis by simp
qed

text \<open>
  What a poll may still cost: 121 polls per chance of progress, and the polls left in the
  current stall window.
\<close>

definition in_window :: "int \<Rightarrow> ready_poll \<Rightarrow> nat \<Rightarrow> int \<Rightarrow> bool" where
  "in_window clock p j t \<longleftrightarrow> j \<le> 120 \<and> clock + last_progress p + millis 500 * (120 - int j) \<le> t"

lemma in_window_fresh: "clock + last_progress p \<le> t \<Longrightarrow> in_window clock p 120 t"
  by (simp add: in_window_def millis_def)

lemma time_maybe_start:
  assumes "steady_clock H time" and "clock \<le> t" and "in_window clock p j t"
  shows "from_time time t (maybe_start_unit H clock a p) (\<lambda>r t1. case r of
      Inl _ \<Rightarrow> True
    | Inr q \<Rightarrow> seen q = seen p \<and> (\<exists>k. in_window clock q k t1 \<and> 121 * chances q + k \<le> 121 * chances p + j))"
proof (cases "a = (0x02, 0x04, 0x02) \<and> \<not> start_sent p")
  case True
  have chances: "Suc (chances (p\<lparr> start_sent := True, last_progress := el \<rparr>)) = chances p" for el
    using True by (simp add: chances_def unseen_def)
  show ?thesis
    unfolding maybe_start_unit_def if_P [OF True] Let_def
  proof (rule from_time_bind [OF time_elapsed [OF assms(1,2)]],
      rule from_time_True [OF from_time_execute [OF assms(1)]], goal_cases)
    case (1 el t1 rb t2)
    have "in_window clock (p\<lparr> start_sent := True, last_progress := el \<rparr>) 120 t3" if "t2 \<le> t3" for t3
      using 1 that by (intro in_window_fresh) simp
    with chances [of el] show ?case
      by (auto intro!: time_intros exI [of _ 120] simp: split_beta split: sum.split)
  qed
next
  case False
  have "in_window clock p j t1" if "t \<le> t1" for t1
    using assms(3) that by (simp add: in_window_def)
  with False show ?thesis
    unfolding maybe_start_unit_def by (auto intro!: from_time_ret exI [of _ j])
qed

lemma time_note_progress:
  assumes "steady_clock H time" and "clock \<le> t" and "in_window clock p j t"
  shows "from_time time t (note_progress H clock a p) (\<lambda>r t1. case r of
      Inl _ \<Rightarrow> True
    | Inr q \<Rightarrow> start_sent q = start_sent p \<and> (\<exists>k > 0. in_window clock q k t1
        \<and> 121 * chances q + k \<le> 121 * chances p + j))"
proof (cases "a \<in> set (seen p)")
  case True
  show ?thesis
    unfolding note_progress_def using True
  proof (simp only: not_True_eq_False if_False simp_thms,
      intro from_time_bind [OF time_elapsed [OF assms(1,2)]] from_time_if from_time_ret, goal_cases)
    case (2 el t1 t2)
    then have "el - last_progress p < READY_STALL" by auto
    with 2 assms(3) have "0 < j"
      by (cases j) (auto simp: in_window_def READY_STALL_def millis_def secs_def)
    moreover have "in_window clock p j t2"
      using 2 assms(3) by (simp add: in_window_def)
    ultimately show ?case by auto
  qed simp
next
  case False
  let ?q = "\<lambda>el. p\<lparr> seen := seen p @ [a], last_progress := el \<rparr>"
  have "Suc (unseen (?q el)) = unseen p" for el
    by (rule unseen_new [OF False]) simp
  then have chances: "Suc (chances (?q el)) = chances p" for el
    by (simp add: chances_def)
  show ?thesis
    unfolding note_progress_def if_P [OF False]
  proof (rule from_time_bind [OF time_elapsed [OF assms(1,2)]], rule from_time_ret, goal_cases)
    case (1 el t1 t2)
    then have "in_window clock (?q el) 120 t2" by (intro in_window_fresh) simp
    with chances [of el] show ?case by (auto intro!: exI [of _ 120])
  qed
qed

lemma ready_loop_returns:
  assumes "steady_clock H time" and "clock \<le> t" and "in_window clock p j t"
    and "121 * chances p + j < fuel"
  shows "from_time time t (ready_loop fuel H clock p) (\<lambda>out _. out \<noteq> None)"
  using assms(2-)
proof (induction fuel arbitrary: p j t)
  case (Suc fuel)
  have ret: "from_time time t (ret (Some x)) (\<lambda>out _. out \<noteq> None)" for t and x :: "ld_error + media_ready"
    by (rule from_time_ret) simp
  show ?case
    unfolding ready_loop.simps Let_def
  proof (rule from_time_True [OF from_time_execute [OF assms(1)]], unfold split_beta,
      intro from_time_case_sum from_time_case_option ret, goal_cases)
    case (1 rb t1 sense_opt sense)
    let ?a = "(sense_key (from_buf sense), asc (from_buf sense), ascq (from_buf sense))"
    let ?p = "note_answer ?a p"
    have clk: "clock \<le> t1" using 1(1) Suc.prems(1) by simp
    have inw: "in_window clock ?p j t1" and same: "chances ?p = chances p"
      using 1(1) Suc.prems(2) by (auto simp: in_window_def note_answer_def chances_def unseen_def)
    have start: "from_time time t1 (maybe_start_unit H clock ?a ?p) (\<lambda>r t1. case r of
        Inl _ \<Rightarrow> True
      | Inr q \<Rightarrow> seen q = seen ?p \<and> (\<exists>k. in_window clock q k t1 \<and> 121 * chances q + k \<le> 121 * chances ?p + j))"
      by (rule time_maybe_start [OF assms(1) clk inw])
    show ?case
    proof (rule from_time_bind [OF start], intro from_time_case_sum ret, goal_cases)
      case (1 r t2 q)
      then obtain k where k: "in_window clock q k t2" "121 * chances q + k \<le> 121 * chances p + j"
        using same by auto
      have "clock \<le> t2" using 1(1) clk by simp
      note progress = time_note_progress [OF assms(1) this k(1)]
      show ?case
      proof (rule from_time_bind [OF progress], intro from_time_case_sum ret, goal_cases)
        case (1 r' t3 q')
        then obtain l where l: "0 < l" "in_window clock q' l t3" "121 * chances q' + l \<le> 121 * chances q + k"
          by auto
        have "0 \<le> READY_POLL" by (simp add: READY_POLL_def millis_def)
        note wait = time_wait [OF assms(1) this]
        show ?case
        proof (rule from_time_bind [OF wait], intro from_time_case_sum ret, goal_cases)
          case (1 w t4 u)
          then have "in_window clock q' (l - 1) t4"
            using l(1,2) by (auto simp: in_window_def READY_POLL_def millis_def of_nat_diff)
          moreover have "clock \<le> t4" using 1(1) \<open>clock \<le> t2\<close> \<open>t2 \<le> t3\<close> by simp
          moreover have "121 * chances q' + (l - 1) < fuel"
            using l k Suc.prems(3) by simp
          ultimately show ?case by (intro Suc.IH)
        qed
      qed
    qed
  qed
qed simp

definition READY_FUEL :: nat where
  "READY_FUEL = 121 * (2 ^ 24 + 1) + 121"

lemma await_media_ready_returns:
  assumes "steady_clock H time" and "clock \<le> t" and "READY_FUEL \<le> fuel"
  shows "from_time time t (await_media_ready fuel H clock) (\<lambda>out _. out \<noteq> None)"
  unfolding await_media_ready_def
proof (rule from_time_bind [OF time_elapsed [OF assms(1,2)]], goal_cases)
  case (1 el t1)
  let ?p = "\<lparr> seen = [], last_progress = el, start_sent = False, empty_run = 0, becoming_ready_seen = False \<rparr>"
  have "chances ?p \<le> 2 ^ 24 + 1" using unseen_bound [of ?p] by (simp add: chances_def)
  then have "121 * chances ?p + 120 < fuel" using assms(3) by (simp add: READY_FUEL_def)
  moreover have "in_window clock ?p 120 t1" using 1 by (intro in_window_fresh) simp
  ultimately show ?case
    using 1(1) assms(2) by (intro ready_loop_returns [OF assms(1)]) auto
qed

section \<open>Initialisation\<close>

lemma time_advisory [time_intros]:
  "steady_clock H time \<Longrightarrow> from_time time t (advisory H cdb dir data) (\<lambda>_ _. True)"
  unfolding advisory_def by (auto intro!: time_intros)

lemma time_uploads [time_intros]:
  "steady_clock H time \<Longrightarrow> from_time time t (upload_a H fw) (\<lambda>_ _. True)"
  "steady_clock H time \<Longrightarrow> from_time time t (upload_b H p) (\<lambda>_ _. True)"
  unfolding upload_a_def upload_b_def Let_def by (auto intro!: time_intros split: sum.split)

lemma time_unlock_retries [time_intros]:
  "steady_clock H time \<Longrightarrow> from_time time t (unlock_retries H attempts mt) (\<lambda>_ _. True)"
  by (induction attempts arbitrary: mt t) (auto intro!: time_intros)

lemma time_load_firmware [time_intros]:
  "steady_clock H time \<Longrightarrow> from_time time t (load_firmware H mt) (\<lambda>_ _. True)"
  unfolding load_firmware_def load_firmware_a_def load_firmware_b_def Let_def
  by (auto intro!: time_intros)

lemma time_settle_after_upload:
  assumes "steady_clock H time"
  shows "from_time time t (settle_after_upload H) (\<lambda>r t1. case r of Inr clock \<Rightarrow> clock \<le> t1 | Inl _ \<Rightarrow> True)"
  unfolding settle_after_upload_def
proof (rule from_time_bind [OF from_time_now [OF assms]], rule from_time_bindE, rule time_wait_True [OF assms])
  show "0 \<le> UPLOAD_SETTLE" by (simp add: UPLOAD_SETTLE_def secs_def)
qed (auto intro: from_time_ret)

lemma READY_FUEL_bound: "61 \<le> READY_FUEL"
  by (simp add: READY_FUEL_def)

lemma run_init_loop_returns:
  assumes "steady_clock H time" and "READY_FUEL \<le> fuel" and "\<And>clock. settled = Some clock \<Longrightarrow> clock \<le> t"
  shows "from_time time t (run_init_loop fuel H attempts mt last_err settled) (\<lambda>out _. out \<noteq> None)"
  using assms(3)
proof (induction attempts arbitrary: mt last_err settled t)
  case Nil
  then show ?case by (simp add: from_time_ret)
next
  case (Cons attempt attempts)
  have ret: "from_time time t (ret (Some x)) (\<lambda>out _. out \<noteq> None)" for t and x :: "(ld_error + unit) \<times> mt1959"
    by (rule from_time_ret) simp
  have settle: "from_time time t (bind_io (settle_after_upload H) (\<lambda>s. case s of
        Inl e \<Rightarrow> ret (Some (Inl e, mt))
      | Inr clock \<Rightarrow> run_init_loop fuel H attempts mt last_err (Some clock))) (\<lambda>out _. out \<noteq> None)" for mt t
    by (rule from_time_bind [OF time_settle_after_upload [OF assms(1)]], intro from_time_case_sum ret Cons.IH) auto
  have reload: "from_time time t (bind_io (load_firmware H mt) (\<lambda>(loaded, mt). case loaded of
        Inl e \<Rightarrow>
          if ld_is_transport_failure e then ret (Some (Inl e, mt))
          else if is_restart_sense e then
            bind_io (settle_after_upload H) (\<lambda>s. case s of
              Inl e \<Rightarrow> ret (Some (Inl e, mt))
            | Inr clock \<Rightarrow> run_init_loop fuel H attempts mt last_err (Some clock))
          else run_init_loop fuel H attempts mt e None
      | Inr _ \<Rightarrow>
          bind_io (settle_after_upload H) (\<lambda>s. case s of
            Inl e \<Rightarrow> ret (Some (Inl e, mt))
          | Inr clock \<Rightarrow> run_init_loop fuel H attempts mt last_err (Some clock)))) (\<lambda>out _. out \<noteq> None)" for mt t
    by (rule from_time_True [OF time_load_firmware [OF assms(1)]],
        intro from_time_case_prod from_time_case_sum from_time_if ret settle Cons.IH) simp
  show ?case
  proof (cases "attempt = UNLOCK_ATTEMPTS \<and> settled = None")
    case True
    then show ?thesis by (simp add: from_time_ret)
  next
    case False
    have "61 \<le> fuel" using assms(2) READY_FUEL_bound by simp
    note read = unlock_read_returns [OF assms(1) this Cons.prems]
    have wait: "from_time time t1 (bind_io (await_media_ready fuel H clock) (\<lambda>out. case out of
          None \<Rightarrow> ret None | Some r \<Rightarrow> ret (Some (map_sum id (\<lambda>_. ()) r, mt)))) (\<lambda>out _. out \<noteq> None)"
      if "settled = Some clock" "t \<le> t1" for clock t1 and mt :: mt1959
    proof -
      have "clock \<le> t1" using Cons.prems [OF that(1)] that(2) by simp
      from await_media_ready_returns [OF assms(1) this assms(2)] show ?thesis
        by (rule from_time_bind, intro from_time_case_option from_time_ret) simp_all
    qed
    show ?thesis
      unfolding run_init_loop.simps if_not_P [OF False]
      by (rule from_time_bind [OF read], auto simp del: not_None_eq intro!: from_time_if ret reload wait
          split: option.split sum.split)
  qed
qed

text \<open>Initialisation returns, whatever the drive answers and however long it keeps restarting.\<close>

lemma mt1959_init_returns:
  assumes "steady_clock H time" and "READY_FUEL \<le> fuel"
  shows "result_of (run_init fuel H mt) w \<noteq> None"
  unfolding run_init_def
  by (rule from_time_result [OF run_init_loop_returns [OF assms] order_refl]) simp

end
