(* ===== verification/Ld.thy ===== *)
theory Ld
  imports Mt1959_Unlock Mt1959_Probe Mt1959_Time
begin

text \<open>
  The MT1959 unlocker of \<open>src/ld/mod.rs\<close>: the OEM Volume ID read, the firmware unlock and the
  re-confirmation after a bus fault, over the catalog (a parameter) and the platform driver.
\<close>

section \<open>The unlocker\<close>

definition OEM_RESPONSE_LEN :: nat where [const_defs]: "OEM_RESPONSE_LEN = 36"
definition OEM_EXPECTED_HEADER :: bytes where [const_defs]: "OEM_EXPECTED_HEADER = [0x00, 0x22, 0x00]"
definition FAULT_SETTLE :: int where "FAULT_SETTLE = secs 5"

definition read_oem_vid :: "'w host \<Rightarrow> drive_profile \<Rightarrow> ('w, ld_error + bytes option) io" where
  "read_oem_vid H p = (case read_vid_cdb p of
     None \<Rightarrow> okE None
   | Some cdb \<Rightarrow>
       bind_io (execute H cdb FromDevice (zeros OEM_RESPONSE_LEN) 5000) (\<lambda>(r, buf).
       case r of
         Inl e \<Rightarrow> errE (ld_from_scsi e)
       | Inr result \<Rightarrow>
           if res_status result \<noteq> 0 then okE None
           else if res_transferred result < OEM_RESPONSE_LEN then okE None
           else if slice buf 0 3 \<noteq> OEM_EXPECTED_HEADER then okE None
           else okE (Some (slice buf 4 20))))"

definition reconfirm_after_fault ::
  "nat \<Rightarrow> 'w host \<Rightarrow> mt1959 \<Rightarrow> int \<Rightarrow> ('w, ((unlock_error + unit) \<times> mt1959) option) io" where
  "reconfirm_after_fault fuel H mt d =
     bind_io (settle H d) (\<lambda>r. case r of
       Inl e \<Rightarrow> ret (Some (Inl (ld_unlock_error e), mt))
     | Inr _ \<Rightarrow>
         bind_io (reconfirm_unlock fuel H mt) (\<lambda>out. case out of
           None \<Rightarrow> ret None
         | Some (Inr still, mt) \<Rightarrow> ret (Some (if still then Inr () else Inl NotApplicable, mt))
         | Some (Inl e, mt) \<Rightarrow> ret (Some (Inl (ld_unlock_error e), mt))))"

definition calibrate :: "nat \<Rightarrow> 'w host \<Rightarrow> mt1959 \<Rightarrow> ('w, (unlock_error + unit) option) io" where
  "calibrate fuel H mt =
     bind_io (probe_disc H mt) (\<lambda>(r, mt). case r of
       Inr _ \<Rightarrow> ret (Some (Inr ()))
     | Inl e \<Rightarrow>
         if ld_is_transport_failure e
         then bind_io (reconfirm_after_fault fuel H mt FAULT_SETTLE) (\<lambda>out. ret (map_option fst out))
         else ret (Some (Inr ())))"

definition firmware_unlock ::
  "nat \<Rightarrow> profiles option \<Rightarrow> 'w host \<Rightarrow> unlock_ctx \<Rightarrow> ('w, (unlock_error + unlocked) option) io" where
  "firmware_unlock fuel bundled H ctx = (case find_bundled bundled (ctx_drive_id ctx) of
     None \<Rightarrow> ret (Some (Inl NotApplicable))
   | Some m \<Rightarrow>
       (case mt1959_new (m_profile m) (m_platform m) of
          None \<Rightarrow> ret (Some (Inl NotApplicable))
        | Some mt \<Rightarrow>
            bind_io (mt_init fuel H mt) (\<lambda>out. case out of
              None \<Rightarrow> ret None
            | Some (Inl e, mt) \<Rightarrow> ret (Some (Inl (ld_unlock_error e)))
            | Some (Inr _, mt) \<Rightarrow>
                if \<not> mt_unlocked mt then ret (Some (Inl NotApplicable))
                else
                  bind_io (calibrate fuel H mt) (\<lambda>out. case out of
                    None \<Rightarrow> ret None
                  | Some (Inl e) \<Rightarrow> ret (Some (Inl e))
                  | Some (Inr _) \<Rightarrow>
                      bind_io (read_oem_vid H (m_profile m)) (\<lambda>r. case r of
                        Inl e \<Rightarrow> ret (Some (Inl (ld_unlock_error e)))
                      | Inr v \<Rightarrow> ret (Some (Inr \<lparr> vid = v, bus_key = None \<rparr>)))))))"

definition ld_unlock :: "nat \<Rightarrow> profiles option \<Rightarrow> 'w partial_unlock_fn" where
  "ld_unlock fuel bundled H ctx =
     bind_io (firmware_unlock fuel bundled H ctx) (\<lambda>out. ret (map_option fallthrough out))"

definition LdUnlocker :: "nat \<Rightarrow> profiles option \<Rightarrow> 'w unlocker" where
  "LdUnlocker fuel bundled = \<lparr> u_name = ''LD'', u_claims = ld_claims bundled,
     u_unlock = ld_unlock fuel bundled \<rparr>"

section \<open>What the bus sees\<close>

lemma quiet_read_buffer_probe [emits_intros]: "emits quiet (read_buffer_probe H mt sub addr buf n)"
  by (auto simp: read_buffer_probe_def intro!: emits_intros)

lemma quiet_probe_loops [emits_intros]:
  "emits quiet (probe_coarse H mt a)" "emits quiet (probe_fine H mt b)"
proof -
  show "emits quiet (probe_coarse H mt a)"
    by (induction H mt a rule: probe_coarse.induct, subst probe_coarse.simps)
       (auto intro!: emits_intros)
  show "emits quiet (probe_fine H mt b)"
    by (induction H mt b rule: probe_fine.induct, subst probe_fine.simps)
       (auto intro!: emits_intros)
qed

lemma quiet_validate [emits_intros]: "emits quiet (validate H mt)"
proof -
  have "emits quiet (validate_loop H mt attempts)" for attempts
    by (induction attempts) (auto intro!: emits_intros)
  then show ?thesis by (simp add: validate_def)
qed

lemma quiet_probe_disc [emits_intros]: "emits quiet (probe_disc H mt)"
  unfolding probe_disc_def run_probe_def probe_steps_def read_buffer_probe_def set_cd_speed_max_def Let_def
  by (auto intro!: emits_intros)

lemma quiet_calibrate [emits_intros]: "emits quiet (calibrate fuel H mt)"
  unfolding calibrate_def reconfirm_after_fault_def reconfirm_unlock_def Let_def
  by (auto intro!: emits_intros)

lemma quiet_read_oem_vid [emits_intros]: "emits quiet (read_oem_vid H p)"
  unfolding read_oem_vid_def by (auto intro!: emits_intros)

lemma sat_mt_init_uploads: "sat (mt_init fuel H mt) (\<lambda>_ es. uploads_ok 3 es)"
proof -
  have "sat (run_init fuel H mt) (\<lambda>_ es. uploads_ok 3 es)"
    by (simp add: sat_def mt1959_uploads_bound)
  then show ?thesis by (simp add: mt_init_def uploads_ok_def)
qed

lemma sat_ld_unlock_uploads: "sat (ld_unlock fuel bundled H ctx) (\<lambda>_ es. uploads_ok 3 es)"
proof -
  have quiet: "sat m (\<lambda>_ es'. uploads_ok 3 (es @ es'))" if "emits quiet m" "uploads_ok 3 es"
    for m :: "('a, 'b) io" and es
    by (rule sat_weaken [OF sat_quiet_uploads [OF that(1)]]) (rule uploads_ok_append [OF that(2)], auto)
  have nil: "uploads_ok 3 []" by (simp add: uploads_ok_def)
  have "sat (firmware_unlock fuel bundled H ctx) (\<lambda>_ es. uploads_ok 3 es)"
    unfolding firmware_unlock_def
    by (auto simp: nil split: option.split sum.split intro!: sat_bind [OF sat_mt_init_uploads] quiet emits_intros)
  then show ?thesis
    unfolding ld_unlock_def by (rule sat_bind) simp
qed


interpretation ld: unlocker_contract "ld_unlock fuel bundled" "\<lambda>_. True"
proof
  show "e = Transport" if "result_of (ld_unlock fuel bundled H ctx) w = Some (Inl e)"
    for H :: "'w host" and ctx w e
  proof -
    have "sat (ld_unlock fuel bundled H ctx) (\<lambda>out _. \<forall>e. out = Some (Inl e) \<longrightarrow> e = Transport)"
      unfolding ld_unlock_def by (rule sat_bind [OF sat_True]) (auto simp: fallthrough_Inl_iff)
    from sat_run [OF this, of w] that show ?thesis by simp
  qed
  show "spans False (events_of (ld_unlock fuel bundled H ctx) w) = Some False"
    for H :: "'w host" and ctx w
    using sat_run [OF sat_ld_unlock_uploads, of fuel bundled H ctx w]
    by (simp add: uploads_ok_def guarded_spans)
qed

section \<open>Unlocked means confirmed\<close>

lemma no_reads_probe:
  "no_reads mt (probe_coarse H mt a)" "no_reads mt (probe_fine H mt b)" "no_reads mt (validate H mt)"
proof -
  show "no_reads mt (probe_coarse H mt a)"
    unfolding no_reads_def
    by (induction H mt a rule: probe_coarse.induct, subst probe_coarse.simps)
       (auto intro!: emits_intros simp: read_buffer_probe_def read_buffer_sub_def unlock_cdb_def const_defs)
  show "no_reads mt (probe_fine H mt b)"
    unfolding no_reads_def
    by (induction H mt b rule: probe_fine.induct, subst probe_fine.simps)
       (auto intro!: emits_intros simp: read_buffer_probe_def read_buffer_sub_def unlock_cdb_def const_defs)
  have "no_reads mt (validate_loop H mt attempts)" for attempts
    unfolding no_reads_def
    by (induction attempts) (auto intro!: emits_intros simp: unlock_cdb_def const_defs)
  then show "no_reads mt (validate H mt)" by (simp add: validate_def)
qed

lemma no_reads_probe_steps: "no_reads mt (probe_steps H mt)"
  using no_reads_probe [of mt H] unfolding no_reads_def probe_steps_def Let_def
  by (auto intro!: emits_intros simp: read_capacity_cdb_def read_buffer_probe_def read_buffer_sub_def
      set_cd_speed_max_def build_set_cd_speed_def unlock_cdb_def const_defs)

lemma sat_probe_disc_frame:
  assumes "init_complete mt"
  shows "sat (probe_disc H mt) (\<lambda>out es. same_drive mt (snd out) \<and> unlock_reads mt es = [])"
  using assms
  by (auto simp: probe_disc_def run_probe_def unlock_reads_def [of mt "[]"] same_drive_def
      split: sum.split intro!: sat_bind [OF no_readsD [OF no_reads_probe_steps]])

lemma sat_reconfirm_reads:
  "sat (reconfirm_after_fault fuel H mt d) (\<lambda>out es. case out of
      Some (Inr _, _) \<Rightarrow> confirmed mt es True | _ \<Rightarrow> True)"
proof -
  have same: "same_drive mt (mt\<lparr> mt_unlocked := False \<rparr>)" by (simp add: same_drive_def)
  show ?thesis
    unfolding reconfirm_after_fault_def reconfirm_unlock_def Let_def
    by (rule sat_bind [OF sat_True])
       (auto split: sum.split option.split simp: bind_io_assoc same_drive_def [of mt]
          confirmed_same [OF same]
          intro!: sat_bind [OF sat_now] sat_bind [OF sat_unlock_read_reads] confirmed_append(1))
qed

lemma sat_calibrate_reads:
  assumes "init_complete mt"
  shows "sat (calibrate fuel H mt) (\<lambda>out es. case out of
      Some (Inr _) \<Rightarrow> unlock_reads mt es = [] \<or> confirmed mt es True | _ \<Rightarrow> True)"
  unfolding calibrate_def
proof (rule sat_bind [OF sat_probe_disc_frame [OF assms]])
  fix out :: "(ld_error + unit) \<times> mt1959" and es assume out: "same_drive mt (snd out) \<and> unlock_reads mt es = []"
  obtain r mt' where r: "out = (r, mt')" by (cases out)
  show "sat (case out of (r, mt) \<Rightarrow> (case r of
       Inr _ \<Rightarrow> ret (Some (Inr ()))
     | Inl e \<Rightarrow>
         if ld_is_transport_failure e
         then bind_io (reconfirm_after_fault fuel H mt FAULT_SETTLE) (\<lambda>out. ret (map_option fst out))
         else ret (Some (Inr ()))))
     (\<lambda>out es'. case out of
      Some (Inr _) \<Rightarrow> unlock_reads mt (es @ es') = [] \<or> confirmed mt (es @ es') True | _ \<Rightarrow> True)"
    using out confirmed_same [of mt mt']
    by (auto simp: r unlock_reads_def [of mt "[]"] split: sum.split option.splits
        intro!: sat_bind [OF sat_reconfirm_reads] confirmed_append(1))
qed

lemma sat_mt_init_reads:
  assumes "\<not> init_complete mt"
  shows "sat (mt_init fuel H mt) (reads_ok mt)"
  using assms sat_run_init_loop_reads by (simp add: mt_init_def run_init_def)

lemma mt1959_new_fresh: "mt1959_new p platform = Some mt \<Longrightarrow> \<not> init_complete mt \<and> profile mt = p"
  by (cases platform) (auto simp: mt1959_new_def)

lemma no_reads_oem_vid:
  assumes "\<And>cdb. read_vid_cdb p = Some cdb \<Longrightarrow> cdb \<noteq> unlock_cdb mt 64"
  shows "no_reads mt (read_oem_vid H p)"
  unfolding no_reads_def read_oem_vid_def
  by (auto intro!: emits_intros dest: assms)

text \<open>A successful unlock of a driver, whatever the Volume ID read answers.\<close>

definition confirmed_unlock :: "profiles option \<Rightarrow> unlock_ctx \<Rightarrow> unlocked \<Rightarrow> event list \<Rightarrow> bool" where
  "confirmed_unlock bundled ctx u es \<longleftrightarrow> (\<exists>m mt pre post.
     find_bundled bundled (ctx_drive_id ctx) = Some m
   \<and> mt1959_new (m_profile m) (m_platform m) = Some mt
   \<and> es = pre @ post \<and> confirmed mt pre True
   \<and> (case read_vid_cdb (m_profile m) of
        None \<Rightarrow> post = []
      | Some cdb \<Rightarrow> map exec_cdb post = [Some cdb])
   \<and> bus_key u = None)"

lemma sat_read_oem_vid: "sat (read_oem_vid H p) (\<lambda>_ es. case read_vid_cdb p of
    None \<Rightarrow> es = [] | Some cdb \<Rightarrow> map exec_cdb es = [Some cdb])"
  unfolding read_oem_vid_def
  by (auto split: option.split sum.split intro!: sat_bind_execute)

lemma sat_ld_unlock_confirmed: "sat (ld_unlock fuel bundled H ctx) (\<lambda>out es. case out of
    Some (Inr (Some u)) \<Rightarrow> confirmed_unlock bundled ctx u es | _ \<Rightarrow> True)"
proof -
  let ?Q = "\<lambda>out es. \<forall>u. out = Some (Inr u) \<longrightarrow> confirmed_unlock bundled ctx u es"
  have "sat (firmware_unlock fuel bundled H ctx) ?Q"
  proof (cases "find_bundled bundled (ctx_drive_id ctx)")
    case None
    then show ?thesis by (simp add: firmware_unlock_def)
  next
    case (Some m)
    note m = this
    show ?thesis
    proof (cases "mt1959_new (m_profile m) (m_platform m)")
      case None
      then show ?thesis by (simp add: firmware_unlock_def m)
    next
      case (Some mt)
      note fresh = mt1959_new_fresh [OF Some]
      have vid: "sat (bind_io (read_oem_vid H (m_profile m)) (\<lambda>r. case r of
            Inl e \<Rightarrow> ret (Some (Inl (ld_unlock_error e)))
          | Inr v \<Rightarrow> ret (Some (Inr \<lparr> vid = v, bus_key = None \<rparr>)))) (\<lambda>out es'. ?Q out (pre @ es'))"
        if "confirmed mt pre True" for pre
        by (rule sat_bind [OF sat_read_oem_vid])
           (use that m Some in \<open>auto simp: confirmed_unlock_def split: sum.split\<close>)
      have rest: "sat (bind_io (calibrate fuel H mt') (\<lambda>out. case out of
            None \<Rightarrow> ret None
          | Some (Inl e) \<Rightarrow> ret (Some (Inl e))
          | Some (Inr _) \<Rightarrow>
              bind_io (read_oem_vid H (m_profile m)) (\<lambda>r. case r of
                Inl e \<Rightarrow> ret (Some (Inl (ld_unlock_error e)))
              | Inr v \<Rightarrow> ret (Some (Inr \<lparr> vid = v, bus_key = None \<rparr>))))) (\<lambda>out es'. ?Q out (es @ es'))"
        if "same_drive mt mt'" "init_complete mt'" "confirmed mt es True" for mt' es
      proof (rule sat_bind [OF sat_calibrate_reads [OF that(2)]])
        fix out :: "(unlock_error + unit) option" and es1
        assume out: "case out of Some (Inr _) \<Rightarrow> unlock_reads mt' es1 = [] \<or> confirmed mt' es1 True | _ \<Rightarrow> True"
        have "confirmed mt (es @ es1) True" if "out = Some (Inr u)" for u
          using out \<open>confirmed mt es True\<close> that confirmed_same [OF \<open>same_drive mt mt'\<close>]
            same_drive_reads [OF \<open>same_drive mt mt'\<close>] confirmed_append by auto
        then show "sat (case out of
            None \<Rightarrow> ret None
          | Some (Inl e) \<Rightarrow> ret (Some (Inl e))
          | Some (Inr _) \<Rightarrow>
              bind_io (read_oem_vid H (m_profile m)) (\<lambda>r. case r of
                Inl e \<Rightarrow> ret (Some (Inl (ld_unlock_error e)))
              | Inr v \<Rightarrow> ret (Some (Inr \<lparr> vid = v, bus_key = None \<rparr>)))) (\<lambda>out es'. ?Q out (es @ es1 @ es'))"
          using vid [of "es @ es1"] by (simp split: option.split sum.split)
      qed
      show ?thesis
        unfolding firmware_unlock_def m Some option.case
        by (rule sat_bind [OF sat_mt_init_reads])
           (use fresh rest in \<open>auto simp: reads_ok_def split: option.split sum.split\<close>)
    qed
  qed
  then show ?thesis
    unfolding ld_unlock_def
    by (rule sat_bind) (auto simp: fallthrough_def split: option.splits sum.splits unlock_error.splits)
qed

text \<open>
  C1. A drive is reported as unlocked only on its own word: when the MT1959 unlocker returns
  \<open>Some\<close>, the drive is in the catalog with an MT1959 platform, and before the Volume ID read the
  last unlock read of the run (the re-confirmation, if the calibration met a bus fault) was
  accepted with the drive's own signature and both mode markers; no bus key comes with it.
\<close>
theorem ld_unlocked_confirmed:
  assumes "result_of (ld_unlock fuel bundled H ctx) w = Some (Inr (Some u))"
  shows "confirmed_unlock bundled ctx u (events_of (ld_unlock fuel bundled H ctx) w)"
  using sat_ld_unlock_confirmed [THEN sat_run, where w = w] assms by (metis option.case sum.case)

section \<open>The unlock returns\<close>

lemma time_probe_loops [time_intros]:
  assumes "steady_clock H time"
  shows "from_time time t (probe_coarse H mt a) (\<lambda>_ _. True)"
    and "from_time time t (probe_fine H mt b) (\<lambda>_ _. True)"
proof -
  show "from_time time t (probe_coarse H mt a) (\<lambda>_ _. True)"
    using assms
    by (induction H mt a arbitrary: t rule: probe_coarse.induct, subst probe_coarse.simps)
       (auto intro!: time_intros simp: read_buffer_probe_def)
  show "from_time time t (probe_fine H mt b) (\<lambda>_ _. True)"
    using assms
    by (induction H mt b arbitrary: t rule: probe_fine.induct, subst probe_fine.simps)
       (auto intro!: time_intros simp: read_buffer_probe_def)
qed

lemma time_validate [time_intros]:
  assumes "steady_clock H time"
  shows "from_time time t (validate H mt) (\<lambda>_ _. True)"
proof -
  have "from_time time t (validate_loop H mt attempts) (\<lambda>_ _. True)" for attempts
    by (induction attempts arbitrary: t) (auto intro!: time_intros assms)
  then show ?thesis by (simp add: validate_def)
qed

lemma time_probe_disc [time_intros]:
  "steady_clock H time \<Longrightarrow> from_time time t (probe_disc H mt) (\<lambda>_ _. True)"
  unfolding probe_disc_def run_probe_def probe_steps_def read_buffer_probe_def set_cd_speed_max_def Let_def
  by (auto intro!: time_intros)

lemma time_settle [time_intros]:
  "steady_clock H time \<Longrightarrow> 0 \<le> d \<Longrightarrow> from_time time t (settle H d) (\<lambda>_ _. True)"
  unfolding settle_def
  by (rule from_time_bind [OF from_time_now], assumption, intro time_intros) simp_all

lemma from_time_Some: "from_time time t (ret (Some x)) (\<lambda>out _. out \<noteq> None)"
  by (rule from_time_ret) simp

lemma calibrate_returns:
  assumes "steady_clock H time" and "61 \<le> fuel"
  shows "from_time time t (calibrate fuel H mt) (\<lambda>out _. out \<noteq> None)"
proof -
  have settle: "0 \<le> FAULT_SETTLE" by (simp add: FAULT_SETTLE_def secs_def)
  have reconfirm: "from_time time t (reconfirm_unlock fuel H mt) (\<lambda>out _. out \<noteq> None)" for t mt
    unfolding reconfirm_unlock_def Let_def
    by (rule from_time_bind [OF from_time_now [OF assms(1)]],
        rule from_time_bind [OF unlock_read_returns [OF assms]])
       (auto simp del: not_None_eq intro!: from_time_Some split: option.split sum.split)
  show ?thesis
    unfolding calibrate_def reconfirm_after_fault_def bind_io_assoc
    by (rule from_time_True [OF time_probe_disc [OF assms(1)]])
       (auto simp del: not_None_eq simp: bind_io_assoc split: sum.split option.split
          intro!: from_time_Some from_time_True [OF time_settle [OF assms(1) settle]]
            from_time_bind [OF reconfirm])
qed

text \<open>
  C26. The MT1959 unlocker returns for every drive, on every host with a steady clock, given the
  fuel \<open>READY_FUEL\<close>.
\<close>
theorem ld_unlock_returns:
  assumes "steady_clock H time" and "READY_FUEL \<le> fuel"
  shows "result_of (ld_unlock fuel bundled H ctx) w \<noteq> None"
proof -
  have fuel: "61 \<le> fuel" using assms(2) READY_FUEL_bound by simp
  have init: "from_time time t (mt_init fuel H mt) (\<lambda>out _. out \<noteq> None)" for t mt
    unfolding mt_init_def run_init_def
    by (auto simp del: not_None_eq intro!: from_time_Some run_init_loop_returns assms)
  have vid: "from_time time t (read_oem_vid H p) (\<lambda>_ _. True)" for t p
    unfolding read_oem_vid_def by (auto intro!: time_intros assms(1))
  have "from_time time t (firmware_unlock fuel bundled H ctx) (\<lambda>out _. out \<noteq> None)" for t
    unfolding firmware_unlock_def
    by (auto simp del: not_None_eq split: option.split sum.split
        intro!: from_time_Some from_time_bind [OF init] from_time_bind [OF calibrate_returns [OF assms(1) fuel]]
          from_time_True [OF vid])
  then have "from_time time t (ld_unlock fuel bundled H ctx) (\<lambda>out _. out \<noteq> None)" for t
    unfolding ld_unlock_def
    by (rule from_time_bind) (auto intro: from_time_ret)
  from from_time_result [OF this order_refl] show ?thesis .
qed

section \<open>Concrete runs\<close>

text \<open>A catalog with one drive, and that drive's answers.\<close>

definition demo_profile :: drive_profile where
  "demo_profile = \<lparr>
     p_identity = \<lparr> id_vendor_id = ''ACME'', id_product_id = [], id_product_revision = [],
       id_vendor_specific = [], id_firmware_date = [] \<rparr>,
     signature = [1, 2, 3, 4], firmware = [0xAA], unlock_init_value = 0, unlock_response_size = 0,
     read_vid_cdb = Some (0x3C # zeros 9), read_disc_keys_cdb = None, drive_nominal_speed_cdb = None,
     set_speed_max_cdb = None, read10_raw_2sec_cdb = None, read10_raw_1sec_cdb = None,
     read_buffer_verify_cdb = None, write_buffer_cdb = None, read_buffer_unlock_cdb = None,
     fw_verify_cdb = None, speed_zone_table = None, speed_calc_table = None \<rparr>"

definition demo_catalog :: profiles where
  "demo_catalog = \<lparr> mt1959_a = [demo_profile], mt1959_b = [], renesas = [] \<rparr>"

definition demo_ctx :: unlock_ctx where
  "demo_ctx = unlock_ctx_new (drive_id_default\<lparr> vendor_id := ''ACME '' \<rparr>) Aacs"

definition unlock_reply :: "(scsi_error + scsi_result) \<times> bytes" where
  "unlock_reply = good ([1, 2, 3, 4] @ zeros 8 @ FIRMWARE_ACTIVE_SIG @ FIRMWARE_MODE_SIG @ zeros 44)"

definition vid_reply :: "(scsi_error + scsi_result) \<times> bytes" where
  "vid_reply = good (OEM_EXPECTED_HEADER @ [0] @ replicate 16 7 @ zeros 16)"

text \<open>The drive unlocks, declines the calibration and answers the Volume ID read.\<close>

lemma ld_unlocked_confirmed_witness:
  "\<exists>u. result_of (ld_unlock 0 (Some demo_catalog) replay_host demo_ctx)
         (replaying [unlock_reply, refusal, vid_reply]) = Some (Inr (Some u))
     \<and> confirmed_unlock (Some demo_catalog) demo_ctx u
         (events_of (ld_unlock 0 (Some demo_catalog) replay_host demo_ctx)
           (replaying [unlock_reply, refusal, vid_reply]))"
proof -
  have run: "result_of (ld_unlock 0 (Some demo_catalog) replay_host demo_ctx)
      (replaying [unlock_reply, refusal, vid_reply])
    = Some (Inr (Some \<lparr> vid = Some (replicate 16 7), bus_key = None \<rparr>))"
    by code_simp
  from this ld_unlocked_confirmed [OF run] show ?thesis by blast
qed

lemma ld_unlock_returns_witness:
  "result_of (ld_unlock READY_FUEL (Some demo_catalog) replay_host demo_ctx) (replaying []) \<noteq> None"
  by (rule ld_unlock_returns [OF steady_replay order_refl])

section \<open>The Volume ID read decides\<close>

text \<open>What the reply to the Volume ID read makes of an unlocked drive.\<close>

definition vid_reply_outcome :: "scsi_error + scsi_result \<Rightarrow> bytes \<Rightarrow> unlock_error + unlocked option" where
  "vid_reply_outcome reply buf = (case reply of
     Inl e \<Rightarrow> if is_dead_bus e then Inl Transport else Inr None
   | Inr res \<Rightarrow> Inr (Some \<lparr> vid =
       (if res_status res = 0 \<and> 36 \<le> res_transferred res \<and> slice buf 0 3 = [0x00, 0x22, 0x00]
        then Some (slice buf 4 20) else None), bus_key = None \<rparr>))"

text \<open>
  C36. The Volume ID is best effort by contract, yet how its read is refused decides the whole
  unlock. For every drive, host and run in which the firmware unlock and the calibration
  succeeded (so the drive has confirmed that it is unlocked), the reply to the Volume ID read alone
  decides: a refusal delivered in the result, a short or an odd reply keep the unlock without a
  Volume ID; a dead bus is \<open>Transport\<close>; but a refusal that the transport delivers as an error with
  sense data (as the adapter of the consumer does for every non-zero status) discards the unlock,
  and the confirmed drive is reported as declined.
\<close>
theorem ld_vid_refusal_discards_unlock:
  assumes "find_bundled bundled (ctx_drive_id ctx) = Some m" "mt1959_new (m_profile m) (m_platform m) = Some mt"
    and "read_vid_cdb (m_profile m) = Some cdb"
    and "mt_init fuel H mt w = (Some (Inr (), mt'), es1, w1)" "mt_unlocked mt'"
    and "calibrate fuel H mt' w1 = (Some (Inr ()), es2, w2)"
    and "execute H cdb FromDevice (zeros 36) 5000 w2 = ((reply, buf), es3, w3)"
  shows "confirmed mt (es1 @ es2) True
    \<and> ld_unlock fuel bundled H ctx w = (Some (vid_reply_outcome reply buf), es1 @ es2 @ es3, w3)"
proof
  have "reads_ok mt (Some (Inr (), mt')) es1"
    using satD [OF sat_mt_init_reads assms(4)] mt1959_new_fresh [OF assms(2)] by simp
  then have init: "same_drive mt mt'" "init_complete mt'" "confirmed mt es1 True" using assms(5) by simp_all
  from satD [OF sat_calibrate_reads [OF init(2)] assms(6)] init(1,3)
  show "confirmed mt (es1 @ es2) True"
    by (auto simp: confirmed_same [OF init(1)] same_drive_reads [OF init(1)] intro: confirmed_append)
  have vid: "read_oem_vid H (m_profile m) w2 = ((case reply of
       Inl e \<Rightarrow> Inl (ld_from_scsi e)
     | Inr res \<Rightarrow> Inr (if res_status res = 0 \<and> 36 \<le> res_transferred res \<and> slice buf 0 3 = [0x00, 0x22, 0x00]
         then Some (slice buf 4 20) else None)), es3, w3)"
    by (auto simp: read_oem_vid_def assms(3,7) run_bind_io run_ret const_defs split: sum.split)
  show "ld_unlock fuel bundled H ctx w = (Some (vid_reply_outcome reply buf), es1 @ es2 @ es3, w3)"
    by (simp add: ld_unlock_def firmware_unlock_def assms(1,2,4,5,6) vid run_bind_io run_ret vid_reply_outcome_def
        ld_unlock_error_def fallthrough_def split: sum.split)
qed

text \<open>The drive of the demo catalog unlocks, declines the calibration and refuses the Volume ID read.\<close>

lemma ld_vid_refusal_discards_unlock_witness:
  "\<exists>pre post. events_of (ld_unlock 0 (Some demo_catalog) replay_host demo_ctx) (replaying [unlock_reply, refusal, refusal]) = pre @ post
     \<and> confirmed (the (mt1959_new demo_profile Mt1959A)) pre True
     \<and> result_of (ld_unlock 0 (Some demo_catalog) replay_host demo_ctx) (replaying [unlock_reply, refusal, refusal]) = Some (Inr None)"
proof -
  let ?mt = "the (mt1959_new demo_profile Mt1959A)" and ?w = "replaying [unlock_reply, refusal, refusal]"
  let ?mt' = "?mt\<lparr> mt_unlocked := True, init_complete := True \<rparr>"
  obtain r1 es1 w1 where init: "mt_init 0 replay_host ?mt ?w = (r1, es1, w1)" by (cases "mt_init 0 replay_host ?mt ?w")
  obtain r2 es2 w2 where calibrate: "calibrate 0 replay_host ?mt' w1 = (r2, es2, w2)" by (cases "calibrate 0 replay_host ?mt' w1")
  obtain reply buf es3 w3 where vid: "execute replay_host (0x3C # zeros 9) FromDevice (zeros 36) 5000 w2 = ((reply, buf), es3, w3)"
    by (metis surj_pair)
  let ?w1 = "(replaying [refusal, refusal])\<lparr> replay_clock := millis 1 \<rparr>" and ?w2 = "(replaying [refusal])\<lparr> replay_clock := millis 2 \<rparr>"
  have "fst (mt_init 0 replay_host ?mt ?w) = Some (Inr (), ?mt')" "snd (snd (mt_init 0 replay_host ?mt ?w)) = ?w1"
    by code_simp+
  then have r1: "r1 = Some (Inr (), ?mt')" and w1: "w1 = ?w1" by (simp_all add: init)
  have "fst (calibrate 0 replay_host ?mt' ?w1) = Some (Inr ())" "snd (snd (calibrate 0 replay_host ?mt' ?w1)) = ?w2"
    by code_simp+
  then have r2: "r2 = Some (Inr ())" and w2: "w2 = ?w2" by (simp_all only: calibrate [unfolded w1] fst_conv snd_conv)
  have "fst (fst (execute replay_host (0x3C # zeros 9) FromDevice (zeros 36) 5000 ?w2)) = fst refusal"
    by code_simp
  then have "reply = fst refusal" by (simp only: vid [unfolded w2] fst_conv)
  then have outcome: "vid_reply_outcome reply buf = Inr None"
    by (simp add: vid_reply_outcome_def refusal_def is_dead_bus_def)
  have "map_option (\<lambda>m. (m_profile m, m_platform m)) (find_bundled (Some demo_catalog) (ctx_drive_id demo_ctx))
      = Some (demo_profile, Mt1959A)"
    by code_simp
  then obtain m where m: "find_bundled (Some demo_catalog) (ctx_drive_id demo_ctx) = Some m" "m_profile m = demo_profile" "m_platform m = Mt1959A"
    by auto
  have new: "mt1959_new (m_profile m) (m_platform m) = Some ?mt" "read_vid_cdb (m_profile m) = Some (0x3C # zeros 9)"
    by (simp_all add: m mt1959_new_def demo_profile_def)
  from ld_vid_refusal_discards_unlock [OF m(1) new init [unfolded r1] _ calibrate [unfolded r2] vid] outcome
  show ?thesis by (intro exI [of _ "es1 @ es2"] exI [of _ es3]) (simp add: result_of_def events_of_def)
qed

end
