(* ===== verification/Ec.thy ===== *)
theory Ec
  imports Prelude
begin

text \<open>
  Elliptic-curve arithmetic of the AACS handshake (\<open>src/src/aacs/handshake.rs\<close>): the modular
  inverse, point addition, doubling and scalar multiplication over a prime field, the curve
  membership test, the conversion to fixed-size bytes, and the two curves with the trust anchors
  of the licensing administrator. A \<open>BigUint\<close> is a \<open>nat\<close>, a \<open>BigInt\<close> an \<open>int\<close>. The code never
  subtracts below zero: every subtraction is guarded, and \<open>sub_mod\<close> is the guarded subtraction it
  writes out at each place.

  The lemmas show that the extended Euclid loop finds the inverse exactly when there is one (and
  that its final \<open>unwrap\<close> cannot fail), that the group operations never leave the curve, and that
  the byte conversions are inverse to each other.
\<close>

section \<open>Big integers as bytes\<close>

definition from_bytes_be :: "bytes \<Rightarrow> nat" where
  "from_bytes_be bs = foldl (\<lambda>n b. n * 256 + unat b) 0 bs"

fun to_bytes_be :: "nat \<Rightarrow> bytes" where
  "to_bytes_be n = (if n < 256 then [of_nat n] else to_bytes_be (n div 256) @ [of_nat (n mod 256)])"

declare to_bytes_be.simps [simp del]

definition to_bytes_be_padded :: "nat \<Rightarrow> nat \<Rightarrow> bytes" where
  "to_bytes_be_padded n len =
     (let bytes = to_bytes_be n in
      if len \<le> length bytes then drop (length bytes - len) bytes
      else zeros (len - length bytes) @ bytes)"

section \<open>The curves\<close>

definition EC_P :: bytes where "EC_P =
  [0x9D, 0xC9, 0xD8, 0x13, 0x55, 0xEC, 0xCE, 0xB5, 0x60, 0xBD, 0xB0, 0x9E, 0xF9, 0xEA, 0xE7, 0xC4,
   0x79, 0xA7, 0xD7, 0xDF]"
definition EC_A :: bytes where "EC_A =
  [0x9D, 0xC9, 0xD8, 0x13, 0x55, 0xEC, 0xCE, 0xB5, 0x60, 0xBD, 0xB0, 0x9E, 0xF9, 0xEA, 0xE7, 0xC4,
   0x79, 0xA7, 0xD7, 0xDC]"
definition EC_B :: bytes where "EC_B =
  [0x40, 0x2D, 0xAD, 0x3E, 0xC1, 0xCB, 0xCD, 0x16, 0x52, 0x48, 0xD6, 0x8E, 0x12, 0x45, 0xE0, 0xC4,
   0xDA, 0xAC, 0xB1, 0xD8]"
definition EC_N :: bytes where "EC_N =
  [0x9D, 0xC9, 0xD8, 0x13, 0x55, 0xEC, 0xCE, 0xB5, 0x60, 0xBD, 0xC4, 0x4F, 0x54, 0x81, 0x7B, 0x2C,
   0x7F, 0x5A, 0xB0, 0x17]"
definition EC_GX :: bytes where "EC_GX =
  [0x2E, 0x64, 0xFC, 0x22, 0x57, 0x83, 0x51, 0xE6, 0xF4, 0xCC, 0xA7, 0xEB, 0x81, 0xD0, 0xA4, 0xBD,
   0xC5, 0x4C, 0xCE, 0xC6]"
definition EC_GY :: bytes where "EC_GY =
  [0x09, 0x14, 0xA2, 0x5D, 0xD0, 0x54, 0x42, 0x88, 0x9D, 0xB4, 0x55, 0xC7, 0xF2, 0x3C, 0x9A, 0x07,
   0x07, 0xF5, 0xCB, 0xB9]"

definition P256_P :: bytes where "P256_P =
  [0xFF, 0xFF, 0xFF, 0xFF, 0x00, 0x00, 0x00, 0x01, 0x00, 0x00, 0x00, 0x00, 0x00, 0x00, 0x00, 0x00,
   0x00, 0x00, 0x00, 0x00, 0xFF, 0xFF, 0xFF, 0xFF, 0xFF, 0xFF, 0xFF, 0xFF, 0xFF, 0xFF, 0xFF, 0xFF]"
definition P256_A :: bytes where "P256_A =
  [0xFF, 0xFF, 0xFF, 0xFF, 0x00, 0x00, 0x00, 0x01, 0x00, 0x00, 0x00, 0x00, 0x00, 0x00, 0x00, 0x00,
   0x00, 0x00, 0x00, 0x00, 0xFF, 0xFF, 0xFF, 0xFF, 0xFF, 0xFF, 0xFF, 0xFF, 0xFF, 0xFF, 0xFF, 0xFC]"
definition P256_B :: bytes where "P256_B =
  [0x5A, 0xC6, 0x35, 0xD8, 0xAA, 0x3A, 0x93, 0xE7, 0xB3, 0xEB, 0xBD, 0x55, 0x76, 0x98, 0x86, 0xBC,
   0x65, 0x1D, 0x06, 0xB0, 0xCC, 0x53, 0xB0, 0xF6, 0x3B, 0xCE, 0x3C, 0x3E, 0x27, 0xD2, 0x60, 0x4B]"
definition P256_N :: bytes where "P256_N =
  [0xFF, 0xFF, 0xFF, 0xFF, 0x00, 0x00, 0x00, 0x00, 0xFF, 0xFF, 0xFF, 0xFF, 0xFF, 0xFF, 0xFF, 0xFF,
   0xBC, 0xE6, 0xFA, 0xAD, 0xA7, 0x17, 0x9E, 0x84, 0xF3, 0xB9, 0xCA, 0xC2, 0xFC, 0x63, 0x25, 0x51]"
definition P256_GX :: bytes where "P256_GX =
  [0x6B, 0x17, 0xD1, 0xF2, 0xE1, 0x2C, 0x42, 0x47, 0xF8, 0xBC, 0xE6, 0xE5, 0x63, 0xA4, 0x40, 0xF2,
   0x77, 0x03, 0x7D, 0x81, 0x2D, 0xEB, 0x33, 0xA0, 0xF4, 0xA1, 0x39, 0x45, 0xD8, 0x98, 0xC2, 0x96]"
definition P256_GY :: bytes where "P256_GY =
  [0x4F, 0xE3, 0x42, 0xE2, 0xFE, 0x1A, 0x7F, 0x9B, 0x8E, 0xE7, 0xEB, 0x4A, 0x7C, 0x0F, 0x9E, 0x16,
   0x2B, 0xCE, 0x33, 0x57, 0x6B, 0x31, 0x5E, 0xCE, 0xCB, 0xB6, 0x40, 0x68, 0x37, 0xBF, 0x51, 0xF5]"

definition AACS2_LA_PUB_X :: bytes where "AACS2_LA_PUB_X =
  [0xDC, 0x88, 0x52, 0xA0, 0xA7, 0xF0, 0xD0, 0x24, 0xD4, 0xC4, 0xCA, 0xC3, 0x1F, 0x32, 0x5F, 0x90,
   0x3D, 0x0D, 0x23, 0xFC, 0x65, 0xEE, 0xBB, 0x1C, 0x75, 0x90, 0xB9, 0x62, 0xDB, 0x57, 0x43, 0x2E]"
definition AACS2_LA_PUB_Y :: bytes where "AACS2_LA_PUB_Y =
  [0xF0, 0xD4, 0x81, 0x42, 0xB3, 0x32, 0xD7, 0x3B, 0x41, 0xE0, 0xFB, 0x84, 0x4C, 0x86, 0xEF, 0x66,
   0x0F, 0x68, 0x4A, 0x05, 0x96, 0xE9, 0xCE, 0x00, 0xC4, 0xD3, 0xFE, 0x6E, 0x24, 0x45, 0x4D, 0xD0]"
definition AACS_LA_PUB_X :: bytes where "AACS_LA_PUB_X =
  [0x63, 0xC2, 0x1D, 0xFF, 0xB2, 0xB2, 0x79, 0x8A, 0x13, 0xB5, 0x8D, 0x61, 0x16, 0x6C, 0x4E, 0x4A,
   0xAC, 0x8A, 0x07, 0x72]"
definition AACS_LA_PUB_Y :: bytes where "AACS_LA_PUB_Y =
  [0x13, 0x7E, 0xC6, 0x38, 0x81, 0x8F, 0xD9, 0x8F, 0xA4, 0xC3, 0x0B, 0x99, 0x67, 0x28, 0xBF, 0x4B,
   0x91, 0x7F, 0x6A, 0x27]"

section \<open>Points\<close>

record ec_point =
  px :: nat
  py :: nat
  infinite :: bool

definition ec_infinity :: ec_point where
  "ec_infinity = \<lparr> px = 0, py = 0, infinite = True \<rparr>"

definition ec_new :: "nat \<Rightarrow> nat \<Rightarrow> ec_point" where
  "ec_new x y = \<lparr> px = x, py = y, infinite = False \<rparr>"

definition ec_from_bytes :: "bytes \<Rightarrow> bytes \<Rightarrow> ec_point" where
  "ec_from_bytes x y = ec_new (from_bytes_be x) (from_bytes_be y)"

section \<open>The modular inverse\<close>

function euclid_loop :: "int \<Rightarrow> int \<Rightarrow> int \<Rightarrow> int \<Rightarrow> int \<times> int" where
  "euclid_loop old_r r old_s s =
     (if r = 0 then (old_r, old_s)
      else let q = old_r div r in euclid_loop r (old_r - q * r) s (old_s - q * s))"
  by pat_completeness auto
termination
  by (relation "measure (\<lambda>(old_r, r, old_s, s). nat \<bar>r\<bar>)")
    (auto simp: minus_div_mult_eq_mod abs_mod_less)

declare euclid_loop.simps [simp del]

definition mod_inv :: "nat \<Rightarrow> nat \<Rightarrow> nat option" where
  "mod_inv a m =
     (case euclid_loop (int a) (int m) 1 0 of (old_r, old_s) \<Rightarrow>
        if old_r \<noteq> 1 then None
        else let old_s = (if old_s < 0 then old_s + int m else old_s) in Some (nat old_s))"

section \<open>Group operations\<close>

definition sub_mod :: "nat \<Rightarrow> nat \<Rightarrow> nat \<Rightarrow> nat" where
  "sub_mod p a b = (if b \<le> a then (a - b) mod p else (p - (b - a) mod p) mod p)"

definition ec_double :: "ec_point \<Rightarrow> nat \<Rightarrow> nat \<Rightarrow> ec_point" where
  "ec_double pt a p =
     (if infinite pt \<or> py pt = 0 then ec_infinity
      else
        let numerator = (3 * px pt * px pt + a) mod p;
            denominator = (2 * py pt) mod p
        in case mod_inv denominator p of
             None \<Rightarrow> ec_infinity
           | Some denom_inv \<Rightarrow>
               let lam = (numerator * denom_inv) mod p;
                   x3 = sub_mod p ((lam * lam) mod p) ((2 * px pt) mod p);
                   y3 = sub_mod p ((lam * sub_mod p (px pt) x3) mod p) (py pt)
               in ec_new x3 y3)"

definition ec_add :: "ec_point \<Rightarrow> ec_point \<Rightarrow> nat \<Rightarrow> nat \<Rightarrow> ec_point" where
  "ec_add p1 p2 a p =
     (if infinite p1 then p2
      else if infinite p2 then p1
      else if px p1 = px p2 then
        (if py p1 = py p2 \<and> py p1 \<noteq> 0 then ec_double p1 a p else ec_infinity)
      else
        let dy = sub_mod p (py p2) (py p1);
            dx = sub_mod p (px p2) (px p1)
        in case mod_inv dx p of
             None \<Rightarrow> ec_infinity
           | Some dx_inv \<Rightarrow>
               let lam = (dy * dx_inv) mod p;
                   x3 = sub_mod p ((lam * lam) mod p) ((px p1 + px p2) mod p);
                   y3 = sub_mod p ((lam * sub_mod p (px p1) x3) mod p) (py p1)
               in ec_new x3 y3)"

fun ec_mul_loop :: "nat \<Rightarrow> ec_point \<Rightarrow> ec_point \<Rightarrow> nat \<Rightarrow> nat \<Rightarrow> ec_point" where
  "ec_mul_loop scalar result base a p =
     (if scalar = 0 then result
      else
        let result = (if odd scalar then ec_add result base a p else result);
            base = ec_double base a p
        in ec_mul_loop (scalar div 2) result base a p)"

declare ec_mul_loop.simps [simp del]

definition ec_mul :: "nat \<Rightarrow> ec_point \<Rightarrow> nat \<Rightarrow> nat \<Rightarrow> ec_point" where
  "ec_mul k pt a p = (if k = 0 then ec_infinity else ec_mul_loop k ec_infinity pt a p)"

definition point_on_curve :: "nat \<Rightarrow> nat \<Rightarrow> nat \<Rightarrow> nat \<Rightarrow> nat \<Rightarrow> bool" where
  "point_on_curve x y a b p =
     (if p \<le> x \<or> p \<le> y then False
      else (y * y) mod p = (((x * x) mod p) * x + a * x + b) mod p)"

section \<open>The inverse is found exactly when there is one\<close>

lemma abs_opposite:
  fixes x y q :: int
  assumes "y * x \<le> 0" and "0 \<le> q"
  shows "\<bar>x - q * y\<bar> = \<bar>x\<bar> + q * \<bar>y\<bar>" and "(x - q * y) * y \<le> 0"
proof -
  consider "y = 0" | "y > 0" "x \<le> 0" | "y < 0" "x \<ge> 0"
    using assms(1) by (metis linorder_neqE_linordered_idom mult_le_0_iff not_less)
  then show "\<bar>x - q * y\<bar> = \<bar>x\<bar> + q * \<bar>y\<bar>"
  proof cases
    case 2
    then have "0 \<le> q * y" using assms(2) by simp
    with 2 show ?thesis by simp
  next
    case 3
    then have "q * y \<le> 0" using assms(2) by (simp add: mult_nonneg_nonpos)
    with 3 show ?thesis by simp
  qed simp
  have "x * y \<le> 0" using assms(1) by (simp add: mult.commute)
  moreover have "0 \<le> q * (y * y)" using assms(2) by simp
  ultimately show "(x - q * y) * y \<le> 0" by (simp add: left_diff_distrib mult.assoc)
qed

definition euclid_inv :: "int \<Rightarrow> int \<Rightarrow> int \<Rightarrow> int \<Rightarrow> int \<Rightarrow> int \<Rightarrow> bool" where
  "euclid_inv a m old_r r old_s s \<longleftrightarrow>
     0 \<le> old_r \<and> 0 \<le> r \<and> gcd old_r r = gcd a m \<and> m dvd a * old_s - old_r \<and> m dvd a * s - r
     \<and> \<bar>s\<bar> * old_r + \<bar>old_s\<bar> * r = m \<and> s * old_s \<le> 0 \<and> \<bar>old_s\<bar> \<le> m \<and> (old_r = 0 \<longrightarrow> s = 0)"

lemma euclid_inv_step:
  assumes inv: "euclid_inv a m old_r r old_s s" and "r \<noteq> 0"
  defines "q \<equiv> old_r div r"
  shows "euclid_inv a m r (old_r - q * r) s (old_s - q * s)"
proof -
  from inv have nonneg: "0 \<le> old_r" "0 \<le> r" and g: "gcd old_r r = gcd a m"
    and d: "m dvd a * old_s - old_r" "m dvd a * s - r"
    and sum: "\<bar>s\<bar> * old_r + \<bar>old_s\<bar> * r = m" and opp: "s * old_s \<le> 0" and z: "old_r = 0 \<Longrightarrow> s = 0"
    by (auto simp: euclid_inv_def)
  have q: "0 \<le> q" and rem: "old_r - q * r = old_r mod r"
    using nonneg \<open>r \<noteq> 0\<close> by (simp_all add: q_def pos_imp_zdiv_nonneg_iff minus_div_mult_eq_mod)
  have "m dvd (a * old_s - old_r) - q * (a * s - r)" using d by (simp add: dvd_diff)
  then have "m dvd a * (old_s - q * s) - (old_r - q * r)" by (simp add: algebra_simps)
  moreover have "\<bar>old_s - q * s\<bar> * r + \<bar>s\<bar> * (old_r - q * r) = m"
    unfolding abs_opposite(1) [OF opp q] sum [symmetric] by (simp add: algebra_simps)
  moreover have "gcd r (old_r - q * r) = gcd a m"
    unfolding rem g [symmetric] by (metis gcd.commute gcd_red_int)
  moreover have "\<bar>s\<bar> \<le> m"
  proof (cases "old_r = 0")
    case False
    then have "\<bar>s\<bar> * 1 \<le> \<bar>s\<bar> * old_r" using nonneg by (intro mult_left_mono) auto
    moreover have "0 \<le> \<bar>old_s\<bar> * r" using nonneg by simp
    ultimately show ?thesis using sum by linarith
  next
    case True
    with z nonneg sum show ?thesis by (metis abs_ge_zero abs_zero add.right_neutral mult_nonneg_nonneg mult_zero_left add.left_neutral)
  qed
  moreover have "0 \<le> old_r - q * r"
    using nonneg \<open>r \<noteq> 0\<close> unfolding rem by simp
  ultimately show ?thesis
    using nonneg \<open>r \<noteq> 0\<close> d(2) abs_opposite(2) [OF opp q] by (simp add: euclid_inv_def)
qed

lemma euclid_loop_correct:
  "euclid_inv a m old_r r old_s s \<Longrightarrow> (case euclid_loop old_r r old_s s of (g, t) \<Rightarrow>
     g = gcd a m \<and> m dvd a * t - g \<and> \<bar>t\<bar> \<le> m)"
proof (induction old_r r old_s s rule: euclid_loop.induct)
  case (1 old_r r old_s s)
  show ?case
  proof (cases "r = 0")
    case True
    with 1(2) show ?thesis by (subst euclid_loop.simps) (auto simp: euclid_inv_def)
  next
    case False
    with 1(1) [OF False refl euclid_inv_step [OF 1(2) False]] show ?thesis
      by (subst euclid_loop.simps) (simp add: Let_def)
  qed
qed

lemma mod_inv_spec:
  assumes "0 < m"
  shows "case mod_inv a m of
      None \<Rightarrow> \<not> coprime a m
    | Some v \<Rightarrow> coprime a m \<and> (a * v) mod m = 1 mod m \<and> v \<le> m"
proof -
  obtain g t where run: "euclid_loop (int a) (int m) 1 0 = (g, t)" by (cases "euclid_loop (int a) (int m) 1 0")
  have "euclid_inv (int a) (int m) (int a) (int m) 1 0"
    using assms by (simp add: euclid_inv_def)
  from euclid_loop_correct [OF this] run
  have g: "g = int (gcd a m)" and d: "int m dvd int a * t - g" and t: "\<bar>t\<bar> \<le> int m"
    by (auto simp: gcd_int_int_eq)
  show ?thesis
  proof (cases "g = 1")
    case False
    with run g show ?thesis by (simp add: mod_inv_def coprime_iff_gcd_eq_1)
  next
    case True
    define v where "v = (if t < 0 then t + int m else t)"
    have v: "0 \<le> v" "v \<le> int m" "int m dvd int a * v - 1"
      using t d True by (auto simp: v_def algebra_simps dvd_add_right_iff)
    then have "int a * v mod int m = 1 mod int m" by (simp only: mod_eq_dvd_iff)
    with v(1) have "int ((a * nat v) mod m) = int (1 mod m)"
      by (simp only: zmod_int of_nat_mult of_nat_1 nat_0_le int_nat_eq if_True)
    then have "(a * nat v) mod m = 1 mod m" by (simp only: of_nat_eq_iff)
    with run True g v show ?thesis
      by (simp add: mod_inv_def v_def coprime_iff_gcd_eq_1 nat_le_iff)
  qed
qed


section \<open>The group operations stay on the curve\<close>

text \<open>
  Residues: \<open>sub_mod\<close> subtracts, and the curve equation is a divisibility statement.
\<close>

lemma sub_mod_int:
  assumes "0 < p"
  shows "int p dvd int (sub_mod p a b) - (int a - int b)" and "sub_mod p a b < p"
proof -
  have "int p dvd int (sub_mod p a b) - (int a - int b)"
  proof (cases "b \<le> a")
    case True
    then show ?thesis by (simp add: sub_mod_def of_nat_diff zmod_int mod_eq_dvd_iff [symmetric])
  next
    case False
    then have "(b - a) mod p \<le> p" and ba: "a \<le> b" using assms by (simp_all add: less_imp_le)
    then have "int (sub_mod p a b) = (int p - (int b - int a) mod int p) mod int p"
      using False by (simp add: sub_mod_def zmod_int of_nat_diff)
    then show ?thesis
      by (simp add: mod_eq_dvd_iff [symmetric] mod_minus_eq)
  qed
  then show "int p dvd int (sub_mod p a b) - (int a - int b)" .
  show "sub_mod p a b < p" using assms by (simp add: sub_mod_def)
qed

definition curve :: "int \<Rightarrow> int \<Rightarrow> int \<Rightarrow> int \<Rightarrow> int" where
  "curve a b x y = y * y - (x * x * x + a * x + b)"

lemma point_on_curve_iff:
  "point_on_curve x y a b p \<longleftrightarrow> x < p \<and> y < p \<and> int p dvd curve (int a) (int b) (int x) (int y)"
proof -
  have "((x * x) mod p * x + a * x + b) mod p = (x * x * x + a * x + b) mod p"
    by (intro mod_add_cong refl) (simp add: mod_mult_left_eq)
  then have "(y * y) mod p = (((x * x) mod p) * x + a * x + b) mod p
      \<longleftrightarrow> int ((y * y) mod p) = int ((x * x * x + a * x + b) mod p)" by simp
  also have "\<dots> \<longleftrightarrow> int p dvd curve (int a) (int b) (int x) (int y)"
    by (simp add: zmod_int mod_eq_dvd_iff curve_def)
  finally show ?thesis by (auto simp: point_on_curve_def)
qed

lemma curve_cong_y: "P dvd curve a b x y' \<Longrightarrow> P dvd y - y' \<Longrightarrow> P dvd curve a b x y"
proof -
  assume "P dvd curve a b x y'" and "P dvd y - y'"
  then have "P dvd curve a b x y' + (y - y') * (y + y')" by simp
  also have "curve a b x y' + (y - y') * (y + y') = curve a b x y"
    by (simp add: curve_def algebra_simps)
  finally show ?thesis .
qed

lemma curve_cong_x: "P dvd curve a b x' y \<Longrightarrow> P dvd x - x' \<Longrightarrow> P dvd curve a b x y"
proof -
  assume "P dvd curve a b x' y" and "P dvd x - x'"
  then have "P dvd curve a b x' y - (x - x') * (x * x + x * x' + x' * x' + a)" by (simp add: dvd_diff)
  also have "curve a b x' y - (x - x') * (x * x + x * x' + x' * x' + a) = curve a b x y"
    by (simp add: curve_def algebra_simps)
  finally show ?thesis .
qed

text \<open>
  The line with slope \<open>l\<close> through \<open>(x1, y1)\<close> meets the curve in \<open>x1\<close>, \<open>x2\<close> and a third point. The
  equation of the curve along the line is monic with these three roots up to a linear remainder
  \<open>c * x + e\<close>, so the third point is on the curve as soon as \<open>c\<close> and \<open>e\<close> vanish.
\<close>

definition line_c :: "int \<Rightarrow> int \<Rightarrow> int \<Rightarrow> int \<Rightarrow> int \<Rightarrow> int" where
  "line_c a x1 y1 x2 l = a - 2 * l * (y1 - l * x1) - (x1 * x2 + (x1 + x2) * (l * l - x1 - x2))"

definition line_e :: "int \<Rightarrow> int \<Rightarrow> int \<Rightarrow> int \<Rightarrow> int \<Rightarrow> int" where
  "line_e b x1 y1 x2 l = b - (y1 - l * x1) * (y1 - l * x1) + x1 * x2 * (l * l - x1 - x2)"

lemma curve_on_line:
  "curve a b x (l * (x - x1) + y1)
    = - ((x - x1) * (x - x2) * (x - (l * l - x1 - x2)) + line_c a x1 y1 x2 l * x + line_e b x1 y1 x2 l)"
  by (simp add: curve_def line_c_def line_e_def algebra_simps)

lemma line_root:
  assumes "P dvd curve a b x (l * (x - x1) + y1)" and "x = x1 \<or> x = x2"
  shows "P dvd line_c a x1 y1 x2 l * x + line_e b x1 y1 x2 l"
  using assms(1) unfolding curve_on_line [of a b x l x1 y1 x2] dvd_minus_iff using assms(2) by auto

lemma third_point:
  assumes c: "P dvd line_c a x1 y1 x2 l" and start: "P dvd curve a b x1 y1"
    and x3: "P dvd x3 - (l * l - x1 - x2)" and y3: "P dvd y3 - (l * (x1 - x3) - y1)"
  shows "P dvd curve a b x3 y3"
proof -
  have "P dvd line_c a x1 y1 x2 l * x1 + line_e b x1 y1 x2 l"
    using start by (intro line_root) simp_all
  with c have e: "P dvd line_e b x1 y1 x2 l" by (simp add: dvd_add_right_iff)
  have "P dvd curve a b x3 (l * (x3 - x1) + y1)"
    unfolding curve_on_line [of a b x3 l x1 y1 x2] using c e x3 by simp
  then have "P dvd curve a b x3 (- (l * (x3 - x1) + y1))" by (simp only: curve_def minus_mult_minus)
  moreover have "y3 - - (l * (x3 - x1) + y1) = y3 - (l * (x1 - x3) - y1)" by (simp add: algebra_simps)
  ultimately show ?thesis using curve_cong_y y3 by metis
qed

lemma chord_closed:
  assumes "P dvd curve a b x1 y1" and "P dvd curve a b x2 y2"
    and slope: "P dvd l * (x2 - x1) - (y2 - y1)" and inverse: "P dvd (x2 - x1) * u - 1"
    and "P dvd x3 - (l * l - x1 - x2)" and "P dvd y3 - (l * (x1 - x3) - y1)"
  shows "P dvd curve a b x3 y3"
proof (rule third_point)
  have "P dvd curve a b x2 (l * (x2 - x1) + y1)"
    using slope by (intro curve_cong_y [OF assms(2)]) (simp add: algebra_simps)
  then have at2: "P dvd line_c a x1 y1 x2 l * x2 + line_e b x1 y1 x2 l" by (rule line_root) simp
  have "P dvd line_c a x1 y1 x2 l * x1 + line_e b x1 y1 x2 l"
    using assms(1) by (intro line_root) simp_all
  from dvd_diff [OF at2 this] have "P dvd line_c a x1 y1 x2 l * (x2 - x1)" by (simp add: algebra_simps)
  then have "P dvd line_c a x1 y1 x2 l * (x2 - x1) * u - line_c a x1 y1 x2 l * ((x2 - x1) * u - 1)"
    using dvd_diff [OF dvd_mult2 [of P _ u] dvd_mult [OF inverse]] by blast
  then show "P dvd line_c a x1 y1 x2 l" by (simp add: algebra_simps)
qed fact+

lemma tangent_closed:
  assumes "P dvd curve a b x1 y1" and slope: "P dvd l * (2 * y1) - (3 * x1 * x1 + a)"
    and "P dvd x3 - (l * l - x1 - x1)" and "P dvd y3 - (l * (x1 - x3) - y1)"
  shows "P dvd curve a b x3 y3"
proof (rule third_point)
  have "line_c a x1 y1 x1 l = - (l * (2 * y1) - (3 * x1 * x1 + a))"
    by (simp add: line_c_def algebra_simps)
  then show "P dvd line_c a x1 y1 x1 l" using slope by (metis dvd_minus_iff)
qed fact+

lemma mod_int_dvd: "int p dvd int (n mod p) - int n"
  by (simp add: zmod_int mod_eq_dvd_iff [symmetric])

lemma inverse_int:
  assumes "mod_inv d p = Some u" and "0 < p"
  shows "int p dvd int d * int u - 1"
proof -
  from mod_inv_spec [OF assms(2), of d] assms(1) have "(d * u) mod p = 1 mod p" by simp
  then have "int ((d * u) mod p) = int (1 mod p)" by simp
  then show ?thesis by (simp only: zmod_int of_nat_mult of_nat_1 mod_eq_dvd_iff)
qed

text \<open>The slope \<open>lam\<close> computed as a residue satisfies the equation of the slope.\<close>

lemma slope_int:
  assumes "P dvd lam - num * u" and "P dvd num - n" and "P dvd den - d" and "P dvd den * u - 1"
  shows "P dvd lam * d - (n :: int)"
  using assms by algebra

definition on_curve :: "nat \<Rightarrow> nat \<Rightarrow> nat \<Rightarrow> ec_point \<Rightarrow> bool" where
  "on_curve a b p pt \<longleftrightarrow> infinite pt \<or> point_on_curve (px pt) (py pt) a b p"

lemma on_curve_infinity [simp]: "on_curve a b p ec_infinity"
  by (simp add: on_curve_def ec_infinity_def)

lemma on_curve_new [simp]: "on_curve a b p (ec_new x y) = point_on_curve x y a b p"
  by (simp add: on_curve_def ec_new_def)

text \<open>The common end of both formulas: the third point from the slope.\<close>

definition ec_third :: "nat \<Rightarrow> nat \<Rightarrow> nat \<Rightarrow> nat \<Rightarrow> nat \<Rightarrow> ec_point" where
  "ec_third p lam x1 y1 xs =
     (let x3 = sub_mod p ((lam * lam) mod p) (xs mod p)
      in ec_new x3 (sub_mod p ((lam * sub_mod p x1 x3) mod p) y1))"

lemma ec_third_coords:
  assumes "0 < p"
  obtains x3 y3 where "ec_third p lam x1 y1 xs = ec_new x3 y3" and "x3 < p" and "y3 < p"
    and "int p dvd int x3 - (int lam * int lam - int xs)"
    and "int p dvd int y3 - (int lam * (int x1 - int x3) - int y1)"
proof
  let ?x3 = "sub_mod p ((lam * lam) mod p) (xs mod p)"
  let ?y3 = "sub_mod p ((lam * sub_mod p x1 ?x3) mod p) y1"
  show "ec_third p lam x1 y1 xs = ec_new ?x3 ?y3" by (simp add: ec_third_def Let_def)
  show "?x3 < p" and "?y3 < p" using sub_mod_int(2) [OF assms] by simp_all
  show "int p dvd int ?x3 - (int lam * int lam - int xs)"
    using sub_mod_int(1) [OF assms, of "(lam * lam) mod p" "xs mod p"]
      mod_int_dvd [of p "lam * lam", unfolded of_nat_mult] mod_int_dvd [of p xs] by algebra
  show "int p dvd int ?y3 - (int lam * (int x1 - int ?x3) - int y1)"
    using sub_mod_int(1) [OF assms, of "(lam * sub_mod p x1 ?x3) mod p" y1]
      mod_int_dvd [of p "lam * sub_mod p x1 ?x3", unfolded of_nat_mult]
      sub_mod_int(1) [OF assms, of x1 ?x3] by algebra
qed

lemma ec_double_closed:
  assumes "0 < p" and "on_curve a b p pt"
  shows "on_curve a b p (ec_double pt a p)"
proof (cases "infinite pt \<or> py pt = 0 \<or> mod_inv ((2 * py pt) mod p) p = None")
  case True
  then show ?thesis by (auto simp: ec_double_def Let_def split: option.split)
next
  case False
  then obtain u where u: "mod_inv ((2 * py pt) mod p) p = Some u" by auto
  define num where "num = (3 * px pt * px pt + a) mod p"
  define lam where "lam = (num * u) mod p"
  have eq: "ec_double pt a p = ec_third p lam (px pt) (py pt) (2 * px pt)"
    using False u by (simp add: ec_double_def ec_third_def Let_def lam_def num_def)
  have "int p dvd int lam * (2 * int (py pt)) - (3 * int (px pt) * int (px pt) + int a)"
  proof (rule slope_int)
    show "int p dvd int lam - int num * int u"
      using mod_int_dvd [of p "num * u"] by (simp add: lam_def)
    show "int p dvd int num - (3 * int (px pt) * int (px pt) + int a)"
      using mod_int_dvd [of p "3 * px pt * px pt + a"] by (simp add: num_def)
    show "int p dvd int ((2 * py pt) mod p) - 2 * int (py pt)"
      using mod_int_dvd [of p "2 * py pt"] by simp
    show "int p dvd int ((2 * py pt) mod p) * int u - 1"
      using inverse_int [OF u assms(1)] .
  qed
  moreover have "int p dvd curve (int a) (int b) (int (px pt)) (int (py pt))"
    using assms(2) False by (simp add: on_curve_def point_on_curve_iff)
  ultimately show ?thesis
    unfolding eq
    by (rule_tac ec_third_coords [OF assms(1), of lam "px pt" "py pt" "2 * px pt"])
      (auto simp: point_on_curve_iff intro: tangent_closed)
qed

lemma ec_add_closed:
  assumes "0 < p" and p1: "on_curve a b p p1" and p2: "on_curve a b p p2"
  shows "on_curve a b p (ec_add p1 p2 a p)"
proof (cases "infinite p1 \<or> infinite p2 \<or> px p1 = px p2 \<or> mod_inv (sub_mod p (px p2) (px p1)) p = None")
  case True
  then show ?thesis
    using p1 p2 ec_double_closed [OF assms(1) p1] by (auto simp: ec_add_def Let_def)
next
  case False
  then obtain u where u: "mod_inv (sub_mod p (px p2) (px p1)) p = Some u" by auto
  define dy where "dy = sub_mod p (py p2) (py p1)"
  define lam where "lam = (dy * u) mod p"
  have eq: "ec_add p1 p2 a p = ec_third p lam (px p1) (py p1) (px p1 + px p2)"
    using False u by (simp add: ec_add_def ec_third_def Let_def lam_def dy_def)
  note dx = sub_mod_int(1) [OF assms(1), of "px p2" "px p1"] and inv = inverse_int [OF u assms(1)]
  have slope: "int p dvd int lam * (int (px p2) - int (px p1)) - (int (py p2) - int (py p1))"
  proof (rule slope_int)
    show "int p dvd int lam - int dy * int u"
      using mod_int_dvd [of p "dy * u"] by (simp add: lam_def)
    show "int p dvd int dy - (int (py p2) - int (py p1))"
      using sub_mod_int(1) [OF assms(1)] by (simp add: dy_def)
  qed (rule dx, rule inv)
  have inverse: "int p dvd (int (px p2) - int (px p1)) * int u - 1" using dx inv by algebra
  have on: "int p dvd curve (int a) (int b) (int (px p1)) (int (py p1))"
    "int p dvd curve (int a) (int b) (int (px p2)) (int (py p2))"
    using p1 p2 False by (simp_all add: on_curve_def point_on_curve_iff)
  show ?thesis
    unfolding eq
    by (rule ec_third_coords [OF assms(1), of lam "px p1" "py p1" "px p1 + px p2"])
      (auto simp: point_on_curve_iff diff_diff_eq intro: chord_closed [OF on slope inverse])
qed

lemma ec_mul_loop_closed:
  "0 < p \<Longrightarrow> on_curve a b p result \<Longrightarrow> on_curve a b p base \<Longrightarrow>
     on_curve a b p (ec_mul_loop scalar result base a p)"
  by (induction scalar result base a p rule: ec_mul_loop.induct)
    (subst ec_mul_loop.simps, simp add: Let_def ec_add_closed ec_double_closed)

lemma ec_mul_closed: "0 < p \<Longrightarrow> on_curve a b p pt \<Longrightarrow> on_curve a b p (ec_mul k pt a p)"
  by (simp add: ec_mul_def ec_mul_loop_closed)

text \<open>The constants as numbers.\<close>

lemma EC_P_value: "from_bytes_be EC_P = 900812823637587646514106462588455890498729007071"
  by (simp add: EC_P_def from_bytes_be_def)
lemma EC_A_value: "from_bytes_be EC_A = 900812823637587646514106462588455890498729007068"
  by (simp add: EC_A_def from_bytes_be_def)
lemma EC_B_value: "from_bytes_be EC_B = 366394034647231750324370400222002566844354703832"
  by (simp add: EC_B_def from_bytes_be_def)
lemma EC_N_value: "from_bytes_be EC_N = 900812823637587646514106555566573588779770753047"
  by (simp add: EC_N_def from_bytes_be_def)
lemma EC_GX_value: "from_bytes_be EC_GX = 264865613959729647018113670854605162895977008838"
  by (simp add: EC_GX_def from_bytes_be_def)
lemma EC_GY_value: "from_bytes_be EC_GY = 51841075954883162510413392745168936296187808697"
  by (simp add: EC_GY_def from_bytes_be_def)
lemma P256_P_value: "from_bytes_be P256_P = 115792089210356248762697446949407573530086143415290314195533631308867097853951"
  by (simp add: P256_P_def from_bytes_be_def)
lemma P256_A_value: "from_bytes_be P256_A = 115792089210356248762697446949407573530086143415290314195533631308867097853948"
  by (simp add: P256_A_def from_bytes_be_def)
lemma P256_B_value: "from_bytes_be P256_B = 41058363725152142129326129780047268409114441015993725554835256314039467401291"
  by (simp add: P256_B_def from_bytes_be_def)
lemma P256_N_value: "from_bytes_be P256_N = 115792089210356248762697446949407573529996955224135760342422259061068512044369"
  by (simp add: P256_N_def from_bytes_be_def)
lemma P256_GX_value: "from_bytes_be P256_GX = 48439561293906451759052585252797914202762949526041747995844080717082404635286"
  by (simp add: P256_GX_def from_bytes_be_def)
lemma P256_GY_value: "from_bytes_be P256_GY = 36134250956749795798585127919587881956611106672985015071877198253568414405109"
  by (simp add: P256_GY_def from_bytes_be_def)
lemma AACS2_LA_PUB_X_value: "from_bytes_be AACS2_LA_PUB_X = 99749688163606586737681845190961050526263088193315876912552216937536167559982"
  by (simp add: AACS2_LA_PUB_X_def from_bytes_be_def)
lemma AACS2_LA_PUB_Y_value: "from_bytes_be AACS2_LA_PUB_Y = 108930547361223981581422377016186276247587060458494978572233311270462372007376"
  by (simp add: AACS2_LA_PUB_Y_def from_bytes_be_def)
lemma AACS_LA_PUB_X_value: "from_bytes_be AACS_LA_PUB_X = 569519044145899916876682500420440111695939635058"
  by (simp add: AACS_LA_PUB_X_def from_bytes_be_def)
lemma AACS_LA_PUB_Y_value: "from_bytes_be AACS_LA_PUB_Y = 111297986001312168148180416490690086062371334695"
  by (simp add: AACS_LA_PUB_Y_def from_bytes_be_def)

lemmas curve_values = EC_P_value EC_A_value EC_B_value EC_N_value EC_GX_value EC_GY_value P256_P_value P256_A_value P256_B_value P256_N_value P256_GX_value P256_GY_value AACS2_LA_PUB_X_value AACS2_LA_PUB_Y_value AACS_LA_PUB_X_value AACS_LA_PUB_Y_value

lemma point_on_curveI:
  assumes "x < p" and "y < p" and "int y * int y - (int x * int x * int x + int a * int x + int b) = int p * k"
  shows "point_on_curve x y a b p"
  using assms by (simp add: point_on_curve_iff curve_def)

text \<open>The quotients of the curve equation at the four compiled-in points.\<close>

lemma EC_G_on_curve:
  "point_on_curve (from_bytes_be EC_GX) (from_bytes_be EC_GY)
     (from_bytes_be EC_A) (from_bytes_be EC_B) (from_bytes_be EC_P)"
  unfolding curve_values
  by (rule point_on_curveI [where k = "-20627290252034517601778083186794960911655739552198119884556188807758504950855075320427957413049"]) simp_all

lemma AACS_LA_PUB_on_curve:
  "point_on_curve (from_bytes_be AACS_LA_PUB_X) (from_bytes_be AACS_LA_PUB_Y)
     (from_bytes_be EC_A) (from_bytes_be EC_B) (from_bytes_be EC_P)"
  unfolding curve_values
  by (rule point_on_curveI [where k = "-205064362901171296748205552609587112381923827598613092870011860849404346560679737933244690804153"]) simp_all

lemma P256_G_on_curve:
  "point_on_curve (from_bytes_be P256_GX) (from_bytes_be P256_GY)
     (from_bytes_be P256_A) (from_bytes_be P256_B) (from_bytes_be P256_P)"
  unfolding curve_values
  by (rule point_on_curveI [where k = "-981570988164258562257936101525215858910690391106138407341175333813841188485250211304702756335769806812218430760112952189411297841053183197247161910150894"]) simp_all

lemma AACS2_LA_PUB_on_curve:
  "point_on_curve (from_bytes_be AACS2_LA_PUB_X) (from_bytes_be AACS2_LA_PUB_Y)
     (from_bytes_be P256_A) (from_bytes_be P256_B) (from_bytes_be P256_P)"
  unfolding curve_values
  by (rule point_on_curveI [where k = "-8571478697704666199239410218006027216431495152935828649265123089174496339070014221280615754700638818760041387615170310846063339739695404773675342001116469"]) simp_all

text \<open>
  C40. The curve arithmetic never leaves the curve: for any modulus and coefficients, a multiple of
  a point of the curve plus a multiple of another is again a point of the curve, with coordinates
  below the modulus, or the point at infinity.
\<close>
theorem ec_group_closed:
  assumes "0 < p" and "on_curve a b p pt" and "on_curve a b p qt"
  shows "on_curve a b p (ec_add (ec_mul j pt a p) (ec_mul k qt a p) a p)"
  using assms by (intro ec_add_closed ec_mul_closed)

lemma ec_group_closed_witness:
  "on_curve (from_bytes_be EC_A) (from_bytes_be EC_B) (from_bytes_be EC_P)
     (ec_add (ec_mul 2 (ec_from_bytes EC_GX EC_GY) (from_bytes_be EC_A) (from_bytes_be EC_P))
       (ec_mul 3 (ec_from_bytes AACS_LA_PUB_X AACS_LA_PUB_Y) (from_bytes_be EC_A) (from_bytes_be EC_P))
       (from_bytes_be EC_A) (from_bytes_be EC_P))"
proof (rule ec_group_closed)
  show "0 < from_bytes_be EC_P" by (simp add: curve_values)
  show "on_curve (from_bytes_be EC_A) (from_bytes_be EC_B) (from_bytes_be EC_P) (ec_from_bytes EC_GX EC_GY)"
    by (simp add: on_curve_def ec_from_bytes_def ec_new_def EC_G_on_curve)
  show "on_curve (from_bytes_be EC_A) (from_bytes_be EC_B) (from_bytes_be EC_P)
      (ec_from_bytes AACS_LA_PUB_X AACS_LA_PUB_Y)"
    by (simp add: on_curve_def ec_from_bytes_def ec_new_def AACS_LA_PUB_on_curve)
qed

text \<open>
  Both curves are the intended ones as far as the handshake relies on them: the base points and
  the two compiled-in trust anchors lie on their curves, and the first coefficient is minus three.
\<close>
theorem aacs_anchors_on_curve:
  "point_on_curve (from_bytes_be EC_GX) (from_bytes_be EC_GY) (from_bytes_be EC_A) (from_bytes_be EC_B) (from_bytes_be EC_P)
   \<and> point_on_curve (from_bytes_be AACS_LA_PUB_X) (from_bytes_be AACS_LA_PUB_Y)
       (from_bytes_be EC_A) (from_bytes_be EC_B) (from_bytes_be EC_P)
   \<and> point_on_curve (from_bytes_be P256_GX) (from_bytes_be P256_GY)
       (from_bytes_be P256_A) (from_bytes_be P256_B) (from_bytes_be P256_P)
   \<and> point_on_curve (from_bytes_be AACS2_LA_PUB_X) (from_bytes_be AACS2_LA_PUB_Y)
       (from_bytes_be P256_A) (from_bytes_be P256_B) (from_bytes_be P256_P)
   \<and> from_bytes_be EC_A + 3 = from_bytes_be EC_P \<and> from_bytes_be P256_A + 3 = from_bytes_be P256_P"
  using EC_G_on_curve AACS_LA_PUB_on_curve P256_G_on_curve AACS2_LA_PUB_on_curve by (simp add: curve_values)

text \<open>
  The modular inverse is exact: the extended Euclid loop yields an inverse exactly when there is
  one; the coefficient it ends with is never below minus the modulus, so adding the modulus once
  makes it non-negative and the conversion back to an unsigned integer cannot panic.
\<close>
theorem mod_inv_exact:
  assumes "0 < m"
  shows "(case mod_inv a m of
      None \<Rightarrow> \<not> coprime a m
    | Some v \<Rightarrow> coprime a m \<and> (a * v) mod m = 1 mod m \<and> v \<le> m)
    \<and> - int m \<le> snd (euclid_loop (int a) (int m) 1 0)"
proof -
  have "euclid_inv (int a) (int m) (int a) (int m) 1 0"
    using assms by (simp add: euclid_inv_def)
  from euclid_loop_correct [OF this] have "- int m \<le> snd (euclid_loop (int a) (int m) 1 0)"
    by (auto split: prod.splits)
  with mod_inv_spec [OF assms, of a] show ?thesis by simp
qed

lemma mod_inv_exact_witness: "mod_inv 3 7 = Some 5 \<and> coprime (3 :: nat) 7 \<and> (3 * 5) mod 7 = 1 mod (7 :: nat)"
proof -
  have "mod_inv 3 7 = Some 5" by code_simp
  with mod_inv_exact [of 7 3] show ?thesis by simp
qed

section \<open>Byte conversions\<close>

lemma from_bytes_be_snoc: "from_bytes_be (bs @ [b]) = from_bytes_be bs * 256 + unat b"
  by (simp add: from_bytes_be_def)

lemma from_bytes_be_Nil [simp]: "from_bytes_be [] = 0"
  by (simp add: from_bytes_be_def)

lemma from_to_bytes_be: "from_bytes_be (to_bytes_be n) = n"
proof (induction n rule: to_bytes_be.induct)
  case (1 n)
  then show ?case
    by (subst to_bytes_be.simps)
      (simp add: from_bytes_be_snoc unat_of_nat from_bytes_be_def [of "[_]"])
qed

lemma from_bytes_be_append: "from_bytes_be (xs @ ys) = from_bytes_be xs * 256 ^ length ys + from_bytes_be ys"
proof (induction ys rule: rev_induct)
  case (snoc y ys)
  then show ?case
    by (simp add: append_assoc [symmetric] from_bytes_be_snoc algebra_simps del: append_assoc)
qed simp

lemma unat_byte: "unat (b :: u8) < 256"
  using unsigned_less [of b, where 'a = nat] by simp

lemma from_bytes_be_bound: "from_bytes_be bs < 256 ^ length bs"
proof (induction bs rule: rev_induct)
  case (snoc b bs)
  have "unat b < 256" by (rule unat_byte)
  with snoc show ?case by (simp add: from_bytes_be_snoc)
qed simp

lemma from_bytes_be_zeros [simp]: "from_bytes_be (zeros n) = 0"
  by (induction n) (simp_all add: zeros_def replicate_append_same [symmetric] from_bytes_be_snoc)

lemma base_256:
  fixes m n u v :: nat
  assumes "u < 256" and "v < 256" and eq: "m * 256 + u = n * 256 + v"
  shows "m = n \<and> u = v"
proof -
  from arg_cong [OF eq, of "\<lambda>k. k div 256"] assms have "m = n" by simp
  with eq show ?thesis by simp
qed

lemma from_bytes_be_inject: "length xs = length ys \<Longrightarrow> from_bytes_be xs = from_bytes_be ys \<Longrightarrow> xs = ys"
proof (induction xs arbitrary: ys rule: rev_induct)
  case (snoc x xs)
  then obtain ys' y where ys: "ys = ys' @ [y]" by (cases ys rule: rev_cases) auto
  note unat_byte [of x] and unat_byte [of y]
  moreover from snoc.prems(2) have "from_bytes_be xs * 256 + unat x = from_bytes_be ys' * 256 + unat y"
    unfolding ys from_bytes_be_snoc .
  ultimately have "from_bytes_be xs = from_bytes_be ys' \<and> unat x = unat y"
    by (intro base_256)
  with snoc ys show ?case by (simp add: word_unat_eq_iff)
qed simp

lemma length_to_bytes_be_padded [simp]: "length (to_bytes_be_padded n len) = len"
  by (simp add: to_bytes_be_padded_def Let_def)

lemma from_to_bytes_be_padded: "from_bytes_be (to_bytes_be_padded n len) = n mod 256 ^ len"
proof (cases "len \<le> length (to_bytes_be n)")
  case True
  define d where "d = length (to_bytes_be n) - len"
  have len: "length (drop d (to_bytes_be n)) = len" using True by (simp add: d_def)
  have "n = from_bytes_be (take d (to_bytes_be n)) * 256 ^ len + from_bytes_be (drop d (to_bytes_be n))"
    using from_bytes_be_append [of "take d (to_bytes_be n)" "drop d (to_bytes_be n)"] len
    by (simp add: from_to_bytes_be)
  moreover have "from_bytes_be (drop d (to_bytes_be n)) < 256 ^ len"
    using from_bytes_be_bound [of "drop d (to_bytes_be n)"] len by simp
  ultimately have "n mod 256 ^ len = from_bytes_be (drop d (to_bytes_be n))"
    by (metis mod_less mod_mult_self3)
  with True show ?thesis by (simp add: to_bytes_be_padded_def Let_def d_def)
next
  case False
  have "n < 256 ^ length (to_bytes_be n)" using from_bytes_be_bound [of "to_bytes_be n"] by (simp add: from_to_bytes_be)
  also have "\<dots> \<le> 256 ^ len" using False by (intro power_increasing) simp_all
  finally show ?thesis using False
    by (simp add: to_bytes_be_padded_def Let_def from_bytes_be_append from_to_bytes_be)
qed

text \<open>
  Fixed-size integers round-trip: reading back a padded number gives it modulo the size, so
  every field element and scalar of the curves is kept, and writing back a number read from bytes
  gives the same bytes.
\<close>
theorem biguint_bytes_roundtrip:
  "from_bytes_be (to_bytes_be_padded n len) = n mod 256 ^ len
   \<and> to_bytes_be_padded (from_bytes_be bs) (length bs) = bs"
proof -
  have "to_bytes_be_padded (from_bytes_be bs) (length bs) = bs"
    using from_bytes_be_bound [of bs]
    by (intro from_bytes_be_inject) (simp_all add: from_to_bytes_be_padded)
  then show ?thesis by (simp add: from_to_bytes_be_padded)
qed

end
