(* ===== verification/Aacs_Crypto.thy ===== *)
theory Aacs_Crypto
  imports Ec Unlock
begin

text \<open>
  The cryptographic steps of the AACS handshake (\<open>src/src/aacs/handshake.rs\<close>, \<open>error.rs\<close>): ECDSA,
  key generation, ECDH, certificates, the CMAC of the Volume ID, the command builders and the
  two calls on the transport. SHA-1, SHA-256 and the AES block cipher come from external crates;
  they are the record \<open>crypto\<close>, an argument of every definition that uses them. The AACS 1.0 and
  the P-256 routines are the same text over other constants, so each pair is one definition over
  an \<open>ec_params\<close> record and two instances.

  The rejection sampling of nonces and keys has no bound in the code; its model takes fuel and
  returns \<open>None\<close> when it runs out.
\<close>

unbundle bit_operations_syntax

section \<open>External primitives\<close>

record crypto =
  sha1 :: "bytes \<Rightarrow> bytes"
  sha256 :: "bytes \<Rightarrow> bytes"
  aes_encrypt :: "bytes \<Rightarrow> bytes \<Rightarrow> bytes"
  aes_decrypt :: "bytes \<Rightarrow> bytes \<Rightarrow> bytes"

section \<open>Errors\<close>

datatype aacs_error =
    AacsAgidAlloc
  | AacsCertRead
  | AacsCertRejected
  | AacsCertShort
  | AacsCertVerify
  | AacsDataKey
  | AacsKeyRead
  | AacsKeyRejected
  | AacsKeyVerify
  | AacsHostSignVerify
  | AacsNoKeys
  | AacsVidMac
  | AacsVidRead
  | AacsHandshakeRejected
  | AacsVidUnavailable
  | ShortTransfer u8 nat nat
  | AacsScsi u8 u8 "scsi_sense option"

fun aacs_code :: "aacs_error \<Rightarrow> u16" where
  "aacs_code AacsAgidAlloc = 7001"
| "aacs_code AacsCertRead = 7002"
| "aacs_code AacsCertRejected = 7003"
| "aacs_code AacsCertShort = 7004"
| "aacs_code AacsCertVerify = 7005"
| "aacs_code AacsDataKey = 7006"
| "aacs_code AacsKeyRead = 7007"
| "aacs_code AacsKeyRejected = 7008"
| "aacs_code AacsKeyVerify = 7009"
| "aacs_code AacsHostSignVerify = 7016"
| "aacs_code AacsNoKeys = 7010"
| "aacs_code AacsVidMac = 7011"
| "aacs_code AacsVidRead = 7012"
| "aacs_code AacsHandshakeRejected = 7013"
| "aacs_code AacsVidUnavailable = 7014"
| "aacs_code (ShortTransfer _ _ _) = 7015"
| "aacs_code (AacsScsi _ _ _) = 7099"

fun is_scsi_transport_failure :: "aacs_error \<Rightarrow> bool" where
  "is_scsi_transport_failure (AacsScsi _ status None) \<longleftrightarrow> status = SCSI_STATUS_TRANSPORT_FAILURE"
| "is_scsi_transport_failure _ \<longleftrightarrow> False"

definition aacs_from_scsi :: "scsi_error \<Rightarrow> aacs_error" where
  "aacs_from_scsi e = AacsScsi 0 (err_status e) (map_option from_buf (err_sense e))"

definition handshake_err :: "aacs_error \<Rightarrow> aacs_error \<Rightarrow> aacs_error" where
  "handshake_err err fallback = (if is_scsi_transport_failure err then err else fallback)"

lemma transport_from_scsi: "is_scsi_transport_failure (aacs_from_scsi e) \<longleftrightarrow> is_dead_bus e"
  by (cases "err_sense e") (simp_all add: aacs_from_scsi_def is_dead_bus_def)

lemma transport_handshake_err:
  "\<not> is_scsi_transport_failure fb \<Longrightarrow>
     is_scsi_transport_failure (handshake_err e fb) \<longleftrightarrow> is_scsi_transport_failure e"
  by (simp add: handshake_err_def)

section \<open>Commands\<close>

definition check_status :: "bytes \<Rightarrow> scsi_result \<Rightarrow> aacs_error + unit" where
  "check_status cdb r =
     (if res_status r = 0 then Inr ()
      else Inl (AacsScsi (byte_at cdb 0) (res_status r) (Some (from_buf (res_sense r)))))"

definition scsi_read :: "'w host \<Rightarrow> bytes \<Rightarrow> nat \<Rightarrow> ('w, aacs_error + bytes) io" where
  "scsi_read H cdb len =
     bind_io (execute H cdb FromDevice (zeros len) 5000) (\<lambda>(r, buf).
     case r of
       Inl e \<Rightarrow> errE (aacs_from_scsi e)
     | Inr r \<Rightarrow> (case check_status cdb r of
         Inl e \<Rightarrow> errE e
       | Inr _ \<Rightarrow>
           if res_transferred r < len then errE (ShortTransfer (byte_at cdb 0) len (res_transferred r))
           else okE buf))"

definition scsi_write :: "'w host \<Rightarrow> bytes \<Rightarrow> bytes \<Rightarrow> ('w, aacs_error + unit) io" where
  "scsi_write H cdb data =
     bind_io (execute H cdb ToDevice data 5000) (\<lambda>(r, _).
     case r of
       Inl e \<Rightarrow> errE (aacs_from_scsi e)
     | Inr r \<Rightarrow> ret (check_status cdb r))"

definition cdb_report_key :: "u8 \<Rightarrow> u8 \<Rightarrow> u16 \<Rightarrow> bytes" where
  "cdb_report_key agid fmt len = (zeros 12)
     [0 := SCSI_REPORT_KEY, 7 := AACS_KEY_CLASS, 8 := hi_byte len, 9 := lo_byte (len AND 0xFF),
      10 := push_bit 6 agid OR (fmt AND 0x3F)]"

definition cdb_send_key :: "u8 \<Rightarrow> u8 \<Rightarrow> u16 \<Rightarrow> bytes" where
  "cdb_send_key agid fmt len = (zeros 12)
     [0 := SCSI_SEND_KEY, 7 := AACS_KEY_CLASS, 8 := hi_byte len, 9 := lo_byte (len AND 0xFF),
      10 := push_bit 6 agid OR (fmt AND 0x3F)]"

definition cdb_report_disc_structure :: "u8 \<Rightarrow> u8 \<Rightarrow> u16 \<Rightarrow> bytes" where
  "cdb_report_disc_structure agid fmt len = (zeros 12)
     [0 := SCSI_READ_DISC_STRUCTURE, 1 := 0x01, 7 := fmt, 8 := hi_byte len, 9 := lo_byte (len AND 0xFF),
      10 := push_bit 6 agid]"

definition aacs_agid_guard :: "u8 \<Rightarrow> agid_guard" where
  "aacs_agid_guard agid = agid_guard_new agid (cdb_report_key agid 0x3F 2)"

section \<open>Domain parameters\<close>

record ec_params =
  prm_p :: nat
  prm_a :: nat
  prm_b :: nat
  prm_n :: nat
  prm_g :: ec_point
  prm_len :: nat
  prm_hash :: "bytes \<Rightarrow> bytes"

definition aacs1_params :: "crypto \<Rightarrow> ec_params" where
  "aacs1_params C = \<lparr> prm_p = from_bytes_be EC_P, prm_a = from_bytes_be EC_A, prm_b = from_bytes_be EC_B,
     prm_n = from_bytes_be EC_N, prm_g = ec_from_bytes EC_GX EC_GY, prm_len = 20, prm_hash = sha1 C \<rparr>"

definition p256_params :: "crypto \<Rightarrow> ec_params" where
  "p256_params C = \<lparr> prm_p = from_bytes_be P256_P, prm_a = from_bytes_be P256_A, prm_b = from_bytes_be P256_B,
     prm_n = from_bytes_be P256_N, prm_g = ec_from_bytes P256_GX P256_GY, prm_len = 32, prm_hash = sha256 C \<rparr>"

section \<open>ECDSA\<close>

text \<open>One round of the signing loop: a candidate nonce, rejected or turned into a signature.\<close>

definition sign_round :: "ec_params \<Rightarrow> nat \<Rightarrow> nat \<Rightarrow> nat \<Rightarrow> (nat \<times> nat) option" where
  "sign_round E d z k =
     (if k = 0 \<or> prm_n E \<le> k then None
      else
        let r = px (ec_mul k (prm_g E) (prm_a E) (prm_p E)) mod prm_n E in
        if r = 0 then None
        else case mod_inv k (prm_n E) of
          None \<Rightarrow> None
        | Some k_inv \<Rightarrow>
            let s = (k_inv * ((z + r * d) mod prm_n E)) mod prm_n E in
            if s = 0 then None else Some (r, s))"

primrec sign_loop :: "nat \<Rightarrow> 'w host \<Rightarrow> ec_params \<Rightarrow> nat \<Rightarrow> nat \<Rightarrow> ('w, (bytes \<times> bytes) option) io" where
  "sign_loop 0 H E d z = ret None"
| "sign_loop (Suc fuel) H E d z =
     bind_io (fill_bytes H (prm_len E)) (\<lambda>k_bytes.
     case sign_round E d z (from_bytes_be k_bytes) of
       None \<Rightarrow> sign_loop fuel H E d z
     | Some (r, s) \<Rightarrow> ret (Some (to_bytes_be_padded r (prm_len E), to_bytes_be_padded s (prm_len E))))"

definition ecdsa_sign_with :: "nat \<Rightarrow> 'w host \<Rightarrow> ec_params \<Rightarrow> bytes \<Rightarrow> bytes \<Rightarrow> ('w, (bytes \<times> bytes) option) io" where
  "ecdsa_sign_with fuel H E priv_key data =
     sign_loop fuel H E (from_bytes_be priv_key) (from_bytes_be (prm_hash E data))"

definition ecdsa_sign :: "nat \<Rightarrow> 'w host \<Rightarrow> crypto \<Rightarrow> bytes \<Rightarrow> bytes \<Rightarrow> ('w, (bytes \<times> bytes) option) io" where
  "ecdsa_sign fuel H C = ecdsa_sign_with fuel H (aacs1_params C)"

definition ecdsa_sign_p256 :: "nat \<Rightarrow> 'w host \<Rightarrow> crypto \<Rightarrow> bytes \<Rightarrow> bytes \<Rightarrow> ('w, (bytes \<times> bytes) option) io" where
  "ecdsa_sign_p256 fuel H C = ecdsa_sign_with fuel H (p256_params C)"

definition ecdsa_verify_with :: "ec_params \<Rightarrow> bytes \<Rightarrow> bytes \<Rightarrow> bytes \<Rightarrow> bytes \<Rightarrow> bytes \<Rightarrow> bool" where
  "ecdsa_verify_with E pub_x pub_y sig_r sig_s data =
     (let q = ec_from_bytes pub_x pub_y in
      if \<not> point_on_curve (px q) (py q) (prm_a E) (prm_b E) (prm_p E) then False
      else
        let r = from_bytes_be sig_r; s = from_bytes_be sig_s in
        if r = 0 \<or> prm_n E \<le> r \<or> s = 0 \<or> prm_n E \<le> s then False
        else
          let z = from_bytes_be (prm_hash E data) in
          case mod_inv s (prm_n E) of
            None \<Rightarrow> False
          | Some s_inv \<Rightarrow>
              let u1 = (z * s_inv) mod prm_n E;
                  u2 = (r * s_inv) mod prm_n E;
                  p1 = ec_mul u1 (prm_g E) (prm_a E) (prm_p E);
                  p2 = ec_mul u2 q (prm_a E) (prm_p E);
                  r_point = ec_add p1 p2 (prm_a E) (prm_p E)
              in if infinite r_point then False else px r_point mod prm_n E = r)"

definition ecdsa_verify :: "crypto \<Rightarrow> bytes \<Rightarrow> bytes \<Rightarrow> bytes \<Rightarrow> bytes \<Rightarrow> bytes \<Rightarrow> bool" where
  "ecdsa_verify C = ecdsa_verify_with (aacs1_params C)"

definition ecdsa_verify_p256 :: "crypto \<Rightarrow> bytes \<Rightarrow> bytes \<Rightarrow> bytes \<Rightarrow> bytes \<Rightarrow> bytes \<Rightarrow> bool" where
  "ecdsa_verify_p256 C = ecdsa_verify_with (p256_params C)"

section \<open>Certificates\<close>

definition verify_cert_with_anchor :: "crypto \<Rightarrow> bytes \<Rightarrow> bytes \<Rightarrow> bytes \<Rightarrow> bool" where
  "verify_cert_with_anchor C cert la_x la_y =
     (if length cert < 92 then False
      else ecdsa_verify C la_x la_y (slice cert 52 72) (slice cert 72 92) (slice cert 0 52))"

definition verify_cert :: "crypto \<Rightarrow> bytes \<Rightarrow> bool" where
  "verify_cert C cert = verify_cert_with_anchor C cert AACS_LA_PUB_X AACS_LA_PUB_Y"

definition verify_cert_p256 :: "crypto \<Rightarrow> bytes \<Rightarrow> bytes \<Rightarrow> bytes \<Rightarrow> bool" where
  "verify_cert_p256 C cert la_x la_y =
     (if length cert < 132 then False
      else ecdsa_verify_p256 C la_x la_y (slice cert 68 100) (slice cert 100 132) (slice cert 0 68))"

definition cert_pub_key :: "bytes \<Rightarrow> bytes \<times> bytes" where
  "cert_pub_key cert =
     (if length cert < 52 then (zeros 20, zeros 20) else (slice cert 12 32, slice cert 32 52))"

definition cert_pub_key_p256 :: "bytes \<Rightarrow> bytes \<times> bytes" where
  "cert_pub_key_p256 cert =
     (if length cert < 68 then (zeros 32, zeros 32) else (slice cert 4 36, slice cert 36 68))"

definition aacs1_keypair_matches :: "bytes \<Rightarrow> bytes \<Rightarrow> bool" where
  "aacs1_keypair_matches priv_key cert =
     (if length cert < 52 then False
      else
        let p = from_bytes_be EC_P; a = from_bytes_be EC_A; n = from_bytes_be EC_N;
            d = from_bytes_be priv_key mod n
        in if d = 0 then False
           else
             let q = ec_mul d (ec_from_bytes EC_GX EC_GY) a p in
             if infinite q then False
             else case cert_pub_key cert of (cx, cy) \<Rightarrow>
               px q = from_bytes_be cx \<and> py q = from_bytes_be cy)"

section \<open>Key generation and ECDH\<close>

primrec generate_loop :: "nat \<Rightarrow> 'w host \<Rightarrow> ec_params \<Rightarrow> ('w, (nat \<times> ec_point) option) io" where
  "generate_loop 0 H E = ret None"
| "generate_loop (Suc fuel) H E =
     bind_io (fill_bytes H (prm_len E)) (\<lambda>priv_bytes.
     let d = from_bytes_be priv_bytes in
     if d = 0 \<or> prm_n E \<le> d then generate_loop fuel H E
     else ret (Some (d, ec_mul d (prm_g E) (prm_a E) (prm_p E))))"

definition generate_with :: "nat \<Rightarrow> 'w host \<Rightarrow> ec_params \<Rightarrow> ('w, (bytes \<times> bytes \<times> bytes) option) io" where
  "generate_with fuel H E =
     bind_io (generate_loop fuel H E) (\<lambda>r. ret (map_option (\<lambda>(d, q).
       (to_bytes_be_padded d (prm_len E), to_bytes_be_padded (px q) (prm_len E),
        to_bytes_be_padded (py q) (prm_len E))) r))"

definition generate_host_key_pair :: "nat \<Rightarrow> 'w host \<Rightarrow> crypto \<Rightarrow> ('w, (bytes \<times> bytes \<times> bytes) option) io" where
  "generate_host_key_pair fuel H C = generate_with fuel H (aacs1_params C)"

definition generate_host_key_pair_p256 :: "nat \<Rightarrow> 'w host \<Rightarrow> crypto \<Rightarrow> ('w, (bytes \<times> bytes \<times> bytes) option) io" where
  "generate_host_key_pair_p256 fuel H C = generate_with fuel H (p256_params C)"

definition bus_key_with :: "ec_params \<Rightarrow> bytes \<Rightarrow> bytes \<Rightarrow> bytes \<Rightarrow> bytes option" where
  "bus_key_with E host_priv x y =
     (let d = from_bytes_be host_priv; dx = from_bytes_be x; dy = from_bytes_be y in
      if \<not> point_on_curve dx dy (prm_a E) (prm_b E) (prm_p E) then None
      else
        let shared = ec_mul d (ec_new dx dy) (prm_a E) (prm_p E) in
        if infinite shared then None
        else
          let x_bytes = to_bytes_be_padded (px shared) (prm_len E)
          in Some (slice x_bytes (prm_len E - 16) (prm_len E)))"

definition compute_bus_key :: "crypto \<Rightarrow> bytes \<Rightarrow> bytes \<Rightarrow> bytes \<Rightarrow> bytes option" where
  "compute_bus_key C = bus_key_with (aacs1_params C)"

definition compute_bus_key_p256 :: "crypto \<Rightarrow> bytes \<Rightarrow> bytes \<Rightarrow> bytes \<Rightarrow> bytes option" where
  "compute_bus_key_p256 C = bus_key_with (p256_params C)"

section \<open>CMAC of one block\<close>

definition cmac_subkey :: "bytes \<Rightarrow> bytes" where
  "cmac_subkey l =
     (let carry = drop_bit 7 (byte_at l 0) AND 1;
          k1 = map (\<lambda>i. push_bit 1 (byte_at l i) OR drop_bit 7 (byte_at l (i + 1))) [0..<15]
                 @ [push_bit 1 (byte_at l 15)]
      in if carry = 1 then k1[15 := byte_at k1 15 XOR 0x87] else k1)"

definition aes_cmac_16 :: "crypto \<Rightarrow> bytes \<Rightarrow> bytes \<Rightarrow> bytes" where
  "aes_cmac_16 C data key =
     (let l = aes_encrypt C key (zeros 16);
          k1 = cmac_subkey l;
          block = map (\<lambda>i. byte_at data i XOR byte_at k1 i) [0..<16]
      in aes_encrypt C key block)"

definition ct_eq_16 :: "bytes \<Rightarrow> bytes \<Rightarrow> bool" where
  "ct_eq_16 a b = (fold (\<lambda>i diff. diff OR (byte_at a i XOR byte_at b i)) [0..<16] 0 = 0)"

end
