(* ===== verification/Aacs_Handshake.thy ===== *)
theory Aacs_Handshake
  imports Aacs_Crypto
begin

text \<open>
  The AACS host-certificate handshake (\<open>src/src/aacs/handshake.rs\<close>): the authenticated key
  exchange, the Volume ID and data key reads, and the loop over the host certificates.

  The code has the exchange twice, for AACS 1.0 and for the P-256 variant; both send the same
  commands in the same order and differ in lengths, constants and the certificate format. The
  model has it once, over a record \<open>ake_suite\<close>, with the two instances \<open>aacs1_suite\<close> and
  \<open>p256_suite\<close>. A result is \<open>None\<close> when the fuel of the rejection sampling ran out.
\<close>

unbundle bit_operations_syntax

section \<open>Sequencing with fuel\<close>

text \<open>
  \<open>bindO\<close> continues after a sampling step, \<open>bindEF\<close> after a fallible step that always returns,
  as the \<open>?\<close> of the code does.
\<close>

definition bindO :: "('w, 'v, 'a option) prog \<Rightarrow> ('a \<Rightarrow> ('w, 'v, 'b option) prog) \<Rightarrow> ('w, 'v, 'b option) prog" where
  "bindO m f = bind_io m (\<lambda>r. case r of None \<Rightarrow> ret None | Some a \<Rightarrow> f a)"

definition bindEF :: "('w, 'v, 'e + 'a) prog \<Rightarrow> ('a \<Rightarrow> ('w, 'v, ('e + 'b) option) prog)
    \<Rightarrow> ('w, 'v, ('e + 'b) option) prog" where
  "bindEF m f = bind_io m (\<lambda>r. case r of Inl e \<Rightarrow> ret (Some (Inl e)) | Inr a \<Rightarrow> f a)"

section \<open>The two exchanges\<close>

datatype v1_fail = DriveCert | V1Other aacs_error

fun into_error :: "v1_fail \<Rightarrow> aacs_error" where
  "into_error DriveCert = AacsCertVerify"
| "into_error (V1Other e) = e"

record aacs_auth =
  auth_bus_key :: bytes
  auth_agid :: u8
  auth_volume_id :: "bytes option"
  auth_read_data_key :: "bytes option"
  bus_encryption_capable :: bool

text \<open>
  What differs between the exchanges: the domain parameters, the length of a certificate, the
  data-length bytes of the two parameter blocks, the check of a drive certificate, the place of
  the public key in a certificate, and the bus-encryption flag.
\<close>

record ake_suite =
  su_params :: ec_params
  su_cert_len :: nat
  su_cert_data_len :: u8
  su_key_data_len :: u8
  su_check_cert :: "bytes \<Rightarrow> v1_fail + unit"
  su_pub_key :: "bytes \<Rightarrow> bytes \<times> bytes"
  su_bec :: "bytes \<Rightarrow> bool"

definition check_cert_v1 :: "crypto \<Rightarrow> bytes \<Rightarrow> bytes \<Rightarrow> bytes \<Rightarrow> v1_fail + unit" where
  "check_cert_v1 C la_x la_y drive_cert =
     (if byte_at drive_cert 0 = 0x01 then
        (if \<not> verify_cert_with_anchor C drive_cert la_x la_y then Inl DriveCert else Inr ())
      else Inl (if byte_at drive_cert 0 = 0x11 then DriveCert else V1Other AacsCertVerify))"

definition check_cert_v2 :: "crypto \<Rightarrow> bytes \<Rightarrow> bytes \<Rightarrow> bytes \<Rightarrow> v1_fail + unit" where
  "check_cert_v2 C la_x la_y drive_cert =
     (if byte_at drive_cert 0 \<noteq> 0x11 then Inl (V1Other AacsCertVerify)
      else if \<not> verify_cert_p256 C drive_cert la_x la_y then Inl (V1Other AacsCertVerify)
      else Inr ())"

definition aacs1_suite :: "crypto \<Rightarrow> bytes \<Rightarrow> bytes \<Rightarrow> ake_suite" where
  "aacs1_suite C la_x la_y = \<lparr> su_params = aacs1_params C, su_cert_len = 92, su_cert_data_len = 0x72,
     su_key_data_len = 0x52, su_check_cert = check_cert_v1 C la_x la_y, su_pub_key = cert_pub_key,
     su_bec = (\<lambda>drive_cert. byte_at drive_cert 1 AND 0x01 \<noteq> 0) \<rparr>"

definition p256_suite :: "crypto \<Rightarrow> bytes \<Rightarrow> bytes \<Rightarrow> ake_suite" where
  "p256_suite C la_x la_y = \<lparr> su_params = p256_params C, su_cert_len = 132, su_cert_data_len = 0x9A,
     su_key_data_len = 0x82, su_check_cert = check_cert_v2 C la_x la_y, su_pub_key = cert_pub_key_p256,
     su_bec = (\<lambda>_. True) \<rparr>"

text \<open>The parameter blocks of the two SEND KEY commands, and their lengths.\<close>

definition cert_xfer :: "ake_suite \<Rightarrow> nat" where
  "cert_xfer S = 24 + su_cert_len S"

definition key_xfer :: "ake_suite \<Rightarrow> nat" where
  "key_xfer S = 4 + 4 * prm_len (su_params S)"

definition cert_block :: "ake_suite \<Rightarrow> bytes \<Rightarrow> bytes \<Rightarrow> bytes" where
  "cert_block S nonce cert =
     put_at 24 (slice cert 0 (su_cert_len S)) (put_at 4 nonce ((zeros (cert_xfer S))[1 := su_cert_data_len S]))"

definition key_block :: "ake_suite \<Rightarrow> bytes \<Rightarrow> bytes \<Rightarrow> bytes \<Rightarrow> bytes \<Rightarrow> bytes" where
  "key_block S x y r s =
     (let n = prm_len (su_params S) in
      put_at (4 + 3 * n) s (put_at (4 + 2 * n) r (put_at (4 + n) y (put_at 4 x
        ((zeros (key_xfer S))[1 := su_key_data_len S])))))"

text \<open>The parts of the drive's key block: x and y of its point, r and s of its signature.\<close>

definition key_part :: "ake_suite \<Rightarrow> nat \<Rightarrow> bytes \<Rightarrow> bytes" where
  "key_part S i response =
     (let n = prm_len (su_params S) in slice response (4 + i * n) (4 + (i + 1) * n))"

definition handshake_step :: "aacs_error \<Rightarrow> ('w, aacs_error + 'a) io \<Rightarrow> ('w, v1_fail + 'a) io" where
  "handshake_step fallback m = map_errE (\<lambda>e. V1Other (handshake_err e fallback)) m"

text \<open>Steps 6 to 9: the drive's key point, the host's key point and signature, the bus key.\<close>

definition exchange_key_points ::
  "nat \<Rightarrow> 'w host \<Rightarrow> ake_suite \<Rightarrow> u8 \<Rightarrow> bytes \<Rightarrow> bytes \<Rightarrow> bytes \<Rightarrow> bytes \<times> bytes \<times> bytes \<Rightarrow> bytes \<Rightarrow> bytes
   \<Rightarrow> ('w, (v1_fail + aacs_auth) option) io" where
  "exchange_key_points fuel H S agid host_priv_key host_cert host_nonce host_keys drive_nonce drive_cert =
     (let (host_key, host_x, host_y) = host_keys in
      bindEF (handshake_step AacsKeyRead (scsi_read H (cdb_report_key agid 0x02 (of_nat (key_xfer S))) (key_xfer S))) (\<lambda>response.
      let drive_x = key_part S 0 response;
          drive_y = key_part S 1 response;
          sig_r = key_part S 2 response;
          sig_s = key_part S 3 response;
          (drive_pub_x, drive_pub_y) = su_pub_key S drive_cert
      in if \<not> ecdsa_verify_with (su_params S) drive_pub_x drive_pub_y sig_r sig_s (host_nonce @ drive_x @ drive_y)
         then ret (Some (Inl (V1Other AacsKeyVerify)))
         else
           let sign_data = drive_nonce @ host_x @ host_y in
           bindO (ecdsa_sign_with fuel H (su_params S) host_priv_key sign_data) (\<lambda>(host_sig_r, host_sig_s).
           let (host_pub_x, host_pub_y) = su_pub_key S host_cert in
           if \<not> ecdsa_verify_with (su_params S) host_pub_x host_pub_y host_sig_r host_sig_s sign_data
           then ret (Some (Inl (V1Other AacsHostSignVerify)))
           else
             bindEF (handshake_step AacsKeyRejected (scsi_write H (cdb_send_key agid 0x02 (of_nat (key_xfer S)))
                 (key_block S host_x host_y host_sig_r host_sig_s))) (\<lambda>_.
             case bus_key_with (su_params S) host_key drive_x drive_y of
               None \<Rightarrow> ret (Some (Inl (V1Other AacsKeyVerify)))
             | Some key \<Rightarrow> ret (Some (Inr \<lparr> auth_bus_key = key, auth_agid = agid,
                 auth_volume_id = None, auth_read_data_key = None,
                 bus_encryption_capable = su_bec S drive_cert \<rparr>))))))"

text \<open>Steps 3 to 9, with the AGID held by the caller's guard.\<close>

definition ake_with_agid ::
  "nat \<Rightarrow> 'w host \<Rightarrow> ake_suite \<Rightarrow> u8 \<Rightarrow> bytes \<Rightarrow> bytes \<Rightarrow> ('w, (v1_fail + aacs_auth) option) io" where
  "ake_with_agid fuel H S agid host_priv_key host_cert =
     bind_io (fill_bytes H 20) (\<lambda>host_nonce.
     bindO (generate_with fuel H (su_params S)) (\<lambda>host_keys.
     bindEF (handshake_step AacsCertRejected (scsi_write H (cdb_send_key agid 0x01 (of_nat (cert_xfer S)))
         (cert_block S host_nonce host_cert))) (\<lambda>_.
     bindEF (handshake_step AacsCertRead (scsi_read H (cdb_report_key agid 0x01 (of_nat (cert_xfer S))) (cert_xfer S))) (\<lambda>response.
     let drive_nonce = slice response 4 24; drive_cert = slice response 24 (cert_xfer S) in
     case su_check_cert S drive_cert of
       Inl f \<Rightarrow> ret (Some (Inl f))
     | Inr _ \<Rightarrow> exchange_key_points fuel H S agid host_priv_key host_cert host_nonce host_keys drive_nonce drive_cert))))"

definition aacs_authenticate_with_agid ::
  "nat \<Rightarrow> 'w host \<Rightarrow> crypto \<Rightarrow> u8 \<Rightarrow> bytes \<Rightarrow> bytes \<Rightarrow> bytes \<Rightarrow> bytes \<Rightarrow> ('w, (v1_fail + aacs_auth) option) io" where
  "aacs_authenticate_with_agid fuel H C agid host_priv_key host_cert la_x la_y =
     ake_with_agid fuel H (aacs1_suite C la_x la_y) agid host_priv_key host_cert"

definition aacs2_authenticate_p256_with_agid ::
  "nat \<Rightarrow> 'w host \<Rightarrow> crypto \<Rightarrow> u8 \<Rightarrow> bytes \<Rightarrow> bytes \<Rightarrow> bytes \<Rightarrow> bytes \<Rightarrow> ('w, (aacs_error + aacs_auth) option) io" where
  "aacs2_authenticate_p256_with_agid fuel H C agid host_priv_key host_cert la_x la_y =
     bind_io (ake_with_agid fuel H (p256_suite C la_x la_y) agid host_priv_key host_cert)
       (\<lambda>r. ret (map_option (map_sum into_error id) r))"

primrec sweep_agids :: "'w host \<Rightarrow> u8 list \<Rightarrow> ('w, unit) io" where
  "sweep_agids H [] = ret ()"
| "sweep_agids H (agid # agids) =
     bind_io (scsi_read H (cdb_report_key agid 0x3F 2) 2) (\<lambda>_. sweep_agids H agids)"

definition ake ::
  "nat \<Rightarrow> 'w host \<Rightarrow> ake_suite \<Rightarrow> bytes \<Rightarrow> bytes \<Rightarrow> ('w, (v1_fail + aacs_auth \<times> agid_guard) option) io" where
  "ake fuel H S host_priv_key host_cert =
     (if length host_cert < su_cert_len S then ret (Some (Inl (V1Other AacsCertShort)))
      else
        bind_io (sweep_agids H [0, 1, 2, 3]) (\<lambda>_.
        bindEF (handshake_step AacsAgidAlloc (scsi_read H (cdb_report_key 0 0x00 8) 8)) (\<lambda>response.
        let agid = drop_bit 6 (byte_at response 7) AND 0x03;
            guard = aacs_agid_guard agid
        in bindO (ake_with_agid fuel H S agid host_priv_key host_cert) (\<lambda>r. case r of
             Inl f \<Rightarrow> bind_io (agid_guard_drop H guard) (\<lambda>_. ret (Some (Inl f)))
           | Inr auth \<Rightarrow> ret (Some (Inr (auth, guard)))))))"

definition aacs1_ake ::
  "nat \<Rightarrow> 'w host \<Rightarrow> crypto \<Rightarrow> bytes \<Rightarrow> bytes \<Rightarrow> bytes \<Rightarrow> bytes \<Rightarrow> ('w, (v1_fail + aacs_auth \<times> agid_guard) option) io" where
  "aacs1_ake fuel H C host_priv_key host_cert la_x la_y = ake fuel H (aacs1_suite C la_x la_y) host_priv_key host_cert"

definition aacs2_authenticate_p256_with_anchor ::
  "nat \<Rightarrow> 'w host \<Rightarrow> crypto \<Rightarrow> bytes \<Rightarrow> bytes \<Rightarrow> bytes \<Rightarrow> bytes \<Rightarrow> ('w, (aacs_error + aacs_auth \<times> agid_guard) option) io" where
  "aacs2_authenticate_p256_with_anchor fuel H C host_priv_key host_cert la_x la_y =
     bind_io (ake fuel H (p256_suite C la_x la_y) host_priv_key host_cert) (\<lambda>r. ret (map_option (map_sum into_error id) r))"

definition aacs_authenticate_with_anchor ::
  "nat \<Rightarrow> 'w host \<Rightarrow> crypto \<Rightarrow> bytes \<Rightarrow> bytes \<Rightarrow> bytes \<Rightarrow> bytes \<Rightarrow> ('w, (aacs_error + aacs_auth) option) io" where
  "aacs_authenticate_with_anchor fuel H C host_priv_key host_cert la_x la_y =
     bindO (aacs1_ake fuel H C host_priv_key host_cert la_x la_y) (\<lambda>r. case r of
       Inl f \<Rightarrow> ret (Some (Inl (into_error f)))
     | Inr (auth, guard) \<Rightarrow> (case agid_guard_defuse guard of (_, guard) \<Rightarrow>
         bind_io (agid_guard_drop H guard) (\<lambda>_. ret (Some (Inr auth)))))"

definition aacs_authenticate ::
  "nat \<Rightarrow> 'w host \<Rightarrow> crypto \<Rightarrow> bytes \<Rightarrow> bytes \<Rightarrow> ('w, (aacs_error + aacs_auth) option) io" where
  "aacs_authenticate fuel H C host_priv_key host_cert =
     aacs_authenticate_with_anchor fuel H C host_priv_key host_cert AACS_LA_PUB_X AACS_LA_PUB_Y"

section \<open>Volume ID and data keys\<close>

definition read_volume_id :: "'w host \<Rightarrow> crypto \<Rightarrow> aacs_auth \<Rightarrow> ('w, (aacs_error + bytes) \<times> aacs_auth) io" where
  "read_volume_id H C auth =
     bind_io (map_errE (\<lambda>e. handshake_err e AacsVidRead)
       (scsi_read H (cdb_report_disc_structure (auth_agid auth) 0x80 36) 36)) (\<lambda>r.
     case r of
       Inl e \<Rightarrow> ret (Inl e, auth)
     | Inr response \<Rightarrow>
         let volume_id = slice response 4 20;
             mac = slice response 20 36;
             calc_mac = aes_cmac_16 C volume_id (auth_bus_key auth)
         in if \<not> ct_eq_16 calc_mac mac then ret (Inl AacsVidMac, auth)
            else ret (Inr volume_id, auth\<lparr> auth_volume_id := Some volume_id \<rparr>))"

definition read_data_keys :: "'w host \<Rightarrow> crypto \<Rightarrow> aacs_auth \<Rightarrow> ('w, (aacs_error + bytes \<times> bytes) \<times> aacs_auth) io" where
  "read_data_keys H C auth =
     bind_io (map_errE (\<lambda>e. handshake_err e AacsDataKey)
       (scsi_read H (cdb_report_disc_structure (auth_agid auth) 0x84 36) 36)) (\<lambda>r.
     case r of
       Inl e \<Rightarrow> ret (Inl e, auth)
     | Inr response \<Rightarrow>
         let enc_rdk = slice response 4 20;
             enc_wdk = slice response 20 36
         in if enc_rdk = zeros 16 \<and> enc_wdk = zeros 16 then ret (Inl AacsDataKey, auth)
            else
              let read_data_key = aes_decrypt C (auth_bus_key auth) enc_rdk;
                  write_data_key = aes_decrypt C (auth_bus_key auth) enc_wdk
              in ret (Inr (read_data_key, write_data_key), auth\<lparr> auth_read_data_key := Some read_data_key \<rparr>))"

section \<open>Finishing\<close>

record cert_handshake =
  ch_volume_id :: bytes
  ch_read_data_key :: "bytes option"
  ch_read_data_key_err :: "u16 option"

datatype finish_err = FinishTransport | FinishVidMac | FinishVidUnavailable

definition finish_auth :: "'w host \<Rightarrow> crypto \<Rightarrow> agid_guard \<Rightarrow> aacs_auth \<Rightarrow> ('w, finish_err + cert_handshake) io" where
  "finish_auth H C guard auth =
     bind_io (read_volume_id H C auth) (\<lambda>(r, auth).
     case r of
       Inl e \<Rightarrow> bind_io (agid_guard_drop H guard) (\<lambda>_.
         errE (if is_scsi_transport_failure e then FinishTransport
               else if e = AacsVidMac then FinishVidMac else FinishVidUnavailable))
     | Inr volume_id \<Rightarrow>
         bind_io (if bus_encryption_capable auth
                  then bind_io (read_data_keys H C auth) (\<lambda>(r, _). ret (Some r)) else ret None) (\<lambda>rdk.
         let finished = (\<lambda>key err. bind_io (agid_guard_drop H guard) (\<lambda>_.
               okE \<lparr> ch_volume_id = volume_id, ch_read_data_key = key, ch_read_data_key_err = err \<rparr>))
         in case rdk of
              None \<Rightarrow> finished None None
            | Some (Inr (key, _)) \<Rightarrow> finished (Some key) None
            | Some (Inl e) \<Rightarrow>
                if is_scsi_transport_failure e
                then bind_io (agid_guard_drop H guard) (\<lambda>_. errE FinishTransport)
                else finished None (Some (aacs_code e))))"

section \<open>The loop over the host certificates\<close>

datatype cert_outcome =
    CertOk cert_handshake
  | CertTransport
  | CertVidUnavailable
  | CertReject u16 bool

definition v1_creds_usable :: "host_cert \<Rightarrow> bool" where
  "v1_creds_usable hc \<longleftrightarrow> 92 \<le> length (certificate hc) \<and> aacs1_keypair_matches (private_key hc) (certificate hc)"

definition v2_creds_usable :: "host_cert \<Rightarrow> bool \<Rightarrow> bool" where
  "v2_creds_usable hc allow_p256 \<longleftrightarrow> allow_p256 \<and> private_key_v2 hc \<noteq> None
     \<and> (case certificate_v2 hc of Some c \<Rightarrow> 132 \<le> length c | None \<Rightarrow> False)"

record anchors =
  la_v1 :: "bytes \<times> bytes"
  la_v2 :: "bytes \<times> bytes"

definition attempt_p256 :: "nat \<Rightarrow> 'w host \<Rightarrow> crypto \<Rightarrow> host_cert \<Rightarrow> anchors \<Rightarrow> bool \<Rightarrow> ('w, cert_outcome option) io" where
  "attempt_p256 fuel H C hc la v1_drive_dead = (case (private_key_v2 hc, certificate_v2 hc) of
     (Some k, Some c) \<Rightarrow>
       bindO (aacs2_authenticate_p256_with_anchor fuel H C k c (fst (la_v2 la)) (snd (la_v2 la))) (\<lambda>r. case r of
         Inr (auth, guard) \<Rightarrow> bind_io (finish_auth H C guard auth) (\<lambda>r. ret (Some (case r of
             Inr ch \<Rightarrow> CertOk ch
           | Inl FinishTransport \<Rightarrow> CertTransport
           | Inl _ \<Rightarrow> CertVidUnavailable)))
       | Inl e \<Rightarrow> ret (Some (if is_scsi_transport_failure e then CertTransport
           else CertReject (aacs_code e) v1_drive_dead)))
   | _ \<Rightarrow> ret (Some CertVidUnavailable))"

definition attempt_one_cert ::
  "nat \<Rightarrow> 'w host \<Rightarrow> crypto \<Rightarrow> host_cert \<Rightarrow> anchors \<Rightarrow> bool \<Rightarrow> bool \<Rightarrow> ('w, cert_outcome option) io" where
  "attempt_one_cert fuel H C hc la try_v1 has_v2 =
     (if try_v1 then
        bindO (aacs1_ake fuel H C (private_key hc) (certificate hc) (fst (la_v1 la)) (snd (la_v1 la))) (\<lambda>r. case r of
          Inr (auth, guard) \<Rightarrow> bind_io (finish_auth H C guard auth) (\<lambda>r. case r of
              Inr ch \<Rightarrow> ret (Some (CertOk ch))
            | Inl FinishTransport \<Rightarrow> ret (Some CertTransport)
            | Inl FinishVidMac \<Rightarrow> if has_v2 then attempt_p256 fuel H C hc la False else ret (Some CertVidUnavailable)
            | Inl FinishVidUnavailable \<Rightarrow> ret (Some CertVidUnavailable))
        | Inl f \<Rightarrow>
            if (case f of V1Other e \<Rightarrow> is_scsi_transport_failure e | DriveCert \<Rightarrow> False) then ret (Some CertTransport)
            else if \<not> has_v2 then ret (Some (CertReject (aacs_code (into_error f)) (f = DriveCert)))
            else attempt_p256 fuel H C hc la (f = DriveCert))
      else attempt_p256 fuel H C hc la False)"

definition MAX_CERT_ATTEMPTS :: nat where "MAX_CERT_ATTEMPTS = 3"
definition PER_CERT_BACKOFF :: int where "PER_CERT_BACKOFF = millis 1000"

text \<open>
  One turn of the loop. Its state is the number of attempts that touched the drive and whether
  the drive's own 1.0 certificate is dead; the turn ends the handshake (\<open>Inl\<close>) or goes on with
  the next state (\<open>Inr\<close>).
\<close>

definition cert_round ::
  "nat \<Rightarrow> 'w host \<Rightarrow> crypto \<Rightarrow> anchors \<Rightarrow> bool \<Rightarrow> host_cert \<Rightarrow> nat \<Rightarrow> bool
   \<Rightarrow> ('w, ((unlock_error + cert_handshake) + nat \<times> bool) option) io" where
  "cert_round fuel H C la allow_p256 hc drive_attempts v1_drive_dead =
     (let has_v2 = v2_creds_usable hc allow_p256 in
      if \<not> has_v2 \<and> v1_drive_dead then ret (Some (Inr (drive_attempts, v1_drive_dead)))
      else
        let v1_ok = v1_creds_usable hc in
        if \<not> v1_ok \<and> \<not> has_v2 then ret (Some (Inr (drive_attempts, v1_drive_dead)))
        else
          bind_io (if 0 < drive_attempts then pause H PER_CERT_BACKOFF else ret (Inr ())) (\<lambda>p.
          case p of
            Inl _ \<Rightarrow> ret (Some (Inl (Inl Transport)))
          | Inr _ \<Rightarrow>
              bindO (attempt_one_cert fuel H C hc la (v1_ok \<and> \<not> v1_drive_dead) has_v2) (\<lambda>out.
              ret (Some (case out of
                CertOk ch \<Rightarrow> Inl (Inr ch)
              | CertTransport \<Rightarrow> Inl (Inl Transport)
              | CertVidUnavailable \<Rightarrow> Inl (Inl VidUnavailable)
              | CertReject code dead \<Rightarrow> Inr (drive_attempts + 1, v1_drive_dead \<or> dead))))))"

text \<open>What is reported when no certificate is left.\<close>

definition no_vid :: "nat \<Rightarrow> unlock_error" where
  "no_vid drive_attempts = (if drive_attempts = 0 then NoUsableHostCert else HandshakeRejected)"

primrec cert_loop ::
  "nat \<Rightarrow> 'w host \<Rightarrow> crypto \<Rightarrow> anchors \<Rightarrow> bool \<Rightarrow> host_cert list \<Rightarrow> nat \<Rightarrow> bool
   \<Rightarrow> ('w, (unlock_error + cert_handshake) option) io" where
  "cert_loop fuel H C la allow_p256 [] = (\<lambda>drive_attempts v1_drive_dead.
     ret (Some (Inl (no_vid drive_attempts))))"
| "cert_loop fuel H C la allow_p256 (hc # hcs) = (\<lambda>drive_attempts v1_drive_dead.
     if MAX_CERT_ATTEMPTS \<le> drive_attempts then ret (Some (Inl (no_vid drive_attempts)))
     else bindO (cert_round fuel H C la allow_p256 hc drive_attempts v1_drive_dead) (\<lambda>r. case r of
         Inl final \<Rightarrow> ret (Some final)
       | Inr (drive_attempts, v1_drive_dead) \<Rightarrow>
           cert_loop fuel H C la allow_p256 hcs drive_attempts v1_drive_dead))"

definition run_cert_handshake_with_anchors ::
  "nat \<Rightarrow> 'w host \<Rightarrow> crypto \<Rightarrow> host_cert list \<Rightarrow> bytes \<times> bytes \<Rightarrow> bytes \<times> bytes \<Rightarrow> bool
   \<Rightarrow> ('w, (unlock_error + cert_handshake) option) io" where
  "run_cert_handshake_with_anchors fuel H C host_certs v1 v2 allow_p256 =
     cert_loop fuel H C \<lparr> la_v1 = v1, la_v2 = v2 \<rparr> allow_p256 host_certs 0 False"

definition AACS2_P256_EXPERIMENTAL :: bool where "AACS2_P256_EXPERIMENTAL = False"

definition run_cert_handshake :: "nat \<Rightarrow> 'w host \<Rightarrow> crypto \<Rightarrow> host_cert list \<Rightarrow> ('w, (unlock_error + cert_handshake) option) io" where
  "run_cert_handshake fuel H C host_certs =
     run_cert_handshake_with_anchors fuel H C host_certs (AACS_LA_PUB_X, AACS_LA_PUB_Y)
       (AACS2_LA_PUB_X, AACS2_LA_PUB_Y) AACS2_P256_EXPERIMENTAL"

end
