(* ===== verification/Aacs_Auth.thy ===== *)
theory Aacs_Auth
  imports Aacs_Handshake
begin

text \<open>
  What a completed AACS handshake proves: the transcript behind every success is an authenticated
  session, for every host, drive and choice of the external primitives.
\<close>

unbundle bit_operations_syntax

section \<open>Rules for one step\<close>

lemma sat_bindO:
  assumes "sat m R" and "\<And>es. R None es \<Longrightarrow> Q None es"
    and "\<And>a es. R (Some a) es \<Longrightarrow> sat (f a) (\<lambda>b es'. Q b (es @ es'))"
  shows "sat (bindO m f) Q"
  unfolding bindO_def
  by (rule sat_bind [OF assms(1)]) (auto split: option.split intro: assms(2,3))

lemma sat_bindEF:
  assumes "sat m R" and "\<And>e es. R (Inl e) es \<Longrightarrow> Q (Some (Inl e)) es"
    and "\<And>a es. R (Inr a) es \<Longrightarrow> sat (f a) (\<lambda>b es'. Q b (es @ es'))"
  shows "sat (bindEF m f) Q"
  unfolding bindEF_def
  by (rule sat_bind [OF assms(1)]) (auto split: sum.split intro: assms(2,3))

lemma emits_bindO [emits_intros]: "emits P m \<Longrightarrow> (\<And>a. emits P (f a)) \<Longrightarrow> emits P (bindO m f)"
  unfolding bindO_def by (intro emits_intros)

lemma emits_bindEF [emits_intros]: "emits P m \<Longrightarrow> (\<And>a. emits P (f a)) \<Longrightarrow> emits P (bindEF m f)"
  unfolding bindEF_def by (intro emits_intros)

text \<open>A transport step succeeds exactly when its event is good, and reports a dead bus as such.\<close>

definition step_result :: "nat \<Rightarrow> aacs_error + bytes \<Rightarrow> event \<Rightarrow> bool" where
  "step_result n r ev \<longleftrightarrow> (case r of
     Inr buf \<Rightarrow> exec_ok n ev \<and> buf = event_buf ev
   | Inl e \<Rightarrow> \<not> exec_ok n ev \<and> (is_scsi_transport_failure e \<longleftrightarrow> dead_event ev))"

lemma sat_scsi_read: "sat (scsi_read H cdb n) (\<lambda>r es. \<exists>ev. es = [ev] \<and> exec_cdb ev = Some cdb
    \<and> length (event_buf ev) = n \<and> step_result n r ev)"
  unfolding scsi_read_def
  by (rule sat_bind_execute)
    (auto simp: step_result_def check_status_def transport_from_scsi split: sum.split)

lemma sat_scsi_write: "sat (scsi_write H cdb data) (\<lambda>r es. \<exists>ev. es = [ev] \<and> exec_cdb ev = Some cdb
    \<and> event_data ev = data \<and> (case r of
       Inr _ \<Rightarrow> exec_ok 0 ev
     | Inl e \<Rightarrow> \<not> exec_ok 0 ev \<and> (is_scsi_transport_failure e \<longleftrightarrow> dead_event ev)))"
  unfolding scsi_write_def
  by (rule sat_bind_execute)
    (auto simp: check_status_def transport_from_scsi split: sum.split)

fun v1_transport :: "v1_fail \<Rightarrow> bool" where
  "v1_transport (V1Other e) \<longleftrightarrow> is_scsi_transport_failure e"
| "v1_transport DriveCert \<longleftrightarrow> False"

lemma v1_transport_into_error: "is_scsi_transport_failure (into_error f) \<longleftrightarrow> v1_transport f"
  by (cases f) simp_all

lemma sat_read_step:
  assumes "\<And>ev. exec_cdb ev = Some cdb \<Longrightarrow> exec_ok n ev \<Longrightarrow> length (event_buf ev) = n \<Longrightarrow>
      sat (f (event_buf ev)) (\<lambda>b es. Q b (ev # es))"
    and "\<And>ev e. exec_cdb ev = Some cdb \<Longrightarrow> \<not> exec_ok n ev \<Longrightarrow> v1_transport e = dead_event ev \<Longrightarrow> Q (Some (Inl e)) [ev]"
    and "\<not> is_scsi_transport_failure fb"
  shows "sat (bindEF (handshake_step fb (scsi_read H cdb n)) f) Q"
  unfolding handshake_step_def
proof (rule sat_bindEF, rule sat_map_errE [OF sat_scsi_read])
  fix e es assume "\<exists>ev. es = [ev] \<and> exec_cdb ev = Some cdb \<and> length (event_buf ev) = n \<and> step_result n (Inl e) ev"
  then show "\<exists>ev. es = [ev] \<and> exec_cdb ev = Some cdb \<and> length (event_buf ev) = n \<and>
      (case Inl (V1Other (handshake_err e fb)) of Inr buf \<Rightarrow> exec_ok n ev \<and> buf = event_buf ev
       | Inl f \<Rightarrow> \<not> exec_ok n ev \<and> (v1_transport f \<longleftrightarrow> dead_event ev))"
    using assms(3) by (auto simp: step_result_def transport_handshake_err)
qed (auto simp: step_result_def intro: assms(1,2))

lemma sat_write_step:
  assumes "\<And>ev. exec_cdb ev = Some cdb \<Longrightarrow> event_data ev = data \<Longrightarrow> exec_ok 0 ev \<Longrightarrow>
      sat (f ()) (\<lambda>b es. Q b (ev # es))"
    and "\<And>ev e. exec_cdb ev = Some cdb \<Longrightarrow> event_data ev = data \<Longrightarrow> \<not> exec_ok 0 ev \<Longrightarrow>
      v1_transport e = dead_event ev \<Longrightarrow> Q (Some (Inl e)) [ev]"
    and "\<not> is_scsi_transport_failure fb"
  shows "sat (bindEF (handshake_step fb (scsi_write H cdb data)) f) Q"
  unfolding handshake_step_def
proof (rule sat_bindEF, rule sat_map_errE [OF sat_scsi_write])
  fix e es assume "\<exists>ev. es = [ev] \<and> exec_cdb ev = Some cdb \<and> event_data ev = data \<and> (case Inl e of
      Inr _ \<Rightarrow> exec_ok 0 ev | Inl e \<Rightarrow> \<not> exec_ok 0 ev \<and> (is_scsi_transport_failure e \<longleftrightarrow> dead_event ev))"
  then show "\<exists>ev. es = [ev] \<and> exec_cdb ev = Some cdb \<and> event_data ev = data \<and>
      (case Inl (V1Other (handshake_err e fb)) of Inr _ \<Rightarrow> exec_ok 0 ev
       | Inl f \<Rightarrow> \<not> exec_ok 0 ev \<and> (v1_transport f \<longleftrightarrow> dead_event ev))"
    using assms(3) by (auto simp: transport_handshake_err)
qed (auto intro: assms(1,2))

section \<open>Sampling sends nothing\<close>

lemma sat_quiet_bind: "sat m (\<lambda>a es. es = [] \<and> R a) \<Longrightarrow> (\<And>a. R a \<Longrightarrow> sat (f a) Q) \<Longrightarrow> sat (bind_io m f) Q"
  by (erule sat_bind) auto

lemma sat_quiet_bindO:
  "sat m (\<lambda>a es. es = [] \<and> (case a of None \<Rightarrow> True | Some a \<Rightarrow> R a)) \<Longrightarrow> Q None [] \<Longrightarrow>
    (\<And>a. R a \<Longrightarrow> sat (f a) Q) \<Longrightarrow> sat (bindO m f) Q"
  by (erule sat_bindO) auto

text \<open>A host key pair: the public point is the multiple of the base point by the private scalar.\<close>

definition key_pair :: "ec_params \<Rightarrow> bytes \<times> bytes \<times> bytes \<Rightarrow> bool" where
  "key_pair E keys \<longleftrightarrow> (case keys of (d, x, y) \<Rightarrow> \<exists>k. 0 < k \<and> k < prm_n E
     \<and> d = to_bytes_be_padded k (prm_len E)
     \<and> x = to_bytes_be_padded (px (ec_mul k (prm_g E) (prm_a E) (prm_p E))) (prm_len E)
     \<and> y = to_bytes_be_padded (py (ec_mul k (prm_g E) (prm_a E) (prm_p E))) (prm_len E))"

lemma sat_generate_loop: "sat (generate_loop fuel H E) (\<lambda>r es. es = [] \<and> (case r of None \<Rightarrow> True
    | Some (d, q) \<Rightarrow> 0 < d \<and> d < prm_n E \<and> q = ec_mul d (prm_g E) (prm_a E) (prm_p E)))"
proof (induction fuel)
  case (Suc fuel)
  then show ?case
    by (auto simp: Let_def intro!: sat_bind [OF sat_fill_bytes])
qed simp

lemma sat_generate: "sat (generate_with fuel H E) (\<lambda>r es. es = [] \<and> (case r of None \<Rightarrow> True | Some keys \<Rightarrow> key_pair E keys))"
  unfolding generate_with_def
  by (rule sat_bind [OF sat_generate_loop]) (auto simp: key_pair_def split: option.splits)

lemma sat_sign_loop: "sat (sign_loop fuel H E d z) (\<lambda>r es. es = [] \<and> (case r of None \<Rightarrow> True
    | Some sig \<Rightarrow> length (fst sig) = prm_len E \<and> length (snd sig) = prm_len E))"
proof (induction fuel)
  case (Suc fuel)
  then show ?case
    by (auto intro!: sat_bind [OF sat_fill_bytes] split: option.split prod.split elim: sat_weaken)
qed simp

lemma sat_sign: "sat (ecdsa_sign_with fuel H E k data) (\<lambda>r es. es = [] \<and> (case r of None \<Rightarrow> True
    | Some sig \<Rightarrow> length (fst sig) = prm_len E \<and> length (snd sig) = prm_len E))"
  unfolding ecdsa_sign_with_def by (rule sat_sign_loop)

section \<open>The transcript of an authenticated session\<close>

text \<open>
  What the four commands of an exchange must have carried for both sides to be authenticated,
  said over the events alone: the drive's certificate passed the check, its key point is signed
  under that certificate over our nonce, the host's key point is signed under the host's
  certificate over the drive's nonce, and the bus key is the shared point of the two.
\<close>

definition drive_cert_of :: "ake_suite \<Rightarrow> event \<Rightarrow> bytes" where
  "drive_cert_of S ev = slice (event_buf ev) 24 (cert_xfer S)"

definition signed_by :: "ake_suite \<Rightarrow> bytes \<Rightarrow> bytes \<Rightarrow> bytes \<Rightarrow> bytes \<Rightarrow> bool" where
  "signed_by S cert r s data \<longleftrightarrow>
     ecdsa_verify_with (su_params S) (fst (su_pub_key S cert)) (snd (su_pub_key S cert)) r s data"

definition ake_session :: "ake_suite \<Rightarrow> u8 \<Rightarrow> bytes \<Rightarrow> aacs_auth \<Rightarrow> event list \<Rightarrow> bool" where
  "ake_session S agid host_cert auth es \<longleftrightarrow> (\<exists>nonce d x y r s e1 e2 e3 e4.
     es = [e1, e2, e3, e4] \<and> length nonce = 20 \<and> key_pair (su_params S) (d, x, y)
   \<and> exec_cdb e1 = Some (cdb_send_key agid 0x01 (of_nat (cert_xfer S)))
   \<and> event_data e1 = cert_block S nonce host_cert \<and> exec_ok 0 e1
   \<and> exec_cdb e2 = Some (cdb_report_key agid 0x01 (of_nat (cert_xfer S)))
   \<and> exec_ok (cert_xfer S) e2 \<and> su_check_cert S (drive_cert_of S e2) = Inr ()
   \<and> exec_cdb e3 = Some (cdb_report_key agid 0x02 (of_nat (key_xfer S))) \<and> exec_ok (key_xfer S) e3
   \<and> signed_by S (drive_cert_of S e2) (key_part S 2 (event_buf e3)) (key_part S 3 (event_buf e3)) (nonce @ key_part S 0 (event_buf e3) @ key_part S 1 (event_buf e3))
   \<and> exec_cdb e4 = Some (cdb_send_key agid 0x02 (of_nat (key_xfer S)))
   \<and> event_data e4 = key_block S x y r s \<and> exec_ok 0 e4
   \<and> signed_by S host_cert r s (slice (event_buf e2) 4 24 @ x @ y)
   \<and> bus_key_with (su_params S) d (key_part S 0 (event_buf e3)) (key_part S 1 (event_buf e3)) = Some (auth_bus_key auth)
   \<and> auth_agid auth = agid \<and> auth_volume_id auth = None \<and> auth_read_data_key auth = None
   \<and> bus_encryption_capable auth = su_bec S (drive_cert_of S e2))"

text \<open>Success of the exchange, as a predicate on its optional result.\<close>

definition when_ok :: "('a \<Rightarrow> bool) \<Rightarrow> ('e + 'a) option \<Rightarrow> bool" where
  "when_ok P r \<longleftrightarrow> (case r of Some (Inr a) \<Rightarrow> P a | _ \<Rightarrow> True)"

lemma when_ok_simps [simp]:
  "when_ok P None" "when_ok P (Some (Inl e))" "when_ok P (Some (Inr a)) \<longleftrightarrow> P a"
  by (simp_all add: when_ok_def)

lemma sat_exchange_key_points:
  assumes keys: "key_pair (su_params S) (d, x, y)"
  shows "sat (exchange_key_points fuel H S agid priv host_cert nonce (d, x, y) drive_nonce drive_cert)
    (\<lambda>res es. when_ok (\<lambda>auth. \<exists>e3 e4 r s. es = [e3, e4]
       \<and> exec_cdb e3 = Some (cdb_report_key agid 0x02 (of_nat (key_xfer S))) \<and> exec_ok (key_xfer S) e3
       \<and> signed_by S drive_cert (key_part S 2 (event_buf e3)) (key_part S 3 (event_buf e3)) (nonce @ key_part S 0 (event_buf e3) @ key_part S 1 (event_buf e3))
       \<and> exec_cdb e4 = Some (cdb_send_key agid 0x02 (of_nat (key_xfer S)))
       \<and> event_data e4 = key_block S x y r s \<and> exec_ok 0 e4
       \<and> signed_by S host_cert r s (drive_nonce @ x @ y)
       \<and> bus_key_with (su_params S) d (key_part S 0 (event_buf e3)) (key_part S 1 (event_buf e3)) = Some (auth_bus_key auth)
       \<and> auth_agid auth = agid \<and> auth_volume_id auth = None \<and> auth_read_data_key auth = None
       \<and> bus_encryption_capable auth = su_bec S drive_cert) res)"
  unfolding exchange_key_points_def Let_def prod.case
proof (rule sat_read_step, goal_cases)
  case (1 e3)
  then show ?case
    unfolding split_beta signed_by_def
    by (auto intro!: sat_quiet_bindO [OF sat_sign] sat_write_step split: option.split) blast
qed simp_all

lemma sat_ake_with_agid: "sat (ake_with_agid fuel H S agid priv host_cert)
    (\<lambda>r es. when_ok (\<lambda>auth. ake_session S agid host_cert auth es) r)"
  unfolding ake_with_agid_def Let_def
proof (rule sat_quiet_bind, rule sat_weaken [OF sat_fill_bytes], blast,
    rule sat_quiet_bindO [OF sat_generate], simp, rule sat_write_step, rule sat_read_step, goal_cases)
  case (1 nonce keys e1 e2)
  obtain d x y where keys: "keys = (d, x, y)" by (cases keys)
  show ?case
  proof (cases "su_check_cert S (slice (event_buf e2) 24 (cert_xfer S))")
    case (Inr u)
    with 1 show ?thesis
      unfolding keys
      by (auto intro!: sat_weaken [OF sat_exchange_key_points]
          simp: ake_session_def drive_cert_of_def when_ok_def split: option.splits sum.splits) blast+
  qed simp
qed simp_all

definition alloc_agid :: "event \<Rightarrow> u8" where
  "alloc_agid ev = drop_bit 6 (byte_at (event_buf ev) 7) AND 0x03"

lemma sat_sweep_agids: "sat (sweep_agids H as) (\<lambda>_ es. map exec_cdb es = map (\<lambda>a. Some (cdb_report_key a 0x3F 2)) as)"
proof (induction "as")
  case (Cons a as)
  then show ?case by (auto intro!: sat_bind [OF sat_scsi_read] elim!: sat_weaken)
qed simp

text \<open>A successful exchange: the AGID was allocated, is held by the guard, and the session ran under it.\<close>

definition holding :: "ake_suite \<Rightarrow> bytes \<Rightarrow> ('e + aacs_auth \<times> agid_guard) option \<Rightarrow> event list \<Rightarrow> bool" where
  "holding S host_cert r es \<longleftrightarrow> when_ok (\<lambda>(auth, guard). \<exists>pre ev ses. es = pre @ [ev] @ ses
     \<and> exec_cdb ev = Some (cdb_report_key 0 0x00 8) \<and> exec_ok 8 ev \<and> guard = aacs_agid_guard (alloc_agid ev)
     \<and> ake_session S (alloc_agid ev) host_cert auth ses) r"

lemma holding_simps [simp]:
  "holding S host_cert None es" "holding S host_cert (Some (Inl e)) es"
  by (simp_all add: holding_def)

lemma sat_ake: "sat (ake fuel H S priv host_cert) (holding S host_cert)"
  unfolding ake_def
proof (split if_split, intro conjI impI, goal_cases)
  case 2
  show ?case
  proof (rule sat_bind [OF sat_True], rule sat_read_step, unfold Let_def, rule sat_bindO [OF sat_ake_with_agid], goal_cases)
    case (2 u pre ev r ses)
    then show ?case
      unfolding alloc_agid_def [symmetric]
      by (cases r) (auto simp: holding_def intro!: sat_bind [OF sat_agid_guard_drop] exI [of _ pre])
  qed simp_all
qed simp

section \<open>The Volume ID and the data keys\<close>

definition vid_read :: "crypto \<Rightarrow> aacs_auth \<Rightarrow> bytes \<Rightarrow> event \<Rightarrow> bool" where
  "vid_read C auth v ev \<longleftrightarrow> exec_cdb ev = Some (cdb_report_disc_structure (auth_agid auth) 0x80 36) \<and> exec_ok 36 ev
     \<and> v = slice (event_buf ev) 4 20
     \<and> ct_eq_16 (aes_cmac_16 C v (auth_bus_key auth)) (slice (event_buf ev) 20 36)"

definition key_read :: "crypto \<Rightarrow> aacs_auth \<Rightarrow> bytes \<Rightarrow> event \<Rightarrow> bool" where
  "key_read C auth k ev \<longleftrightarrow> exec_ok 36 ev
     \<and> \<not> (slice (event_buf ev) 4 20 = zeros 16 \<and> slice (event_buf ev) 20 36 = zeros 16)
     \<and> k = aes_decrypt C (auth_bus_key auth) (slice (event_buf ev) 4 20)"

definition finished :: "crypto \<Rightarrow> aacs_auth \<Rightarrow> cert_handshake \<Rightarrow> event list \<Rightarrow> bool" where
  "finished C auth ch es \<longleftrightarrow> (\<exists>ev keys release. es = ev # keys @ [release]
     \<and> vid_read C auth (ch_volume_id ch) ev
     \<and> cleanup_cdb release = Some (cdb_report_key (auth_agid auth) 0x3F 2)
     \<and> (if bus_encryption_capable auth
        then \<exists>e. keys = [e] \<and> exec_cdb e = Some (cdb_report_disc_structure (auth_agid auth) 0x84 36)
          \<and> (case ch_read_data_key ch of
                Some k \<Rightarrow> key_read C auth k e \<and> ch_read_data_key_err ch = None
              | None \<Rightarrow> ch_read_data_key_err ch \<noteq> None)
        else keys = [] \<and> ch_read_data_key ch = None \<and> ch_read_data_key_err ch = None))"

lemma sat_bind_map_err_read:
  assumes "\<And>ev. exec_cdb ev = Some cdb \<Longrightarrow> exec_ok n ev \<Longrightarrow> length (event_buf ev) = n \<Longrightarrow>
      sat (f (Inr (event_buf ev))) (\<lambda>b es. Q b (ev # es))"
    and "\<And>ev e. exec_cdb ev = Some cdb \<Longrightarrow> \<not> exec_ok n ev \<Longrightarrow> is_scsi_transport_failure e = dead_event ev \<Longrightarrow>
      (is_scsi_transport_failure e \<or> e = fb) \<Longrightarrow> sat (f (Inl e)) (\<lambda>b es. Q b (ev # es))"
    and "\<not> is_scsi_transport_failure fb"
  shows "sat (bind_io (map_errE (\<lambda>e. handshake_err e fb) (scsi_read H cdb n)) f) Q"
proof (rule sat_bind, rule sat_map_errE [OF sat_scsi_read])
  fix e es assume "\<exists>ev. es = [ev] \<and> exec_cdb ev = Some cdb \<and> length (event_buf ev) = n \<and> step_result n (Inl e) ev"
  then show "\<exists>ev. es = [ev] \<and> exec_cdb ev = Some cdb \<and> length (event_buf ev) = n \<and>
      (case Inl (handshake_err e fb) of Inr buf \<Rightarrow> exec_ok n ev \<and> buf = event_buf ev
       | Inl f \<Rightarrow> \<not> exec_ok n ev \<and> (is_scsi_transport_failure f \<longleftrightarrow> dead_event ev)
           \<and> (is_scsi_transport_failure f \<or> f = fb))"
    using assms(3) by (auto simp: step_result_def handshake_err_def)
next
  fix r es assume "\<exists>ev. es = [ev] \<and> exec_cdb ev = Some cdb \<and> length (event_buf ev) = n \<and>
      (case r of Inr buf \<Rightarrow> exec_ok n ev \<and> buf = event_buf ev
       | Inl f \<Rightarrow> \<not> exec_ok n ev \<and> (is_scsi_transport_failure f \<longleftrightarrow> dead_event ev)
           \<and> (is_scsi_transport_failure f \<or> f = fb))"
  then show "sat (f r) (\<lambda>b es'. Q b (es @ es'))"
    by (cases r) (auto intro: assms(1,2))
qed (auto simp: step_result_def)

lemma exec_ok_not_dead: "exec_ok n ev \<Longrightarrow> \<not> dead_event ev"
  by (cases "(n, ev)" rule: exec_ok.cases) simp_all

lemma sat_read_volume_id: "sat (read_volume_id H C auth) (\<lambda>(r, auth') es. \<exists>ev. es = [ev]
    \<and> exec_cdb ev = Some (cdb_report_disc_structure (auth_agid auth) 0x80 36)
    \<and> (case r of
         Inr v \<Rightarrow> vid_read C auth v ev \<and> auth' = auth\<lparr> auth_volume_id := Some v \<rparr>
       | Inl e \<Rightarrow> is_scsi_transport_failure e \<longleftrightarrow> dead_event ev))"
  unfolding read_volume_id_def
proof (rule sat_bind_map_err_read, goal_cases)
  case (1 ev)
  then show ?case by (simp add: Let_def vid_read_def exec_ok_not_dead)
qed simp_all

lemma sat_read_data_keys: "sat (read_data_keys H C auth) (\<lambda>(r, _) es. \<exists>ev. es = [ev]
    \<and> exec_cdb ev = Some (cdb_report_disc_structure (auth_agid auth) 0x84 36)
    \<and> (case r of
         Inr (k, _) \<Rightarrow> key_read C auth k ev
       | Inl e \<Rightarrow> is_scsi_transport_failure e \<longleftrightarrow> dead_event ev))"
  unfolding read_data_keys_def
proof (rule sat_bind_map_err_read, goal_cases)
  case (1 ev)
  then show ?case by (simp add: Let_def key_read_def exec_ok_not_dead)
qed simp_all

lemma sat_finish_auth:
  assumes guard: "guard = aacs_agid_guard (auth_agid auth)"
  shows "sat (finish_auth H C guard auth) (\<lambda>r es. when_ok (\<lambda>ch. finished C auth ch es) (Some r))"
  unfolding finish_auth_def
proof (rule sat_bind [OF sat_read_volume_id], clarify, goal_cases)
  case (1 r auth' es ev)
  have drop: "sat (agid_guard_drop H guard) (\<lambda>_ es. \<exists>release. es = [release]
      \<and> cleanup_cdb release = Some (cdb_report_key (auth_agid auth) 0x3F 2))"
    unfolding guard agid_guard_drop_def aacs_agid_guard_def agid_guard_new_def
    by (auto intro!: sat_bind [OF sat_execute_cleanup])
  show ?case
  proof (cases r)
    case (Inl e)
    then show ?thesis by (auto intro!: sat_bind [OF drop])
  next
    case (Inr v)
    with 1 have v: "vid_read C auth v ev" and auth': "auth' = auth\<lparr> auth_volume_id := Some v \<rparr>" by simp_all
    have keys: "key_read C auth' k e = key_read C auth k e" "auth_agid auth' = auth_agid auth"
      "bus_encryption_capable auth' = bus_encryption_capable auth" for k e
      by (simp_all add: key_read_def auth')
    show ?thesis
    proof (cases "bus_encryption_capable auth")
      case False
      with Inr v keys show ?thesis
        by (auto simp: Let_def finished_def intro!: sat_bind [OF drop])
    next
      case True
      with Inr v keys show ?thesis
        by (auto simp: Let_def finished_def bind_io_assoc split: sum.split
            intro!: sat_bind [OF sat_read_data_keys] sat_bind [OF drop])
    qed
  qed
qed

section \<open>Every success is an authenticated session\<close>

definition completed :: "ake_suite \<Rightarrow> crypto \<Rightarrow> bytes \<Rightarrow> cert_handshake \<Rightarrow> event list \<Rightarrow> bool" where
  "completed S C host_cert ch es \<longleftrightarrow> (\<exists>pre ev ses fin auth. es = pre @ [ev] @ ses @ fin
     \<and> exec_cdb ev = Some (cdb_report_key 0 0x00 8) \<and> exec_ok 8 ev
     \<and> ake_session S (alloc_agid ev) host_cert auth ses \<and> finished C auth ch fin)"

lemma completed_append: "completed S C host_cert ch es \<Longrightarrow> completed S C host_cert ch (es' @ es)"
  unfolding completed_def by (metis append_assoc)

text \<open>Which suite a host certificate may be used with.\<close>

definition usable_with :: "crypto \<Rightarrow> anchors \<Rightarrow> bool \<Rightarrow> host_cert \<Rightarrow> ake_suite \<Rightarrow> bytes \<Rightarrow> bool" where
  "usable_with C la allow_p256 hc S cert \<longleftrightarrow>
     S = aacs1_suite C (fst (la_v1 la)) (snd (la_v1 la)) \<and> cert = certificate hc \<and> v1_creds_usable hc
   \<or> S = p256_suite C (fst (la_v2 la)) (snd (la_v2 la)) \<and> certificate_v2 hc = Some cert \<and> v2_creds_usable hc allow_p256"

definition out_ok :: "(cert_handshake \<Rightarrow> bool) \<Rightarrow> cert_outcome option \<Rightarrow> bool" where
  "out_ok P out \<longleftrightarrow> (case out of Some (CertOk ch) \<Rightarrow> P ch | _ \<Rightarrow> True)"

lemma out_ok_simps [simp]:
  "out_ok P None" "out_ok P (Some CertTransport)" "out_ok P (Some CertVidUnavailable)"
  "out_ok P (Some (CertReject c b))" "out_ok P (Some (CertOk ch)) \<longleftrightarrow> P ch"
  by (simp_all add: out_ok_def)

lemma sat_finish_after:
  assumes "holding S host_cert (Some (Inr (auth, guard))) es0"
  shows "sat (finish_auth H C guard auth)
    (\<lambda>r es. case r of Inr ch \<Rightarrow> completed S C host_cert ch (es0 @ es) | Inl _ \<Rightarrow> True)"
proof -
  from assms obtain pre ev ses where es0: "es0 = pre @ [ev] @ ses"
    and ev: "exec_cdb ev = Some (cdb_report_key 0 0x00 8)" "exec_ok 8 ev"
    and guard: "guard = aacs_agid_guard (alloc_agid ev)" and session: "ake_session S (alloc_agid ev) host_cert auth ses"
    by (auto simp: holding_def)
  from session guard have "guard = aacs_agid_guard (auth_agid auth)" by (auto simp: ake_session_def)
  from sat_finish_auth [OF this] show ?thesis
  proof (rule sat_weaken)
    fix r es assume "when_ok (\<lambda>ch. finished C auth ch es) (Some r)"
    with ev session show "case r of Inr ch \<Rightarrow> completed S C host_cert ch (es0 @ es) | Inl _ \<Rightarrow> True"
      unfolding es0 completed_def append_assoc
      by (cases r) (simp, simp del: append.simps, blast)
  qed
qed

text \<open>What one certificate's attempt guarantees.\<close>

definition proven :: "crypto \<Rightarrow> anchors \<Rightarrow> bool \<Rightarrow> host_cert \<Rightarrow> cert_handshake \<Rightarrow> event list \<Rightarrow> bool" where
  "proven C la allow_p256 hc ch es \<longleftrightarrow>
     (\<exists>S cert. usable_with C la allow_p256 hc S cert \<and> completed S C cert ch es)"

lemma proven_append: "proven C la allow_p256 hc ch es \<Longrightarrow> proven C la allow_p256 hc ch (es' @ es)"
  unfolding proven_def using completed_append by blast

lemmas proven_Cons = proven_append [where es' = "[ev]" for ev, simplified]

lemma provenI:
  "usable_with C la allow_p256 hc S cert \<Longrightarrow> completed S C cert ch es \<Longrightarrow> proven C la allow_p256 hc ch es"
  unfolding proven_def by blast

lemma sat_attempt_p256:
  assumes v2: "v2_creds_usable hc allow_p256"
  shows "sat (attempt_p256 fuel H C hc la dead) (\<lambda>out es. out_ok (\<lambda>ch. proven C la allow_p256 hc ch es) out)"
proof (cases "private_key_v2 hc"; cases "certificate_v2 hc")
  fix k c assume c: "private_key_v2 hc = Some k" "certificate_v2 hc = Some c"
  define S where "S = p256_suite C (fst (la_v2 la)) (snd (la_v2 la))"
  have usable: "usable_with C la allow_p256 hc S c" using v2 c by (simp add: usable_with_def S_def)
  have "sat (aacs2_authenticate_p256_with_anchor fuel H C k c (fst (la_v2 la)) (snd (la_v2 la))) (holding S c)"
    unfolding aacs2_authenticate_p256_with_anchor_def S_def
    by (rule sat_bind [OF sat_ake]) (auto simp: holding_def when_ok_def split: option.splits sum.splits)
  then show ?thesis
    unfolding attempt_p256_def c prod.case option.case
  proof (rule sat_bindO, goal_cases)
    case (2 r es)
    then show ?case
      by (cases r) (auto intro!: sat_bind [OF sat_finish_after] split: sum.splits finish_err.splits
          intro: provenI [OF usable])
  qed simp
qed (simp_all add: attempt_p256_def)

lemma sat_attempt_one_cert:
  assumes "try_v1 \<Longrightarrow> v1_creds_usable hc" and has_v2: "has_v2 \<longleftrightarrow> v2_creds_usable hc allow_p256" and "try_v1 \<or> has_v2"
  shows "sat (attempt_one_cert fuel H C hc la try_v1 has_v2) (\<lambda>out es. out_ok (\<lambda>ch. proven C la allow_p256 hc ch es) out)"
proof (cases try_v1)
  case False
  with assms show ?thesis by (simp add: attempt_one_cert_def sat_attempt_p256)
next
  case True
  define S where "S = aacs1_suite C (fst (la_v1 la)) (snd (la_v1 la))"
  have usable: "usable_with C la allow_p256 hc S (certificate hc)"
    using assms(1) [OF True] by (simp add: usable_with_def S_def)
  have p256: "sat (attempt_p256 fuel H C hc la dead) (\<lambda>out es'. out_ok (\<lambda>ch. proven C la allow_p256 hc ch (es @ es')) out)"
    if has_v2 for dead es
    using that has_v2 by (auto intro!: sat_weaken [OF sat_attempt_p256] simp: out_ok_def proven_append
        split: option.splits cert_outcome.splits)
  have ake: "sat (aacs1_ake fuel H C (private_key hc) (certificate hc) (fst (la_v1 la)) (snd (la_v1 la)))
      (holding S (certificate hc))"
    unfolding aacs1_ake_def S_def by (rule sat_ake)
  show ?thesis
    unfolding attempt_one_cert_def if_P [OF True]
  proof (rule sat_bindO [OF ake], goal_cases)
    case (2 r es)
    show ?case
    proof (cases r)
      case (Inl f)
      then show ?thesis using p256 by (cases f) (auto simp del: append_assoc)
    next
      case (Inr p)
      obtain auth guard where p: "p = (auth, guard)" by (cases p)
      show ?thesis
        unfolding Inr p sum.case prod.case
      proof (rule sat_bind [OF sat_finish_after [OF 2 [unfolded Inr p]]], goal_cases)
        case (1 r es')
        then show ?case
          using p256 [of False "es @ es'"]
          by (cases r) (auto split: finish_err.split intro: provenI [OF usable])
      qed
    qed
  qed simp
qed

text \<open>The turns that touch the drive are those of a usable certificate.\<close>

lemma sat_cert_round:
  assumes skip: "Q (Some (Inr (attempts, dead))) []"
    and pause: "\<And>e. 0 < attempts \<Longrightarrow> Q (Some (Inl (Inl Transport))) [Pause PER_CERT_BACKOFF (Inl e)]"
    and attempt: "\<And>try_v1 has_v2 pre. \<lbrakk>try_v1 \<Longrightarrow> v1_creds_usable hc; has_v2 \<longleftrightarrow> v2_creds_usable hc allow_p256; try_v1 \<or> has_v2;
         pre = (if 0 < attempts then [Pause PER_CERT_BACKOFF (Inr ())] else [])\<rbrakk> \<Longrightarrow>
      sat (attempt_one_cert fuel H C hc la try_v1 has_v2) (\<lambda>out es. Q (map_option (\<lambda>out. case out of
           CertOk ch \<Rightarrow> Inl (Inr ch)
         | CertTransport \<Rightarrow> Inl (Inl Transport)
         | CertVidUnavailable \<Rightarrow> Inl (Inl VidUnavailable)
         | CertReject code d \<Rightarrow> Inr (attempts + 1, dead \<or> d)) out) (pre @ es))"
  shows "sat (cert_round fuel H C la allow_p256 hc attempts dead) Q"
proof (cases "(\<not> v2_creds_usable hc allow_p256 \<and> dead) \<or> (\<not> v1_creds_usable hc \<and> \<not> v2_creds_usable hc allow_p256)")
  case True
  then show ?thesis using skip by (auto simp: cert_round_def Let_def)
next
  case False
  let ?first = "v1_creds_usable hc \<and> \<not> dead" and ?v2 = "v2_creds_usable hc allow_p256"
  let ?pre = "if 0 < attempts then [Pause PER_CERT_BACKOFF (Inr ())] else []"
  have round: "sat (bindO (attempt_one_cert fuel H C hc la ?first ?v2) (\<lambda>out. ret (Some (case out of
        CertOk ch \<Rightarrow> Inl (Inr ch)
      | CertTransport \<Rightarrow> Inl (Inl Transport)
      | CertVidUnavailable \<Rightarrow> Inl (Inl VidUnavailable)
      | CertReject code d \<Rightarrow> Inr (attempts + 1, dead \<or> d))))) (\<lambda>r es. Q r (?pre @ es))"
    by (rule sat_bindO [OF attempt]) (use False in auto)
  have paused: "sat (if 0 < attempts then pause H PER_CERT_BACKOFF else ret (Inr ()))
      (\<lambda>r es. (\<exists>e. 0 < attempts \<and> r = Inl e \<and> es = [Pause PER_CERT_BACKOFF (Inl e)]) \<or> r = Inr () \<and> es = ?pre)"
  proof (cases "0 < attempts")
    case True
    then show ?thesis
      by (simp, intro sat_weaken [OF sat_pause]) (case_tac a; simp)
  qed simp
  from False have skip: "\<not> (\<not> ?v2 \<and> dead)" "\<not> (\<not> v1_creds_usable hc \<and> \<not> ?v2)" by blast+
  show ?thesis
    unfolding cert_round_def Let_def if_not_P [OF skip(1)] if_not_P [OF skip(2)]
  proof (rule sat_bind [OF paused], goal_cases)
    case (1 r es)
    then show ?case
    proof (elim disjE exE conjE)
      fix e assume "0 < attempts" "r = Inl e" "es = [Pause PER_CERT_BACKOFF (Inl e)]"
      then show ?thesis using pause by simp
    next
      assume r: "r = Inr ()" and es: "es = ?pre"
      show ?thesis unfolding r es sum.case by (rule round)
    qed
  qed
qed

lemma sat_cert_loop_proven: "sat (cert_loop fuel H C la allow_p256 hcs attempts dead)
    (\<lambda>r es. when_ok (\<lambda>ch. \<exists>hc \<in> set hcs. proven C la allow_p256 hc ch es) r)"
proof (induction hcs arbitrary: attempts dead)
  case (Cons hc hcs)
  have "sat (cert_round fuel H C la allow_p256 hc attempts dead)
      (\<lambda>r es. case r of Some (Inl (Inr ch)) \<Rightarrow> proven C la allow_p256 hc ch es | _ \<Rightarrow> True)"
    by (rule sat_cert_round, simp, simp, rule sat_weaken [OF sat_attempt_one_cert [of _ _ _ allow_p256]])
      (auto simp: out_ok_def proven_Cons split: option.splits cert_outcome.splits)
  then have "sat (bindO (cert_round fuel H C la allow_p256 hc attempts dead) (\<lambda>r. case r of
         Inl final \<Rightarrow> ret (Some final)
       | Inr (attempts, dead) \<Rightarrow> cert_loop fuel H C la allow_p256 hcs attempts dead))
      (\<lambda>r es. when_ok (\<lambda>ch. \<exists>hc \<in> set (hc # hcs). proven C la allow_p256 hc ch es) r)"
  proof (rule sat_bindO, goal_cases)
    case (2 r es)
    have rest: "sat (cert_loop fuel H C la allow_p256 hcs attempts dead)
        (\<lambda>r es'. when_ok (\<lambda>ch. \<exists>hc \<in> set (hc # hcs). proven C la allow_p256 hc ch (es @ es')) r)"
      for attempts dead
      by (rule sat_weaken [OF Cons.IH])
        (auto simp: when_ok_def dest: proven_append [where es' = es] split: option.splits sum.splits)
    from 2 rest show ?case by (cases r) (auto simp: when_ok_def split: sum.splits)
  qed simp
  then show ?case by simp
qed simp

text \<open>
  C4. No Volume ID without a proven drive: when the handshake returns one, its last commands are a
  complete session under a host certificate of the list that is paired with its private key. The
  drive's certificate verified under the trust anchor, its key point is signed under that
  certificate over the host's fresh nonce, the host's signature verifies under the host
  certificate, the bus key is the ECDH secret of that exchange, and the Volume ID carries a
  correct MAC under it; a read data key is the decryption of a key block that is not all zero.
  The AGID of the session is released last.
\<close>
theorem aacs_handshake_authentic:
  "case result_of (run_cert_handshake_with_anchors fuel H C host_certs v1 v2 allow_p256) w of
     Some (Inr ch) \<Rightarrow> \<exists>hc \<in> set host_certs. \<exists>S cert.
       usable_with C \<lparr> la_v1 = v1, la_v2 = v2 \<rparr> allow_p256 hc S cert
       \<and> completed S C cert ch (events_of (run_cert_handshake_with_anchors fuel H C host_certs v1 v2 allow_p256) w)
   | _ \<Rightarrow> True"
  using sat_run [OF sat_cert_loop_proven]
  unfolding run_cert_handshake_with_anchors_def when_ok_def proven_def by metis

end
