(* ===== verification/Aacs_Trace.thy ===== *)
theory Aacs_Trace
  imports Aacs_Auth
begin

text \<open>
  The AACS handshake seen from the bus: which AGID is held when, how many commands reach the drive
  and how they are paced, and which faults end the handshake as a dead bus.
\<close>

unbundle bit_operations_syntax

section \<open>Commands told apart\<close>

definition alloc_cdb :: bytes where "alloc_cdb = cdb_report_key 0 0x00 8"
definition release_cdb :: "u8 \<Rightarrow> bytes" where "release_cdb agid = cdb_report_key agid 0x3F 2"
definition key_format :: "bytes \<Rightarrow> u8" where "key_format cdb = byte_at cdb 10 AND 0x3F"
definition key_agid :: "bytes \<Rightarrow> u8" where "key_agid cdb = drop_bit 6 (byte_at cdb 10)"

text \<open>A REPORT KEY that releases an AGID, whichever.\<close>

definition best_effort_key :: "bytes \<Rightarrow> bool" where
  "best_effort_key cdb \<longleftrightarrow> byte_at cdb 0 = 0xA4 \<and> key_format cdb = 0x3F"

lemma cdb_opcodes [simp]:
  "byte_at (cdb_report_key agid fmt len) 0 = 0xA4" "byte_at (cdb_send_key agid fmt len) 0 = 0xA3"
  "byte_at (cdb_report_disc_structure agid fmt len) 0 = 0xAD"
  by (simp_all add: cdb_report_key_def cdb_send_key_def cdb_report_disc_structure_def zeros_unfold const_defs)

lemma key_format_report [simp]: "key_format (cdb_report_key agid fmt len) = fmt AND 0x3F"
  by (simp add: key_format_def cdb_report_key_def zeros_unfold format_bits)

lemma format_neq: "key_format cdb \<noteq> key_format cdb' \<Longrightarrow> cdb \<noteq> cdb'"
  by auto

lemma release_not_alloc [simp]: "release_cdb agid \<noteq> alloc_cdb" "cdb_report_key agid 0x3F 2 \<noteq> alloc_cdb"
  by (rule format_neq, simp add: release_cdb_def alloc_cdb_def)+

lemma alloc_cdb_opcode [simp]: "byte_at alloc_cdb 0 = 0xA4" "key_format alloc_cdb = 0"
  by (simp_all add: alloc_cdb_def)

lemma agid_values: "(agid :: u8) < 4 \<longleftrightarrow> agid \<in> {0, 1, 2, 3}"
  by (simp add: word_less_nat_alt word_unat_eq_iff) arith

lemma agid_low: "drop_bit 6 (fmt AND 0x3F :: u8) = 0"
  by (rule bit_word_eqI) (auto simp: bit_simps)

lemma agid_bits: "agid < 4 \<Longrightarrow> drop_bit 6 (push_bit 6 agid OR (fmt AND 0x3F)) = (agid :: u8)"
  unfolding agid_values drop_bit_or agid_low by auto

lemma key_agid_simps [simp]:
  "agid < 4 \<Longrightarrow> key_agid (cdb_report_key agid fmt len) = agid"
  "agid < 4 \<Longrightarrow> key_agid (cdb_send_key agid fmt len) = agid"
  "agid < 4 \<Longrightarrow> key_agid (cdb_report_disc_structure agid fmt len) = agid"
  using agid_bits [of agid fmt] agid_bits [of agid 0]
  by (simp_all add: key_agid_def cdb_report_key_def cdb_send_key_def cdb_report_disc_structure_def zeros_unfold)

lemma best_effort_release [simp]: "best_effort_key (release_cdb agid)"
  by (simp add: best_effort_key_def release_cdb_def)

text \<open>The commands of an exchange under an AGID.\<close>

definition session_cdb :: "u8 \<Rightarrow> bytes \<Rightarrow> bool" where
  "session_cdb agid cdb \<longleftrightarrow> (\<exists>fmt len. fmt \<in> {1, 2} \<and> (cdb = cdb_report_key agid fmt len \<or> cdb = cdb_send_key agid fmt len))"

lemma session_cdbI [simp]:
  "fmt \<in> {1, 2} \<Longrightarrow> session_cdb agid (cdb_report_key agid fmt len)"
  "fmt \<in> {1, 2} \<Longrightarrow> session_cdb agid (cdb_send_key agid fmt len)"
  by (auto simp: session_cdb_def)

lemma session_cdb_head: "session_cdb agid cdb \<Longrightarrow> byte_at cdb 0 = 0xA4 \<and> key_format cdb \<in> {1, 2} \<or> byte_at cdb 0 = 0xA3"
  by (auto simp: session_cdb_def)

section \<open>One AGID at a time\<close>

text \<open>
  The AGIDs of the drive as a monitor of the bus sees them: none is in use, and so many of the four
  have been swept since the last one was; or one is. Whatever is not allowed ends in \<open>None\<close>. With no
  AGID in use the four are swept in order by plain release commands, and only then is one asked
  for; nothing else is sent but a pause. With one in use no other is asked for, every plain command
  carries that AGID and is no release, and the one cleanup command is its own release.
\<close>

datatype agid_state = Unused nat | InUse u8

definition agid_step :: "agid_state \<Rightarrow> event \<Rightarrow> agid_state option" where
  "agid_step h ev = (case h of
     Unused n \<Rightarrow>
       if event_cdb ev = None then Some h
       else if exec_cdb ev = Some (release_cdb (of_nat (n mod 4))) then Some (Unused (n mod 4 + 1))
       else if exec_cdb ev = Some alloc_cdb \<and> n = 4 then Some (if exec_ok 8 ev then InUse (alloc_agid ev) else h)
       else None
   | InUse agid \<Rightarrow>
       if cleanup_cdb ev = Some (release_cdb agid) then Some (Unused 0)
       else (case exec_cdb ev of
           Some cdb \<Rightarrow> if key_agid cdb = agid \<and> \<not> best_effort_key cdb \<and> cdb \<noteq> alloc_cdb then Some h else None
         | None \<Rightarrow> None))"

primrec held :: "agid_state \<Rightarrow> event list \<Rightarrow> agid_state option" where
  "held h [] = Some h"
| "held h (ev # es) = Option.bind (agid_step h ev) (\<lambda>h'. held h' es)"

lemma held_append: "held h (es @ es') = Option.bind (held h es) (\<lambda>h'. held h' es')"
  by (induction es arbitrary: h) (simp_all add: bind_assoc)

text \<open>Between two exchanges no AGID is in use, and a sweep is over or has not begun.\<close>

definition at_rest :: "agid_state \<Rightarrow> bool" where
  "at_rest h \<longleftrightarrow> h = Unused 0 \<or> h = Unused 4"

text \<open>Events under an AGID that leave it in use.\<close>

definition under :: "u8 \<Rightarrow> event \<Rightarrow> bool" where
  "under agid ev \<longleftrightarrow> agid_step (InUse agid) ev = Some (InUse agid)"

lemma held_under: "list_all (under agid) es \<Longrightarrow> held (InUse agid) es = Some (InUse agid)"
  by (induction es) (auto simp: under_def)

lemma under_exec:
  "exec_cdb ev = Some cdb \<Longrightarrow> key_agid cdb = agid \<Longrightarrow> \<not> best_effort_key cdb \<Longrightarrow> cdb \<noteq> alloc_cdb \<Longrightarrow> under agid ev"
  by (simp add: under_def agid_step_def exec_not_cleanup)

lemma under_session: "exec_cdb ev = Some cdb \<Longrightarrow> session_cdb agid cdb \<Longrightarrow> agid < 4 \<Longrightarrow> under agid ev"
  by (rule under_exec) (use session_cdb_head [of agid cdb] in \<open>auto simp: session_cdb_def best_effort_key_def\<close>)

lemma under_structure: "exec_cdb ev = Some (cdb_report_disc_structure agid fmt len) \<Longrightarrow> agid < 4 \<Longrightarrow> under agid ev"
  by (rule under_exec) (auto simp: best_effort_key_def dest: arg_cong [of _ _ "\<lambda>cdb. byte_at cdb 0"])

lemma held_pause [simp]: "held (Unused n) (Pause d r # es) = held (Unused n) es"
  by (simp add: agid_step_def)

lemma alloc_agid_less [simp]: "alloc_agid ev < 4"
  unfolding alloc_agid_def by (rule le_less_trans [OF word_and_le1]) simp

lemma held_sweep:
  assumes "map exec_cdb es = map (\<lambda>a. Some (release_cdb a)) [0, 1, 2, 3]" "at_rest h"
  shows "held h es = Some (Unused 4)"
proof -
  from assms(1) obtain e0 e1 e2 e3 where es: "es = [e0, e1, e2, e3]"
    and e: "exec_cdb e0 = Some (release_cdb 0)" "exec_cdb e1 = Some (release_cdb 1)"
      "exec_cdb e2 = Some (release_cdb 2)" "exec_cdb e3 = Some (release_cdb 3)"
    by (auto simp: map_eq_Cons_conv)
  have cdb: "exec_cdb ev = Some c \<Longrightarrow> event_cdb ev = Some c" for ev c by (cases ev) auto
  from assms(2) e show ?thesis
    by (auto simp: es at_rest_def agid_step_def cdb)
qed

lemma emits_scsi_read [emits_intros]:
  "(\<And>r buf. P (Exec cdb FromDevice (zeros n) 5000 r buf)) \<Longrightarrow> emits P (scsi_read H cdb n)"
  unfolding scsi_read_def by (intro emits_intros) simp_all

lemma emits_scsi_write [emits_intros]:
  "(\<And>r buf. P (Exec cdb ToDevice data 5000 r buf)) \<Longrightarrow> emits P (scsi_write H cdb data)"
  unfolding scsi_write_def by (intro emits_intros) simp_all

lemma emits_handshake_step [emits_intros]: "emits P m \<Longrightarrow> emits P (handshake_step fb m)"
  unfolding handshake_step_def by (rule emits_map_errE)

lemma emits_quiet: "sat m (\<lambda>r es. es = [] \<and> R r) \<Longrightarrow> emits P m"
  unfolding emits_def by (erule sat_weaken) simp

lemmas emits_generate [emits_intros] = emits_quiet [OF sat_generate]
lemmas emits_sign [emits_intros] = emits_quiet [OF sat_sign]

lemma emits_ake_session:
  assumes "\<And>cdb dir data tmo r buf. session_cdb agid cdb \<Longrightarrow> P (Exec cdb dir data tmo r buf)"
  shows "emits P (ake_with_agid fuel H S agid priv host_cert)"
  unfolding ake_with_agid_def exchange_key_points_def Let_def split_beta
  by (intro emits_intros assms) auto

lemma emits_ake_with_agid:
  assumes "\<And>cdb dir data tmo r buf. key_format cdb \<noteq> 0 \<and> byte_at cdb 0 = 0xA4 \<or> byte_at cdb 0 = 0xA3 \<Longrightarrow>
    P (Exec cdb dir data tmo r buf)"
  shows "emits P (ake_with_agid fuel H S agid priv host_cert)"
  by (rule emits_ake_session, rule assms, drule session_cdb_head) auto

lemma emits_sweep:
  assumes "\<And>a dir data tmo r buf. P (Exec (release_cdb a) dir data tmo r buf)"
  shows "emits P (sweep_agids H as)"
  using assms by (induction "as") (auto simp: release_cdb_def intro!: emits_intros)

lemma sat_guard_drop: "sat (agid_guard_drop H (aacs_agid_guard agid))
    (\<lambda>_ es. \<exists>ev. es = [ev] \<and> cleanup_cdb ev = Some (release_cdb agid))"
  unfolding agid_guard_drop_def aacs_agid_guard_def agid_guard_new_def release_cdb_def
  by (auto intro!: sat_bind [OF sat_execute_cleanup])

lemma held_then_release:
  "held h es = Some (InUse agid) \<Longrightarrow> cleanup_cdb rel = Some (release_cdb agid) \<Longrightarrow> held h (es @ [rel]) = Some (Unused 0)"
  by (simp add: held_append agid_step_def)

lemma at_rest_simps [simp]: "at_rest (Unused 0)" "at_rest (Unused 4)" "\<not> at_rest (InUse agid)"
  by (simp_all add: at_rest_def)

text \<open>A stretch of events that begins and ends at rest.\<close>

definition settles :: "event list \<Rightarrow> bool" where
  "settles es \<longleftrightarrow> (\<forall>h. at_rest h \<longrightarrow> (\<exists>h'. at_rest h' \<and> held h es = Some h'))"

lemma settles_Nil [simp]: "settles []"
  by (simp add: settles_def)

lemma settles_append: "settles es \<Longrightarrow> settles es' \<Longrightarrow> settles (es @ es')"
  unfolding settles_def held_append by (metis bind.bind_lunit)

lemma settles_pause [simp]: "settles (Pause d r # es) \<longleftrightarrow> settles es"
  by (auto simp: settles_def at_rest_def agid_step_def)

text \<open>The exchange: with an error everything is released, with a session its AGID is in use.\<close>

definition takes :: "u8 \<Rightarrow> event list \<Rightarrow> bool" where
  "takes agid es \<longleftrightarrow> agid < 4 \<and> (\<forall>h. at_rest h \<longrightarrow> held h es = Some (InUse agid))"

definition gives_back :: "u8 \<Rightarrow> event list \<Rightarrow> bool" where
  "gives_back agid es \<longleftrightarrow> held (InUse agid) es = Some (Unused 0)"

lemma takes_gives_back: "takes agid es \<Longrightarrow> gives_back agid es' \<Longrightarrow> settles (es @ es')"
  by (auto simp: takes_def gives_back_def settles_def held_append)

lemma takes_less: "takes agid es \<Longrightarrow> agid < 4"
  by (simp add: takes_def)

lemma gives_back_release: "cleanup_cdb ev = Some (release_cdb agid) \<Longrightarrow> gives_back agid [ev]"
  by (simp add: gives_back_def agid_step_def)

definition ake_held :: "('e + aacs_auth \<times> agid_guard) option \<Rightarrow> event list \<Rightarrow> bool" where
  "ake_held r es \<longleftrightarrow> (case r of
     None \<Rightarrow> True
   | Some (Inl _) \<Rightarrow> settles es
   | Some (Inr (auth, guard)) \<Rightarrow> takes (auth_agid auth) es \<and> guard = aacs_agid_guard (auth_agid auth))"

lemma ake_held_simps [simp]:
  "ake_held None es" "ake_held (Some (Inl e)) es \<longleftrightarrow> settles es"
  "ake_held (Some (Inr (auth, guard))) es \<longleftrightarrow> takes (auth_agid auth) es \<and> guard = aacs_agid_guard (auth_agid auth)"
  by (simp_all add: ake_held_def)

lemma takes_session:
  assumes "map exec_cdb pre = map (\<lambda>a. Some (release_cdb a)) [0, 1, 2, 3]"
    and "exec_cdb ev = Some alloc_cdb" "exec_ok 8 ev" "list_all (under (alloc_agid ev)) es"
  shows "takes (alloc_agid ev) (pre @ ev # es)"
proof -
  from assms(2) have "event_cdb ev = Some alloc_cdb" by (cases ev) auto
  with assms(2,3) have "agid_step (Unused 4) ev = Some (InUse (alloc_agid ev))"
    by (simp add: agid_step_def release_not_alloc [symmetric])
  with held_sweep [OF assms(1)] held_under [OF assms(4)] show ?thesis
    by (simp add: takes_def held_append)
qed

lemma settles_refused:
  assumes "map exec_cdb pre = map (\<lambda>a. Some (release_cdb a)) [0, 1, 2, 3]"
    and "exec_cdb ev = Some alloc_cdb" "\<not> exec_ok 8 ev"
  shows "settles (pre @ [ev])"
proof -
  from assms(2) have "event_cdb ev = Some alloc_cdb" by (cases ev) auto
  with assms(2,3) have "agid_step (Unused 4) ev = Some (Unused 4)"
    by (simp add: agid_step_def release_not_alloc [symmetric])
  with held_sweep [OF assms(1)] show ?thesis by (simp add: settles_def held_append)
qed

lemma sat_ake_held: "sat (ake fuel H S priv host_cert) ake_held"
proof (cases "length host_cert < su_cert_len S")
  case False
  have sweep: "sat (sweep_agids H [0, 1, 2, 3]) (\<lambda>_ es. map exec_cdb es = map (\<lambda>a. Some (release_cdb a)) [0, 1, 2, 3])"
    unfolding release_cdb_def by (rule sat_sweep_agids)
  have body: "sat (ake_with_agid fuel H S agid priv host_cert) (\<lambda>r es. list_all (under agid) es
      \<and> when_ok (\<lambda>auth. auth_agid auth = agid) r)" if "agid < 4" for agid
  proof (rule sat_weaken [OF sat_conj [OF emits_ake_session [of agid "under agid", unfolded emits_def] sat_ake_with_agid]], goal_cases)
    case (1 cdb)
    with that show ?case by (auto intro: under_session)
  qed (auto simp: when_ok_def ake_session_def split: option.splits sum.splits)
  show ?thesis
    unfolding ake_def if_not_P [OF False] Let_def
  proof (rule sat_bind [OF sweep], rule sat_read_step, goal_cases)
    case (1 u pre ev)
    then have alloc: "exec_cdb ev = Some alloc_cdb" by (simp add: alloc_cdb_def)
    show ?case
      unfolding alloc_agid_def [symmetric]
    proof (rule sat_bindO [OF body [OF alloc_agid_less]], goal_cases)
      case (2 r es)
      with takes_session [OF 1(1) alloc 1(3)] have takes: "takes (alloc_agid ev) (pre @ ev # es)" by simp
      show ?case
      proof (cases r)
        case (Inl f)
        show ?thesis
          unfolding Inl sum.case
          by (rule sat_bind [OF sat_guard_drop])
            (use takes_gives_back [OF takes] in \<open>auto dest: gives_back_release\<close>)
      qed (use 2 takes in simp)
    qed simp
  next
    case (2 u pre ev e)
    then show ?case using settles_refused [OF 2(1), of ev] by (simp add: alloc_cdb_def)
  qed simp
qed (simp add: ake_def)

lemma sat_finish_held:
  assumes "auth_agid auth < 4"
  shows "sat (finish_auth H C (aacs_agid_guard (auth_agid auth)) auth) (\<lambda>_. gives_back (auth_agid auth))"
proof -
  have vid: "sat (read_volume_id H C auth) (\<lambda>(r, auth') es. \<exists>ev. es = [ev] \<and> under (auth_agid auth) ev
      \<and> auth_agid auth' = auth_agid auth)"
    unfolding read_volume_id_def
    by (rule sat_bind_map_err_read) (auto simp: Let_def intro!: under_structure assms)
  have keys: "sat (read_data_keys H C auth') (\<lambda>_ es. \<exists>ev. es = [ev] \<and> under (auth_agid auth) ev)"
    if "auth_agid auth' = auth_agid auth" for auth'
    by (rule sat_weaken [OF sat_read_data_keys]) (use that in \<open>auto intro!: under_structure assms\<close>)
  have later: "gives_back agid (ev # es)" if "under agid ev" "gives_back agid es" for agid ev es
    using that by (simp add: gives_back_def under_def)
  show ?thesis
    unfolding finish_auth_def Let_def
    by (auto intro!: sat_bind [OF vid] sat_bind [OF keys] sat_bind [OF sat_guard_drop] later gives_back_release
        simp: bind_io_assoc split: sum.split option.split)
qed

definition idle :: "'a option \<Rightarrow> event list \<Rightarrow> bool" where
  "idle r es \<longleftrightarrow> (case r of None \<Rightarrow> True | Some _ \<Rightarrow> settles es)"

lemma idle_simps [simp]: "idle None es" "idle (Some a) es \<longleftrightarrow> settles es"
  by (simp_all add: idle_def)

lemma sat_finish_settles: "takes (auth_agid auth) es \<Longrightarrow>
    sat (finish_auth H C (aacs_agid_guard (auth_agid auth)) auth) (\<lambda>_ es'. settles (es @ es'))"
  by (rule sat_weaken [OF sat_finish_held]) (blast intro: takes_gives_back takes_less)+

lemma idle_after: "settles es \<Longrightarrow> idle r es' \<Longrightarrow> idle r (es @ es')"
  by (auto simp: idle_def settles_append split: option.splits)

lemma sat_attempt_p256_held: "sat (attempt_p256 fuel H C hc la dead) idle"
proof (cases "private_key_v2 hc"; cases "certificate_v2 hc")
  fix k c assume c: "private_key_v2 hc = Some k" "certificate_v2 hc = Some c"
  have "sat (aacs2_authenticate_p256_with_anchor fuel H C k c (fst (la_v2 la)) (snd (la_v2 la))) ake_held"
    unfolding aacs2_authenticate_p256_with_anchor_def
    by (rule sat_bind [OF sat_ake_held]) (auto simp: ake_held_def split: option.splits sum.splits)
  then show ?thesis
    unfolding attempt_p256_def c prod.case option.case
  proof (rule sat_bindO, goal_cases)
    case (2 r es)
    then show ?case
      by (cases r) (auto intro!: sat_bind [OF sat_finish_settles])
  qed simp
qed (simp_all add: attempt_p256_def)

lemma sat_attempt_one_cert_held: "sat (attempt_one_cert fuel H C hc la try_v1 has_v2) idle"
proof (cases try_v1)
  case False
  then show ?thesis by (simp add: attempt_one_cert_def sat_attempt_p256_held)
next
  case True
  have p256: "sat (attempt_p256 fuel H C hc la dead) (\<lambda>r es'. idle r (es @ es'))" if "settles es" for dead es
    using that by (auto intro!: sat_weaken [OF sat_attempt_p256_held] idle_after)
  show ?thesis
    unfolding attempt_one_cert_def if_P [OF True]
  proof (rule sat_bindO, unfold aacs1_ake_def, rule sat_ake_held, goal_cases)
    case (2 r es)
    show ?case
    proof (cases r)
      case (Inl f)
      with 2 p256 show ?thesis by (cases f) auto
    next
      case (Inr p)
      obtain auth guard where p: "p = (auth, guard)" by (cases p)
      from 2 have es: "takes (auth_agid auth) es" and guard: "guard = aacs_agid_guard (auth_agid auth)"
        by (simp_all add: Inr p)
      show ?thesis
        unfolding Inr p sum.case prod.case guard
      proof (rule sat_bind [OF sat_finish_settles [OF es]], goal_cases)
        case (1 r es')
        with p256 [of "es @ es'"] show ?case by (cases r) (auto split: finish_err.split)
      qed
    qed
  qed simp
qed

lemma sat_cert_round_idle: "sat (cert_round fuel H C la allow_p256 hc attempts dead) idle"
  by (rule sat_cert_round) (auto simp: idle_def split: option.splits intro!: sat_weaken [OF sat_attempt_one_cert_held])

lemma sat_cert_loop_idle: "sat (cert_loop fuel H C la allow_p256 hcs attempts dead) idle"
proof (induction hcs arbitrary: attempts dead)
  case (Cons hc hcs)
  have rest: "sat (cert_loop fuel H C la allow_p256 hcs attempts dead) (\<lambda>r es'. idle r (es @ es'))"
    if "settles es" for attempts dead es
    using that by (auto intro!: sat_weaken [OF Cons.IH] idle_after)
  show ?case
    unfolding cert_loop.simps(2)
    by (auto intro!: sat_bindO [OF sat_cert_round_idle] rest split: sum.split)
qed simp

text \<open>
  C14. The AGID discipline of a handshake, over every command it sends. Before an AGID is asked for,
  all four are swept by release commands, in order, with none in use. At most one is in use at a
  time; while it is, every command carries it and none is a release but the guard's own cleanup,
  which ends the use: so an allocated AGID is released exactly once before the next sweep begins.
  Whatever the drive answers, on every path through the exchange, the Volume ID and data key reads,
  the P-256 fall-through and the loop over the certificates, the handshake returns with no AGID in
  use.
\<close>
theorem aacs_agid_discipline:
  "case result_of (run_cert_handshake_with_anchors fuel H C host_certs v1 v2 allow_p256) w of
     None \<Rightarrow> True
   | Some _ \<Rightarrow> held (Unused 0) (events_of (run_cert_handshake_with_anchors fuel H C host_certs v1 v2 allow_p256) w)
       \<in> {Some (Unused 0), Some (Unused 4)}"
proof -
  have "idle (result_of (run_cert_handshake_with_anchors fuel H C host_certs v1 v2 allow_p256) w)
      (events_of (run_cert_handshake_with_anchors fuel H C host_certs v1 v2 allow_p256) w)"
    unfolding run_cert_handshake_with_anchors_def by (rule sat_run [OF sat_cert_loop_idle])
  then show ?thesis by (auto simp: idle_def settles_def at_rest_def split: option.split)
qed

section \<open>The wedge guard\<close>

text \<open>
  \<open>paced n k m es\<close>: the events are bursts of at most \<open>n\<close> commands (the first of at most \<open>m\<close>),
  separated by at most \<open>k\<close> pauses, each of the back-off time.
\<close>

definition is_command :: "event \<Rightarrow> bool" where
  "is_command ev \<longleftrightarrow> event_cdb ev \<noteq> None"

primrec paced :: "nat \<Rightarrow> nat \<Rightarrow> nat \<Rightarrow> event list \<Rightarrow> bool" where
  "paced n k m [] \<longleftrightarrow> True"
| "paced n k m (ev # es) \<longleftrightarrow> (case ev of
     Pause d _ \<Rightarrow> d = PER_CERT_BACKOFF \<and> 0 < k \<and> paced n (k - 1) n es
   | _ \<Rightarrow> is_command ev \<and> 0 < m \<and> paced n k (m - 1) es)"

lemma paced_burst: "list_all is_command es \<Longrightarrow> length es \<le> m \<Longrightarrow>
    paced n k m (es @ es') \<longleftrightarrow> paced n k (m - length es) es'"
  by (induction es arbitrary: m) (auto simp: is_command_def split: event.split)

definition brief :: "nat \<Rightarrow> ('w, 'a) io \<Rightarrow> bool" where
  "brief n m \<longleftrightarrow> sat m (\<lambda>_ es. length es \<le> n \<and> list_all is_command es)"

lemma brief_ret: "brief n (ret a)"
  by (simp add: brief_def)

lemma brief_if: "brief n m \<Longrightarrow> brief n m' \<Longrightarrow> brief n (if b then m else m')"
  by simp

lemma brief_mono: "brief n m \<Longrightarrow> n \<le> k \<Longrightarrow> brief k m"
  unfolding brief_def by (erule sat_weaken) auto

lemma brief_bind: "brief n m \<Longrightarrow> n \<le> k \<Longrightarrow> (\<And>a. brief (k - n) (f a)) \<Longrightarrow> brief k (bind_io m f)"
  unfolding brief_def by (erule sat_bind) (fastforce elim: sat_weaken)

lemma brief_bindO: "brief n m \<Longrightarrow> n \<le> k \<Longrightarrow> (\<And>a. brief (k - n) (f a)) \<Longrightarrow> brief k (bindO m f)"
  unfolding bindO_def by (erule brief_bind) (auto split: option.split intro: brief_ret)

lemma brief_bindEF: "brief n m \<Longrightarrow> n \<le> k \<Longrightarrow> (\<And>a. brief (k - n) (f a)) \<Longrightarrow> brief k (bindEF m f)"
  unfolding bindEF_def by (erule brief_bind) (auto split: sum.split intro: brief_ret)

lemma brief_map_errE: "brief n m \<Longrightarrow> brief n (map_errE g m)"
  unfolding map_errE_def by (erule brief_bind) (auto intro: brief_ret)

lemma brief_scsi_read: "brief 1 (scsi_read H cdb n)"
  unfolding brief_def
  by (rule sat_weaken [OF sat_scsi_read]) (fastforce simp: is_command_def elim: exec_cdb.elims)

lemma brief_scsi_write: "brief 1 (scsi_write H cdb data)"
  unfolding brief_def
  by (rule sat_weaken [OF sat_scsi_write]) (fastforce simp: is_command_def elim: exec_cdb.elims)

lemma brief_handshake_step: "brief n m \<Longrightarrow> brief n (handshake_step fb m)"
  unfolding handshake_step_def by (rule brief_map_errE)

lemma brief_quiet: "sat m (\<lambda>r es. es = [] \<and> R r) \<Longrightarrow> brief 0 m"
  unfolding brief_def by (erule sat_weaken) simp

lemma brief_drop: "brief 1 (agid_guard_drop H g)"
  unfolding agid_guard_drop_def
  by (auto simp: brief_def is_command_def intro!: sat_bind [OF sat_execute_cleanup])

lemmas brief_steps = brief_handshake_step [OF brief_scsi_read] brief_handshake_step [OF brief_scsi_write]
  brief_quiet [OF sat_fill_bytes] brief_quiet [OF sat_generate] brief_quiet [OF sat_sign]

lemma brief_sweep: "brief (length as) (sweep_agids H as)"
  by (induction "as") (auto intro: brief_ret brief_bind [OF brief_scsi_read])

lemma brief_exchange: "brief 2 (exchange_key_points fuel H S agid priv cert nonce keys dn dc)"
  unfolding exchange_key_points_def Let_def split_beta
  by (rule brief_bindEF [OF brief_steps(1)], simp, rule brief_if [OF brief_ret],
      rule brief_bindO [OF brief_steps(5)], simp, rule brief_if [OF brief_ret],
      rule brief_bindEF [OF brief_steps(2)], simp) (simp add: brief_ret split: option.split)

lemma brief_ake_with_agid: "brief 4 (ake_with_agid fuel H S agid priv cert)"
  unfolding ake_with_agid_def Let_def
  by (rule brief_bind [OF brief_steps(3)], simp, rule brief_bindO [OF brief_steps(4)], simp,
      rule brief_bindEF [OF brief_steps(2)], simp, rule brief_bindEF [OF brief_steps(1)], simp)
    (simp add: brief_ret brief_exchange split: sum.split)

lemma brief_ake: "brief 10 (ake fuel H S priv cert)"
  unfolding ake_def Let_def
  by (rule brief_if [OF brief_ret], rule brief_bind [OF brief_sweep], simp,
      rule brief_bindEF [OF brief_steps(1)], simp, rule brief_bindO [OF brief_ake_with_agid], simp)
    (auto simp: brief_ret intro!: brief_bind [OF brief_drop] split: sum.split)

lemma brief_finish: "brief 3 (finish_auth H C g auth)"
proof -
  have "brief 1 (read_volume_id H C auth)" "brief 1 (read_data_keys H C auth')" for auth'
    unfolding read_volume_id_def read_data_keys_def Let_def
    by (rule brief_bind [OF brief_map_errE [OF brief_scsi_read]], simp,
        auto intro: brief_ret split: sum.split)+
  then show ?thesis
    unfolding finish_auth_def Let_def bind_io_assoc
    by (intro brief_bind [of 1 "read_volume_id H C auth"])
      (auto simp: bind_io_assoc intro!: brief_ret brief_bind [of 1 "read_data_keys H C auth'" for auth']
        brief_bind [OF brief_drop] split: sum.split option.split)
qed

lemma brief_attempt_p256: "brief 13 (attempt_p256 fuel H C hc la dead)"
proof -
  have "brief 10 (aacs2_authenticate_p256_with_anchor fuel H C k c x y)" for k c x y
    unfolding aacs2_authenticate_p256_with_anchor_def
    by (rule brief_bind [OF brief_ake]) (simp_all add: brief_ret)
  note p256 = this
  show ?thesis
    unfolding attempt_p256_def
    by (auto intro!: brief_ret brief_bind [OF brief_finish] brief_bindO [OF p256] split: option.split sum.split)
qed

lemma brief_attempt_one_cert: "brief (if has_v2 then 26 else 13) (attempt_one_cert fuel H C hc la try_v1 has_v2)"
proof -
  have p256: "brief n (attempt_p256 fuel H C hc la dead)" if "13 \<le> n" for dead n
    using brief_mono [OF brief_attempt_p256 that] .
  show ?thesis
    unfolding attempt_one_cert_def aacs1_ake_def
    by (rule brief_if, rule brief_bindO [OF brief_ake])
      (auto intro!: brief_ret p256 brief_bind [OF brief_finish] split: sum.split finish_err.split)
qed

text \<open>The longest burst, with and without the P-256 fall-through.\<close>

definition burst :: "bool \<Rightarrow> nat" where
  "burst allow_p256 = (if allow_p256 then 26 else 13)"

lemma brief_round_attempt:
  assumes "has_v2 \<longleftrightarrow> v2_creds_usable hc allow_p256"
  shows "brief (burst allow_p256) (attempt_one_cert fuel H C hc la try_v1 has_v2)"
  by (rule brief_mono [OF brief_attempt_one_cert]) (use assms in \<open>auto simp: burst_def v2_creds_usable_def\<close>)

text \<open>What may still happen after \<open>attempts\<close> certificates touched the drive.\<close>

definition paced_after :: "nat \<Rightarrow> nat \<Rightarrow> event list \<Rightarrow> bool" where
  "paced_after n attempts = paced n (MAX_CERT_ATTEMPTS - max 1 attempts) (if attempts = 0 then n else 0)"

lemma paced_mono: "paced n k m es \<Longrightarrow> m \<le> m' \<Longrightarrow> paced n k m' es"
  by (induction es arbitrary: k m m') (auto split: event.splits)

lemma paced_after_burst:
  assumes "list_all is_command es" "length es \<le> n" "paced_after n (Suc attempts) es'" "attempts < MAX_CERT_ATTEMPTS"
  shows "paced_after n attempts ((if 0 < attempts then [Pause PER_CERT_BACKOFF r] else []) @ es @ es')"
proof -
  have "paced n (MAX_CERT_ATTEMPTS - Suc attempts) (n - length es) es'"
    using assms(3) paced_mono [of n _ 0 es' "n - length es"] by (simp add: paced_after_def)
  with assms(1,2,4) show ?thesis
    by (auto simp: paced_after_def paced_burst MAX_CERT_ATTEMPTS_def)
qed

lemma paced_after_Nil [simp]: "paced_after n attempts []"
  by (simp add: paced_after_def)

lemma sat_cert_round_paced:
  assumes "attempts < MAX_CERT_ATTEMPTS"
  shows "sat (cert_round fuel H C la allow_p256 hc attempts dead) (\<lambda>r es. \<forall>es'.
    (case r of Some (Inr (attempts', _)) \<Rightarrow> paced_after (burst allow_p256) attempts' es' | _ \<Rightarrow> es' = [])
    \<longrightarrow> paced_after (burst allow_p256) attempts (es @ es'))"
proof (rule sat_cert_round, goal_cases)
  case (3 try_v1 has_v2 pre)
  have done_empty: "paced_after (burst allow_p256) attempts
      ((if 0 < attempts then [Pause PER_CERT_BACKOFF (Inr ())] else []) @ es)"
    if "list_all is_command es" "length es \<le> burst allow_p256" for es
    using paced_after_burst [OF that, of attempts "[]"] assms by simp
  show ?case
  proof (rule sat_weaken [OF brief_round_attempt [unfolded brief_def, OF 3(2)]], goal_cases)
    case (1 out es)
    then show ?case
      using paced_after_burst [of es "burst allow_p256" attempts _ "Inr ()"] done_empty [of es] assms
      by (cases out) (auto simp: 3(4) split: cert_outcome.splits)
  qed
qed (use assms in \<open>auto simp: paced_after_def MAX_CERT_ATTEMPTS_def\<close>)

lemma sat_cert_loop_paced:
  "sat (cert_loop fuel H C la allow_p256 hcs attempts dead) (\<lambda>_. paced_after (burst allow_p256) attempts)"
proof (induction hcs arbitrary: attempts dead)
  case (Cons hc hcs)
  show ?case
  proof (cases "MAX_CERT_ATTEMPTS \<le> attempts")
    case False
    then have "attempts < MAX_CERT_ATTEMPTS" by simp
    from sat_cert_round_paced [OF this] show ?thesis
      unfolding cert_loop.simps(2) if_not_P [OF False]
    proof (rule sat_bindO, goal_cases)
      case (2 r es)
      then show ?case
        by (cases r) (auto intro: sat_weaken [OF Cons.IH])
    qed simp
  qed simp
qed simp

text \<open>
  C16. The wedge guard: over any list of host certificates a handshake sends at most three bursts of
  commands, each of at most 13 commands (26 where the P-256 exchange may follow a failed one),
  and between two bursts it waits for the back-off of one second.
\<close>
theorem aacs_wedge_guard:
  "paced (burst allow_p256) (MAX_CERT_ATTEMPTS - 1) (burst allow_p256)
     (events_of (run_cert_handshake_with_anchors fuel H C host_certs v1 v2 allow_p256) w)"
  using sat_run [OF sat_cert_loop_paced [of fuel H C _ allow_p256 host_certs 0]]
  by (simp add: run_cert_handshake_with_anchors_def paced_after_def)

section \<open>No usable certificate\<close>

lemma sat_cert_loop_attempted:
  "0 < attempts \<Longrightarrow> sat (cert_loop fuel H C la allow_p256 hcs attempts dead) (\<lambda>r _. r \<noteq> Some (Inl NoUsableHostCert))"
proof (induction hcs arbitrary: attempts dead)
  case (Cons hc hcs)
  have "sat (cert_round fuel H C la allow_p256 hc attempts dead) (\<lambda>r _. case r of
      Some (Inl f) \<Rightarrow> f \<noteq> Inl NoUsableHostCert | Some (Inr (n, _)) \<Rightarrow> 0 < n | None \<Rightarrow> True)"
    by (rule sat_cert_round) (use Cons.prems in \<open>auto intro!: sat_weaken [OF sat_True] split: option.split cert_outcome.split\<close>)
  note round = this
  have "sat (bindO (cert_round fuel H C la allow_p256 hc attempts dead) (\<lambda>r. case r of
         Inl final \<Rightarrow> ret (Some final)
       | Inr (attempts, dead) \<Rightarrow> cert_loop fuel H C la allow_p256 hcs attempts dead))
      (\<lambda>r _. r \<noteq> Some (Inl NoUsableHostCert))"
    by (rule sat_bindO [OF round]) (auto intro!: Cons.IH split: sum.split)
  with Cons.prems show ?case by (simp add: no_vid_def)
qed (simp add: no_vid_def)

definition cert_unusable :: "bool \<Rightarrow> host_cert \<Rightarrow> bool" where
  "cert_unusable allow_p256 hc \<longleftrightarrow> \<not> v1_creds_usable hc \<and> \<not> v2_creds_usable hc allow_p256"

lemma sat_cert_loop_fresh:
  "sat (cert_loop fuel H C la allow_p256 hcs 0 False) (\<lambda>r es.
     (r = Some (Inl NoUsableHostCert) \<longleftrightarrow> list_all (cert_unusable allow_p256) hcs)
     \<and> (list_all (cert_unusable allow_p256) hcs \<longrightarrow> es = []))"
proof (induction hcs)
  case (Cons hc hcs)
  show ?case
  proof (cases "cert_unusable allow_p256 hc")
    case True
    then show ?thesis
      using Cons.IH by (auto simp: cert_round_def Let_def cert_unusable_def bindO_def MAX_CERT_ATTEMPTS_def)
  next
    case False
    have "sat (cert_round fuel H C la allow_p256 hc 0 False) (\<lambda>r _. case r of
        Some (Inl f) \<Rightarrow> f \<noteq> Inl NoUsableHostCert | Some (Inr (n, _)) \<Rightarrow> 0 < n | None \<Rightarrow> True)"
      using False unfolding cert_round_def Let_def cert_unusable_def
      by (auto intro!: sat_bindO [OF sat_True] split: cert_outcome.split)
    then show ?thesis
      unfolding cert_loop.simps(2)
      using False
      by (auto simp: MAX_CERT_ATTEMPTS_def intro!: sat_bindO split: sum.split
          elim!: sat_weaken [OF sat_cert_loop_attempted])
  qed
qed (simp add: no_vid_def)

text \<open>
  The handshake reports that there is no usable host certificate exactly when every certificate
  of the list is truncated or paired with a wrong key (and, where the P-256 exchange is allowed,
  has no usable second pair); then no command is sent at all.
\<close>
theorem aacs_no_usable_cert:
  "(result_of (run_cert_handshake_with_anchors fuel H C host_certs v1 v2 allow_p256) w = Some (Inl NoUsableHostCert)
      \<longleftrightarrow> list_all (cert_unusable allow_p256) host_certs)
   \<and> events_of (run_cert_handshake_with_anchors fuel H C
        (filter (cert_unusable allow_p256) host_certs) v1 v2 allow_p256) w = []"
  using sat_run [OF sat_cert_loop_fresh, of fuel H C _ allow_p256 host_certs w]
    sat_run [OF sat_cert_loop_fresh, of fuel H C _ allow_p256 "filter (cert_unusable allow_p256) host_certs" w]
  by (simp add: run_cert_handshake_with_anchors_def list_all_iff)

end
