(* ===== verification/Aacs_Errors.thy ===== *)
theory Aacs_Errors
  imports Aacs_Trace
begin

text \<open>
  Which faults end the AACS handshake as a dead bus: exactly a dead bus on a command that matters
  and a refused back-off. The sweep of stale AGIDs and the clean-up commands are best effort.
\<close>

section \<open>Reporting through fuel\<close>

text \<open>
  \<open>tells T F m\<close>: when the program returns a result, the result satisfies \<open>T\<close> exactly when one of
  the events satisfies \<open>F\<close>.
\<close>

definition tells :: "('a \<Rightarrow> bool) \<Rightarrow> (event \<Rightarrow> bool) \<Rightarrow> ('w, 'a option) io \<Rightarrow> bool" where
  "tells T F m \<longleftrightarrow> sat m (\<lambda>r es. case r of None \<Rightarrow> True | Some a \<Rightarrow> T a \<longleftrightarrow> list_ex F es)"

lemma tells_ret: "(case r of None \<Rightarrow> True | Some a \<Rightarrow> \<not> T a) \<Longrightarrow> tells T F (ret r)"
  by (auto simp: tells_def split: option.split)

lemma tells_if: "(b \<Longrightarrow> tells T F m) \<Longrightarrow> (\<not> b \<Longrightarrow> tells T F m') \<Longrightarrow> tells T F (if b then m else m')"
  by simp

lemma no_list_ex: "list_all (\<lambda>e. \<not> F e) es \<Longrightarrow> \<not> list_ex F es"
  by (simp add: list_all_iff list_ex_iff)

lemma tells_after: "\<not> list_ex F es \<Longrightarrow> tells T F m \<Longrightarrow>
    sat m (\<lambda>r es'. case r of None \<Rightarrow> True | Some a \<Rightarrow> T a \<longleftrightarrow> list_ex F (es @ es'))"
  unfolding tells_def by (erule sat_weaken) (auto split: option.splits)

lemma tells_quiet: "emits (\<lambda>e. \<not> F e) m \<Longrightarrow> (\<And>a. tells T F (f a)) \<Longrightarrow> tells T F (bind_io m f)"
  unfolding tells_def [of T F "bind_io m f"] emits_def
  by (erule sat_bind) (auto dest: no_list_ex intro: tells_after)

lemma tells_quietO: "emits (\<lambda>e. \<not> F e) m \<Longrightarrow> (\<And>a. tells T F (f a)) \<Longrightarrow> tells T F (bindO m f)"
  unfolding bindO_def by (erule tells_quiet) (auto intro: tells_ret split: option.split)

text \<open>After a reporting program: go on when it reported nothing, keep the report otherwise.\<close>

lemma tells_bindO:
  assumes "tells T F m" and "\<And>a. \<not> T a \<Longrightarrow> tells T' F (f a)"
    and "\<And>a. T a \<Longrightarrow> sat (f a) (\<lambda>r _. case r of None \<Rightarrow> True | Some b \<Rightarrow> T' b)"
  shows "tells T' F (bindO m f)"
  unfolding tells_def [of T']
proof (rule sat_bindO [OF assms(1) [unfolded tells_def]], goal_cases)
  case (2 a es)
  show ?case
  proof (cases "T a")
    case True
    with 2 show ?thesis
      by (intro sat_weaken [OF assms(3) [OF True]]) (auto split: option.splits)
  qed (use 2 assms(2) in \<open>auto intro: tells_after\<close>)
qed simp

definition tells_now :: "('a \<Rightarrow> bool) \<Rightarrow> (event \<Rightarrow> bool) \<Rightarrow> ('w, 'a) io \<Rightarrow> bool" where
  "tells_now T F m \<longleftrightarrow> sat m (\<lambda>a es. T a \<longleftrightarrow> list_ex F es)"

lemma tells_bind:
  assumes "tells_now T F m" and "\<And>a. \<not> T a \<Longrightarrow> tells T' F (f a)"
    and "\<And>a. T a \<Longrightarrow> sat (f a) (\<lambda>r _. case r of None \<Rightarrow> True | Some b \<Rightarrow> T' b)"
  shows "tells T' F (bind_io m f)"
  unfolding tells_def [of T']
proof (rule sat_bind [OF assms(1) [unfolded tells_now_def]], goal_cases)
  case (1 a es)
  show ?case
  proof (cases "T a")
    case True
    with 1 show ?thesis
      by (intro sat_weaken [OF assms(3) [OF True]]) (auto split: option.splits)
  qed (use 1 assms(2) in \<open>auto intro: tells_after\<close>)
qed

section \<open>The faults that matter\<close>

fun aacs_fatal :: "event \<Rightarrow> bool" where
  "aacs_fatal (Exec cdb _ _ _ (Inl e) _) \<longleftrightarrow> is_dead_bus e \<and> \<not> best_effort_key cdb"
| "aacs_fatal (Pause _ (Inl _)) \<longleftrightarrow> True"
| "aacs_fatal _ \<longleftrightarrow> False"

lemma aacs_fatal_exec: "exec_cdb ev = Some cdb \<Longrightarrow> aacs_fatal ev \<longleftrightarrow> dead_event ev \<and> \<not> best_effort_key cdb"
  by (cases ev) (auto split: sum.split elim: aacs_fatal.elims dead_event.elims)

lemma aacs_fatal_cleanup: "cleanup_cdb ev = Some cdb \<Longrightarrow> \<not> aacs_fatal ev"
  by (cases ev) auto

lemma best_effort_key_cdbs [simp]:
  "best_effort_key (cdb_report_key agid fmt len) \<longleftrightarrow> fmt AND 0x3F = 0x3F"
  "\<not> best_effort_key (cdb_send_key agid fmt len)" "\<not> best_effort_key (cdb_report_disc_structure agid fmt len)"
  by (simp_all add: best_effort_key_def)

text \<open>The failure part of a result.\<close>

definition lost :: "('e \<Rightarrow> bool) \<Rightarrow> 'e + 'a \<Rightarrow> bool" where
  "lost is_t r \<longleftrightarrow> (case r of Inl e \<Rightarrow> is_t e | Inr _ \<Rightarrow> False)"

lemma lost_simps [simp]: "lost is_t (Inl e) \<longleftrightarrow> is_t e" "\<not> lost is_t (Inr a)"
  by (simp_all add: lost_def)

lemma tells_read_step:
  assumes "\<not> best_effort_key cdb" "\<not> is_scsi_transport_failure fb" "\<And>buf. tells (lost v1_transport) aacs_fatal (f buf)"
  shows "tells (lost v1_transport) aacs_fatal (bindEF (handshake_step fb (scsi_read H cdb n)) f)"
  unfolding tells_def
proof (rule sat_read_step, goal_cases)
  case (1 ev)
  then have "\<not> list_ex aacs_fatal [ev]" by (simp add: aacs_fatal_exec exec_ok_not_dead)
  from tells_after [OF this assms(3)] show ?case unfolding append.simps .
qed (use assms in \<open>auto simp: aacs_fatal_exec\<close>)

lemma tells_write_step:
  assumes "\<not> best_effort_key cdb" "\<not> is_scsi_transport_failure fb" "tells (lost v1_transport) aacs_fatal (f ())"
  shows "tells (lost v1_transport) aacs_fatal (bindEF (handshake_step fb (scsi_write H cdb data)) f)"
  unfolding tells_def
proof (rule sat_write_step, goal_cases)
  case (1 ev)
  then have "\<not> list_ex aacs_fatal [ev]" by (simp add: aacs_fatal_exec exec_ok_not_dead)
  from tells_after [OF this assms(3)] show ?case unfolding append.simps .
qed (use assms in \<open>auto simp: aacs_fatal_exec\<close>)

lemma tells_exchange:
  "tells (lost v1_transport) aacs_fatal (exchange_key_points fuel H S agid priv cert nonce keys dn dc)"
  unfolding exchange_key_points_def Let_def split_beta
  by (rule tells_read_step, simp, simp, rule tells_if, simp add: tells_ret, rule tells_quietO [OF emits_sign],
      rule tells_if, simp add: tells_ret, rule tells_write_step)
    (auto intro: tells_ret split: option.split)

text \<open>No check of a certificate reports a dead bus.\<close>

definition check_local :: "ake_suite \<Rightarrow> bool" where
  "check_local S \<longleftrightarrow> (\<forall>cert f. su_check_cert S cert = Inl f \<longrightarrow> \<not> v1_transport f)"

lemma check_local_suites: "check_local (aacs1_suite C x y)" "check_local (p256_suite C x y)"
  by (auto simp: check_local_def aacs1_suite_def p256_suite_def check_cert_v1_def check_cert_v2_def
      split: if_splits)

lemma tells_ake_with_agid:
  assumes "check_local S"
  shows "tells (lost v1_transport) aacs_fatal (ake_with_agid fuel H S agid priv host_cert)"
  unfolding ake_with_agid_def Let_def
  by (rule tells_quiet [OF emits_fill_bytes], rule tells_quietO [OF emits_generate],
      rule tells_write_step, simp, simp, rule tells_read_step)
    (use assms in \<open>auto simp: check_local_def intro: tells_ret tells_exchange split: sum.split\<close>)

lemma emits_drop_not_fatal: "emits (\<lambda>e. \<not> aacs_fatal e) (agid_guard_drop H g)"
  by (intro emits_intros) simp

lemma sat_quiet_result: "(\<And>a. sat (f a) (\<lambda>r _. Q r)) \<Longrightarrow> sat (bind_io m f) (\<lambda>r _. Q r)"
  by (rule sat_bind [OF sat_True]) simp

lemma tells_ake:
  assumes "check_local S"
  shows "tells (lost v1_transport) aacs_fatal (ake fuel H S priv host_cert)"
proof -
  have release: "tells (lost v1_transport) aacs_fatal
      (bind_io (agid_guard_drop H g) (\<lambda>_. ret (Some (Inl f))))" if "\<not> v1_transport f" for g f
    using that by (auto intro!: tells_quiet [OF emits_drop_not_fatal] tells_ret)
  have kept: "sat (bind_io (agid_guard_drop H g) (\<lambda>_. ret (Some (Inl f))))
      (\<lambda>r _. case r of None \<Rightarrow> True | Some b \<Rightarrow> lost v1_transport b)" if "v1_transport f" for g f
    using that by (auto intro!: sat_quiet_result)
  have sweep: "emits (\<lambda>e. \<not> aacs_fatal e) (sweep_agids H as)" for "as"
    by (rule emits_sweep) (simp add: aacs_fatal_exec release_cdb_def)
  show ?thesis
    unfolding ake_def Let_def
    by (rule tells_if, simp add: tells_ret, rule tells_quiet [OF sweep], rule tells_read_step, simp, simp,
        rule tells_bindO [OF tells_ake_with_agid [OF assms]])
      (auto intro: release kept tells_ret split: sum.split)
qed

section \<open>After the exchange\<close>

lemma tells_now_vid: "tells_now (\<lambda>(r, _). lost is_scsi_transport_failure r) aacs_fatal (read_volume_id H C auth)"
  unfolding tells_now_def
proof (rule sat_weaken [OF sat_read_volume_id], goal_cases)
  case (1 r es)
  then show ?case
    by (cases "fst r") (auto simp: aacs_fatal_exec vid_read_def exec_ok_not_dead split_beta)
qed

lemma tells_now_keys: "tells_now (\<lambda>(r, _). lost is_scsi_transport_failure r) aacs_fatal (read_data_keys H C auth)"
  unfolding tells_now_def
proof (rule sat_weaken [OF sat_read_data_keys], goal_cases)
  case (1 r es)
  then show ?case
    by (cases "fst r") (auto simp: aacs_fatal_exec key_read_def exec_ok_not_dead split_beta)
qed

lemma sat_drop_not_fatal: "sat (agid_guard_drop H g) (\<lambda>_ es. \<not> list_ex aacs_fatal es)"
  using emits_drop_not_fatal [unfolded emits_def, of H g] by (rule sat_weaken) (rule no_list_ex)

lemma tells_now_finish: "tells_now (\<lambda>r. r = Inl FinishTransport) aacs_fatal (finish_auth H C g auth)"
  unfolding tells_now_def finish_auth_def
proof (rule sat_bind [OF tells_now_vid [unfolded tells_now_def]], clarify, goal_cases)
  case (1 r auth' es)
  show ?case
  proof (cases r)
    case (Inl e)
    with 1 show ?thesis by (auto intro!: sat_bind [OF sat_drop_not_fatal])
  next
    case (Inr v)
    with 1 have es: "\<not> list_ex aacs_fatal es" by simp
    have keys: "sat (bind_io (read_data_keys H C auth') (\<lambda>(r, _). ret (Some r)))
        (\<lambda>r es. \<exists>k. r = Some k \<and> (lost is_scsi_transport_failure k \<longleftrightarrow> list_ex aacs_fatal es))"
      by (rule sat_bind [OF tells_now_keys [unfolded tells_now_def]]) auto
    show ?thesis
      unfolding Inr sum.case Let_def
      using es by (auto intro!: sat_bind [OF keys] sat_bind [OF sat_drop_not_fatal] split: sum.split)
  qed
qed

definition out_lost :: "cert_outcome \<Rightarrow> bool" where
  "out_lost out \<longleftrightarrow> out = CertTransport"

lemma tells_attempt_p256: "tells out_lost aacs_fatal (attempt_p256 fuel H C hc la dead)"
proof -
  have ake: "tells (lost is_scsi_transport_failure) aacs_fatal (aacs2_authenticate_p256_with_anchor fuel H C k c x y)" for k c x y
    unfolding aacs2_authenticate_p256_with_anchor_def tells_def
    by (rule sat_bind [OF tells_ake [OF check_local_suites(2), unfolded tells_def]])
      (auto simp: lost_def v1_transport_into_error split: option.splits sum.splits)
  show ?thesis
    unfolding attempt_p256_def
    by (auto intro!: tells_ret tells_bindO [OF ake] tells_bind [OF tells_now_finish]
        simp: out_lost_def split: option.split sum.split finish_err.split)
qed

lemma tells_attempt_one_cert: "tells out_lost aacs_fatal (attempt_one_cert fuel H C hc la try_v1 has_v2)"
  unfolding attempt_one_cert_def aacs1_ake_def
  by (auto intro!: tells_ret tells_attempt_p256 tells_bindO [OF tells_ake [OF check_local_suites(1)]]
      tells_bind [OF tells_now_finish] simp: out_lost_def split: sum.split finish_err.split v1_fail.split)

section \<open>The whole handshake\<close>

lemma tells_cert_round:
  "tells (\<lambda>r. r = Inl (Inl Transport)) aacs_fatal (cert_round fuel H C la allow_p256 hc attempts dead)"
  unfolding tells_def
proof (rule sat_cert_round, goal_cases)
  case (3 try_v1 has_v2 pre)
  show ?case
  proof (rule sat_weaken [OF tells_attempt_one_cert [unfolded tells_def]], goal_cases)
    case (1 out es)
    then show ?case by (cases out) (auto simp: 3(4) out_lost_def split: cert_outcome.splits)
  qed
qed simp_all

lemma tells_cert_loop:
  "tells (\<lambda>r. r = Inl Transport) aacs_fatal (cert_loop fuel H C la allow_p256 hcs attempts dead)"
proof (induction hcs arbitrary: attempts dead)
  case (Cons hc hcs)
  then show ?case
    by (auto intro!: tells_ret tells_bindO [OF tells_cert_round] simp: no_vid_def split: sum.split)
qed (simp add: tells_ret no_vid_def)

text \<open>
  C37. A dead bus is reported exactly when there was one: the handshake returns the transport error
  iff a command other than the best-effort release of an AGID met a dead bus, or the back-off
  between two attempts was refused. Every other failure (a refusal of the drive, a short
  transfer, a bad certificate, signature or MAC) is some other error.
\<close>
theorem aacs_transport_iff:
  "case result_of (run_cert_handshake_with_anchors fuel H C host_certs v1 v2 allow_p256) w of
     None \<Rightarrow> True
   | Some r \<Rightarrow> r = Inl Transport \<longleftrightarrow>
       list_ex aacs_fatal (events_of (run_cert_handshake_with_anchors fuel H C host_certs v1 v2 allow_p256) w)"
  using sat_run [OF tells_cert_loop [unfolded tells_def]]
  unfolding run_cert_handshake_with_anchors_def by metis

end
