(* ===== verification/Firmware.thy ===== *)
theory Firmware
  imports Protocol Replay
begin

text \<open>
  The typed driver for the freemkv vendor commands, \<open>src/firmware/mod.rs\<close>: \<open>FirmwareControl\<close>
  borrows a transport and holds no other state, so its methods are programs over the host.
  The named recipes are stated against an abstract plan: the list of steps each performs.
\<close>

section \<open>Errors and data\<close>

datatype firmware_error =
    Rejected
  | UnsupportedFirmware
  | InvalidArgument
  | VerifyFailed feature u8 u8
  | FwTransport

record feature_states =
  fs_speed :: u8
  fs_region :: u8
  fs_unrestricted :: u8
  fs_hrl :: u8
  fs_encryption :: u8

definition all_passthrough :: feature_states where
  "all_passthrough = \<lparr> fs_speed = STATE_PASSTHROUGH, fs_region = STATE_PASSTHROUGH,
     fs_unrestricted = STATE_PASSTHROUGH, fs_hrl = STATE_PASSTHROUGH,
     fs_encryption = STATE_PASSTHROUGH \<rparr>"

fun fs_get :: "feature_states \<Rightarrow> feature \<Rightarrow> u8" where
  "fs_get s Speed = fs_speed s"
| "fs_get s Region = fs_region s"
| "fs_get s Unrestricted = fs_unrestricted s"
| "fs_get s Hrl = fs_hrl s"
| "fs_get s Encryption = fs_encryption s"

fun fs_set :: "feature_states \<Rightarrow> feature \<Rightarrow> u8 \<Rightarrow> feature_states" where
  "fs_set s Speed st = s\<lparr> fs_speed := st \<rparr>"
| "fs_set s Region st = s\<lparr> fs_region := st \<rparr>"
| "fs_set s Unrestricted st = s\<lparr> fs_unrestricted := st \<rparr>"
| "fs_set s Hrl st = s\<lparr> fs_hrl := st \<rparr>"
| "fs_set s Encryption st = s\<lparr> fs_encryption := st \<rparr>"

lemma fs_get_set: "fs_get (fs_set s f st) g = (if g = f then st else fs_get s g)"
  by (cases f; cases g) auto

lemma feature_states_eqI: "(\<And>f. fs_get s f = fs_get t f) \<Longrightarrow> s = t"
  using fs_get.simps by (metis (full_types) feature_states.equality old.unit.exhaust)

datatype arm_recipe = OemBd | OemUhd | BypassBd | BypassUhd | StealthOem

fun disables_encryption :: "arm_recipe \<Rightarrow> bool" where
  "disables_encryption OemUhd = True"
| "disables_encryption BypassBd = True"
| "disables_encryption BypassUhd = True"
| "disables_encryption _ = False"

section \<open>The driver\<close>

definition CMD_TIMEOUT_MS :: u32 where [const_defs]: "CMD_TIMEOUT_MS = 5000"

definition exec_in :: "'w host \<Rightarrow> bytes \<Rightarrow> ('w, firmware_error + bytes \<times> nat) io" where
  "exec_in H cdb =
     bind_io (execute H cdb FromDevice (zeros MEMREAD_LEN) CMD_TIMEOUT_MS) (\<lambda>(r, buf).
     case r of
       Inr res \<Rightarrow> if res_status res = 0 then okE (buf, res_transferred res) else errE Rejected
     | Inl e \<Rightarrow> errE (if is_dead_bus e then FwTransport else Rejected))"

definition fw_identity :: "'w host \<Rightarrow> ('w, firmware_error + firmware_identity option) io" where
  "fw_identity H =
     bind_io (exec_in H (build_identity_cdb (of_nat MEMREAD_LEN))) (\<lambda>r.
     case r of
       Inr (buf, n) \<Rightarrow> okE (firmware_identity_parse (take (min n (length buf)) buf))
     | Inl e \<Rightarrow> if e = Rejected then okE None else errE e)"

definition descriptor :: "'w host \<Rightarrow> ('w, firmware_error + protocol_identity option) io" where
  "descriptor H =
     bind_io (exec_in H (build_identity_cdb (of_nat MEMREAD_LEN))) (\<lambda>r.
     case r of
       Inr (buf, n) \<Rightarrow> if n \<le> length buf then okE (protocol_identity_parse (take n buf)) else errE Rejected
     | Inl e \<Rightarrow> if e = Rejected then okE None else errE e)"

definition is_freemkv :: "'w host \<Rightarrow> ('w, firmware_error + bool) io" where
  "is_freemkv H = bindE (fw_identity H) (\<lambda>i. okE (i \<noteq> None))"

definition fw_get :: "'w host \<Rightarrow> feature \<Rightarrow> ('w, firmware_error + u8) io" where
  "fw_get H f =
     bindE (exec_in H (build_get_cdb f)) (\<lambda>(buf, n).
     if n = 0 then errE Rejected else okE (byte_at buf 0))"

definition fw_set :: "'w host \<Rightarrow> feature \<Rightarrow> u8 \<Rightarrow> ('w, firmware_error + unit) io" where
  "fw_set H f st = bindE (exec_in H (build_set_cdb f st)) (\<lambda>_. okE ())"

definition fw_reset :: "'w host \<Rightarrow> ('w, firmware_error + unit) io" where
  "fw_reset H = bindE (exec_in H (build_reset_cdb RESET_TO_OEM)) (\<lambda>_. okE ())"

definition reset_to_defaults :: "'w host \<Rightarrow> ('w, firmware_error + unit) io" where
  "reset_to_defaults H = bindE (exec_in H (build_reset_cdb RESET_TO_DEFAULTS)) (\<lambda>_. okE ())"

definition reset_to_flash :: "'w host \<Rightarrow> ('w, firmware_error + unit) io" where
  "reset_to_flash H = bindE (exec_in H (build_reset_cdb RESET_TO_FLASH)) (\<lambda>_. okE ())"

definition fw_save :: "'w host \<Rightarrow> ('w, firmware_error + unit) io" where
  "fw_save H = bindE (exec_in H build_save_cdb) (\<lambda>_. okE ())"

definition set_verify :: "'w host \<Rightarrow> feature \<Rightarrow> u8 \<Rightarrow> ('w, firmware_error + unit) io" where
  "set_verify H f st =
     bindE (fw_set H f st) (\<lambda>_.
     bindE (fw_get H f) (\<lambda>got.
     if got = st then okE () else errE (VerifyFailed f st got)))"

definition require_supported :: "'w host \<Rightarrow> ('w, firmware_error + unit) io" where
  "require_supported H =
     bindE (fw_identity H) (\<lambda>i. case i of
       Some i \<Rightarrow> if is_supported i then okE () else errE UnsupportedFirmware
     | None \<Rightarrow> errE UnsupportedFirmware)"

primrec states_loop :: "'w host \<Rightarrow> feature list \<Rightarrow> feature_states \<Rightarrow> ('w, firmware_error + feature_states) io" where
  "states_loop H [] s = okE s"
| "states_loop H (f # fs) s = bindE (fw_get H f) (\<lambda>v. states_loop H fs (fs_set s f v))"

definition states :: "'w host \<Rightarrow> ('w, firmware_error + feature_states) io" where
  "states H = states_loop H ALL_FEATURES all_passthrough"

definition dump :: "'w host \<Rightarrow> u32 \<Rightarrow> ('w, firmware_error + bytes) io" where
  "dump H addr =
     bindE (exec_in H (build_memread_cdb addr)) (\<lambda>(buf, n).
     if n < MEMREAD_LEN then errE Rejected else okE buf)"

subsection \<open>Typed setters\<close>

definition enable_unrestricted :: "'w host \<Rightarrow> ('w, firmware_error + unit) io" where
  "enable_unrestricted H = fw_set H Unrestricted STATE_ON"
definition disable_unrestricted :: "'w host \<Rightarrow> ('w, firmware_error + unit) io" where
  "disable_unrestricted H = fw_set H Unrestricted STATE_OFF"
definition skip_hrl :: "'w host \<Rightarrow> ('w, firmware_error + unit) io" where
  "skip_hrl H = fw_set H Hrl STATE_OFF"
definition disable_encryption :: "'w host \<Rightarrow> ('w, firmware_error + unit) io" where
  "disable_encryption H = fw_set H Encryption STATE_OFF"
definition region_free :: "'w host \<Rightarrow> ('w, firmware_error + unit) io" where
  "region_free H = fw_set H Region REGION_FREE"
definition force_region_bd :: "'w host \<Rightarrow> bd_region \<Rightarrow> ('w, firmware_error + unit) io" where
  "force_region_bd H r = fw_set H Region (bd_region_state r)"
definition force_region_dvd :: "'w host \<Rightarrow> u8 \<Rightarrow> ('w, firmware_error + unit) io" where
  "force_region_dvd H region =
     (if \<not> (1 \<le> region \<and> region \<le> 8) then errE InvalidArgument
      else fw_set H Region (REGION_DVD_BASE + region))"
definition unlock_speed :: "'w host \<Rightarrow> ('w, firmware_error + unit) io" where
  "unlock_speed H = fw_set H Speed SPEED_MAX"

subsection \<open>Recipes\<close>

definition arm_oem_bd :: "'w host \<Rightarrow> ('w, firmware_error + unit) io" where
  "arm_oem_bd H =
     bindE (require_supported H) (\<lambda>_.
     set_verify H Hrl STATE_OFF)"

definition arm_oem_uhd :: "'w host \<Rightarrow> ('w, firmware_error + unit) io" where
  "arm_oem_uhd H =
     bindE (require_supported H) (\<lambda>_.
     bindE (set_verify H Unrestricted STATE_ON) (\<lambda>_.
     bindE (set_verify H Hrl STATE_OFF) (\<lambda>_.
     set_verify H Encryption STATE_OFF)))"

definition arm_bypass_bd :: "'w host \<Rightarrow> ('w, firmware_error + unit) io" where
  "arm_bypass_bd H =
     bindE (require_supported H) (\<lambda>_.
     bindE (set_verify H Hrl STATE_OFF) (\<lambda>_.
     set_verify H Encryption STATE_OFF))"

definition arm_bypass_uhd :: "'w host \<Rightarrow> ('w, firmware_error + unit) io" where
  "arm_bypass_uhd H =
     bindE (require_supported H) (\<lambda>_.
     bindE (set_verify H Unrestricted STATE_ON) (\<lambda>_.
     bindE (set_verify H Hrl STATE_OFF) (\<lambda>_.
     set_verify H Encryption STATE_OFF)))"

primrec verify_passthrough :: "'w host \<Rightarrow> feature list \<Rightarrow> ('w, firmware_error + unit) io" where
  "verify_passthrough H [] = okE ()"
| "verify_passthrough H (f # fs) =
     bindE (fw_get H f) (\<lambda>got.
     if got \<noteq> STATE_PASSTHROUGH then errE (VerifyFailed f STATE_PASSTHROUGH got)
     else verify_passthrough H fs)"

definition arm_stealth_oem :: "'w host \<Rightarrow> ('w, firmware_error + unit) io" where
  "arm_stealth_oem H =
     bindE (require_supported H) (\<lambda>_.
     bindE (fw_reset H) (\<lambda>_.
     verify_passthrough H ALL_FEATURES))"

fun arm :: "'w host \<Rightarrow> arm_recipe \<Rightarrow> ('w, firmware_error + unit) io" where
  "arm H OemBd = arm_oem_bd H"
| "arm H OemUhd = arm_oem_uhd H"
| "arm H BypassBd = arm_bypass_bd H"
| "arm H BypassUhd = arm_bypass_uhd H"
| "arm H StealthOem = arm_stealth_oem H"

section \<open>Every command stops at a dead bus\<close>

abbreviation fw_dead :: "firmware_error \<Rightarrow> bool" where
  "fw_dead e \<equiv> e = FwTransport"

lemma exec_in_abort [abort_intros]: "stops_on_dead fw_dead (exec_in H cdb)"
  unfolding exec_in_def
  by (rule stops_on_dead_execute) (auto intro!: abort_intros split: sum.split)

lemma fw_identity_abort [abort_intros]: "stops_on_dead fw_dead (fw_identity H)"
proof -
  have "sat (fw_identity H) (aborts fw_dead)"
    unfolding fw_identity_def
    by (rule sat_bind [OF exec_in_abort [unfolded stops_on_dead_def]])
       (auto split: sum.splits simp: aborts_def)
  then show ?thesis by (simp add: stops_on_dead_def)
qed

lemma fw_get_abort [abort_intros]: "stops_on_dead fw_dead (fw_get H f)"
  unfolding fw_get_def by (auto intro!: abort_intros)

lemma fw_set_abort [abort_intros]: "stops_on_dead fw_dead (fw_set H f st)"
  unfolding fw_set_def by (auto intro!: abort_intros)

lemma fw_reset_abort [abort_intros]: "stops_on_dead fw_dead (fw_reset H)"
  unfolding fw_reset_def by (auto intro!: abort_intros)

lemma set_verify_abort [abort_intros]: "stops_on_dead fw_dead (set_verify H f st)"
  unfolding set_verify_def by (auto intro!: abort_intros)

lemma require_supported_abort [abort_intros]: "stops_on_dead fw_dead (require_supported H)"
  unfolding require_supported_def by (auto intro!: abort_intros)

lemma verify_passthrough_abort [abort_intros]: "stops_on_dead fw_dead (verify_passthrough H fs)"
  by (induction fs) (auto intro!: abort_intros)

lemma arm_abort: "stops_on_dead fw_dead (arm H recipe)"
  by (cases recipe) (auto simp: arm_oem_bd_def arm_oem_uhd_def arm_bypass_bd_def
      arm_bypass_uhd_def arm_stealth_oem_def intro!: abort_intros)

section \<open>The recipes perform their plan\<close>

text \<open>
  The abstract specification: a recipe is a list of steps. A step is one command; it either
  succeeds, and the recipe goes on, or it fails with a definite error, and nothing more is sent.
\<close>

datatype step = Ident | DoSet feature u8 | Confirm feature u8 | DoReset

fun step_cdb :: "step \<Rightarrow> bytes" where
  "step_cdb Ident = build_identity_cdb 64"
| "step_cdb (DoSet f v) = build_set_cdb f v"
| "step_cdb (Confirm f v) = build_get_cdb f"
| "step_cdb DoReset = build_reset_cdb RESET_TO_OEM"

definition supported_reply :: "bytes \<Rightarrow> bool" where
  "supported_reply bs = (case firmware_identity_parse bs of None \<Rightarrow> False | Some i \<Rightarrow> is_supported i)"

fun answer_ok :: "step \<Rightarrow> nat \<Rightarrow> bytes \<Rightarrow> bool" where
  "answer_ok Ident n buf = supported_reply (take (min n (length buf)) buf)"
| "answer_ok (Confirm f v) n buf = (n \<noteq> 0 \<and> byte_at buf 0 = v)"
| "answer_ok _ n buf = True"

fun step_ok :: "step \<Rightarrow> event \<Rightarrow> bool" where
  "step_ok st (Exec _ _ _ _ (Inr res) buf) =
     (res_status res = 0 \<and> answer_ok st (res_transferred res) buf)"
| "step_ok st _ = False"

fun refused :: "step \<Rightarrow> firmware_error" where
  "refused Ident = UnsupportedFirmware"
| "refused _ = Rejected"

fun wrong_answer :: "step \<Rightarrow> nat \<Rightarrow> bytes \<Rightarrow> firmware_error" where
  "wrong_answer (Confirm f v) n buf = (if n = 0 then Rejected else VerifyFailed f v (byte_at buf 0))"
| "wrong_answer st n buf = refused st"

fun step_error :: "step \<Rightarrow> event \<Rightarrow> firmware_error" where
  "step_error st (Exec _ _ _ _ (Inl e) _) = (if is_dead_bus e then FwTransport else refused st)"
| "step_error st (Exec _ _ _ _ (Inr res) buf) =
     (if res_status res \<noteq> 0 then refused st else wrong_answer st (res_transferred res) buf)"
| "step_error st _ = Rejected"

fun runs :: "step list \<Rightarrow> firmware_error + unit \<Rightarrow> event list \<Rightarrow> bool" where
  "runs [] r es \<longleftrightarrow> r = Inr () \<and> es = []"
| "runs (st # sts) r [] \<longleftrightarrow> False"
| "runs (st # sts) r (ev # es) \<longleftrightarrow> exec_cdb ev = Some (step_cdb st)
     \<and> (if step_ok st ev then runs sts r es else es = [] \<and> r = Inl (step_error st ev))"

definition set_steps :: "(feature \<times> u8) list \<Rightarrow> step list" where
  "set_steps fs = concat (map (\<lambda>(f, v). [DoSet f v, Confirm f v]) fs)"

fun plan :: "arm_recipe \<Rightarrow> step list" where
  "plan OemBd = Ident # set_steps [(Hrl, STATE_OFF)]"
| "plan OemUhd = Ident # set_steps [(Unrestricted, STATE_ON), (Hrl, STATE_OFF), (Encryption, STATE_OFF)]"
| "plan BypassBd = Ident # set_steps [(Hrl, STATE_OFF), (Encryption, STATE_OFF)]"
| "plan BypassUhd = Ident # set_steps [(Unrestricted, STATE_ON), (Hrl, STATE_OFF), (Encryption, STATE_OFF)]"
| "plan StealthOem = Ident # DoReset # map (\<lambda>f. Confirm f STATE_PASSTHROUGH) ALL_FEATURES"

lemma runs_append: "runs s1 (Inr ()) es1 \<Longrightarrow> runs s2 r es2 \<Longrightarrow> runs (s1 @ s2) r (es1 @ es2)"
  by (induction s1 "Inr () :: firmware_error + unit" es1 rule: runs.induct) (auto split: if_splits)

lemma runs_error: "runs s1 (Inl e) es \<Longrightarrow> runs (s1 @ s2) (Inl e) es"
  by (induction s1 "Inl e :: firmware_error + unit" es rule: runs.induct) (auto split: if_splits)

lemma sat_runs_bindE:
  assumes "sat m (runs s1)" and "\<And>a. sat (f a) (runs s2)"
  shows "sat (bindE m f) (runs (s1 @ s2))"
  by (rule sat_bindE [OF assms(1)])
     (auto intro: runs_error sat_weaken [OF assms(2)] runs_append)

text \<open>One command and what it answered.\<close>

definition exec_in_result :: "scsi_error + scsi_result \<Rightarrow> bytes \<Rightarrow> firmware_error + bytes \<times> nat" where
  "exec_in_result reply buf = (case reply of
     Inl e \<Rightarrow> Inl (if is_dead_bus e then FwTransport else Rejected)
   | Inr res \<Rightarrow> if res_status res = 0 then Inr (buf, res_transferred res) else Inl Rejected)"

lemma sat_bind_exec_in:
  assumes "\<And>reply buf. length buf = 64 \<Longrightarrow>
    sat (f (exec_in_result reply buf)) (\<lambda>b es. Q b (Exec cdb FromDevice (zeros 64) 5000 reply buf # es))"
  shows "sat (bind_io (exec_in H cdb) f) Q"
  unfolding exec_in_def bind_io_assoc
proof (rule sat_bind_execute)
  fix r and buf :: bytes assume "length buf = length (zeros MEMREAD_LEN)"
  with assms [of buf r] show "sat (bind_io (case (r, buf) of (r, buf) \<Rightarrow> (case r of
       Inr res \<Rightarrow> if res_status res = 0 then okE (buf, res_transferred res) else errE Rejected
     | Inl e \<Rightarrow> errE (if is_dead_bus e then FwTransport else Rejected))) f)
     (\<lambda>b es. Q b (Exec cdb FromDevice (zeros MEMREAD_LEN) CMD_TIMEOUT_MS r buf # es))"
    by (cases r) (auto simp: exec_in_result_def const_defs split: if_splits)
qed

lemma sat_bindE_exec_in:
  assumes "\<And>reply buf. length buf = 64 \<Longrightarrow>
    sat (case exec_in_result reply buf of Inl e \<Rightarrow> errE e | Inr a \<Rightarrow> f a)
      (\<lambda>b es. Q b (Exec cdb FromDevice (zeros 64) 5000 reply buf # es))"
  shows "sat (bindE (exec_in H cdb) f) Q"
  unfolding bindE_def by (rule sat_bind_exec_in) (rule assms)

lemma set_runs: "sat (fw_set H f v) (runs [DoSet f v])"
  unfolding fw_set_def
  by (rule sat_bindE_exec_in) (auto simp: exec_in_result_def split: sum.split)

lemma reset_runs: "sat (fw_reset H) (runs [DoReset])"
  unfolding fw_reset_def
  by (rule sat_bindE_exec_in) (auto simp: exec_in_result_def split: sum.split)

text \<open>A GET answers with a value (and then confirms exactly that value) or fails.\<close>

lemma sat_bindE_fw_get:
  assumes "\<And>got ev. exec_cdb ev = Some (build_get_cdb f) \<Longrightarrow>
      \<forall>v. step_ok (Confirm f v) ev \<longleftrightarrow> got = v \<Longrightarrow>
      \<forall>v. got \<noteq> v \<longrightarrow> step_error (Confirm f v) ev = VerifyFailed f v got \<Longrightarrow>
      sat (g got) (\<lambda>b es. Q b (ev # es))"
    and "\<And>e ev. exec_cdb ev = Some (build_get_cdb f) \<Longrightarrow>
      \<forall>v. \<not> step_ok (Confirm f v) ev \<and> step_error (Confirm f v) ev = e \<Longrightarrow> Q (Inl e) [ev]"
  shows "sat (bindE (fw_get H f) g) Q"
  unfolding fw_get_def bindE_def bind_io_assoc
proof (rule sat_bind_exec_in)
  fix reply and buf :: bytes assume "length buf = 64"
  let ?ev = "Exec (build_get_cdb f) FromDevice (zeros 64) 5000 reply buf"
  note ok = assms(1) [of ?ev] and err = assms(2) [of ?ev]
  show "sat (bind_io (case exec_in_result reply buf of Inl e \<Rightarrow> errE e
        | Inr (buf, n) \<Rightarrow> if n = 0 then errE Rejected else okE (byte_at buf 0))
      (case_sum (\<lambda>e. errE e) g)) (\<lambda>b es. Q b (?ev # es))"
    using ok err by (cases reply) (simp_all add: exec_in_result_def)
qed

lemma set_verify_runs: "sat (set_verify H f v) (runs [DoSet f v, Confirm f v])"
proof -
  have "sat (bindE (fw_get H f) (\<lambda>got. if got = v then okE () else errE (VerifyFailed f v got)))
      (runs [Confirm f v])"
    by (rule sat_bindE_fw_get) auto
  with set_runs show ?thesis
    unfolding set_verify_def by (rule sat_runs_bindE [of _ "[DoSet f v]" _ "[Confirm f v]", simplified])
qed

lemma verify_passthrough_runs:
  "sat (verify_passthrough H fs) (runs (map (\<lambda>f. Confirm f STATE_PASSTHROUGH) fs))"
proof (induction fs)
  case Nil
  then show ?case by simp
next
  case (Cons f fs)
  show ?case
    by (auto intro!: sat_bindE_fw_get intro: sat_weaken [OF Cons.IH])
qed

lemma require_supported_runs: "sat (require_supported H) (runs [Ident])"
  unfolding require_supported_def fw_identity_def bindE_def bind_io_assoc
proof (rule sat_bind_exec_in)
  fix reply and buf :: bytes assume buf: "length buf = 64"
  let ?ev = "Exec (build_identity_cdb (of_nat MEMREAD_LEN)) FromDevice (zeros 64) 5000 reply buf"
  show "sat (bind_io (case exec_in_result reply buf of
        Inl e \<Rightarrow> if e = Rejected then okE None else errE e
      | Inr (buf, n) \<Rightarrow> okE (firmware_identity_parse (take (min n (length buf)) buf)))
     (case_sum (\<lambda>e. errE e) (\<lambda>i. case i of None \<Rightarrow> errE UnsupportedFirmware
        | Some i \<Rightarrow> if is_supported i then okE () else errE UnsupportedFirmware)))
     (\<lambda>b es. runs [Ident] b (?ev # es))"
    by (cases reply) (auto simp: exec_in_result_def const_defs supported_reply_def split: option.split)
qed

lemma sat_plan: "sat (arm H recipe) (runs (plan recipe))"
proof -
  note seq = sat_runs_bindE [OF require_supported_runs, simplified append_Cons append_Nil]
    sat_runs_bindE [OF set_verify_runs, simplified append_Cons append_Nil]
    sat_runs_bindE [OF reset_runs, simplified append_Cons append_Nil]
  show ?thesis
    by (cases recipe) (auto simp: arm_oem_bd_def arm_oem_uhd_def arm_bypass_bd_def arm_bypass_uhd_def
        arm_stealth_oem_def set_steps_def intro!: seq set_verify_runs verify_passthrough_runs)
qed

text \<open>
  C18. Every arming recipe performs exactly its plan, for every drive and host: it first asks for
  the identity, then sends the plan's SET or RESET and confirming GET commands in order; it
  stops at the first step that fails, with the error of that step (a refused or unsupported
  identity, a refused command, a read-back that differs, a dead bus), and reports success only
  when the whole plan was sent and every read-back matched.
\<close>
theorem arm_follows_plan:
  "runs (plan recipe) (result_of (arm H recipe) w) (events_of (arm H recipe) w)"
  by (rule sat_run [OF sat_plan])

text \<open>
  An unsupported or foreign drive is never written to: if the identity command did not
  return a supported freemkv banner, a recipe sent that one command and nothing else.
\<close>
theorem arm_refuses_unsupported:
  assumes "events_of (arm H recipe) w = ev # es" and "\<not> step_ok Ident ev"
  shows "es = [] \<and> exec_cdb ev = Some (build_identity_cdb 64)
    \<and> result_of (arm H recipe) w \<in> {Inl UnsupportedFirmware, Inl FwTransport}"
proof -
  have "runs (plan recipe) (result_of (arm H recipe) w) (ev # es)"
    using sat_run [OF sat_plan [of H recipe], of w] assms(1) by simp
  moreover obtain sts where "plan recipe = Ident # sts" by (cases recipe) auto
  moreover have "step_error Ident ev \<in> {UnsupportedFirmware, FwTransport}"
    if "exec_cdb ev = Some (step_cdb Ident)"
    using that by (cases "(Ident, ev)" rule: step_error.cases) auto
  ultimately show ?thesis using assms(2) by auto
qed

text \<open>A foreign drive that refuses the identity command, and a freemkv drive of version 0.8.\<close>

lemma arm_refuses_unsupported_witness:
  "events_of (arm replay_host OemBd) (replaying [refusal]) =
     [Exec (build_identity_cdb 64) FromDevice (zeros 64) 5000 (fst refusal) (zeros 64)]
   \<and> result_of (arm replay_host OemBd) (replaying [refusal]) \<in> {Inl UnsupportedFirmware, Inl FwTransport}"
proof -
  let ?ev = "Exec (build_identity_cdb 64) FromDevice (zeros 64) 5000 (fst refusal) (zeros 64)"
  have run: "events_of (arm replay_host OemBd) (replaying [refusal]) = ?ev # []"
    by code_simp
  have "\<not> step_ok Ident ?ev" by code_simp
  from arm_refuses_unsupported [OF run this] run show ?thesis by simp
qed

text \<open>
  Reading the feature table: \<open>states\<close> asks for every feature once, in wire order, and on
  success returns for each feature exactly the byte its GET answered.
\<close>
theorem states_reads_every_feature:
  assumes "result_of (states H) w = Inr s"
  shows "list_all2 (\<lambda>f ev. exec_cdb ev = Some (build_get_cdb f) \<and> step_ok (Confirm f (fs_get s f)) ev)
    ALL_FEATURES (events_of (states H) w)"
proof -
  have loop: "sat (states_loop H fs s0) (\<lambda>r es. \<forall>s. r = Inr s \<longrightarrow>
      (\<forall>g. g \<notin> set fs \<longrightarrow> fs_get s g = fs_get s0 g) \<and>
      list_all2 (\<lambda>f ev. exec_cdb ev = Some (build_get_cdb f) \<and> step_ok (Confirm f (fs_get s f)) ev) fs es)"
    if "distinct fs" for fs s0
    using that
  proof (induction fs arbitrary: s0)
    case Nil
    then show ?case by simp
  next
    case (Cons f fs)
    then show ?case
      by (auto intro!: sat_bindE_fw_get intro: sat_weaken [OF Cons.IH] simp: fs_get_set)
  qed
  have "distinct ALL_FEATURES" by (simp add: ALL_FEATURES_def)
  from loop [OF this] have "sat (states H) (\<lambda>r es. \<forall>s. r = Inr s \<longrightarrow>
      list_all2 (\<lambda>f ev. exec_cdb ev = Some (build_get_cdb f) \<and> step_ok (Confirm f (fs_get s f)) ev) ALL_FEATURES es)"
    unfolding states_def by (rule sat_weaken) blast
  from sat_run [OF this, of w] assms show ?thesis by simp
qed

definition table_replies :: "((scsi_error + scsi_result) \<times> bytes) list" where
  "table_replies = map (\<lambda>b. good [b]) [0, 1, 2, 0xFE, 0xFF]"

lemma states_reads_every_feature_witness:
  "\<exists>s. result_of (states replay_host) (replaying table_replies) = Inr s
     \<and> list_all2 (\<lambda>f ev. exec_cdb ev = Some (build_get_cdb f) \<and> step_ok (Confirm f (fs_get s f)) ev)
         ALL_FEATURES (events_of (states replay_host) (replaying table_replies))"
proof -
  have "result_of (states replay_host) (replaying table_replies)
      = Inr \<lparr> fs_speed = 0, fs_region = 1, fs_unrestricted = 2, fs_hrl = 0xFE, fs_encryption = 0xFF \<rparr>"
    by code_simp
  from this states_reads_every_feature [OF this] show ?thesis by blast
qed

text \<open>
  A DVD region outside 1..8 is refused before anything is sent; a region in range is sent as
  the SET of the byte 10h + region, which is never a Blu-ray byte and never wraps.
\<close>
theorem force_region_dvd_range:
  "(if 1 \<le> unat region \<and> unat region \<le> 8
    then \<exists>ev. events_of (force_region_dvd H region) w = [ev]
      \<and> exec_cdb ev = Some (build_set_cdb Region (of_nat (16 + unat region)))
    else events_of (force_region_dvd H region) w = [] \<and> result_of (force_region_dvd H region) w = Inl InvalidArgument)"
proof -
  have range: "1 \<le> region \<and> region \<le> 8 \<longleftrightarrow> 1 \<le> unat region \<and> unat region \<le> 8"
    by (simp add: word_le_nat_alt)
  have set: "sat (fw_set H Region (REGION_DVD_BASE + region))
      (\<lambda>_ es. \<exists>ev. es = [ev] \<and> exec_cdb ev = Some (build_set_cdb Region (REGION_DVD_BASE + region)))"
    unfolding fw_set_def
    by (rule sat_bindE_exec_in) (auto simp: exec_in_result_def split: sum.split)
  have "REGION_DVD_BASE + region = of_nat (16 + unat region)"
    by (simp add: const_defs)
  with sat_run [OF set, of w] range show ?thesis
    by (auto simp: force_region_dvd_def run_simps)
qed

end
