(* ===== verification/Aacs.thy ===== *)
theory Aacs
  imports Aacs_Errors Firmware Vid
begin

text \<open>
  The AACS unlocker (\<open>src/src/aacs/mod.rs\<close>): the host certificates it was built with, the opt-in
  arming of a freemkv drive, and \<open>unlock\<close>, which runs the handshake of \<open>Aacs_Handshake\<close>.
\<close>

section \<open>The unlocker\<close>

record aacs_unlocker =
  au_host_certs :: "host_cert list"
  au_arm :: "arm_recipe option"

definition aacs_unlocker_new :: "host_cert list \<Rightarrow> aacs_unlocker" where
  "aacs_unlocker_new host_certs = \<lparr> au_host_certs = host_certs, au_arm = None \<rparr>"

definition arm_before_unlock :: "aacs_unlocker \<Rightarrow> arm_recipe \<Rightarrow> aacs_unlocker" where
  "arm_before_unlock u recipe = u\<lparr> au_arm := Some recipe \<rparr>"

definition run_handshake :: "nat \<Rightarrow> crypto \<Rightarrow> aacs_unlocker \<Rightarrow> 'w host \<Rightarrow> ('w, (unlock_error + cert_handshake) option) io" where
  "run_handshake fuel C u H = run_cert_handshake fuel H C (au_host_certs u)"

definition maybe_arm :: "aacs_unlocker \<Rightarrow> 'w host \<Rightarrow> ('w, unlock_error + bool) io" where
  "maybe_arm u H = (case au_arm u of
     None \<Rightarrow> okE False
   | Some recipe \<Rightarrow> bind_io (arm H recipe) (\<lambda>r. case r of
       Inr _ \<Rightarrow> okE (disables_encryption recipe)
     | Inl FwTransport \<Rightarrow> errE Transport
     | Inl UnsupportedFirmware \<Rightarrow> okE False
     | Inl _ \<Rightarrow> okE False))"

definition aacs_unlock :: "nat \<Rightarrow> crypto \<Rightarrow> aacs_unlocker \<Rightarrow> 'w partial_unlock_fn" where
  "aacs_unlock fuel C u H ctx =
     (if ctx_kind ctx \<noteq> Aacs then ret (Some (Inr None))
      else
        bindEF (maybe_arm u H) (\<lambda>armed.
        if armed then
          bindEF (read_aacs_vid H) (\<lambda>v. ret (Some (Inr (Some \<lparr> vid = v, bus_key = None \<rparr>))))
        else if au_host_certs u = [] then ret (Some (Inr None))
        else
          bindO (run_handshake fuel C u H) (\<lambda>r.
          ret (Some (fallthrough (map_sum id (\<lambda>h.
            \<lparr> vid = Some (ch_volume_id h), bus_key = ch_read_data_key h \<rparr>) r))))))"

definition AacsUnlocker :: "nat \<Rightarrow> crypto \<Rightarrow> aacs_unlocker \<Rightarrow> 'w unlocker" where
  "AacsUnlocker fuel C u = \<lparr> u_name = ''AACS'', u_claims = (\<lambda>_. False), u_unlock = aacs_unlock fuel C u \<rparr>"

section \<open>Arming\<close>

text \<open>The commands of a recipe are freemkv vendor commands; none is a key command.\<close>

lemma step_cdb_opcode: "byte_at (step_cdb st) 0 = 0x3C"
  by (cases st) (simp_all add: build_identity_cdb_def build_set_cdb_def build_get_cdb_def
      build_reset_cdb_def build_cdb_def const_defs zeros_unfold put_at_def)

definition arming :: "event \<Rightarrow> bool" where
  "arming ev \<longleftrightarrow> (\<exists>cdb. exec_cdb ev = Some cdb \<and> byte_at cdb 0 = 0x3C)"

lemma runs_arming: "runs sts r es \<Longrightarrow> list_all arming es"
  by (induction sts r es rule: runs.induct) (auto simp: arming_def step_cdb_opcode split: if_splits)

lemma fatal_arming: "arming ev \<Longrightarrow> aacs_fatal ev \<longleftrightarrow> dead_event ev"
  by (auto simp: arming_def aacs_fatal_exec best_effort_key_def)

lemma aborts_dead: "aborts is_t r es \<Longrightarrow> lost is_t r \<longleftrightarrow> list_ex dead_event es"
  by (auto simp: aborts_def clean_def list_all_iff list_ex_iff split: sum.splits if_splits)

text \<open>What arming did: nothing, or the whole plan of a recipe that disables encryption, or it gave up.\<close>

definition armed_by :: "aacs_unlocker \<Rightarrow> unlock_error + bool \<Rightarrow> event list \<Rightarrow> bool" where
  "armed_by u r es \<longleftrightarrow> (case au_arm u of
     None \<Rightarrow> r = Inr False \<and> es = []
   | Some recipe \<Rightarrow> list_all arming es
       \<and> (r = Inr True \<longrightarrow> disables_encryption recipe \<and> runs (plan recipe) (Inr ()) es)
       \<and> (\<forall>e. r = Inl e \<longrightarrow> e = Transport)
       \<and> (r = Inl Transport \<longleftrightarrow> list_ex aacs_fatal es))"

lemma sat_maybe_arm: "sat (maybe_arm u H) (armed_by u)"
proof (cases "au_arm u")
  case (Some recipe)
  have "sat (arm H recipe) (\<lambda>r es. runs (plan recipe) r es \<and> aborts fw_dead r es)"
    by (rule sat_conj [OF sat_plan arm_abort [unfolded stops_on_dead_def]])
  then show ?thesis
    unfolding maybe_arm_def Some option.case
  proof (rule sat_bind, goal_cases)
    case (1 r es)
    then have vendor: "list_all arming es" by (blast intro: runs_arming)
    then have "list_ex aacs_fatal es \<longleftrightarrow> list_ex dead_event es"
      by (auto simp: list_all_iff list_ex_iff fatal_arming)
    with 1 have fatal: "lost fw_dead r \<longleftrightarrow> list_ex aacs_fatal es"
      by (blast dest: aborts_dead)
    show ?case
    proof (cases r)
      case (Inl e)
      with vendor fatal show ?thesis by (cases e) (simp_all add: armed_by_def Some)
    next
      case (Inr a)
      with vendor fatal 1 show ?thesis by (simp add: armed_by_def Some)
    qed
  qed
qed (simp add: maybe_arm_def armed_by_def)

section \<open>What an unlock means\<close>

lemma vid_cdb_not_best_effort: "\<not> best_effort_key build_vid_cdb" "byte_at build_vid_cdb 0 = 0xAD"
  by (simp_all add: build_vid_cdb_bytes best_effort_key_def)

lemma aacs_fatal_vid: "aacs_fatal (Exec build_vid_cdb dir data tmo r buf) \<longleftrightarrow> (case r of Inl e \<Rightarrow> is_dead_bus e | Inr _ \<Rightarrow> False)"
  by (simp add: vid_cdb_not_best_effort split: sum.split)

lemma sat_bare_vid: "sat (read_aacs_vid H) (\<lambda>r es. \<exists>reply buf. es = [Exec build_vid_cdb FromDevice (zeros 36) 5000 reply buf]
    \<and> (case r of
         Inl e \<Rightarrow> e = Transport \<and> list_ex aacs_fatal es
       | Inr v \<Rightarrow> \<not> list_ex aacs_fatal es \<and> v = (case reply of
             Inl _ \<Rightarrow> None
           | Inr res \<Rightarrow> if res_status res = 0 \<and> 20 \<le> res_transferred res \<and> vid_ok (slice buf 4 20)
               then Some (slice buf 4 20) else None)))"
proof (rule sat_weaken [OF sat_read_aacs_vid], elim exE, goal_cases)
  case (1 r es reply buf)
  then show ?case by (cases reply) (simp_all add: vid_cdb_not_best_effort)
qed

definition production_anchors :: anchors where
  "production_anchors = \<lparr> la_v1 = (AACS_LA_PUB_X, AACS_LA_PUB_Y), la_v2 = (AACS2_LA_PUB_X, AACS2_LA_PUB_Y) \<rparr>"

text \<open>The two ways to unlock, over the events.\<close>

definition unlocked_by_arming :: "aacs_unlocker \<Rightarrow> unlocked \<Rightarrow> event list \<Rightarrow> bool" where
  "unlocked_by_arming u got es \<longleftrightarrow> (\<exists>recipe armed reply buf.
     au_arm u = Some recipe \<and> disables_encryption recipe
     \<and> es = armed @ [Exec build_vid_cdb FromDevice (zeros 36) 5000 reply buf] \<and> runs (plan recipe) (Inr ()) armed
     \<and> bus_key got = None
     \<and> vid got = (case reply of
           Inl _ \<Rightarrow> None
         | Inr res \<Rightarrow> if res_status res = 0 \<and> 20 \<le> res_transferred res \<and> vid_ok (slice buf 4 20)
             then Some (slice buf 4 20) else None))"

definition unlocked_by_cert :: "crypto \<Rightarrow> aacs_unlocker \<Rightarrow> unlocked \<Rightarrow> event list \<Rightarrow> bool" where
  "unlocked_by_cert C u got es \<longleftrightarrow> (\<exists>hc \<in> set (au_host_certs u). \<exists>ch.
     v1_creds_usable hc \<and> completed (aacs1_suite C AACS_LA_PUB_X AACS_LA_PUB_Y) C (certificate hc) ch es
     \<and> vid got = Some (ch_volume_id ch) \<and> bus_key got = ch_read_data_key ch)"

lemma proven_production: "proven C production_anchors AACS2_P256_EXPERIMENTAL hc ch es \<longleftrightarrow>
    v1_creds_usable hc \<and> completed (aacs1_suite C AACS_LA_PUB_X AACS_LA_PUB_Y) C (certificate hc) ch es"
  by (auto simp: proven_def usable_with_def production_anchors_def v2_creds_usable_def AACS2_P256_EXPERIMENTAL_def)

lemma unlocked_by_cert_append: "unlocked_by_cert C u got es \<Longrightarrow> unlocked_by_cert C u got (es' @ es)"
  unfolding unlocked_by_cert_def using completed_append by blast

lemma run_handshake_loop: "run_handshake fuel C u H =
    cert_loop fuel H C production_anchors AACS2_P256_EXPERIMENTAL (au_host_certs u) 0 False"
  by (simp add: run_handshake_def run_cert_handshake_def run_cert_handshake_with_anchors_def production_anchors_def)

definition unlock_meaning :: "crypto \<Rightarrow> aacs_unlocker \<Rightarrow> unlock_ctx \<Rightarrow> outcome option \<Rightarrow> event list \<Rightarrow> bool" where
  "unlock_meaning C u ctx r es \<longleftrightarrow> (case r of
     None \<Rightarrow> True
   | Some (Inl e) \<Rightarrow> e = Transport \<and> list_ex aacs_fatal es
   | Some (Inr None) \<Rightarrow> \<not> list_ex aacs_fatal es
   | Some (Inr (Some got)) \<Rightarrow> ctx_kind ctx = Aacs \<and> \<not> list_ex aacs_fatal es
       \<and> (unlocked_by_arming u got es \<or> unlocked_by_cert C u got es))"

lemma sat_handshake_meaning:
  assumes "ctx_kind ctx = Aacs" and "\<not> list_ex aacs_fatal pre"
  shows "sat (bindO (run_handshake fuel C u H) (\<lambda>r. ret (Some (fallthrough (map_sum id (\<lambda>h.
            \<lparr> vid = Some (ch_volume_id h), bus_key = ch_read_data_key h \<rparr>) r)))))
          (\<lambda>r es. unlock_meaning C u ctx r (pre @ es))"
proof -
  have "sat (run_handshake fuel C u H) (\<lambda>r es.
      (case r of None \<Rightarrow> True | Some r \<Rightarrow> r = Inl Transport \<longleftrightarrow> list_ex aacs_fatal es)
      \<and> when_ok (\<lambda>ch. \<exists>hc \<in> set (au_host_certs u).
          proven C production_anchors AACS2_P256_EXPERIMENTAL hc ch es) r)"
    unfolding run_handshake_loop
    by (rule sat_conj [OF tells_cert_loop [unfolded tells_def] sat_cert_loop_proven])
  then show ?thesis
  proof (rule sat_bindO, goal_cases)
    case (2 r es)
    show ?case
    proof (cases r)
      case (Inl e)
      with 2 assms show ?thesis
        by (cases e) (simp_all add: unlock_meaning_def fallthrough_def)
    next
      case (Inr ch)
      with 2 have "unlocked_by_cert C u \<lparr> vid = Some (ch_volume_id ch), bus_key = ch_read_data_key ch \<rparr> es"
        by (auto simp: unlocked_by_cert_def proven_production)
      with 2 Inr assms show ?thesis
        by (simp add: unlock_meaning_def fallthrough_def unlocked_by_cert_append)
    qed
  qed (simp add: unlock_meaning_def)
qed

lemma sat_aacs_unlock: "sat (aacs_unlock fuel C u H ctx) (unlock_meaning C u ctx)"
proof (cases "ctx_kind ctx = Aacs")
  case True
  then have kind: "\<not> ctx_kind ctx \<noteq> Aacs" by simp
  show ?thesis
    unfolding aacs_unlock_def if_not_P [OF kind]
  proof (rule sat_bindEF [OF sat_maybe_arm], goal_cases)
    case (1 e es)
    then show ?case by (auto simp: unlock_meaning_def armed_by_def split: option.splits)
  next
    case (2 armed pre)
    then have quiet: "\<not> list_ex aacs_fatal pre" by (auto simp: armed_by_def split: option.splits)
    show ?case
    proof (cases armed)
      case unarmed: False
      show ?thesis
      proof (cases "au_host_certs u = []")
        case False
        show ?thesis
          unfolding if_not_P [OF unarmed] if_not_P [OF False] by (rule sat_handshake_meaning [OF True quiet])
      qed (use unarmed quiet in \<open>simp add: unlock_meaning_def\<close>)
    next
      case armed: True
      with 2 obtain recipe where recipe: "au_arm u = Some recipe" "disables_encryption recipe"
        and pre: "runs (plan recipe) (Inr ()) pre"
        by (auto simp: armed_by_def split: option.splits)
      show ?thesis
        unfolding if_P [OF armed]
      proof (rule sat_bindEF [OF sat_bare_vid], goal_cases)
        case (1 e es)
        with quiet show ?case by (auto simp: unlock_meaning_def)
      next
        case (2 v es)
        with quiet have "\<not> list_ex aacs_fatal (pre @ es)" by auto
        moreover have "unlocked_by_arming u \<lparr> vid = v, bus_key = None \<rparr> (pre @ es)"
          unfolding unlocked_by_arming_def
          using recipe pre 2 by auto
        ultimately show ?case
          using True by (simp add: unlock_meaning_def)
      qed
    qed
  qed
qed (simp add: aacs_unlock_def unlock_meaning_def)

text \<open>
  C2. What an AACS unlock means. \<open>unlock\<close> returns \<open>Some\<close> only on an AACS disc and only in one of two
  ways: an opted-in recipe that disables encryption was carried out in full and the Volume ID
  was read bare, with no bus key; or the last commands are a completed session under a usable
  host certificate of the unlocker, with the Volume ID that carried a correct MAC under the bus
  key of that session and the read data key decrypted with it. It returns an error exactly when a
  command that matters met a dead bus (or the back-off was refused), and the error is \<open>Transport\<close>;
  every other failure falls through.
\<close>
theorem aacs_unlock_meaning:
  "unlock_meaning C u ctx (result_of (aacs_unlock fuel C u H ctx) w) (events_of (aacs_unlock fuel C u H ctx) w)"
  by (rule sat_run [OF sat_aacs_unlock])

section \<open>The contract\<close>

lemma paced_no_span: "paced n k m es \<Longrightarrow> list_all (\<lambda>e. \<not> is_span_event e) es"
  by (induction es arbitrary: k m) (auto simp: is_command_def split: event.splits)

lemma arming_no_span: "list_all arming es \<Longrightarrow> list_all (\<lambda>e. \<not> is_span_event e) es"
  by (auto simp: list_all_iff arming_def elim!: is_span_event.elims)

lemma aacs_no_span: "emits (\<lambda>e. \<not> is_span_event e) (aacs_unlock fuel C u H ctx)"
proof -
  have "emits (\<lambda>e. \<not> is_span_event e) (maybe_arm u H)"
    unfolding emits_def
    by (rule sat_weaken [OF sat_maybe_arm]) (auto simp: armed_by_def arming_no_span split: option.splits)
  moreover have "emits (\<lambda>e. \<not> is_span_event e) (run_handshake fuel C u H)"
    unfolding emits_def run_handshake_loop
    by (rule sat_weaken [OF sat_cert_loop_paced]) (auto simp: paced_after_def dest: paced_no_span)
  ultimately show ?thesis
    unfolding aacs_unlock_def by (auto intro!: emits_intros)
qed

interpretation aacs: unlocker_contract "aacs_unlock fuel C u" "\<lambda>_. True"
proof
  show "e = Transport" if "result_of (aacs_unlock fuel C u H ctx) w = Some (Inl e)"
    for H :: "'w host" and ctx w e
    using sat_run [OF sat_aacs_unlock, of C u ctx fuel H w] that by (simp add: unlock_meaning_def)
  show "spans False (events_of (aacs_unlock fuel C u H ctx) w) = Some False"
    for H :: "'w host" and ctx w
    using sat_run [OF aacs_no_span [unfolded emits_def], of fuel C u H ctx w] by (rule spans_none)
qed

section \<open>A stock host sends no vendor command\<close>

text \<open>The commands of the AACS specification: REPORT KEY, SEND KEY and READ DISC STRUCTURE.\<close>

definition stock :: "event \<Rightarrow> bool" where
  "stock ev \<longleftrightarrow> (case event_opcode ev of
     None \<Rightarrow> True
   | Some opcode \<Rightarrow> opcode = SCSI_REPORT_KEY \<or> opcode = SCSI_SEND_KEY \<or> opcode = SCSI_READ_DISC_STRUCTURE)"

lemma stock_exec: "byte_at cdb 0 \<in> {0xA3, 0xA4, 0xAD} \<Longrightarrow> stock (Exec cdb dir data tmo r buf)"
  by (auto simp: stock_def const_defs)

lemma emits_finish_stock: "emits stock (finish_auth H C (aacs_agid_guard agid) auth)"
  unfolding finish_auth_def read_volume_id_def read_data_keys_def Let_def aacs_agid_guard_def agid_guard_new_def
  by (auto intro!: emits_intros stock_exec simp: stock_def const_defs split: sum.split option.split)

lemma sat_ake_stock: "sat (ake fuel H S priv cert) (\<lambda>r es. list_all stock es
    \<and> when_ok (\<lambda>(auth, guard). guard = aacs_agid_guard (auth_agid auth)) r)"
proof (rule sat_weaken [OF sat_conj [OF _ sat_ake_held]])
  have "emits stock (ake fuel H S priv cert)"
    unfolding ake_def Let_def aacs_agid_guard_def agid_guard_new_def
    by (auto intro!: emits_intros emits_ake_with_agid emits_sweep stock_exec
        simp: release_cdb_def stock_def const_defs split: sum.split)
  then show "sat (ake fuel H S priv cert) (\<lambda>_. list_all stock)" by (simp add: emits_def)
qed (auto simp: when_ok_def ake_held_def split: option.splits sum.splits)

lemma sat_attempt_p256_stock: "emits stock (attempt_p256 fuel H C hc la dead)"
proof -
  have "sat (aacs2_authenticate_p256_with_anchor fuel H C k c x y) (\<lambda>r es. list_all stock es
      \<and> when_ok (\<lambda>(auth, guard). guard = aacs_agid_guard (auth_agid auth)) r)" for k c x y
    unfolding aacs2_authenticate_p256_with_anchor_def
    by (rule sat_bind [OF sat_ake_stock]) (auto simp: when_ok_def split: option.splits sum.splits)
  note ake = this
  show ?thesis
    unfolding attempt_p256_def emits_def
    by (auto intro!: sat_bindO [OF ake] sat_bind [OF emits_finish_stock [unfolded emits_def]]
        split: option.split sum.split)
qed

lemma emits_attempt_stock: "emits stock (attempt_one_cert fuel H C hc la try_v1 has_v2)"
proof -
  have p256: "sat (attempt_p256 fuel H C hc la dead) (\<lambda>r es'. list_all stock es')" for dead
    using sat_attempt_p256_stock by (simp add: emits_def)
  show ?thesis
    unfolding attempt_one_cert_def aacs1_ake_def emits_def
    by (auto intro!: sat_bindO [OF sat_ake_stock] sat_bind [OF emits_finish_stock [unfolded emits_def]] p256
        split: sum.split finish_err.split)
qed

lemma emits_loop_stock: "emits stock (cert_loop fuel H C la allow_p256 hcs attempts dead)"
proof (induction hcs arbitrary: attempts dead)
  case (Cons hc hcs)
  have "emits stock (cert_round fuel H C la allow_p256 hc attempts dead)"
    unfolding cert_round_def Let_def
    by (auto intro!: emits_intros emits_attempt_stock simp: stock_def)
  with Cons show ?case
    by (auto intro!: emits_intros)
qed (auto intro: emits_intros)

text \<open>
  C38. Without an opted-in recipe the drive sees a stock host: whatever it answers, an unlock sends
  only REPORT KEY, SEND KEY and READ DISC STRUCTURE commands, never a vendor command; and an
  unlocker asked about a disc that is not AACS sends nothing at all, armed or not.
\<close>
theorem aacs_stock_host:
  "list_all stock (events_of (aacs_unlock fuel C (aacs_unlocker_new host_certs) H ctx) w)
   \<and> (if ctx_kind ctx = Aacs then True else aacs_unlock fuel C u H ctx w = (Some (Inr None), [], w))"
proof -
  have "emits stock (aacs_unlock fuel C (aacs_unlocker_new host_certs) H ctx)"
    unfolding aacs_unlock_def maybe_arm_def aacs_unlocker_new_def run_handshake_loop
    by (auto intro!: emits_intros emits_loop_stock stock_exec simp: vid_cdb_not_best_effort)
  from sat_run [OF this [unfolded emits_def], of w] show ?thesis
    by (simp add: aacs_unlock_def run_ret)
qed

end
