(* ===== verification/Aacs_Mac.thy ===== *)
theory Aacs_Mac
  imports Aacs_Crypto
begin

text \<open>
  The MAC of the Volume ID: \<open>aes_cmac_16\<close> is the CMAC of RFC 4493 for one complete block, stated
  over the 128-bit numbers of that document, and \<open>ct_eq_16\<close> is equality of the two tags.
\<close>

unbundle bit_operations_syntax

declare push_bit_Suc [simp del]

section \<open>Bits of a big-endian number\<close>

lemma bit_shift_byte: "bit (x * 256 + unat (b :: u8) :: nat) i \<longleftrightarrow> (if i < 8 then bit b i else bit x (i - 8))"
proof -
  have "push_bit 8 x AND unat b = 0"
    by (rule bit_eqI) (auto simp: bit_simps dest: bit_imp_le_length)
  then have "x * 256 + unat b = push_bit 8 x OR unat b"
    by (subst disjunctive_add_eq_or [symmetric]) (simp_all add: push_bit_eq_mult)
  then show ?thesis
    by (auto simp: bit_simps dest: bit_imp_le_length)
qed

lemma bit_from_bytes_be:
  "bit (from_bytes_be bs) i \<longleftrightarrow> i < 8 * length bs \<and> bit (bs ! (length bs - 1 - i div 8)) (i mod 8)"
proof (induction bs arbitrary: i rule: rev_induct)
  case (snoc b bs)
  show ?case
  proof (cases "i < 8")
    case True
    then show ?thesis by (simp add: from_bytes_be_snoc bit_shift_byte)
  next
    case False
    then have "i div 8 = Suc ((i - 8) div 8)" "i mod 8 = (i - 8) mod 8" by (simp_all add: le_div_geq le_mod_geq)
    with False snoc.IH [of "i - 8"] show ?thesis
      by (auto simp: from_bytes_be_snoc bit_shift_byte nth_append less_diff_conv2)
  qed
qed simp

section \<open>The subkey\<close>

text \<open>The doubling of RFC 4493: a shift by one bit, reduced by the constant of the field.\<close>

definition rfc_double :: "nat \<Rightarrow> nat" where
  "rfc_double l = (if bit l 127 then take_bit 128 (push_bit 1 l) XOR 0x87 else take_bit 128 (push_bit 1 l))"

lemma carry_bit: "drop_bit 7 (b :: u8) AND 1 = 1 \<longleftrightarrow> bit b 7"
  by (simp add: and_one_eq bit_iff_odd_drop_bit mod2_eq_if)

lemma byte_bit_cases: "i < 128 \<Longrightarrow> \<exists>q r. i = 8 * q + r \<and> q < 16 \<and> (r :: nat) < 8"
  by (rule exI [of _ "i div 8"], rule exI [of _ "i mod 8"]) auto

definition shifted :: "bytes \<Rightarrow> bytes" where
  "shifted l = map (\<lambda>i. push_bit 1 (byte_at l i) OR drop_bit 7 (byte_at l (i + 1))) [0..<15]
     @ [push_bit 1 (byte_at l 15)]"

lemma length_shifted [simp]: "length (shifted l) = 16"
  by (simp add: shifted_def)

lemma shifted_nth: "length l = 16 \<Longrightarrow> j < 16 \<Longrightarrow> shifted l ! j = push_bit 1 (l ! j) OR (if j < 15 then drop_bit 7 (l ! (j + 1)) else 0)"
  by (cases "j = 15") (auto simp: shifted_def nth_append)

lemma cmac_subkey_shifted:
  "cmac_subkey l = (if bit (byte_at l 0) 7 then (shifted l)[15 := shifted l ! 15 XOR 0x87] else shifted l)"
  unfolding cmac_subkey_def Let_def shifted_def [symmetric] carry_bit by simp

lemma from_bytes_be_shifted:
  assumes "length l = 16"
  shows "from_bytes_be (shifted l) = take_bit 128 (push_bit 1 (from_bytes_be l))"
proof (rule bit_eqI)
  fix i
  show "bit (from_bytes_be (shifted l)) i \<longleftrightarrow> bit (take_bit 128 (push_bit 1 (from_bytes_be l))) i"
  proof (cases "i < 128")
    case True
    then obtain q r where i: "i = 8 * q + r" "q < 16" "r < 8" using byte_bit_cases by blast
    show ?thesis
    proof (cases r)
      case 0
      show ?thesis
      proof (cases q)
        case (Suc p)
        then have "(8 * q - 1) div 8 = p" "(8 * q - 1) mod 8 = 7" by simp_all
        moreover have "Suc (14 - p) = 15 - p" "14 - p < 15" using i Suc by simp_all
        ultimately show ?thesis
          using i Suc 0 assms by (simp add: bit_from_bytes_be bit_simps shifted_nth)
      qed (use i 0 assms in \<open>simp add: bit_from_bytes_be bit_simps shifted_nth\<close>)
    next
      case (Suc s)
      with i have "(8 * q + r - 1) div 8 = q" "(8 * q + r - 1) mod 8 = s" "Suc (8 * q + s) div 8 = q" by simp_all
      with i Suc assms show ?thesis
        by (auto simp: bit_from_bytes_be bit_simps shifted_nth dest: bit_imp_le_length)
    qed
  qed (simp add: bit_from_bytes_be bit_simps)
qed

lemma from_bytes_be_xor_last:
  assumes "length l = 16"
  shows "from_bytes_be (l[15 := l ! 15 XOR b]) = from_bytes_be l XOR unat b"
proof (rule bit_eqI)
  fix i
  show "bit (from_bytes_be (l[15 := l ! 15 XOR b])) i \<longleftrightarrow> bit (from_bytes_be l XOR unat b) i"
    using assms
    by (cases "i < 128"; cases "i < 8")
      (auto simp: bit_from_bytes_be bit_simps nth_list_update dest: bit_imp_le_length)
qed

lemma from_bytes_be_cmac_subkey:
  assumes "length l = 16"
  shows "from_bytes_be (cmac_subkey l) = rfc_double (from_bytes_be l)"
proof -
  have "bit (byte_at l 0) 7 \<longleftrightarrow> bit (from_bytes_be l) 127"
    using assms by (simp add: bit_from_bytes_be)
  then show ?thesis
    using from_bytes_be_shifted [OF assms] from_bytes_be_xor_last [of "shifted l" "0x87"]
    by (simp add: cmac_subkey_shifted rfc_double_def)
qed

lemma length_cmac_subkey [simp]: "length (cmac_subkey l) = 16"
  by (simp add: cmac_subkey_shifted)

lemma from_bytes_be_xor:
  assumes "length xs = 16" "length ys = 16"
  shows "from_bytes_be (map (\<lambda>i. byte_at xs i XOR byte_at ys i) [0..<16]) = from_bytes_be xs XOR from_bytes_be ys"
proof (rule bit_eqI)
  fix i
  show "bit (from_bytes_be (map (\<lambda>i. byte_at xs i XOR byte_at ys i) [0..<16])) i
      \<longleftrightarrow> bit (from_bytes_be xs XOR from_bytes_be ys) i"
    using assms by (cases "i < 128") (auto simp: bit_from_bytes_be bit_simps)
qed

text \<open>The MAC of RFC 4493 for a message of one complete block, over 128-bit numbers.\<close>

definition rfc_cmac :: "(bytes \<Rightarrow> bytes) \<Rightarrow> nat \<Rightarrow> bytes" where
  "rfc_cmac cipher m =
     cipher (to_bytes_be_padded (m XOR rfc_double (from_bytes_be (cipher (to_bytes_be_padded 0 16)))) 16)"

lemma padded_from_bytes: "length bs = n \<Longrightarrow> to_bytes_be_padded (from_bytes_be bs) n = bs"
  by (rule from_bytes_be_inject) (use from_bytes_be_bound [of bs] in \<open>simp_all add: from_to_bytes_be_padded\<close>)

lemma padded_zero: "to_bytes_be_padded 0 n = zeros n"
  using padded_from_bytes [of "zeros n" n] by simp

text \<open>
  C39. The byte-wise MAC of the code is the CMAC of RFC 4493 on every one-block message, for any block
  cipher that maps 16 bytes to 16 bytes: the subkey is the doubling in the field of 128-bit
  numbers, with the reduction constant 87h.
\<close>
theorem aes_cmac_is_rfc4493:
  assumes "length data = 16" and "\<And>block. length (aes_encrypt C key block) = 16"
  shows "aes_cmac_16 C data key = rfc_cmac (aes_encrypt C key) (from_bytes_be data)"
proof -
  let ?k1 = "cmac_subkey (aes_encrypt C key (zeros 16))"
  let ?block = "map (\<lambda>i. byte_at data i XOR byte_at ?k1 i) [0..<16]"
  have "from_bytes_be ?block = from_bytes_be data XOR rfc_double (from_bytes_be (aes_encrypt C key (zeros 16)))"
    using assms by (simp add: from_bytes_be_xor from_bytes_be_cmac_subkey)
  moreover have "to_bytes_be_padded (from_bytes_be ?block) 16 = ?block" by (rule padded_from_bytes) simp
  ultimately show ?thesis
    by (simp only: rfc_cmac_def padded_zero aes_cmac_16_def Let_def)
qed

text \<open>The identity as the cipher: the MAC is the message itself, since the subkey is zero.\<close>

definition identity_crypto :: crypto where
  "identity_crypto = \<lparr> sha1 = \<lambda>_. zeros 20, sha256 = \<lambda>_. zeros 32,
     aes_encrypt = \<lambda>_ block. take 16 (block @ zeros 16), aes_decrypt = \<lambda>_ block. block \<rparr>"

lemma aes_cmac_is_rfc4493_witness:
  "aes_cmac_16 identity_crypto (zeros 16) (zeros 16) = rfc_cmac (aes_encrypt identity_crypto (zeros 16)) 0"
proof -
  have "length (aes_encrypt identity_crypto (zeros 16) block) = 16" for block
    by (simp add: identity_crypto_def)
  from aes_cmac_is_rfc4493 [OF length_zeros this] show ?thesis by (simp only: from_bytes_be_zeros)
qed

section \<open>The comparison\<close>

lemma or_fold_zero: "fold (\<lambda>i diff. diff OR f i) is (acc :: u8) = 0 \<longleftrightarrow> acc = 0 \<and> (\<forall>i \<in> set is. f i = 0)"
  by (induction "is" arbitrary: acc) (auto simp: or_eq_0_iff)

lemma xor_zero_iff: "(a :: u8) XOR b = 0 \<longleftrightarrow> a = b"
proof
  assume "a XOR b = 0"
  from arg_cong [OF this, of "\<lambda>x. x XOR b"] show "a = b" by (simp add: xor.assoc)
qed simp

lemma ct_eq_16_iff: "ct_eq_16 a b \<longleftrightarrow> map (byte_at a) [0..<16] = map (byte_at b) [0..<16]"
  unfolding ct_eq_16_def or_fold_zero xor_zero_iff map_eq_conv by (simp only: simp_thms set_upt)

end
