(* ===== verification/Css_Cipher.thy ===== *)
theory Css_Cipher
  imports Prelude
begin

text \<open>
  The CSS key function of \<open>src/css/mod.rs\<close>: the tables, the two shift registers with the
  add-with-carry that combines them, and the six mangling rounds. The two \<open>assert!\<close>s on the
  arguments are the \<open>None\<close> branch.

  The lemmas state what the bit-level code computes: the keystream is the 240-bit sum of the two
  inverted register streams, and the registers never leave their width nor reach zero, the one
  state a shift register cannot leave.
\<close>

unbundle bit_operations_syntax

section \<open>Tables\<close>

definition CRYPT_TAB0 :: bytes where
  "CRYPT_TAB0 =
  [0xB7, 0xF4, 0x82, 0x57, 0xDA, 0x4D, 0xDB, 0xE2, 0x2F, 0x52, 0x1A, 0xA8, 0x68, 0x5A, 0x8A, 0xFF,
   0xFB, 0x0E, 0x6D, 0x35, 0xF7, 0x5C, 0x76, 0x12, 0xCE, 0x25, 0x79, 0x29, 0x39, 0x62, 0x08, 0x24,
   0xA5, 0x85, 0x7B, 0x56, 0x01, 0x23, 0x68, 0xCF, 0x0A, 0xE2, 0x5A, 0xED, 0x3D, 0x59, 0xB0, 0xA9,
   0xB0, 0x2C, 0xF2, 0xB8, 0xEF, 0x32, 0xA9, 0x40, 0x80, 0x71, 0xAF, 0x1E, 0xDE, 0x8F, 0x58, 0x88,
   0xB8, 0x3A, 0xD0, 0xFC, 0xC4, 0x1E, 0xB5, 0xA0, 0xBB, 0x3B, 0x0F, 0x01, 0x7E, 0x1F, 0x9F, 0xD9,
   0xAA, 0xB8, 0x3D, 0x9D, 0x74, 0x1E, 0x25, 0xDB, 0x37, 0x56, 0x8F, 0x16, 0xBA, 0x49, 0x2B, 0xAC,
   0xD0, 0xBD, 0x95, 0x20, 0xBE, 0x7A, 0x28, 0xD0, 0x51, 0x64, 0x63, 0x1C, 0x7F, 0x66, 0x10, 0xBB,
   0xC4, 0x56, 0x1A, 0x04, 0x6E, 0x0A, 0xEC, 0x9C, 0xD6, 0xE8, 0x9A, 0x7A, 0xCF, 0x8C, 0xDB, 0xB1,
   0xEF, 0x71, 0xDE, 0x31, 0xFF, 0x54, 0x3E, 0x5E, 0x07, 0x69, 0x96, 0xB0, 0xCF, 0xDD, 0x9E, 0x47,
   0xC7, 0x96, 0x8F, 0xE4, 0x2B, 0x59, 0xC6, 0xEE, 0xB9, 0x86, 0x9A, 0x64, 0x84, 0x72, 0xE2, 0x5B,
   0xA2, 0x96, 0x58, 0x99, 0x50, 0x03, 0xF5, 0x38, 0x4D, 0x02, 0x7D, 0xE7, 0x7D, 0x75, 0xA7, 0xB8,
   0x67, 0x87, 0x84, 0x3F, 0x1D, 0x11, 0xE5, 0xFC, 0x1E, 0xD3, 0x83, 0x16, 0xA5, 0x29, 0xF6, 0xC7,
   0x15, 0x61, 0x29, 0x1A, 0x43, 0x4F, 0x9B, 0xAF, 0xC5, 0x87, 0x34, 0x6C, 0x0F, 0x3B, 0xA8, 0x1D,
   0x45, 0x58, 0x25, 0xDC, 0xA8, 0xA3, 0x3B, 0xD1, 0x79, 0x1B, 0x48, 0xF2, 0xE9, 0x93, 0x1F, 0xFC,
   0xDB, 0x2A, 0x90, 0xA9, 0x8A, 0x3D, 0x39, 0x18, 0xA3, 0x8E, 0x58, 0x6C, 0xE0, 0x12, 0xBB, 0x25,
   0xCD, 0x71, 0x22, 0xA2, 0x64, 0xC6, 0xE7, 0xFB, 0xAD, 0x94, 0x77, 0x04, 0x9A, 0x39, 0xCF, 0x7C]"

definition CRYPT_TAB1 :: bytes where
  "CRYPT_TAB1 =
  [0x8C, 0x47, 0xB0, 0xE1, 0xEB, 0xFC, 0xEB, 0x56, 0x10, 0xE5, 0x2C, 0x1A, 0x5D, 0xEF, 0xBE, 0x4F,
   0x08, 0x75, 0x97, 0x4B, 0x0E, 0x25, 0x8E, 0x6E, 0x39, 0x5A, 0x87, 0x53, 0xC4, 0x1F, 0xF4, 0x5C,
   0x4E, 0xE6, 0x99, 0x30, 0xE0, 0x42, 0x88, 0xAB, 0xE5, 0x85, 0xBC, 0x8F, 0xD8, 0x3C, 0x54, 0xC9,
   0x53, 0x47, 0x18, 0xD6, 0x06, 0x5B, 0x41, 0x2C, 0x67, 0x1E, 0x41, 0x74, 0x33, 0xE2, 0xB4, 0xE0,
   0x23, 0x29, 0x42, 0xEA, 0x55, 0x0F, 0x25, 0xB4, 0x24, 0x2C, 0x99, 0x13, 0xEB, 0x0A, 0x0B, 0xC9,
   0xF9, 0x63, 0x67, 0x43, 0x2D, 0xC7, 0x7D, 0x07, 0x60, 0x89, 0xD1, 0xCC, 0xE7, 0x94, 0x77, 0x74,
   0x9B, 0x7E, 0xD7, 0xE6, 0xFF, 0xBB, 0x68, 0x14, 0x1E, 0xA3, 0x25, 0xDE, 0x3A, 0xA3, 0x54, 0x7B,
   0x87, 0x9D, 0x50, 0xCA, 0x27, 0xC3, 0xA4, 0x50, 0x91, 0x27, 0xD4, 0xB0, 0x82, 0x41, 0x97, 0x79,
   0x94, 0x82, 0xAC, 0xC7, 0x8E, 0xA5, 0x4E, 0xAA, 0x78, 0x9E, 0xE0, 0x42, 0xBA, 0x28, 0xEA, 0xB7,
   0x74, 0xAD, 0x35, 0xDA, 0x92, 0x60, 0x7E, 0xD2, 0x0E, 0xB9, 0x24, 0x5E, 0x39, 0x4F, 0x5E, 0x63,
   0x09, 0xB5, 0xFA, 0xBF, 0xF1, 0x22, 0x55, 0x1C, 0xE2, 0x25, 0xDB, 0xC5, 0xD8, 0x50, 0x03, 0x98,
   0xC4, 0xAC, 0x2E, 0x11, 0xB4, 0x38, 0x4D, 0xD0, 0xB9, 0xFC, 0x2D, 0x3C, 0x08, 0x04, 0x5A, 0xEF,
   0xCE, 0x32, 0xFB, 0x4C, 0x92, 0x1E, 0x4B, 0xFB, 0x1A, 0xD0, 0xE2, 0x3E, 0xDA, 0x6E, 0x7C, 0x4D,
   0x56, 0xC3, 0x3F, 0x42, 0xB1, 0x3A, 0x23, 0x4D, 0x6E, 0x84, 0x56, 0x68, 0xF4, 0x0E, 0x03, 0x64,
   0xD0, 0xA9, 0x92, 0x2F, 0x8B, 0xBC, 0x39, 0x9C, 0xAC, 0x09, 0x5E, 0xEE, 0xE5, 0x97, 0xBF, 0xA5,
   0xCE, 0xFA, 0x28, 0x2C, 0x6D, 0x4F, 0xEF, 0x77, 0xAA, 0x1B, 0x79, 0x8E, 0x97, 0xB4, 0xC3, 0xF4]"

definition CRYPT_TAB2 :: bytes where
  "CRYPT_TAB2 =
  [0xB7, 0x75, 0x81, 0xD5, 0xDC, 0xCA, 0xDE, 0x66, 0x23, 0xDF, 0x15, 0x26, 0x62, 0xD1, 0x83, 0x77,
   0xE3, 0x97, 0x76, 0xAF, 0xE9, 0xC3, 0x6B, 0x8E, 0xDA, 0xB0, 0x6E, 0xBF, 0x2B, 0xF1, 0x19, 0xB4,
   0x95, 0x34, 0x48, 0xE4, 0x37, 0x94, 0x5D, 0x7B, 0x36, 0x5F, 0x65, 0x53, 0x07, 0xE2, 0x89, 0x11,
   0x98, 0x85, 0xD9, 0x12, 0xC1, 0x9D, 0x84, 0xEC, 0xA4, 0xD4, 0x88, 0xB8, 0xFC, 0x2C, 0x79, 0x28,
   0xD8, 0xDB, 0xB3, 0x1E, 0xA2, 0xF9, 0xD0, 0x44, 0xD7, 0xD6, 0x60, 0xEF, 0x14, 0xF4, 0xF6, 0x31,
   0xD2, 0x41, 0x46, 0x67, 0x0A, 0xE1, 0x58, 0x27, 0x43, 0xA3, 0xF8, 0xE0, 0xC8, 0xBA, 0x5A, 0x5C,
   0x80, 0x6C, 0xC6, 0xF2, 0xE8, 0xAD, 0x7D, 0x04, 0x0D, 0xB9, 0x3C, 0xC2, 0x25, 0xBD, 0x49, 0x63,
   0x8C, 0x9F, 0x51, 0xCE, 0x20, 0xC5, 0xA1, 0x50, 0x92, 0x2D, 0xDD, 0xBC, 0x8D, 0x4F, 0x9A, 0x71,
   0x2F, 0x30, 0x1D, 0x73, 0x39, 0x13, 0xFB, 0x1A, 0xCB, 0x24, 0x59, 0xFE, 0x05, 0x96, 0x57, 0x0F,
   0x1F, 0xCF, 0x54, 0xBE, 0xF5, 0x06, 0x1B, 0xB2, 0x6D, 0xD3, 0x4D, 0x32, 0x56, 0x21, 0x33, 0x0B,
   0x52, 0xE7, 0xAB, 0xEB, 0xA6, 0x74, 0x00, 0x4C, 0xB1, 0x7F, 0x82, 0x99, 0x87, 0x0E, 0x5E, 0xC0,
   0x8F, 0xEE, 0x6F, 0x55, 0xF3, 0x7E, 0x08, 0x90, 0xFA, 0xB6, 0x64, 0x70, 0x47, 0x4A, 0x17, 0xA7,
   0xB5, 0x40, 0x8A, 0x38, 0xE5, 0x68, 0x3E, 0x8B, 0x69, 0xAA, 0x9B, 0x42, 0xA5, 0x10, 0x01, 0x35,
   0xFD, 0x61, 0x9E, 0xE6, 0x16, 0x9C, 0x86, 0xED, 0xCD, 0x2E, 0xFF, 0xC4, 0x5B, 0xA0, 0xAE, 0xCC,
   0x4B, 0x3B, 0x03, 0xBB, 0x1C, 0x2A, 0xAC, 0x0C, 0x3F, 0x93, 0xC7, 0x72, 0x7A, 0x09, 0x22, 0x3D,
   0x45, 0x78, 0xA9, 0xA8, 0xEA, 0xC9, 0x6A, 0xF7, 0x29, 0x91, 0xF0, 0x02, 0x18, 0x3A, 0x4E, 0x7C]"

definition CRYPT_TAB3 :: bytes where
  "CRYPT_TAB3 =
  [0x73, 0x51, 0x95, 0xE1, 0x12, 0xE4, 0xC0, 0x58, 0xEE, 0xF2, 0x08, 0x1B, 0xA9, 0xFA, 0x98, 0x4C,
   0xA7, 0x33, 0xE2, 0x1B, 0xA7, 0x6D, 0xF5, 0x30, 0x97, 0x1D, 0xF3, 0x02, 0x60, 0x5A, 0x82, 0x0F,
   0x91, 0xD0, 0x9C, 0x10, 0x39, 0x7A, 0x83, 0x85, 0x3B, 0xB2, 0xB8, 0xAE, 0x0C, 0x09, 0x52, 0xEA,
   0x1C, 0xE1, 0x8D, 0x66, 0x4F, 0xF3, 0xDA, 0x92, 0x29, 0xB9, 0xD5, 0xC5, 0x77, 0x47, 0x22, 0x53,
   0x14, 0xF7, 0xAF, 0x22, 0x64, 0xDF, 0xC6, 0x72, 0x12, 0xF3, 0x75, 0xDA, 0xD7, 0xD7, 0xE5, 0x02,
   0x9E, 0xED, 0xDA, 0xDB, 0x4C, 0x47, 0xCE, 0x91, 0x06, 0x06, 0x6D, 0x55, 0x8B, 0x19, 0xC9, 0xEF,
   0x8C, 0x80, 0x1A, 0x0E, 0xEE, 0x4B, 0xAB, 0xF2, 0x08, 0x5C, 0xE9, 0x37, 0x26, 0x5E, 0x9A, 0x90,
   0x00, 0xF3, 0x0D, 0xB2, 0xA6, 0xA3, 0xF7, 0x26, 0x17, 0x48, 0x88, 0xC9, 0x0E, 0x2C, 0xC9, 0x02,
   0xE7, 0x18, 0x05, 0x4B, 0xF3, 0x39, 0xE1, 0x20, 0x02, 0x0D, 0x40, 0xC7, 0xCA, 0xB9, 0x48, 0x30,
   0x57, 0x67, 0xCC, 0x06, 0xBF, 0xAC, 0x81, 0x08, 0x24, 0x7A, 0xD4, 0x8B, 0x19, 0x8E, 0xAC, 0xB4,
   0x5A, 0x0F, 0x73, 0x13, 0xAC, 0x9E, 0xDA, 0xB6, 0xB8, 0x96, 0x5B, 0x60, 0x88, 0xE1, 0x81, 0x3F,
   0x07, 0x86, 0x37, 0x2D, 0x79, 0x14, 0x52, 0xEA, 0x73, 0xDF, 0x3D, 0x09, 0xC8, 0x25, 0x48, 0xD8,
   0x75, 0x60, 0x9A, 0x08, 0x27, 0x4A, 0x2C, 0xB9, 0xA8, 0x8B, 0x8A, 0x73, 0x62, 0x37, 0x16, 0x02,
   0xBD, 0xC1, 0x0E, 0x56, 0x54, 0x3E, 0x14, 0x5F, 0x8C, 0x8F, 0x6E, 0x75, 0x1C, 0x07, 0x39, 0x7B,
   0x4B, 0xDB, 0xD3, 0x4B, 0x1E, 0xC8, 0x7E, 0xFE, 0x3E, 0x72, 0x16, 0x83, 0x7D, 0xEE, 0xF5, 0xCA,
   0xC5, 0x18, 0xF9, 0xD8, 0x68, 0xAB, 0x38, 0x85, 0xA8, 0xF0, 0xA1, 0x73, 0x9F, 0x5D, 0x19, 0x0B]"

definition VARIANTS :: bytes where
  "VARIANTS =
  [0xB7, 0x74, 0x85, 0xD0, 0xCC, 0xDB, 0xCA, 0x73, 0x03, 0xFE, 0x31, 0x03, 0x52, 0xE0, 0xB7, 0x42,
   0x63, 0x16, 0xF2, 0x2A, 0x79, 0x52, 0xFF, 0x1B, 0x7A, 0x11, 0xCA, 0x1A, 0x9B, 0x40, 0xAD, 0x01]"

definition SECRET :: bytes where
  "SECRET =
  [0x55, 0xD6, 0xC4, 0xC5, 0x28]"

definition PERM_CHALLENGE :: "nat list list" where
  "PERM_CHALLENGE =
  [[1, 3, 0, 7, 5, 2, 9, 6, 4, 8],
   [6, 1, 9, 3, 8, 5, 7, 4, 0, 2],
   [4, 0, 3, 5, 7, 2, 8, 6, 1, 9]]"

definition PERM_VARIANT :: "bytes list" where
  "PERM_VARIANT =
  [[0x0A, 0x08, 0x0E, 0x0C, 0x0B, 0x09, 0x0F, 0x0D, 0x1A, 0x18, 0x1E, 0x1C, 0x1B, 0x19, 0x1F, 0x1D,
    0x02, 0x00, 0x06, 0x04, 0x03, 0x01, 0x07, 0x05, 0x12, 0x10, 0x16, 0x14, 0x13, 0x11, 0x17, 0x15],
   [0x12, 0x1A, 0x16, 0x1E, 0x02, 0x0A, 0x06, 0x0E, 0x10, 0x18, 0x14, 0x1C, 0x00, 0x08, 0x04, 0x0C,
    0x13, 0x1B, 0x17, 0x1F, 0x03, 0x0B, 0x07, 0x0F, 0x11, 0x19, 0x15, 0x1D, 0x01, 0x09, 0x05, 0x0D]]"

lemma length_tables [simp]:
  "length CRYPT_TAB0 = 256" "length CRYPT_TAB1 = 256" "length CRYPT_TAB2 = 256"
  "length CRYPT_TAB3 = 256" "length VARIANTS = 32" "length SECRET = 5"
  by code_simp+

section \<open>The keystream\<close>

text \<open>The registers, each with the carry of the adder; one step gives the bit shifted out.\<close>

record css_regs =
  lfsr0 :: u32
  lfsr1 :: u32
  carry :: u32

definition lfsr0_out :: "u32 \<Rightarrow> u32" where
  "lfsr0_out l = (drop_bit 24 l XOR drop_bit 21 l XOR drop_bit 20 l XOR drop_bit 12 l) AND 1"

definition lfsr0_next :: "u32 \<Rightarrow> u32" where
  "lfsr0_next l = (push_bit 1 l OR lfsr0_out l) AND 0x1FFFFFF"

definition lfsr1_out :: "u32 \<Rightarrow> u32" where
  "lfsr1_out l = (drop_bit 16 l XOR drop_bit 2 l) AND 1"

definition lfsr1_next :: "u32 \<Rightarrow> u32" where
  "lfsr1_next l = (push_bit 1 l OR lfsr1_out l) AND 0x1FFFF"

definition seed_regs :: "bytes \<Rightarrow> css_regs" where
  "seed_regs tmp1 = \<lparr>
     lfsr0 = push_bit 17 (ucast (byte_at tmp1 0)) OR push_bit 9 (ucast (byte_at tmp1 1))
       OR push_bit 1 (ucast (byte_at tmp1 2) AND NOT 7) OR 8 OR (ucast (byte_at tmp1 2) AND 7),
     lfsr1 = push_bit 9 (ucast (byte_at tmp1 3)) OR 0x100 OR ucast (byte_at tmp1 4),
     carry = 0 \<rparr>"

definition key_bit :: "css_regs \<Rightarrow> u32 \<times> css_regs" where
  "key_bit r =
     (let lfsr0_out = lfsr0_out (lfsr0 r);
          lfsr1_out = lfsr1_out (lfsr1 r);
          combined = ((NOT lfsr1_out) AND 1) + carry r + ((NOT lfsr0_out) AND 1)
      in (combined AND 1,
          \<lparr> lfsr0 = lfsr0_next (lfsr0 r), lfsr1 = lfsr1_next (lfsr1 r),
            carry = drop_bit 1 combined AND 1 \<rparr>))"

fun key_byte :: "nat list \<Rightarrow> css_regs \<Rightarrow> u8 \<Rightarrow> u8 \<times> css_regs" where
  "key_byte [] r val = (val, r)"
| "key_byte (i # rest) r val =
     (case key_bit r of (b, r') \<Rightarrow> key_byte rest r' (val OR push_bit i (ucast b)))"

fun keystream :: "nat list \<Rightarrow> css_regs \<Rightarrow> bytes \<Rightarrow> bytes" where
  "keystream [] r bits = bits"
| "keystream (idx # rest) r bits =
     (case key_byte [0..<8] r 0 of (val, r') \<Rightarrow> keystream rest r' (bits[idx := val]))"

section \<open>The rounds and the key\<close>

definition idx2 :: "u8 \<Rightarrow> u8 \<Rightarrow> u8" where
  "idx2 cse idx = byte_at CRYPT_TAB1 (unat idx) XOR NOT (byte_at CRYPT_TAB2 (unat idx)) XOR cse"

definition tab23 :: "u8 \<Rightarrow> u8 \<Rightarrow> u8" where
  "tab23 i2 term = byte_at CRYPT_TAB2 (unat i2) XOR byte_at CRYPT_TAB3 (unat i2) XOR term"

definition tab02 :: "u8 \<Rightarrow> u8 \<Rightarrow> u8" where
  "tab02 i2 term = (let idx3 = tab23 i2 term in
     byte_at CRYPT_TAB0 (unat idx3) XOR byte_at CRYPT_TAB2 (unat idx3))"

text \<open>
  One round over \<open>i = 4, .., 0\<close>: \<open>src\<close> is the array the round reads, \<open>dst\<close> the one it writes,
  \<open>ks\<close> its five bytes of keystream, and \<open>term\<close> the byte of \<open>src\<close> read last. The first round
  works in place, with its terms from the challenge.
\<close>

fun round_loop :: "(u8 \<Rightarrow> u8 \<Rightarrow> u8) \<Rightarrow> u8 \<Rightarrow> bytes \<Rightarrow> bytes \<Rightarrow> nat list \<Rightarrow> u8 \<Rightarrow> bytes \<Rightarrow> bytes" where
  "round_loop out cse ks src [] term dst = dst"
| "round_loop out cse ks src (i # is) term dst =
     (let i2 = idx2 cse (byte_at ks i XOR byte_at src i)
      in round_loop out cse ks src is (byte_at src i) (dst[i := out i2 term]))"

fun round1_loop :: "u8 \<Rightarrow> bytes \<Rightarrow> bytes \<Rightarrow> nat list \<Rightarrow> u8 \<Rightarrow> bytes \<Rightarrow> bytes" where
  "round1_loop cse ks scratch [] term tmp1 = tmp1"
| "round1_loop cse ks scratch (i # is) term tmp1 =
     (let i2 = idx2 cse (byte_at ks i XOR byte_at tmp1 i)
      in round1_loop cse ks scratch is (byte_at scratch i) (tmp1[i := tab23 i2 term]))"

definition fold_last :: "bytes \<Rightarrow> bytes" where
  "fold_last xs = xs[4 := byte_at xs 4 XOR byte_at xs 0]"

definition crypt_key :: "nat \<Rightarrow> u8 \<Rightarrow> bytes \<Rightarrow> bytes option" where
  "crypt_key key_type variant challenge =
     (if \<not> key_type < 3 \<or> \<not> unat variant < 32 then None
      else
        let scratch = map (\<lambda>i. byte_at challenge (PERM_CHALLENGE ! key_type ! i)) [0..<10];
            css_variant = (if key_type = 0 then unat variant
              else if key_type = 1 then unat (PERM_VARIANT ! 0 ! unat variant)
              else unat (PERM_VARIANT ! 1 ! unat variant));
            cse = byte_at VARIANTS css_variant XOR byte_at CRYPT_TAB2 css_variant;
            seed = map (\<lambda>i. byte_at scratch (5 + i) XOR byte_at SECRET i XOR byte_at CRYPT_TAB2 i) [0..<5];
            bits = keystream (rev [0..<30]) (seed_regs seed) (zeros 30);
            down = rev [0..<5];
            tmp1 = take 5 scratch;
            tmp1 = fold_last (round1_loop cse (drop 25 bits) scratch down 0 tmp1);
            tmp2 = fold_last (round_loop tab23 cse (drop 20 bits) tmp1 down 0 (zeros 5));
            tmp1 = fold_last (round_loop tab02 cse (drop 15 bits) tmp2 down 0 tmp1);
            tmp2 = fold_last (round_loop tab02 cse (drop 10 bits) tmp1 down 0 tmp2);
            tmp1 = fold_last (round_loop tab23 cse (drop 5 bits) tmp2 down 0 tmp1)
        in Some (round_loop tab23 cse bits tmp1 down 0 (zeros 5)))"

section \<open>What the keystream is\<close>

text \<open>
  The abstract view: each register shifts out a stream of bits, a stream of \<open>n\<close> inverted bits is
  a number (first bit lowest), and 30 bytes are a number (first byte generated lowest).
\<close>

primrec inv_stream :: "(u32 \<Rightarrow> u32) \<Rightarrow> (u32 \<Rightarrow> u32) \<Rightarrow> nat \<Rightarrow> u32 \<Rightarrow> nat" where
  "inv_stream out nxt 0 l = 0"
| "inv_stream out nxt (Suc n) l = (1 - unat (out l)) + 2 * inv_stream out nxt n (nxt l)"

abbreviation "stream0 \<equiv> inv_stream lfsr0_out lfsr0_next"
abbreviation "stream1 \<equiv> inv_stream lfsr1_out lfsr1_next"

primrec le_num :: "bytes \<Rightarrow> nat" where
  "le_num [] = 0"
| "le_num (x # xs) = unat x + 256 * le_num xs"

lemma and_1_cases: "w AND 1 = 0 \<or> w AND 1 = (1 :: u32)"
  by (simp add: and_one_eq mod_2_eq_odd)

lemma key_bit_sum:
  assumes "carry r = 0 \<or> carry r = 1" and "key_bit r = (b, r')"
  shows "carry r' = 0 \<or> carry r' = 1" and "b = 0 \<or> b = 1"
    and "lfsr0 r' = lfsr0_next (lfsr0 r)" and "lfsr1 r' = lfsr1_next (lfsr1 r)"
    and "unat b + 2 * unat (carry r')
      = unat (carry r) + (1 - unat (lfsr0_out (lfsr0 r))) + (1 - unat (lfsr1_out (lfsr1 r)))"
proof -
  have "lfsr0_out (lfsr0 r) = 0 \<or> lfsr0_out (lfsr0 r) = 1"
    unfolding lfsr0_out_def by (rule and_1_cases)
  moreover have "lfsr1_out (lfsr1 r) = 0 \<or> lfsr1_out (lfsr1 r) = 1"
    unfolding lfsr1_out_def by (rule and_1_cases)
  ultimately show "carry r' = 0 \<or> carry r' = 1" "b = 0 \<or> b = 1"
    "lfsr0 r' = lfsr0_next (lfsr0 r)" "lfsr1 r' = lfsr1_next (lfsr1 r)"
    "unat b + 2 * unat (carry r')
      = unat (carry r) + (1 - unat (lfsr0_out (lfsr0 r))) + (1 - unat (lfsr1_out (lfsr1 r)))"
    using assms by (auto simp: key_bit_def Let_def)
qed

lemma unat_or_bit:
  assumes "unat (val :: u8) < 2 ^ k" and "k < 8" and "b = 0 \<or> b = (1 :: u32)"
  shows "unat (val OR push_bit k (ucast b)) = unat val + 2 ^ k * unat b"
proof -
  have "val AND push_bit k (1 :: u8) = 0"
  proof (rule bit_word_eqI)
    fix n
    have "bit (unat val) k \<longleftrightarrow> bit val k" by (simp add: bit_unsigned_iff)
    with assms(1) have "\<not> bit val k" by (simp add: bit_iff_odd)
    then show "bit (val AND push_bit k 1) n = bit (0 :: u8) n"
      by (auto simp: bit_simps)
  qed
  then have "val OR push_bit k 1 = val + push_bit k 1"
    using word_plus_and_or [of val "push_bit k 1"] by simp
  moreover have "unat (val + push_bit k (1 :: u8)) = unat val + 2 ^ k"
  proof -
    have "k \<in> {0, 1, 2, 3, 4, 5, 6, 7}" using assms(2) by auto
    then have k: "unat (push_bit k (1 :: u8)) = 2 ^ k" by auto
    have "unat val + 2 ^ k < 2 ^ k + 2 ^ k" using assms(1) by simp
    also have "2 ^ k + 2 ^ k = (2 :: nat) ^ Suc k" by simp
    also have "(2 :: nat) ^ Suc k \<le> 2 ^ 8" using assms(2) by (intro power_increasing) auto
    finally show ?thesis using k by (simp add: unat_add_lem [THEN iffD1])
  qed
  ultimately show ?thesis using assms(3) by auto
qed

lemma key_byte_sum:
  assumes "key_byte [k..<k + n] r val = (v, r')" and "k + n \<le> 8"
    and "carry r = 0 \<or> carry r = 1" and "unat val < 2 ^ k"
  shows "unat v + 2 ^ (k + n) * unat (carry r')
      = unat val + 2 ^ k * (unat (carry r) + stream0 n (lfsr0 r) + stream1 n (lfsr1 r))
    \<and> (carry r' = 0 \<or> carry r' = 1)
    \<and> lfsr0 r' = (lfsr0_next ^^ n) (lfsr0 r) \<and> lfsr1 r' = (lfsr1_next ^^ n) (lfsr1 r)"
  using assms
proof (induction n arbitrary: k r val)
  case 0
  then show ?case by (simp add: algebra_simps)
next
  case (Suc n)
  obtain b r1 where b: "key_bit r = (b, r1)" by (cases "key_bit r")
  note sum = key_bit_sum [OF Suc.prems(3) b]
  have split: "[k..<k + Suc n] = k # [Suc k..<Suc k + n]" by (simp add: upt_conv_Cons)
  let ?val = "val OR push_bit k (ucast b)"
  have val: "unat ?val = unat val + 2 ^ k * unat b"
    using Suc.prems(2,4) sum(2) by (intro unat_or_bit) auto
  have small: "unat ?val < 2 ^ Suc k" using val Suc.prems(4) sum(2) by auto
  have run: "key_byte [Suc k..<Suc k + n] r1 ?val = (v, r')"
    using Suc.prems(1) b by (simp only: split key_byte.simps prod.case)
  define x0 where "x0 = 1 - unat (lfsr0_out (lfsr0 r))"
  define x1 where "x1 = 1 - unat (lfsr1_out (lfsr1 r))"
  have "2 ^ k * (unat b + 2 * unat (carry r1)) = 2 ^ k * (unat (carry r) + x0 + x1)"
    using sum(5) by (simp add: x0_def x1_def)
  moreover have "stream0 (Suc n) (lfsr0 r) = x0 + 2 * stream0 n (lfsr0 r1)"
    and "stream1 (Suc n) (lfsr1 r) = x1 + 2 * stream1 n (lfsr1 r1)"
    using sum(3,4) by (simp_all add: x0_def x1_def)
  ultimately show ?case
    using Suc.IH [OF run _ sum(1) small] Suc.prems(2) val sum(3,4)
    by (simp add: algebra_simps funpow_swap1)
qed

lemma inv_stream_append:
  "inv_stream out nxt (m + n) l = inv_stream out nxt m l + 2 ^ m * inv_stream out nxt n ((nxt ^^ m) l)"
  by (induction m arbitrary: l) (simp_all add: algebra_simps funpow_swap1)

lemma inv_stream_bound: "inv_stream out nxt n l < 2 ^ n"
proof (induction n arbitrary: l)
  case (Suc n)
  from this [of "nxt l"] show ?case by simp
qed simp

lemma le_num_append: "le_num (xs @ ys) = le_num xs + 256 ^ length xs * le_num ys"
  by (induction xs) (simp_all add: algebra_simps)

lemma le_num_bound: "le_num xs < 256 ^ length xs"
proof (induction xs)
  case (Cons x xs)
  have "unat x < 2 ^ LENGTH(8)" by (rule unsigned_less)
  then have "unat x < 256" by simp
  with Cons show ?case by simp
qed simp

lemma length_keystream [simp]: "length (keystream idxs r bits) = length bits"
  by (induction idxs r bits rule: keystream.induct) (auto split: prod.split)

lemma keystream_sum:
  assumes "carry r = 0 \<or> carry r = 1" and "m \<le> length bits"
  shows "\<exists>c. le_num (rev (take m (keystream (rev [0..<m]) r bits))) + 256 ^ m * c
      = unat (carry r) + stream0 (8 * m) (lfsr0 r) + stream1 (8 * m) (lfsr1 r)
    \<and> drop m (keystream (rev [0..<m]) r bits) = drop m bits"
  using assms
proof (induction m arbitrary: r bits)
  case 0
  then show ?case by simp
next
  case (Suc m)
  obtain val r' where val: "key_byte [0..<8] r 0 = (val, r')" by (cases "key_byte [0..<8] r 0")
  have byte: "unat val + 256 * unat (carry r') = unat (carry r) + stream0 8 (lfsr0 r) + stream1 8 (lfsr1 r)"
    "carry r' = 0 \<or> carry r' = 1"
    "lfsr0 r' = (lfsr0_next ^^ 8) (lfsr0 r)" "lfsr1 r' = (lfsr1_next ^^ 8) (lfsr1 r)"
    using key_byte_sum [of 0 8 r 0 val r'] val Suc.prems(1) by simp_all
  let ?out = "keystream (rev [0..<m]) r' (bits[m := val])"
  obtain c where c: "le_num (rev (take m ?out)) + 256 ^ m * c
      = unat (carry r') + stream0 (8 * m) (lfsr0 r') + stream1 (8 * m) (lfsr1 r')"
    and keep: "drop m ?out = drop m (bits[m := val])"
    using Suc.IH [of r' "bits[m := val]"] byte(2) Suc.prems(2) by auto
  have "drop m (bits[m := val]) = val # drop (Suc m) bits"
    using Suc.prems(2) by (simp add: drop_update_swap Cons_nth_drop_Suc [symmetric])
  with keep have out: "drop m ?out = val # drop (Suc m) bits" by simp
  then have last: "drop (Suc m) ?out = drop (Suc m) bits" "?out ! m = val"
    by (metis drop_Suc list.sel(3) tl_drop)
       (metis out Suc.prems(2) Suc_le_eq hd_drop_conv_nth length_keystream length_list_update list.sel(1))
  have "take (Suc m) ?out = take m ?out @ [val]"
    using last(2) Suc.prems(2) by (simp add: take_Suc_conv_app_nth)
  moreover have "stream0 (8 * Suc m) (lfsr0 r) = stream0 8 (lfsr0 r) + 256 * stream0 (8 * m) (lfsr0 r')"
    and "stream1 (8 * Suc m) (lfsr1 r) = stream1 8 (lfsr1 r) + 256 * stream1 (8 * m) (lfsr1 r')"
    using inv_stream_append [of lfsr0_out lfsr0_next 8 "8 * m" "lfsr0 r"]
      inv_stream_append [of lfsr1_out lfsr1_next 8 "8 * m" "lfsr1 r"] byte(3,4) by simp_all
  ultimately have "le_num (rev (take (Suc m) ?out)) + 256 ^ Suc m * c
      = unat (carry r) + stream0 (8 * Suc m) (lfsr0 r) + stream1 (8 * Suc m) (lfsr1 r)"
    using byte(1) c by (simp add: algebra_simps)
  with last(1) val show ?case by auto
qed

text \<open>
  C33. The CSS keystream is an addition: the 30 bytes the bit-serial adder produces, read as a
  240-bit number in the order of generation, are the sum modulo \<open>2 ^ 240\<close> of the inverted
  output streams of the two shift registers, for every seed.
\<close>
theorem css_keystream_is_sum:
  "le_num (rev (keystream (rev [0..<30]) (seed_regs seed) (zeros 30)))
    = (stream0 240 (lfsr0 (seed_regs seed)) + stream1 240 (lfsr1 (seed_regs seed))) mod 2 ^ 240"
proof -
  let ?ks = "keystream (rev [0..<30]) (seed_regs seed) (zeros 30)"
  obtain c where "le_num (rev (take 30 ?ks)) + 256 ^ 30 * c
      = stream0 (8 * 30) (lfsr0 (seed_regs seed)) + stream1 (8 * 30) (lfsr1 (seed_regs seed))"
    using keystream_sum [of "seed_regs seed" 30 "zeros 30"] by (auto simp: seed_regs_def)
  then have sum: "le_num (rev ?ks) + 2 ^ 240 * c
      = stream0 240 (lfsr0 (seed_regs seed)) + stream1 240 (lfsr1 (seed_regs seed))"
    by simp
  have "le_num (rev ?ks) < 256 ^ length (rev ?ks)" by (rule le_num_bound)
  then have "le_num (rev ?ks) < 2 ^ 240" by simp
  then show ?thesis by (simp add: sum [symmetric])
qed

section \<open>The registers never get stuck\<close>

definition regs_ok :: "css_regs \<Rightarrow> bool" where
  "regs_ok r \<longleftrightarrow> lfsr0 r \<noteq> 0 \<and> take_bit 25 (lfsr0 r) = lfsr0 r
     \<and> lfsr1 r \<noteq> 0 \<and> take_bit 17 (lfsr1 r) = lfsr1 r \<and> (carry r = 0 \<or> carry r = 1)"

lemma masks: "(0x1FFFFFF :: u32) = mask 25" "(0x1FFFF :: u32) = mask 17"
  by (simp_all add: mask_eq_exp_minus_1)

lemma shift_in_nonzero:
  fixes l out :: u32
  assumes "k = Suc n" and "take_bit k l = l" and "l \<noteq> 0" and "n < 31"
    and "(\<And>i. i < n \<Longrightarrow> \<not> bit l i) \<Longrightarrow> bit l n \<Longrightarrow> bit out 0"
  shows "(push_bit 1 l OR out) AND mask k \<noteq> 0"
proof
  assume zero: "(push_bit 1 l OR out) AND mask k = 0"
  have bits: "\<not> bit ((push_bit 1 l OR out) AND mask k) i" for i
    unfolding zero by simp
  have low: "\<not> bit l i" if "i < n" for i
    using bits [of "Suc i"] that assms(1,4)
    by (simp add: bit_simps bit_double_iff mult.commute [of l 2])
  have "\<not> bit l n"
    using assms(1,5) low bits [of 0] by (auto simp: bit_simps)
  moreover have "\<not> bit l i" if "n < i" for i
    using that assms(1,2) by (metis bit_take_bit_iff not_less_eq)
  ultimately have "\<not> bit l i" for i
    using low by (metis linorder_neqE_nat)
  with assms(3) show False by (simp add: bit_eq_iff)
qed

lemma regs_ok_key_bit: "regs_ok r \<Longrightarrow> regs_ok (snd (key_bit r))"
proof -
  assume ok: "regs_ok r"
  obtain b r' where run: "key_bit r = (b, r')" by (cases "key_bit r")
  note next_regs = key_bit_sum(1,3,4) [OF _ run]
  have "lfsr0_next (lfsr0 r) \<noteq> 0"
    unfolding lfsr0_next_def masks using ok
    by (intro shift_in_nonzero [where n = 24]) (auto simp: regs_ok_def lfsr0_out_def bit_simps)
  moreover have "lfsr1_next (lfsr1 r) \<noteq> 0"
    unfolding lfsr1_next_def masks using ok
    by (intro shift_in_nonzero [where n = 16]) (auto simp: regs_ok_def lfsr1_out_def bit_simps)
  moreover have "take_bit 25 (lfsr0_next (lfsr0 r)) = lfsr0_next (lfsr0 r)"
    "take_bit 17 (lfsr1_next (lfsr1 r)) = lfsr1_next (lfsr1 r)"
    by (simp_all add: lfsr0_next_def lfsr1_next_def masks flip: take_bit_eq_mask)
  ultimately show ?thesis
    using ok next_regs by (auto simp: regs_ok_def run)
qed

lemma take_bit_byte:
  "8 \<le> n \<Longrightarrow> take_bit n (ucast (b :: u8) AND y) = ucast b AND (y :: u32)"
  "8 \<le> n \<Longrightarrow> take_bit n (ucast (b :: u8)) = (ucast b :: u32)"
  by (rule bit_word_eqI, auto simp: bit_simps dest: bit_imp_le_length)+

text \<open>
  The shift registers stay in 25 and 17 bits and never reach zero (from which no bit would
  ever be shifted out again), and the carry stays a bit: after any number of steps from the
  seed of any challenge.
\<close>
theorem css_registers_never_stuck:
  "regs_ok (((\<lambda>r. snd (key_bit r)) ^^ n) (seed_regs seed))"
proof (induction n)
  case 0
  have "bit (lfsr0 (seed_regs seed)) 3" "bit (lfsr1 (seed_regs seed)) 8"
    by (simp_all add: seed_regs_def bit_simps)
  then have "lfsr0 (seed_regs seed) \<noteq> 0" "lfsr1 (seed_regs seed) \<noteq> 0" by auto
  moreover have shifted: "take_bit 25 (push_bit 1 (ucast (byte_at seed 2) AND NOT 7 :: u32))
      = push_bit 1 (ucast (byte_at seed 2) AND NOT 7)"
    by (simp only: take_bit_push_bit) (simp add: take_bit_byte del: take_bit_and push_bit_and)
  moreover have "take_bit 25 (lfsr0 (seed_regs seed)) = lfsr0 (seed_regs seed)"
    and "take_bit 17 (lfsr1 (seed_regs seed)) = lfsr1 (seed_regs seed)"
    using shifted
    by (simp_all add: seed_regs_def take_bit_byte take_bit_push_bit del: take_bit_and push_bit_and)
  ultimately show ?case by (simp add: regs_ok_def seed_regs_def)
next
  case (Suc n)
  then show ?case by (simp add: regs_ok_key_bit)
qed

section \<open>The key\<close>

lemma perm_tables:
  "list_all (\<lambda>row. sort row = [0..<10]) PERM_CHALLENGE"
  "list_all (\<lambda>row. sort (map unat row) = [0..<32]) PERM_VARIANT"
  by code_simp+

lemma length_round_loop [simp]: "length (round_loop out cse ks src is term dst) = length dst"
  by (induction out cse ks src "is" "term" dst rule: round_loop.induct) (auto simp: Let_def)

lemma crypt_key_Some_iff: "(\<exists>key. crypt_key key_type variant challenge = Some key) \<longleftrightarrow> key_type < 3 \<and> unat variant < 32"
  by (simp add: crypt_key_def Let_def)

text \<open>
  The key function is total on its domain: it stops at its assertions exactly for a key
  type above 2 or a variant above 31, and otherwise returns five bytes.
\<close>
theorem crypt_key_domain:
  "case crypt_key key_type variant challenge of
     None \<Rightarrow> \<not> (key_type < 3 \<and> unat variant < 32)
   | Some key \<Rightarrow> key_type < 3 \<and> unat variant < 32 \<and> length key = 5"
  by (auto simp: crypt_key_def Let_def)

end
