(* ===== verification/Css.thy ===== *)
theory Css
  imports Unlock Css_Cipher Replay
begin

text \<open>
  The DVD unlocker of \<open>src/css/mod.rs\<close> with its error type (\<open>src/css/error.rs\<close>): the CSS bus
  authentication over REPORT KEY and SEND KEY, the AGID it holds, the best-effort disc-key read
  and the self-guard that keeps it off anything that is not a DVD.
\<close>

unbundle bit_operations_syntax

section \<open>Errors\<close>

datatype css_error = CssAuthFailed | CssScsi scsi_error

fun css_code :: "css_error \<Rightarrow> u16" where
  "css_code CssAuthFailed = 7201"
| "css_code (CssScsi _) = 7299"

fun css_is_transport_failure :: "css_error \<Rightarrow> bool" where
  "css_is_transport_failure (CssScsi s) = is_dead_bus s"
| "css_is_transport_failure CssAuthFailed = False"

definition css_step_err :: "scsi_error \<Rightarrow> css_error" where
  "css_step_err e =
     (let err = CssScsi e in if css_is_transport_failure err then err else CssAuthFailed)"

definition css_unlock_error :: "css_error \<Rightarrow> unlock_error" where
  "css_unlock_error e = (if css_is_transport_failure e then Transport else NotApplicable)"

interpretation css_from: error_class CssScsi css_is_transport_failure css_unlock_error
  by unfold_locales (simp_all add: css_unlock_error_def)

interpretation css_step: error_class css_step_err css_is_transport_failure css_unlock_error
  by unfold_locales (simp_all add: css_unlock_error_def css_step_err_def Let_def)

section \<open>Commands\<close>

definition report_key_cdb :: "u8 \<Rightarrow> u8 \<Rightarrow> u16 \<Rightarrow> bytes" where
  "report_key_cdb agid fmt alloc_len = (zeros 12)
     [0 := SCSI_REPORT_KEY,
      8 := hi_byte alloc_len,
      9 := lo_byte alloc_len,
      10 := push_bit 6 agid OR (fmt AND 0x3F)]"

definition send_key_cdb :: "u8 \<Rightarrow> u8 \<Rightarrow> u16 \<Rightarrow> bytes" where
  "send_key_cdb agid fmt param_len = (zeros 12)
     [0 := SCSI_SEND_KEY,
      8 := hi_byte param_len,
      9 := lo_byte param_len,
      10 := push_bit 6 agid OR (fmt AND 0x3F)]"

definition agid_release_cdb :: "u8 \<Rightarrow> bytes" where
  "agid_release_cdb agid = (zeros 12)
     [0 := SCSI_REPORT_KEY,
      10 := push_bit 6 agid OR 0x3F]"

definition DISC_KEY_LEN :: u16 where [const_defs]: "DISC_KEY_LEN = 2048 + 4"

definition disc_key_cdb :: "u8 \<Rightarrow> bytes" where
  "disc_key_cdb agid = (zeros 12)
     [0 := SCSI_READ_DISC_STRUCTURE,
      6 := 0,
      7 := 0x02,
      8 := hi_byte DISC_KEY_LEN,
      9 := lo_byte DISC_KEY_LEN,
      10 := push_bit 6 agid]"

definition css_scsi :: "'w host \<Rightarrow> bytes \<Rightarrow> data_direction \<Rightarrow> bytes \<Rightarrow> nat \<Rightarrow> ('w, css_error + bytes) io" where
  "css_scsi H cdb dir buf min_bytes =
     bind_io (execute H cdb dir buf 5000) (\<lambda>(r, buf).
     case r of
       Inl e \<Rightarrow> errE (css_step_err e)
     | Inr r \<Rightarrow>
         if res_status r \<noteq> 0 then errE CssAuthFailed
         else if res_transferred r < min_bytes then errE CssAuthFailed
         else okE buf)"

section \<open>Bus authentication\<close>

definition invalidate_agid :: "'w host \<Rightarrow> u8 \<Rightarrow> ('w, unit) io" where
  "invalidate_agid H agid =
     bind_io (execute H (agid_release_cdb agid) FromDevice (zeros 8) 5000) (\<lambda>_. ret ())"

primrec invalidate_agids :: "'w host \<Rightarrow> u8 list \<Rightarrow> ('w, unit) io" where
  "invalidate_agids H [] = ret ()"
| "invalidate_agids H (a # as) = bind_io (invalidate_agid H a) (\<lambda>_. invalidate_agids H as)"

text \<open>The parameter blocks: ten (five) bytes from offset 4 on, last byte first.\<close>

definition challenge_block :: "bytes \<Rightarrow> bytes" where
  "challenge_block challenge = put_at 4 (map (\<lambda>i. byte_at challenge (9 - i)) [0..<10])
     ((zeros 16)[0 := 0x00, 1 := 0x0E])"

definition key2_block :: "bytes \<Rightarrow> bytes" where
  "key2_block key2 = put_at 4 (map (\<lambda>i. byte_at key2 (4 - i)) [0..<5])
     ((zeros 12)[0 := 0x00, 1 := 0x0A])"

definition read_key1 :: "bytes \<Rightarrow> bytes" where
  "read_key1 buf = map (\<lambda>i. byte_at buf (4 + (4 - i))) [0..<5]"

definition read_challenge :: "bytes \<Rightarrow> bytes" where
  "read_challenge buf = map (\<lambda>i. byte_at buf (4 + (9 - i))) [0..<10]"

primrec find_variant :: "u8 list \<Rightarrow> bytes \<Rightarrow> bytes \<Rightarrow> u8 option" where
  "find_variant [] challenge key1 = None"
| "find_variant (v # vs) challenge key1 =
     (if crypt_key 0 v challenge = Some key1 then Some v else find_variant vs challenge key1)"

definition ALL_VARIANTS :: "u8 list" where
  "ALL_VARIANTS = map of_nat [0..<32]"

definition authenticate_with_agid :: "'w host \<Rightarrow> u8 \<Rightarrow> ('w, css_error + unit) io" where
  "authenticate_with_agid H agid =
     bind_io (fill_bytes H 10) (\<lambda>host_challenge.
     bindE (css_scsi H (send_key_cdb agid 0x01 16) ToDevice (challenge_block host_challenge) 0) (\<lambda>_.
     bindE (css_scsi H (report_key_cdb agid 0x02 12) FromDevice (zeros 12) 12) (\<lambda>dk_buf.
     case find_variant ALL_VARIANTS host_challenge (read_key1 dk_buf) of
       None \<Rightarrow> errE CssAuthFailed
     | Some variant \<Rightarrow>
         bindE (css_scsi H (report_key_cdb agid 0x01 16) FromDevice (zeros 16) 16) (\<lambda>dc_buf.
         let key2 = the (crypt_key 1 variant (read_challenge dc_buf)) in
         bindE (css_scsi H (send_key_cdb agid 0x03 12) ToDevice (key2_block key2) 0) (\<lambda>_.
         okE ())))))"

definition establish_authenticated_session :: "'w host \<Rightarrow> ('w, css_error + u8) io" where
  "establish_authenticated_session H =
     bind_io (invalidate_agids H [0, 1, 2, 3]) (\<lambda>_.
     bindE (css_scsi H (report_key_cdb 0 0x00 8) FromDevice (zeros 8) 8) (\<lambda>buf.
     let agid = drop_bit 6 (byte_at buf 7) AND 0x03;
         guard = agid_guard_new agid (agid_release_cdb agid)
     in bind_io (authenticate_with_agid H agid) (\<lambda>r.
        case r of
          Inl e \<Rightarrow> bind_io (agid_guard_drop H guard) (\<lambda>_. errE e)
        | Inr _ \<Rightarrow> (case agid_guard_defuse guard of (agid, guard) \<Rightarrow>
            bind_io (agid_guard_drop H guard) (\<lambda>_. okE agid)))))"

definition read_disc_key :: "'w host \<Rightarrow> u8 \<Rightarrow> ('w, css_error + unit) io" where
  "read_disc_key H agid =
     bindE (css_scsi H (disc_key_cdb agid) FromDevice (zeros (unat DISC_KEY_LEN)) 0) (\<lambda>_. okE ())"

definition unlock_css_reads_inner :: "'w host \<Rightarrow> u32 \<Rightarrow> ('w, css_error + unit) io" where
  "unlock_css_reads_inner H lba =
     bindE (establish_authenticated_session H) (\<lambda>agid.
     bind_io (read_disc_key H agid) (\<lambda>_.
     okE ()))"

definition unlock_css_reads :: "'w host \<Rightarrow> u32 \<Rightarrow> ('w, css_error + unit) io" where
  "unlock_css_reads H lba = unlock_css_reads_inner H lba"

section \<open>The unlocker\<close>

definition get_configuration_cdb :: bytes where
  "get_configuration_cdb = [SCSI_GET_CONFIGURATION, 0, 0, 0, 0, 0, 0, 0, 0x08, 0x00]"

definition mounted_disc_is_dvd :: "'w host \<Rightarrow> ('w, unlock_error + bool) io" where
  "mounted_disc_is_dvd H =
     bind_io (execute H get_configuration_cdb FromDevice (zeros 8) 5000) (\<lambda>(r, buf).
     case r of
       Inr r \<Rightarrow> if res_status r = 0 \<and> 8 \<le> res_transferred r
         then let profile = from_be16 (byte_at buf 6) (byte_at buf 7)
              in okE (0x0010 \<le> profile \<and> profile \<le> 0x001F)
         else okE False
     | Inl e \<Rightarrow> errE (css_unlock_error (css_step_err e)))"

definition dvd_unlock :: "'w unlock_fn" where
  "dvd_unlock H ctx =
     bindE (mounted_disc_is_dvd H) (\<lambda>is_dvd.
     if \<not> is_dvd then okE None
     else bind_io (map_errE css_unlock_error (bindE (unlock_css_reads H 0) (\<lambda>_. okE unlocked_default))) (\<lambda>r.
       ret (fallthrough r)))"

definition DvdUnlocker :: "'w unlocker" where
  "DvdUnlocker = \<lparr> u_name = ''DVD'', u_claims = (\<lambda>_. False), u_unlock = returning dvd_unlock \<rparr>"

section \<open>One command\<close>

fun css_error_of :: "event \<Rightarrow> css_error" where
  "css_error_of (Exec _ _ _ _ (Inl e) _) = css_step_err e"
| "css_error_of _ = CssAuthFailed"

lemma sat_bindE_css_scsi:
  assumes "\<And>ev. exec_cdb ev = Some cdb \<Longrightarrow> event_data ev = data \<Longrightarrow> exec_ok n ev \<Longrightarrow>
      sat (f (event_buf ev)) (\<lambda>b es. Q b (ev # es))"
    and "\<And>ev. exec_cdb ev = Some cdb \<Longrightarrow> event_data ev = data \<Longrightarrow> \<not> exec_ok n ev \<Longrightarrow> Q (Inl (css_error_of ev)) [ev]"
  shows "sat (bindE (css_scsi H cdb dir data n) f) Q"
  unfolding css_scsi_def
proof (rule sat_bindE_bind, rule sat_bind_execute)
  fix r and buf :: bytes
  note ok = assms(1) [of "Exec cdb dir data 5000 r buf"]
    and err = assms(2) [of "Exec cdb dir data 5000 r buf"]
  show "sat (bindE (case (r, buf) of (r, buf) \<Rightarrow> (case r of Inl e \<Rightarrow> errE (css_step_err e)
        | Inr r \<Rightarrow> if res_status r \<noteq> 0 then errE CssAuthFailed
            else if res_transferred r < n then errE CssAuthFailed else okE buf)) f)
     (\<lambda>b es. Q b (Exec cdb dir data 5000 r buf # es))"
    using ok err by (cases r) simp_all
qed

section \<open>What authentication means\<close>

text \<open>
  The transcript of a successful authentication, independent of how it is computed: the host
  sends a challenge; the drive answers with Key1, which is the key function of the challenge
  under some variant (the first one that fits); the drive sends its own challenge; the host
  answers it with Key2 under the same variant.
\<close>

definition authenticated :: "u8 \<Rightarrow> event list \<Rightarrow> bool" where
  "authenticated agid es \<longleftrightarrow> (\<exists>challenge variant key2 e1 e2 e3 e4.
     es = [e1, e2, e3, e4] \<and> length challenge = 10 \<and> unat variant < 32
   \<and> exec_cdb e1 = Some (send_key_cdb agid 1 16) \<and> event_data e1 = challenge_block challenge \<and> exec_ok 0 e1
   \<and> exec_cdb e2 = Some (report_key_cdb agid 2 12) \<and> exec_ok 12 e2
   \<and> crypt_key 0 variant challenge = Some (read_key1 (event_buf e2))
   \<and> (\<forall>v < variant. crypt_key 0 v challenge \<noteq> Some (read_key1 (event_buf e2)))
   \<and> exec_cdb e3 = Some (report_key_cdb agid 1 16) \<and> exec_ok 16 e3
   \<and> crypt_key 1 variant (read_challenge (event_buf e3)) = Some key2
   \<and> exec_cdb e4 = Some (send_key_cdb agid 3 12) \<and> event_data e4 = key2_block key2 \<and> exec_ok 0 e4)"

lemma find_variant_Some:
  "sorted_wrt (<) vs \<Longrightarrow> find_variant vs c k = Some v \<longleftrightarrow>
     v \<in> set vs \<and> crypt_key 0 v c = Some k \<and> (\<forall>u \<in> set vs. u < v \<longrightarrow> crypt_key 0 u c \<noteq> Some k)"
proof (induction vs)
  case (Cons x vs)
  then show ?case
    by (cases "crypt_key 0 x c = Some k"; cases "v = x") (auto simp: Cons.IH)
qed simp

lemma find_variant_None: "find_variant vs c k = None \<longleftrightarrow> (\<forall>v \<in> set vs. crypt_key 0 v c \<noteq> Some k)"
  by (induction vs) auto

lemma set_ALL_VARIANTS: "v \<in> set ALL_VARIANTS \<longleftrightarrow> unat v < 32"
proof
  assume "unat v < 32"
  then show "v \<in> set ALL_VARIANTS"
    by (auto simp: ALL_VARIANTS_def image_iff intro: bexI [of _ "unat v"])
qed (auto simp: ALL_VARIANTS_def unat_of_nat)

lemma find_variant_least:
  "find_variant ALL_VARIANTS c k = Some v \<longleftrightarrow>
     unat v < 32 \<and> crypt_key 0 v c = Some k \<and> (\<forall>u < v. crypt_key 0 u c \<noteq> Some k)"
proof -
  have sorted: "sorted_wrt (<) ALL_VARIANTS" by code_simp
  have "unat u < 32" if "u < v" and "unat v < 32" for u
    using that by (simp add: word_less_nat_alt)
  then show ?thesis
    by (auto simp: find_variant_Some [OF sorted] set_ALL_VARIANTS)
qed

lemma key1_has_key2:
  assumes "unat v < 32"
  shows "\<exists>key2. crypt_key 1 v c = Some key2"
  using assms by (simp add: crypt_key_Some_iff)

lemma not_authenticated: "length es < 4 \<Longrightarrow> \<not> authenticated agid es"
  by (auto simp: authenticated_def)

lemma sat_authenticate: "sat (authenticate_with_agid H agid)
    (\<lambda>r es. r = Inr () \<longleftrightarrow> authenticated agid es)"
  unfolding authenticate_with_agid_def
proof (rule sat_bind [OF sat_fill_bytes], elim conjE, simp only: append_Nil,
    rule sat_bindE_css_scsi, rule sat_bindE_css_scsi)
  fix challenge e1 e2
  assume len: "length challenge = 10"
    and e1: "exec_cdb e1 = Some (send_key_cdb agid 1 16)" "event_data e1 = challenge_block challenge" "exec_ok 0 e1"
    and e2: "exec_cdb e2 = Some (report_key_cdb agid 2 12)" "exec_ok 12 e2"
  show "sat (case find_variant ALL_VARIANTS challenge (read_key1 (event_buf e2)) of
         None \<Rightarrow> errE CssAuthFailed
       | Some variant \<Rightarrow>
           bindE (css_scsi H (report_key_cdb agid 0x01 16) FromDevice (zeros 16) 16) (\<lambda>dc_buf.
           let key2 = the (crypt_key 1 variant (read_challenge dc_buf)) in
           bindE (css_scsi H (send_key_cdb agid 0x03 12) ToDevice (key2_block key2) 0) (\<lambda>_.
           okE ())))
       (\<lambda>r es. r = Inr () \<longleftrightarrow> authenticated agid (e1 # e2 # es))"
  proof (cases "find_variant ALL_VARIANTS challenge (read_key1 (event_buf e2))")
    case (Some v)
    then have v: "unat v < 32" "crypt_key 0 v challenge = Some (read_key1 (event_buf e2))"
      "\<forall>u < v. crypt_key 0 u challenge \<noteq> Some (read_key1 (event_buf e2))"
      by (simp_all add: find_variant_least)
    have finished: "authenticated agid [e1, e2, e3, e4] \<longleftrightarrow> exec_ok 0 e4"
      if "exec_cdb e3 = Some (report_key_cdb agid 1 16)" "exec_ok 16 e3"
        "exec_cdb e4 = Some (send_key_cdb agid 3 12)"
        "event_data e4 = key2_block (the (crypt_key 1 v (read_challenge (event_buf e3))))" for e3 e4
      using key1_has_key2 [OF v(1), of "read_challenge (event_buf e3)"] that v e1 e2 len
      unfolding authenticated_def by auto blast
    show ?thesis
      unfolding Some option.case Let_def
      by (rule sat_bindE_css_scsi, rule sat_bindE_css_scsi) (simp_all add: finished not_authenticated)
  qed (simp add: not_authenticated)
qed (simp_all add: not_authenticated)

text \<open>
  C25. Bus authentication succeeds exactly when the drive followed the protocol: success is
  reported if and only if the transcript is the four-command exchange in which the drive's Key1
  is the key function of the host's challenge, the host answered the drive's challenge with Key2
  under the first variant that fits Key1, and every command succeeded in full.
\<close>
theorem css_authentication_sound_complete:
  "result_of (authenticate_with_agid H agid) w = Inr ()
    \<longleftrightarrow> authenticated agid (events_of (authenticate_with_agid H agid) w)"
  by (rule sat_run [OF sat_authenticate])

section \<open>The AGID is never leaked\<close>




lemma emits_css_scsi [emits_intros]:
  assumes "\<And>r buf. P (Exec cdb dir data 5000 r buf)"
  shows "emits P (css_scsi H cdb dir data n)"
  unfolding css_scsi_def by (auto intro!: emits_intros assms)

lemma emits_authenticate:
  assumes "\<And>ev. exec_cdb ev \<noteq> None \<Longrightarrow> P ev"
  shows "emits P (authenticate_with_agid H agid)"
  unfolding authenticate_with_agid_def by (auto simp: Let_def intro!: emits_intros assms)

lemma agid_guard_ok_release: "agid_guard_ok agid (agid_release_cdb agid)"
proof -
  have "push_bit 6 (agid AND 0x03) OR 0x3F = (push_bit 6 agid OR 0x3F :: u8)"
  proof (rule bit_word_eqI)
    fix n assume "n < LENGTH(8)"
    then have "n \<in> {0, 1, 2, 3, 4, 5, 6, 7}" by auto
    then show "bit (push_bit 6 (agid AND 0x03) OR 0x3F) n = bit (push_bit 6 agid OR 0x3F :: u8) n"
      by (auto simp: bit_simps)
  qed
  then show ?thesis
    by (simp add: agid_guard_ok_def agid_release_cdb_def zeros_unfold const_defs)
qed


section \<open>Which failures abort\<close>

text \<open>
  The calls whose dead bus is reported: all but the two best-effort ones, the invalidation of
  AGIDs (key format 3Fh) and the disc-key read.
\<close>

definition best_effort :: "bytes \<Rightarrow> bool" where
  "best_effort cdb \<longleftrightarrow> byte_at cdb 0 = SCSI_READ_DISC_STRUCTURE
     \<or> byte_at cdb 0 = SCSI_REPORT_KEY \<and> byte_at cdb 10 AND 0x3F = 0x3F"

definition css_fatal :: "event \<Rightarrow> bool" where
  "css_fatal ev \<longleftrightarrow> dead_event ev \<and> \<not> (case exec_cdb ev of Some cdb \<Rightarrow> best_effort cdb | None \<Rightarrow> False)"

lemma best_effort_cdbs:
  "best_effort (report_key_cdb agid fmt len) \<longleftrightarrow> fmt AND 0x3F = 0x3F"
  "\<not> best_effort (send_key_cdb agid fmt len)"
  "best_effort (agid_release_cdb agid)"
  "best_effort (disc_key_cdb agid)"
  by (simp_all add: best_effort_def report_key_cdb_def send_key_cdb_def agid_release_cdb_def
      disc_key_cdb_def zeros_unfold const_defs format_bits format_bits_3F)

lemma css_step_err_transport: "css_is_transport_failure (css_step_err e) \<longleftrightarrow> is_dead_bus e"
  by (rule css_step.transport_of_scsi)

lemma css_fatal_exec:
  "css_fatal (Exec cdb dir data tmo r buf) \<longleftrightarrow> \<not> best_effort cdb \<and> (case r of Inl e \<Rightarrow> is_dead_bus e | Inr _ \<Rightarrow> False)"
  by (auto simp: css_fatal_def split: sum.split)

lemma reports_css_scsi [reports_intros]:
  assumes "\<not> best_effort cdb"
  shows "reports css_fatal css_is_transport_failure (css_scsi H cdb dir data n)"
  unfolding css_scsi_def using assms
  by (intro reports_execute) (auto simp: css_fatal_exec css_step_err_transport split: sum.split)

lemma reports_authenticate [reports_intros]:
  "reports css_fatal css_is_transport_failure (authenticate_with_agid H agid)"
  unfolding authenticate_with_agid_def
  by (auto simp: Let_def best_effort_cdbs intro!: reports_intros emits_intros split: option.split)

lemma quiet_invalidate: "emits (\<lambda>e. \<not> css_fatal e) (invalidate_agids H as)"
proof (induction "as")
  case (Cons a as)
  then show ?case
    by (auto simp: invalidate_agid_def css_fatal_exec best_effort_cdbs intro!: emits_intros)
qed (simp add: emits_ret)

lemma sat_drop_quiet: "sat (agid_guard_drop H g) (\<lambda>_ es. \<not> list_ex css_fatal es)"
  unfolding agid_guard_drop_def
  by (auto simp: css_fatal_def intro!: sat_bind [OF sat_execute_cleanup])

lemma reports_establish:
  "reports css_fatal css_is_transport_failure (establish_authenticated_session H)"
  unfolding establish_authenticated_session_def Let_def
proof (rule reports_bind_quiet [OF quiet_invalidate], rule reports_bindE)
  show "reports css_fatal css_is_transport_failure (css_scsi H (report_key_cdb 0 0x00 8) FromDevice (zeros 8) 8)"
    by (simp add: reports_css_scsi best_effort_cdbs)
  show "reports css_fatal css_is_transport_failure
      (bind_io (authenticate_with_agid H (drop_bit 6 (byte_at buf 7) AND 0x03)) (\<lambda>r.
        case r of
          Inl e \<Rightarrow> bind_io (agid_guard_drop H (agid_guard_new (drop_bit 6 (byte_at buf 7) AND 0x03)
              (agid_release_cdb (drop_bit 6 (byte_at buf 7) AND 0x03)))) (\<lambda>_. errE e)
        | Inr _ \<Rightarrow> (case agid_guard_defuse (agid_guard_new (drop_bit 6 (byte_at buf 7) AND 0x03)
              (agid_release_cdb (drop_bit 6 (byte_at buf 7) AND 0x03))) of (agid, guard) \<Rightarrow>
            bind_io (agid_guard_drop H guard) (\<lambda>_. okE agid))))" for buf
    by (rule reports_then_quiet [OF reports_authenticate])
       (auto split: sum.split prod.split intro!: sat_bind [OF sat_drop_quiet])
qed

lemma reports_unlock_css_reads: "reports css_fatal css_is_transport_failure (unlock_css_reads H lba)"
  unfolding unlock_css_reads_def unlock_css_reads_inner_def read_disc_key_def
  by (intro reports_bindE reports_establish reports_bind_quiet reports_ok emits_intros)
     (simp add: css_fatal_exec best_effort_cdbs)

text \<open>
  The disc-key read is best effort: whatever the drive answers to it, a dead bus included,
  the outcome of the unlock is the outcome of the authentication.
\<close>
theorem css_disc_key_never_matters:
  "result_of (unlock_css_reads H lba) w
    = map_sum id (\<lambda>_. ()) (result_of (establish_authenticated_session H) w)"
  by (simp add: unlock_css_reads_def unlock_css_reads_inner_def run_simps split: prod.split sum.split)

section \<open>The unlocker's contract\<close>

fun reports_dvd :: "event \<Rightarrow> bool" where
  "reports_dvd (Exec _ _ _ _ (Inr res) buf) \<longleftrightarrow> res_status res = 0 \<and> 8 \<le> res_transferred res
     \<and> 0x10 \<le> from_be16 (byte_at buf 6) (byte_at buf 7) \<and> from_be16 (byte_at buf 6) (byte_at buf 7) \<le> 0x1F"
| "reports_dvd _ \<longleftrightarrow> False"

fun failed_event :: "event \<Rightarrow> bool" where
  "failed_event (Exec _ _ _ _ (Inl _) _) \<longleftrightarrow> True"
| "failed_event _ \<longleftrightarrow> False"

lemma sat_bindE_mounted:
  assumes "\<And>ev. exec_cdb ev = Some get_configuration_cdb \<Longrightarrow> \<not> failed_event ev \<Longrightarrow>
      sat (f (reports_dvd ev)) (\<lambda>b es. Q b (ev # es))"
    and "\<And>ev. exec_cdb ev = Some get_configuration_cdb \<Longrightarrow> failed_event ev \<Longrightarrow> \<not> reports_dvd ev \<Longrightarrow>
      Q (Inl (if dead_event ev then Transport else NotApplicable)) [ev]"
  shows "sat (bindE (mounted_disc_is_dvd H) f) Q"
  unfolding mounted_disc_is_dvd_def
proof (rule sat_bindE_bind, rule sat_bind_execute)
  fix r and buf :: bytes
  note ok = assms(1) [of "Exec get_configuration_cdb FromDevice (zeros 8) 5000 r buf"]
    and err = assms(2) [of "Exec get_configuration_cdb FromDevice (zeros 8) 5000 r buf"]
  show "sat (bindE (case (r, buf) of (r, buf) \<Rightarrow> (case r of
       Inr r \<Rightarrow> if res_status r = 0 \<and> 8 \<le> res_transferred r
         then let profile = from_be16 (byte_at buf 6) (byte_at buf 7)
              in okE (0x0010 \<le> profile \<and> profile \<le> 0x001F)
         else okE False
     | Inl e \<Rightarrow> errE (css_unlock_error (css_step_err e)))) f)
     (\<lambda>b es. Q b (Exec get_configuration_cdb FromDevice (zeros 8) 5000 r buf # es))"
    using ok err
    by (cases r) (auto simp: Let_def css_unlock_error_def css_step_err_transport
        simp del: One_nat_def)
qed

lemma sat_dvd_unlock: "sat (dvd_unlock H ctx) (\<lambda>r es. \<exists>probe rest.
    es = probe # rest \<and> exec_cdb probe = Some get_configuration_cdb
    \<and> (if reports_dvd probe then r \<in> {Inl Transport, Inr None, Inr (Some unlocked_default)}
       else rest = [] \<and> r = (if failed_event probe
          then Inl (if dead_event probe then Transport else NotApplicable) else Inr None)))"
proof -
  have outcome: "sat (map_errE css_unlock_error (bindE (unlock_css_reads H 0) (\<lambda>_. okE unlocked_default)))
      (\<lambda>r _. fallthrough r \<in> {Inl Transport, Inr None, Inr (Some unlocked_default)})"
    by (rule sat_map_errE [OF sat_bindE [OF sat_True, where Q = "\<lambda>r _. \<forall>u. r = Inr u \<longrightarrow> u = unlocked_default"]])
       (auto simp: fallthrough_def split: unlock_error.split)
  show ?thesis
    unfolding dvd_unlock_def
  proof (rule sat_bindE_mounted)
    fix probe assume "exec_cdb probe = Some get_configuration_cdb" "\<not> failed_event probe"
    then show "sat (if \<not> reports_dvd probe then okE None
        else bind_io (map_errE css_unlock_error (bindE (unlock_css_reads H 0) (\<lambda>_. okE unlocked_default)))
          (\<lambda>r. ret (fallthrough r)))
      (\<lambda>r es. \<exists>probe' rest. probe # es = probe' # rest \<and> exec_cdb probe' = Some get_configuration_cdb
        \<and> (if reports_dvd probe' then r \<in> {Inl Transport, Inr None, Inr (Some unlocked_default)}
           else rest = [] \<and> r = (if failed_event probe'
              then Inl (if dead_event probe' then Transport else NotApplicable) else Inr None)))"
      by (auto intro!: sat_bind [OF outcome])
  qed auto
qed

text \<open>
  The DVD unlocker guards itself: its first command is GET CONFIGURATION, and unless the
  drive answers with a profile of the DVD family (10h to 1Fh) no CSS command follows. The
  outcome on a non-DVD is a decline; on a DVD it is an empty \<open>Unlocked\<close>, a decline or a
  transport error.
\<close>
theorem dvd_self_guard:
  "\<exists>probe rest. events_of (dvd_unlock H ctx) w = probe # rest
     \<and> exec_cdb probe = Some get_configuration_cdb
     \<and> (if reports_dvd probe
        then result_of (dvd_unlock H ctx) w \<in> {Inl Transport, Inr None, Inr (Some unlocked_default)}
        else rest = [] \<and> result_of (dvd_unlock H ctx) w = (if failed_event probe
          then Inl (if dead_event probe then Transport else NotApplicable) else Inr None))"
  by (rule sat_run [OF sat_dvd_unlock])

lemma reports_dvd_unlock: "reports css_fatal (\<lambda>e. e = Transport) (dvd_unlock H ctx)"
proof -
  have probe: "reports css_fatal (\<lambda>e. e = Transport) (mounted_disc_is_dvd H)"
    unfolding mounted_disc_is_dvd_def
    by (rule reports_execute)
       (auto simp: css_fatal_exec best_effort_def get_configuration_cdb_def const_defs Let_def
          css_unlock_error_def css_step_err_transport split: sum.split)
  have auth: "reports css_fatal (\<lambda>e. e = Transport)
      (map_errE css_unlock_error (bindE (unlock_css_reads H 0) (\<lambda>_. okE unlocked_default)))"
    by (rule reports_map_errE [OF reports_bindE [OF reports_unlock_css_reads reports_ok]])
       (simp add: css_unlock_error_def)
  show ?thesis
    unfolding dvd_unlock_def
    by (rule reports_bindE [OF probe])
       (auto intro!: reports_ok reports_then_quiet [OF auth] simp: fallthrough_def
          split: sum.split unlock_error.split)
qed

text \<open>
  C29. The DVD unlocker reports a dead bus exactly when it met one: on the profile probe, the
  AGID allocation or one of the four authentication commands. A dead bus on a best-effort
  command alone is never reported.
\<close>
theorem dvd_transport_iff:
  "result_of (dvd_unlock H ctx) w = Inl Transport
    \<longleftrightarrow> list_ex css_fatal (events_of (dvd_unlock H ctx) w)"
  using sat_run [OF reports_dvd_unlock [unfolded reports_def], of H ctx w]
  by (auto split: sum.splits)

text \<open>
  C35. Where the DVD unlocker lets an error escape that its contract excludes. It returns
  \<open>Err(NotApplicable)\<close> exactly when the transport delivers a drive's refusal of the profile probe
  as an error (as the adapter of the consumer does for every non-zero status, with any sense data),
  and then the probe is all it has sent; no other refusal, of this or of a later command, escapes,
  and the only other error is \<open>Transport\<close>. There are such runs: a probe refused with sense data.
\<close>
theorem dvd_probe_refusal_escapes:
  "(result_of (dvd_unlock H ctx) w = Inl NotApplicable \<longleftrightarrow>
      (\<exists>probe. events_of (dvd_unlock H ctx) w = [probe] \<and> exec_cdb probe = Some get_configuration_cdb
        \<and> failed_event probe \<and> \<not> dead_event probe))
   \<and> (case result_of (dvd_unlock H ctx) w of Inl e \<Rightarrow> e \<in> {NotApplicable, Transport} | Inr _ \<Rightarrow> True)
   \<and> result_of (dvd_unlock replay_host ctx) (replaying [refusal]) = Inl NotApplicable"
proof -
  obtain probe rest where run: "events_of (dvd_unlock H ctx) w = probe # rest" "exec_cdb probe = Some get_configuration_cdb"
    "if reports_dvd probe then result_of (dvd_unlock H ctx) w \<in> {Inl Transport, Inr None, Inr (Some unlocked_default)}
     else rest = [] \<and> result_of (dvd_unlock H ctx) w = (if failed_event probe
       then Inl (if dead_event probe then Transport else NotApplicable) else Inr None)"
    using sat_run [OF sat_dvd_unlock, of H ctx w] by blast
  have "\<not> failed_event probe" if "reports_dvd probe"
    using that by (cases probe rule: reports_dvd.cases) simp_all
  moreover have "result_of (dvd_unlock replay_host ctx) (replaying [refusal]) = Inl NotApplicable"
    by (simp add: dvd_unlock_def mounted_disc_is_dvd_def run_simps execute_def replay_host_def
        default_host_def replay_execute_def replaying_def refusal_def css_unlock_error_def
        css_step_err_def is_dead_bus_def)
  ultimately show ?thesis using run by (cases "reports_dvd probe"; cases "failed_event probe") auto
qed

lemma conforming_probe:
  assumes "conforming H"
  shows "sat (dvd_unlock H ctx) (\<lambda>r _. \<forall>e. r = Inl e \<longrightarrow> e = Transport)"
proof -
  have dead: "is_dead_bus e" if "h_execute H cdb dir data tmo w = (Inl e, rest)" for cdb dir data tmo w e rest
    using assms [unfolded conforming_def, rule_format, of cdb dir data tmo w] that
    by (cases rest) simp
  have "sat (mounted_disc_is_dvd H) (\<lambda>r _. \<forall>e. r = Inl e \<longrightarrow> e = Transport)"
    unfolding mounted_disc_is_dvd_def
    by (rule satI) (auto simp: run_bind_io run_ret execute_def Let_def css_unlock_error_def
        css_step_err_transport dest: dead split: prod.splits sum.splits if_splits)
  then show ?thesis
    unfolding dvd_unlock_def
    by (rule sat_bindE) (auto intro!: sat_bind [OF sat_True] simp: fallthrough_Inl_iff)
qed

lemma dvd_no_spans: "emits (\<lambda>e. \<not> is_span_event e) (dvd_unlock H ctx)"
proof -
  have sweep: "emits (\<lambda>e. \<not> is_span_event e) (invalidate_agids H as)" for "as"
    by (induction "as") (auto simp: invalidate_agid_def intro!: emits_intros)
  have auth: "emits (\<lambda>e. \<not> is_span_event e) (authenticate_with_agid H agid)" for agid
    by (rule emits_authenticate) (case_tac ev; simp)
  show ?thesis
    unfolding dvd_unlock_def mounted_disc_is_dvd_def unlock_css_reads_def unlock_css_reads_inner_def
      establish_authenticated_session_def read_disc_key_def Let_def
    by (auto intro!: emits_intros sweep auth)
qed

interpretation dvd: unlocker_contract "returning dvd_unlock" conforming
proof (rule contract_returning, intro sat_conj)
  show "sat (dvd_unlock H ctx) (\<lambda>r es. conforming H \<longrightarrow> (\<forall>e. r = Inl e \<longrightarrow> e = Transport))"
    for H :: "'w host" and ctx
    by (cases "conforming H") (auto simp: conforming_probe)
  show "sat (dvd_unlock H ctx) (\<lambda>r es. spans False es = Some False)" for H :: "'w host" and ctx
    by (rule sat_weaken [OF dvd_no_spans [unfolded emits_def]]) (rule spans_none)
qed

end
