(* ===== verification/Unlockers.thy ===== *)
theory Unlockers
  imports Freemkv Ld Aacs Aacs_Mac Css
begin

text \<open>
  The four unlockers together (\<open>src/lib.rs\<close>): \<open>unlocker_name\<close>, which names the owner of a drive
  without touching it, and the contract that holds for each of the four.
\<close>

section \<open>Who owns a drive\<close>

text \<open>The lookup never reaches the world of a host, so any type serves for it.\<close>

definition unlocker_name :: "'s external \<Rightarrow> profiles option \<Rightarrow> drive_id \<Rightarrow> string option" where
  "unlocker_name X bundled d =
     map_option u_name (find (\<lambda>u. u_claims u d)
       [FreemkvUnlocker X bundled freemkv_unlocker_new, LdUnlocker 0 bundled :: unit unlocker])"

lemma claims_new: "freemkv_claims bundled freemkv_unlocker_new d \<longleftrightarrow>
    (case bundled of None \<Rightarrow> False | Some c \<Rightarrow> (case find_by_drive_id c d of None \<Rightarrow> False | Some m \<Rightarrow> m_platform m = Renesas))"
  by (simp add: freemkv_claims_def loader_claims_def freemkv_unlocker_new_def)

text \<open>
  At most one firmware unlocker claims a drive. Without a live loader the two claims exclude
  each other, and \<open>unlocker_name\<close> says exactly who claims: freemkv for a cataloged Renesas drive,
  LD for any other cataloged drive, nobody for a drive that is not in the catalog or when there is
  no catalog.
\<close>
theorem unlocker_name_owner:
  "unlocker_name X bundled d = (case bundled of None \<Rightarrow> None | Some c \<Rightarrow>
     (case find_by_drive_id c d of None \<Rightarrow> None
      | Some m \<Rightarrow> if m_platform m = Renesas then Some ''freemkv'' else Some ''LD''))
   \<and> \<not> (freemkv_claims bundled freemkv_unlocker_new d \<and> ld_claims bundled d)"
proof -
  have "m_platform m = Mt1959A \<or> m_platform m = Mt1959B \<longleftrightarrow> m_platform m \<noteq> Renesas" for m
    by (cases "m_platform m") simp_all
  then show ?thesis
    by (auto simp: unlocker_name_def FreemkvUnlocker_def LdUnlocker_def claims_new ld_claims_def ld_claims_in_def
        split: option.split)
qed

section \<open>A dead bus\<close>

text \<open>A host on which every command fails as a dead bus does; all else it does is left open.\<close>

definition dead_bus_host :: "'w host \<Rightarrow> bool" where
  "dead_bus_host H \<longleftrightarrow> (\<forall>cdb dir data tmo w. \<exists>e new w'. h_execute H cdb dir data tmo w = (Inl e, new, w') \<and> is_dead_bus e)"

lemma sat_dead_execute:
  assumes "dead_bus_host H" "\<And>e buf. is_dead_bus e \<Longrightarrow> sat (f (Inl e, buf)) (\<lambda>b _. Q b)"
  shows "sat (bind_io (execute H cdb dir data tmo) f) (\<lambda>b _. Q b)"
proof (rule sat_bind [where R = "\<lambda>(r, _) _. \<exists>e. r = Inl e \<and> is_dead_bus e"])
  show "sat (execute H cdb dir data tmo) (\<lambda>(r, _) _. \<exists>e. r = Inl e \<and> is_dead_bus e)"
  proof (rule satI, goal_cases)
    case (1 w a es w')
    from assms(1) obtain e new w2 where "h_execute H cdb dir data tmo w = (Inl e, new, w2)" "is_dead_bus e"
      unfolding dead_bus_host_def by blast
    with 1 show ?case by (auto simp: execute_def)
  qed
qed (use assms(2) in auto)

text \<open>The four unlockers before their first reply: freemkv and DVD always ask, LD asks a drive it knows.\<close>

lemma dead_freemkv:
  assumes "dead_bus_host H"
  shows "sat (freemkv_unlock X bundled F H ctx) (\<lambda>r _. r = Inl Transport)"
proof -
  have "sat (probe H) (\<lambda>r _. r = Inl Transport)"
    unfolding probe_def by (rule sat_dead_execute [OF assms]) simp
  then have "sat (full_unlock_with_drive X bundled F H (ctx_drive_id ctx)) (\<lambda>r _. r = Inl Transport)"
    unfolding full_unlock_with_drive_def by (rule sat_bindE) auto
  then show ?thesis unfolding freemkv_unlock_def by (rule sat_bind) simp
qed

lemma dead_dvd:
  assumes "dead_bus_host H"
  shows "sat (dvd_unlock H ctx) (\<lambda>r _. r = Inl Transport)"
proof -
  have "sat (mounted_disc_is_dvd H) (\<lambda>r _. r = Inl Transport)"
    unfolding mounted_disc_is_dvd_def
    by (rule sat_dead_execute [OF assms]) (simp add: css_step.dead_bus_iff)
  then show ?thesis unfolding dvd_unlock_def by (rule sat_bindE) auto
qed

lemma dead_ld:
  assumes "dead_bus_host H"
  shows "sat (ld_unlock fuel bundled H ctx) (\<lambda>r es. r = Some (Inl Transport) \<or> r = Some (Inr None) \<and> es = [])"
proof -
  have do_unlock: "sat (do_unlock H mt) (\<lambda>x _. \<exists>e. fst x = Inl e \<and> ld_is_transport_failure e)" for mt
    unfolding do_unlock_def by (rule sat_dead_execute [OF assms]) simp
  have "sat (run_init fuel H mt) (\<lambda>r _. \<exists>e mt'. r = Some (Inl e, mt') \<and> ld_is_transport_failure e)" for mt
  proof -
    have attempts: "[0..<UNLOCK_ATTEMPTS + 1] = 0 # [1..<UNLOCK_ATTEMPTS + 1]" by (simp add: upt_rec)
    have read: "sat (unlock_read fuel H mt None) (\<lambda>r _. \<exists>e mt'. r = Some (Inl e, mt') \<and> ld_is_transport_failure e)"
      unfolding unlock_read_def by (auto intro!: sat_bind [OF do_unlock])
    have "\<not> is_signature_mismatch e" if "ld_is_transport_failure e" for e
      using that by (cases e) simp_all
    then show ?thesis
      unfolding run_init_def attempts run_init_loop.simps
      by (auto simp: UNLOCK_ATTEMPTS_def intro!: sat_bind [OF read])
  qed
  note init = this
  have fresh: "\<not> init_complete mt" if "mt1959_new p platform = Some mt" for p platform mt
    using that by (auto simp: mt1959_new_def Let_def split: platform.splits)
  have "sat (firmware_unlock fuel bundled H ctx) (\<lambda>r es. r = Some (Inl Transport) \<or> r = Some (Inl NotApplicable) \<and> es = [])"
    unfolding firmware_unlock_def mt_init_def
    by (auto simp: ld_unlock_error_def dest: fresh intro!: sat_bind [OF init] split: option.split)
  then show ?thesis unfolding ld_unlock_def by (rule sat_bind) auto
qed

text \<open>AACS: the sweep is best effort, the first allocation ends the handshake.\<close>

lemma dead_scsi_read:
  assumes "dead_bus_host H"
  shows "sat (scsi_read H cdb n) (\<lambda>r _. \<exists>e. r = Inl e \<and> is_scsi_transport_failure e)"
  unfolding scsi_read_def by (rule sat_dead_execute [OF assms]) (simp add: transport_from_scsi)

lemma dead_ake:
  assumes "dead_bus_host H" "su_cert_len S \<le> length cert"
  shows "sat (ake fuel H S priv cert) (\<lambda>r _. \<exists>f. r = Some (Inl f) \<and> v1_transport f)"
proof -
  have "sat (handshake_step AacsAgidAlloc (scsi_read H (cdb_report_key 0 0x00 8) 8))
      (\<lambda>r _. \<exists>f. r = Inl f \<and> v1_transport f)"
    unfolding handshake_step_def
    by (rule sat_map_errE [OF dead_scsi_read [OF assms(1)]]) (auto simp: handshake_err_def)
  then show ?thesis
    unfolding ake_def
    by (auto simp: Let_def assms(2) not_less intro!: sat_bind [OF sat_True] sat_bindEF)
qed

lemma dead_attempt:
  assumes "dead_bus_host H" "if try_v1 then v1_creds_usable hc else v2_creds_usable hc allow"
  shows "sat (attempt_one_cert fuel H C hc la try_v1 has_v2) (\<lambda>r _. r = Some CertTransport)"
proof (cases try_v1)
  case True
  with assms(2) have "su_cert_len (aacs1_suite C x y) \<le> length (certificate hc)" for x y
    by (simp add: v1_creds_usable_def aacs1_suite_def)
  note ake = dead_ake [OF assms(1) this]
  have "(case f of V1Other e \<Rightarrow> is_scsi_transport_failure e | DriveCert \<Rightarrow> False) \<longleftrightarrow> v1_transport f" for f
    by (cases f) simp_all
  with True show ?thesis
    unfolding attempt_one_cert_def aacs1_ake_def
    by (auto intro!: sat_bindO [OF ake])
next
  case False
  with assms(2) obtain k c where c: "private_key_v2 hc = Some k" "certificate_v2 hc = Some c" "132 \<le> length c"
    by (auto simp: v2_creds_usable_def split: option.splits)
  then have "su_cert_len (p256_suite C x y) \<le> length c" for x y by (simp add: p256_suite_def)
  note ake = dead_ake [OF assms(1) this]
  have "sat (aacs2_authenticate_p256_with_anchor fuel H C k c x y)
      (\<lambda>r _. \<exists>e. r = Some (Inl e) \<and> is_scsi_transport_failure e)" for x y
    unfolding aacs2_authenticate_p256_with_anchor_def
    by (rule sat_bind [OF ake]) (auto simp: v1_transport_into_error)
  then show ?thesis
    using False unfolding attempt_one_cert_def attempt_p256_def
    by (auto simp: c intro!: sat_bindO)
qed

lemma dead_cert_loop:
  assumes "dead_bus_host H"
  shows "sat (cert_loop fuel H C la allow hcs 0 False) (\<lambda>r es.
    r = Some (Inl Transport) \<or> r = Some (Inl NoUsableHostCert) \<and> es = [])"
proof (induction hcs)
  case Nil
  then show ?case by (simp add: no_vid_def)
next
  case (Cons hc hcs)
  have "sat (cert_round fuel H C la allow hc 0 False) (\<lambda>r es.
      r = Some (Inl (Inl Transport)) \<or> r = Some (Inr (0, False)) \<and> es = [])"
    unfolding cert_round_def Let_def
    by (auto intro!: sat_bindO [OF dead_attempt [OF assms, where allow = allow]])
  then show ?case
    by (auto simp: MAX_CERT_ATTEMPTS_def intro!: sat_bindO Cons.IH)
qed

lemma dead_arm:
  assumes "dead_bus_host H"
  shows "sat (arm H recipe) (\<lambda>r _. r = Inl FwTransport)"
proof -
  have "sat (exec_in H cdb) (\<lambda>r _. r = Inl FwTransport)" for cdb
    unfolding exec_in_def by (rule sat_dead_execute [OF assms]) simp
  then have "sat (fw_identity H) (\<lambda>r _. r = Inl FwTransport)"
    unfolding fw_identity_def by (rule sat_bind) simp
  then have "sat (require_supported H) (\<lambda>r _. r = Inl FwTransport)"
    unfolding require_supported_def by (rule sat_bindE) auto
  note supported = sat_bindE [OF this]
  show ?thesis
    by (cases recipe) (auto simp: arm_oem_bd_def arm_oem_uhd_def arm_bypass_bd_def arm_bypass_uhd_def
        arm_stealth_oem_def intro!: supported)
qed

lemma dead_aacs:
  assumes "dead_bus_host H"
  shows "sat (aacs_unlock fuel C A H ctx) (\<lambda>r es. r = Some (Inl Transport) \<or> r = Some (Inr None) \<and> es = [])"
proof -
  have arm: "sat (maybe_arm A H) (\<lambda>r es. r = Inl Transport \<or> r = Inr False \<and> es = [])"
    unfolding maybe_arm_def by (auto split: option.split intro!: sat_bind [OF dead_arm [OF assms]])
  have handshake: "sat (run_handshake fuel C A H) (\<lambda>r es. r = Some (Inl Transport) \<or> r = Some (Inl NoUsableHostCert) \<and> es = [])"
    unfolding run_handshake_def run_cert_handshake_def run_cert_handshake_with_anchors_def by (rule dead_cert_loop [OF assms])
  show ?thesis
    unfolding aacs_unlock_def by (auto intro!: sat_bindEF [OF arm] sat_bindO [OF handshake])
qed

section \<open>What each unlocker promises\<close>

lemma unlockers_contract:
  assumes "loader_spanless F" "u \<in> {FreemkvUnlocker X bundled F, LdUnlocker fuel bundled, AacsUnlocker fuel C A, DvdUnlocker}"
  shows "unlocker_contract (u_unlock u) conforming"
  using assms(2) unlocker_contract.restrict [OF freemkv_contract [OF assms(1)], of X bundled conforming]
    ld.restrict [of _ _ conforming] aacs.restrict [of _ _ _ conforming] dvd.unlocker_contract_axioms
  by (auto simp: FreemkvUnlocker_def LdUnlocker_def AacsUnlocker_def DvdUnlocker_def)

lemma unlockers_dead:
  assumes "dead_bus_host H" "u \<in> {FreemkvUnlocker X bundled F, LdUnlocker fuel bundled, AacsUnlocker fuel C A, DvdUnlocker}"
  shows "sat (u_unlock u H ctx) (\<lambda>r es. r = Some (Inl Transport) \<or> r = Some (Inr None) \<and> es = [])"
  using assms(2) dead_ld [OF assms(1)] dead_aacs [OF assms(1)]
  by (auto simp: FreemkvUnlocker_def LdUnlocker_def AacsUnlocker_def DvdUnlocker_def returning_def
      intro!: sat_bind [OF dead_freemkv [OF assms(1)]] sat_bind [OF dead_dvd [OF assms(1)]])

text \<open>
  C17. The contract of the four unlockers. On any host that keeps the transport contract, whatever
  the drive answers, each of freemkv, LD, AACS and DVD ends with no error but \<open>Transport\<close> and
  leaves the bus outside every critical span. On a host whose bus is dead, none of them claims the
  disc: each returns, either with \<open>Transport\<close>, or with \<open>Ok(None)\<close> before it has sent anything.
  (For freemkv, a configured loader is relied on for sending nothing that is a critical span.)
\<close>
theorem unlockers_keep_contract:
  assumes "conforming H" "loader_spanless F" "u \<in> {FreemkvUnlocker X bundled F, LdUnlocker fuel bundled, AacsUnlocker fuel C A, DvdUnlocker}"
  shows "(case result_of (u_unlock u H ctx) w of Some (Inl e) \<Rightarrow> e = Transport | _ \<Rightarrow> True)
    \<and> spans False (events_of (u_unlock u H ctx) w) = Some False
    \<and> (if dead_bus_host H
       then result_of (u_unlock u H ctx) w = Some (Inl Transport)
         \<or> result_of (u_unlock u H ctx) w = Some (Inr None) \<and> events_of (u_unlock u H ctx) w = []
       else True)"
  using unlocker_contract.sat_contract [OF unlockers_contract [OF assms(2,3)], THEN sat_run, of H ctx w] assms(1)
    sat_run [OF unlockers_dead [OF _ assms(3)], of H ctx w]
  by (auto split: option.split sum.split)

text \<open>A host on a dead bus, with no catalog, and an AACS unlocker that has been given no certificate.\<close>

definition dead_host :: "unit host" where
  "dead_host = default_host (\<lambda>_ _ _ _ w. (Inl dead_bus, [], w)) (\<lambda>_ w. w) (\<lambda>w. (\<lambda>_. 0, w)) (\<lambda>w. (0, w))"

text \<open>A host whose drive answers every command, with zeros but for the profile of a DVD.\<close>

definition answering_host :: "unit host" where
  "answering_host = default_host
     (\<lambda>_ _ data _ w. (Inr \<lparr> res_status = 0, res_transferred = length data, res_sense = [] \<rparr>, (zeros (length data))[7 := 0x10], w))
     (\<lambda>_ w. w) (\<lambda>w. (\<lambda>_. 0, w)) (\<lambda>w. (0, w))"

definition four_unlockers :: "unit unlocker list" where
  "four_unlockers = [FreemkvUnlocker ram_external None freemkv_unlocker_new, LdUnlocker 0 None,
     AacsUnlocker 0 identity_crypto (aacs_unlocker_new []), DvdUnlocker]"

lemma unlockers_keep_contract_witness:
  "list_all (\<lambda>u. spans False (events_of (u_unlock u answering_host flashed_ctx) ()) = Some False
     \<and> result_of (u_unlock u answering_host flashed_ctx) () \<noteq> Some (Inl NotApplicable)) four_unlockers
   \<and> list_all (\<lambda>u. result_of (u_unlock u dead_host flashed_ctx) () = Some (Inl Transport)
     \<or> result_of (u_unlock u dead_host flashed_ctx) () = Some (Inr None) \<and> events_of (u_unlock u dead_host flashed_ctx) () = [])
     four_unlockers
   \<and> result_of (u_unlock DvdUnlocker dead_host flashed_ctx) () = Some (Inl Transport)"
proof -
  have dead: "conforming dead_host" "dead_bus_host dead_host"
    by (simp_all add: conforming_def dead_bus_host_def dead_host_def default_host_def dead_bus_def is_dead_bus_def)
  have answering: "conforming answering_host" by (simp add: conforming_def answering_host_def default_host_def)
  note ok = unlockers_keep_contract [OF _ loader_spanless_new, of _ _ ram_external None 0 identity_crypto
      "aacs_unlocker_new []" flashed_ctx "()"]
  have members: "u \<in> {FreemkvUnlocker ram_external None freemkv_unlocker_new, LdUnlocker 0 None,
      AacsUnlocker 0 identity_crypto (aacs_unlocker_new []), DvdUnlocker}" if "u \<in> set four_unlockers" for u
    using that by (simp add: four_unlockers_def)
  have "result_of (u_unlock DvdUnlocker dead_host flashed_ctx) () = Some (Inl Transport)"
    by code_simp
  moreover have "result_of (u_unlock u answering_host flashed_ctx) () \<noteq> Some (Inl NotApplicable)" if "u \<in> set four_unlockers" for u
    using ok [OF answering members [OF that]] by (auto split: option.splits)
  ultimately show ?thesis
    using ok [OF answering members] ok [OF dead(1) members] dead(2) by (simp add: list_all_iff)
qed

end
