(* ===== verification/Aacs_Return.thy ===== *)
theory Aacs_Return
  imports Aacs Aacs_Mac
begin

text \<open>
  Termination of the AACS handshake. The only loops without a bound in the code are the rejection
  sampling of key pairs and signature nonces. Each returns exactly when one of its draws is
  accepted; once it returns, more fuel changes nothing; and on a host whose generator offers an
  acceptable draw within a bound, the whole unlock returns.
\<close>

section \<open>Draws\<close>

primrec draws :: "nat \<Rightarrow> 'w host \<Rightarrow> nat \<Rightarrow> (bytes \<Rightarrow> bool) \<Rightarrow> 'w \<Rightarrow> bool" where
  "draws 0 H n P = (\<lambda>w. False)"
| "draws (Suc fuel) H n P = (\<lambda>w. case fill_bytes H n w of (bs, _, w') \<Rightarrow> P bs \<or> draws fuel H n P w')"

definition key_draw :: "ec_params \<Rightarrow> bytes \<Rightarrow> bool" where
  "key_draw E bs \<longleftrightarrow> 0 < from_bytes_be bs \<and> from_bytes_be bs < prm_n E"

definition nonce_draw :: "ec_params \<Rightarrow> nat \<Rightarrow> nat \<Rightarrow> bytes \<Rightarrow> bool" where
  "nonce_draw E d z bs \<longleftrightarrow> sign_round E d z (from_bytes_be bs) \<noteq> None"

lemma generate_loop_returns:
  "result_of (generate_loop fuel H E) w \<noteq> None \<longleftrightarrow> draws fuel H (prm_len E) (key_draw E) w"
proof (induction fuel arbitrary: w)
  case (Suc fuel)
  obtain bs es w1 where fill: "fill_bytes H (prm_len E) w = (bs, es, w1)" by (cases "fill_bytes H (prm_len E) w")
  show ?case
  proof (cases "key_draw E bs")
    case True
    then show ?thesis by (simp add: run_simps fill Let_def key_draw_def)
  next
    case False
    then have "result_of (generate_loop (Suc fuel) H E) w = result_of (generate_loop fuel H E) w1"
      by (auto simp: run_simps fill Let_def key_draw_def split: prod.split)
    with Suc False show ?thesis by (simp add: fill)
  qed
qed (simp add: run_simps)

lemma sign_loop_returns:
  "result_of (sign_loop fuel H E d z) w \<noteq> None \<longleftrightarrow> draws fuel H (prm_len E) (nonce_draw E d z) w"
proof (induction fuel arbitrary: w)
  case (Suc fuel)
  obtain bs es w1 where fill: "fill_bytes H (prm_len E) w = (bs, es, w1)" by (cases "fill_bytes H (prm_len E) w")
  show ?case
  proof (cases "sign_round E d z (from_bytes_be bs)")
    case None
    then have "result_of (sign_loop (Suc fuel) H E d z) w = result_of (sign_loop fuel H E d z) w1"
      by (simp add: run_simps fill split: prod.split)
    with Suc None show ?thesis by (simp add: fill nonce_draw_def)
  next
    case (Some sig)
    then show ?thesis by (cases sig) (simp add: run_simps fill nonce_draw_def)
  qed
qed (simp add: run_simps)

section \<open>More fuel changes nothing\<close>

text \<open>\<open>m'\<close> extends \<open>m\<close>: where \<open>m\<close> returns, \<open>m'\<close> is the same run.\<close>

definition extends :: "('w, 'a option) io \<Rightarrow> ('w, 'a option) io \<Rightarrow> bool" where
  "extends m m' \<longleftrightarrow> (\<forall>w. result_of m w = None \<or> m' w = m w)"

named_theorems extends_intros \<open>introduction rules for extends\<close>

lemma extends_refl [extends_intros]: "extends m m"
  by (simp add: extends_def)

lemma extendsI: "(\<And>w a es w1. m w = (Some a, es, w1) \<Longrightarrow> m' w = (Some a, es, w1)) \<Longrightarrow> extends m m'"
  unfolding extends_def result_of_def by (metis fst_conv option.exhaust prod.exhaust)

lemma extendsD: "extends m m' \<Longrightarrow> m w = (Some a, es, w1) \<Longrightarrow> m' w = (Some a, es, w1)"
  by (auto simp: extends_def result_of_def dest: spec [of _ w])

lemma extends_bind [extends_intros]:
  assumes "\<And>a. extends (f a) (f' a)"
  shows "extends (bind_io m f) (bind_io m f')"
proof (rule extendsI, erule bind_ioE)
  fix w b es w2 a es1 w1 es2
  assume run: "m w = (a, es1, w1)" "f a w1 = (Some b, es2, w2)" "es = es1 @ es2"
  from extendsD [OF assms run(2)] run show "bind_io m f' w = (Some b, es, w2)" by (simp add: run_bind_io)
qed

lemma extends_bindEF [extends_intros]: "(\<And>a. extends (f a) (f' a)) \<Longrightarrow> extends (bindEF m f) (bindEF m f')"
  unfolding bindEF_def by (rule extends_bind) (auto intro: extends_refl split: sum.split)

lemma extends_bindO [extends_intros]:
  assumes "extends m m'" and "\<And>a. extends (f a) (f' a)"
  shows "extends (bindO m f) (bindO m' f')"
proof (rule extendsI, unfold bindO_def, erule bind_ioE)
  fix w b es w2 r es1 w1 es2
  assume run: "m w = (r, es1, w1)" "(case r of None \<Rightarrow> ret None | Some a \<Rightarrow> f a) w1 = (Some b, es2, w2)" "es = es1 @ es2"
  then obtain a where r: "r = Some a" by (cases r) (auto simp: run_ret)
  with run have "f a w1 = (Some b, es2, w2)" by simp
  from extendsD [OF assms(2) this] extendsD [OF assms(1) run(1) [unfolded r]] run(3)
  show "bind_io m' (\<lambda>r. case r of None \<Rightarrow> ret None | Some a \<Rightarrow> f' a) w = (Some b, es, w2)"
    by (simp add: run_bind_io)
qed

lemma extends_if [extends_intros]:
  "extends m m' \<Longrightarrow> extends n n' \<Longrightarrow> extends (if b then m else n) (if b then m' else n')"
  by simp

lemma extends_case_sum [extends_intros]:
  "(\<And>e. extends (f e) (f' e)) \<Longrightarrow> (\<And>a. extends (g a) (g' a)) \<Longrightarrow>
     extends (case r of Inl e \<Rightarrow> f e | Inr a \<Rightarrow> g a) (case r of Inl e \<Rightarrow> f' e | Inr a \<Rightarrow> g' a)"
  by (cases r) auto

lemma extends_case_prod [extends_intros]:
  "(\<And>a b. extends (f a b) (f' a b)) \<Longrightarrow> extends (case p of (a, b) \<Rightarrow> f a b) (case p of (a, b) \<Rightarrow> f' a b)"
  by (cases p) auto

lemma extends_case_option [extends_intros]:
  "extends m m' \<Longrightarrow> (\<And>a. extends (g a) (g' a)) \<Longrightarrow>
     extends (case r of None \<Rightarrow> m | Some a \<Rightarrow> g a) (case r of None \<Rightarrow> m' | Some a \<Rightarrow> g' a)"
  by (cases r) auto

lemma extends_generate_loop: "fuel \<le> fuel' \<Longrightarrow> extends (generate_loop fuel H E) (generate_loop fuel' H E)"
proof (induction fuel arbitrary: fuel')
  case 0
  then show ?case by (simp add: extends_def run_simps)
next
  case (Suc fuel)
  then obtain k where k: "fuel' = Suc k" "fuel \<le> k" by (cases fuel') auto
  with Suc.IH show ?case by (auto simp: Let_def intro!: extends_intros)
qed

lemma extends_sign_loop: "fuel \<le> fuel' \<Longrightarrow> extends (sign_loop fuel H E d z) (sign_loop fuel' H E d z)"
proof (induction fuel arbitrary: fuel')
  case 0
  then show ?case by (simp add: extends_def run_simps)
next
  case (Suc fuel)
  then obtain k where k: "fuel' = Suc k" "fuel \<le> k" by (cases fuel') auto
  with Suc.IH show ?case by (auto intro!: extends_intros)
qed

lemma extends_map: "extends m m' \<Longrightarrow> extends (bind_io m (\<lambda>r. ret (map_option g r))) (bind_io m' (\<lambda>r. ret (map_option g r)))"
proof (rule extendsI, erule bind_ioE)
  fix w b es w2 r es1 w1 es2
  assume "extends m m'" and run: "m w = (r, es1, w1)" "ret (map_option g r) w1 = (Some b, es2, w2)" "es = es1 @ es2"
  then obtain a where "r = Some a" by (cases r) (auto simp: run_ret)
  with extendsD [OF \<open>extends m m'\<close>, of w a es1 w1] run
  show "bind_io m' (\<lambda>r. ret (map_option g r)) w = (Some b, es, w2)" by (simp add: run_bind_io)
qed

lemma extends_generate: "fuel \<le> fuel' \<Longrightarrow> extends (generate_with fuel H E) (generate_with fuel' H E)"
  unfolding generate_with_def by (rule extends_map [OF extends_generate_loop])

lemma extends_sign: "fuel \<le> fuel' \<Longrightarrow> extends (ecdsa_sign_with fuel H E k data) (ecdsa_sign_with fuel' H E k data)"
  unfolding ecdsa_sign_with_def by (rule extends_sign_loop)

lemma extends_ake: "fuel \<le> fuel' \<Longrightarrow> extends (ake fuel H S priv cert) (ake fuel' H S priv cert)"
  unfolding ake_def ake_with_agid_def exchange_key_points_def Let_def
  by (intro extends_intros extends_generate extends_sign)

lemma extends_attempt:
  assumes "fuel \<le> fuel'"
  shows "extends (attempt_one_cert fuel H C hc la try_v1 has_v2) (attempt_one_cert fuel' H C hc la try_v1 has_v2)"
proof -
  have "extends (attempt_p256 fuel H C hc la dead) (attempt_p256 fuel' H C hc la dead)" for dead
    unfolding attempt_p256_def aacs2_authenticate_p256_with_anchor_def
    by (auto intro!: extends_intros extends_map extends_ake assms)
  then show ?thesis
    unfolding attempt_one_cert_def aacs1_ake_def
    by (auto intro!: extends_intros extends_ake assms split: finish_err.split)
qed

lemma extends_cert_loop:
  assumes "fuel \<le> fuel'"
  shows "extends (cert_loop fuel H C la allow_p256 hcs attempts dead) (cert_loop fuel' H C la allow_p256 hcs attempts dead)"
proof (induction hcs arbitrary: attempts dead)
  case (Cons hc hcs)
  have "extends (cert_round fuel H C la allow_p256 hc attempts dead) (cert_round fuel' H C la allow_p256 hc attempts dead)"
    unfolding cert_round_def Let_def by (intro extends_intros extends_attempt assms)
  with Cons show ?case by (auto intro!: extends_intros)
qed (simp add: extends_refl)

lemma extends_aacs_unlock: "fuel \<le> fuel' \<Longrightarrow> extends (aacs_unlock fuel C u H ctx) (aacs_unlock fuel' C u H ctx)"
  unfolding aacs_unlock_def run_handshake_loop by (intro extends_intros extends_cert_loop)

section \<open>The unlock returns\<close>

definition returns :: "('w, 'a option) io \<Rightarrow> bool" where
  "returns m \<longleftrightarrow> (\<forall>w. result_of m w \<noteq> None)"

named_theorems returns_intros \<open>introduction rules for returns\<close>

lemma returnsI: "(\<And>w es w1. m w = (None, es, w1) \<Longrightarrow> False) \<Longrightarrow> returns m"
  unfolding returns_def result_of_def by (metis prod.collapse)

lemma returnsD: "returns m \<Longrightarrow> m w = (None, es, w1) \<Longrightarrow> P"
  unfolding returns_def result_of_def by (metis fst_conv)

lemma returns_ret [returns_intros]: "returns (ret (Some a))"
  by (simp add: returns_def run_simps)

lemma returns_bind [returns_intros]: "(\<And>a. returns (f a)) \<Longrightarrow> returns (bind_io m f)"
proof (rule returnsI, erule bind_ioE)
  fix w es w2 a es1 w1 es2
  assume "\<And>a. returns (f a)" "f a w1 = (None, es2, w2)"
  then show False by (rule returnsD)
qed

lemma returns_bindEF [returns_intros]: "(\<And>a. returns (f a)) \<Longrightarrow> returns (bindEF m f)"
  unfolding bindEF_def by (rule returns_bind) (auto intro: returns_ret split: sum.split)

lemma returns_bindO [returns_intros]: "returns m \<Longrightarrow> (\<And>a. returns (f a)) \<Longrightarrow> returns (bindO m f)"
proof (rule returnsI, unfold bindO_def, erule bind_ioE)
  fix w es w2 r es1 w1 es2
  assume m: "returns m" "m w = (r, es1, w1)" and f: "\<And>a. returns (f a)"
    and run: "(case r of None \<Rightarrow> ret None | Some a \<Rightarrow> f a) w1 = (None, es2, w2)"
  show False
  proof (cases r)
    case (Some a)
    with run have "f a w1 = (None, es2, w2)" by simp
    then show False by (rule returnsD [OF f])
  qed (use m in \<open>blast intro: returnsD\<close>)
qed

lemma returns_if [returns_intros]: "(b \<Longrightarrow> returns m) \<Longrightarrow> (\<not> b \<Longrightarrow> returns n) \<Longrightarrow> returns (if b then m else n)"
  by simp

lemma returns_case_sum [returns_intros]:
  "(\<And>e. returns (f e)) \<Longrightarrow> (\<And>a. returns (g a)) \<Longrightarrow> returns (case r of Inl e \<Rightarrow> f e | Inr a \<Rightarrow> g a)"
  by (cases r) auto

lemma returns_case_prod [returns_intros]: "(\<And>a b. returns (f a b)) \<Longrightarrow> returns (case p of (a, b) \<Rightarrow> f a b)"
  by (cases p) auto

lemma returns_case_option [returns_intros]:
  "returns m \<Longrightarrow> (\<And>a. returns (g a)) \<Longrightarrow> returns (case r of None \<Rightarrow> m | Some a \<Rightarrow> g a)"
  by (cases r) auto

text \<open>
  A generator that offers, within \<open>fuel\<close> draws from any world, a key in range and a nonce that
  signs under any private key that is not zero modulo the order.
\<close>

definition fair :: "nat \<Rightarrow> 'w host \<Rightarrow> ec_params \<Rightarrow> bool" where
  "fair fuel H E \<longleftrightarrow> (\<forall>w. draws fuel H (prm_len E) (key_draw E) w
     \<and> (\<forall>d z. d mod prm_n E \<noteq> 0 \<longrightarrow> draws fuel H (prm_len E) (nonce_draw E d z) w))"

lemma returns_generate: "fair fuel H E \<Longrightarrow> returns (generate_with fuel H E)"
  unfolding generate_with_def
proof (rule returnsI, erule bind_ioE)
  fix w es w2 r es1 w1 es2
  assume "fair fuel H E" and run: "generate_loop fuel H E w = (r, es1, w1)"
    "ret (map_option (\<lambda>(d, q). (to_bytes_be_padded d (prm_len E), to_bytes_be_padded (px q) (prm_len E),
        to_bytes_be_padded (py q) (prm_len E))) r) w1 = (None, es2, w2)"
  then have "r \<noteq> None"
    using generate_loop_returns [of fuel H E w] by (simp add: fair_def result_of_def)
  with run show False by (auto simp: run_ret)
qed

lemma returns_sign:
  "fair fuel H E \<Longrightarrow> from_bytes_be k mod prm_n E \<noteq> 0 \<Longrightarrow> returns (ecdsa_sign_with fuel H E k data)"
  unfolding returns_def ecdsa_sign_with_def sign_loop_returns by (simp add: fair_def)

lemma returns_ake:
  assumes "fair fuel H (su_params S)" "from_bytes_be priv mod prm_n (su_params S) \<noteq> 0"
  shows "returns (ake fuel H S priv cert)"
  unfolding ake_def ake_with_agid_def exchange_key_points_def Let_def
  by (intro returns_intros returns_generate returns_sign assms)

lemma usable_key: "v1_creds_usable hc \<Longrightarrow> 0 < from_bytes_be (private_key hc) mod prm_n (aacs1_params C)"
  by (auto simp: v1_creds_usable_def aacs1_keypair_matches_def Let_def aacs1_params_def split: if_splits)

lemma returns_attempt:
  assumes "fair fuel H (aacs1_params C)" "v1_creds_usable hc"
  shows "returns (attempt_one_cert fuel H C hc la True False)"
  unfolding attempt_one_cert_def aacs1_ake_def
  using assms by (auto intro!: returns_intros returns_ake simp: aacs1_suite_def usable_key split: finish_err.split)

lemma returns_cert_loop:
  assumes "fair fuel H (aacs1_params C)"
  shows "returns (cert_loop fuel H C la False hcs attempts dead)"
proof (induction hcs arbitrary: attempts dead)
  case (Cons hc hcs)
  have "returns (cert_round fuel H C la False hc attempts dead)"
    unfolding cert_round_def Let_def v2_creds_usable_def
    using assms by (auto intro!: returns_intros returns_attempt)
  with Cons show ?case by (auto intro!: returns_intros)
qed (simp add: returns_ret)

lemma returns_aacs_unlock: "fair fuel H (aacs1_params C) \<Longrightarrow> returns (aacs_unlock fuel C u H ctx)"
  unfolding aacs_unlock_def run_handshake_loop AACS2_P256_EXPERIMENTAL_def
  by (intro returns_intros returns_cert_loop)

text \<open>
  C15. The AACS unlock returns, for every drive, disc and list of host certificates, on a host whose
  random generator offers within \<open>k\<close> draws an acceptable key and an acceptable nonce; and any
  larger bound gives the same run. The rejection of host certificates with a wrong key is what
  makes this hold: a private key that is zero modulo the order could make every nonce fail.
\<close>
theorem aacs_unlock_returns:
  assumes "fair k H (aacs1_params C)" and "k \<le> fuel"
  shows "\<exists>r es w'. aacs_unlock k C u H ctx w = (Some r, es, w') \<and> aacs_unlock fuel C u H ctx w = (Some r, es, w')"
proof -
  obtain r es w' where run: "aacs_unlock k C u H ctx w = (r, es, w')" by (cases "aacs_unlock k C u H ctx w")
  with returns_aacs_unlock [OF assms(1), of u ctx] obtain a where "r = Some a"
    by (cases r) (auto elim: returnsD)
  with run extendsD [OF extends_aacs_unlock [OF assms(2)], of C u H ctx w a es w'] show ?thesis by simp
qed

section \<open>A fair host\<close>

text \<open>
  A host whose generator draws the numbers 1 and 2 in turn is fair with two draws: of the two
  nonces at most one is rejected, because the order does not divide the difference of the two
  x-coordinates. The residues of the doubled base point are checked with their quotients.
\<close>

definition coin_host :: "bool host" where
  "coin_host = default_host (\<lambda>cdb dir data tmo w. (Inl \<lparr> err_status = 0xFF, err_sense = None \<rparr>, [], w)) (\<lambda>d w. w)
     (\<lambda>b. (\<lambda>i. if i = 19 then (if b then 1 else 2) else 0, \<not> b)) (\<lambda>b. (0, b))"

lemma mod_of_quotient: "x = q * m + r \<Longrightarrow> r < m \<Longrightarrow> x mod m = (r :: nat)"
  by simp
lemma mod_inv_unique:
  assumes "v < m" "a * v = q * m + 1"
  shows "mod_inv a m = Some v"
proof (cases "m = 1")
  case False
  with assms(1) have "1 < m" by simp
  with assms(2) have av: "(a * v) mod m = 1" by (intro mod_of_quotient) simp_all
  have "coprime a m"
  proof (rule coprimeI)
    fix c assume "c dvd a" "c dvd m"
    then have "c dvd a * v" "c dvd q * m" by simp_all
    with assms(2) show "is_unit c" by (metis dvd_add_right_iff)
  qed
  with mod_inv_spec [of m a] \<open>1 < m\<close> obtain v' where v': "mod_inv a m = Some v'" "(a * v') mod m = 1" "v' \<le> m"
    by (auto split: option.splits)
  have "v' \<noteq> m" using v'(2) by auto
  with v'(3) have "v' < m" by simp
  have "v * (a * v') mod m = v' * (a * v) mod m" by (simp add: ac_simps)
  then have "v * ((a * v') mod m) mod m = v' * ((a * v) mod m) mod m" by (simp only: mod_mult_right_eq)
  with v'(2) av assms(1) \<open>v' < m\<close> have "v' = v" by simp
  with v' show ?thesis by simp
qed (use assms in simp)
lemma inv_2gy: "mod_inv 103682151909766325020826785490337872592375617394 900812823637587646514106462588455890498729007071 = Some 407775469048623907243300389697718227198385682358"
  by (rule mod_inv_unique [where q = 46934320890601817072095188866549907080070071381]) simp_all
lemma residues:
  "(3 * 264865613959729647018113670854605162895977008838 * 264865613959729647018113670854605162895977008838 + 900812823637587646514106462588455890498729007068) mod 900812823637587646514106462588455890498729007071 = (271668963828971586482652427759292929153312989684 :: nat)"
  "(271668963828971586482652427759292929153312989684 * 407775469048623907243300389697718227198385682358) mod 900812823637587646514106462588455890498729007071 = (709647081191979719375208649646417667058282722427 :: nat)"
  "(709647081191979719375208649646417667058282722427 * 709647081191979719375208649646417667058282722427) mod 900812823637587646514106462588455890498729007071 = (105231310479247228007940054530263704029915073762 :: nat)"
  "(2 * 264865613959729647018113670854605162895977008838) mod 900812823637587646514106462588455890498729007071 = (529731227919459294036227341709210325791954017676 :: nat)" "(2 * 51841075954883162510413392745168936296187808697) mod 900812823637587646514106462588455890498729007071 = (103682151909766325020826785490337872592375617394 :: nat)"
  "(709647081191979719375208649646417667058282722427 * 689365531399941713046400958033551784658015952752) mod 900812823637587646514106462588455890498729007071 = (706789228775135658702725581090227247276677160989 :: nat)"
  by (rule mod_of_quotient [where q = 233634973717321100298978430132245355144656388396], simp, simp)
    (rule mod_of_quotient [where q = 122977755471963828026884562051914468899859781795], simp, simp,
     rule mod_of_quotient [where q = 559049523529987745274548191854765905430298795177], simp, simp,
     rule mod_of_quotient [where q = 0], simp, simp,
     rule mod_of_quotient [where q = 0], simp, simp,
     rule mod_of_quotient [where q = 543072017177613680770924538624610716710357403565], simp, simp)
lemma subs: "sub_mod 900812823637587646514106462588455890498729007071 105231310479247228007940054530263704029915073762 529731227919459294036227341709210325791954017676 = 476312906197375580485819175409509268736690063157" "sub_mod 900812823637587646514106462588455890498729007071 264865613959729647018113670854605162895977008838 476312906197375580485819175409509268736690063157 = 689365531399941713046400958033551784658015952752" "sub_mod 900812823637587646514106462588455890498729007071 706789228775135658702725581090227247276677160989 51841075954883162510413392745168936296187808697 = 654948152820252496192312188345058310980489352292"
  by (simp_all add: sub_mod_def)
lemma ec_double_base: "ec_double (ec_new 264865613959729647018113670854605162895977008838 51841075954883162510413392745168936296187808697) 900812823637587646514106462588455890498729007068 900812823637587646514106462588455890498729007071 = ec_new 476312906197375580485819175409509268736690063157 654948152820252496192312188345058310980489352292"
  unfolding ec_double_def ec_new_def ec_point.simps Let_def residues inv_2gy option.case subs
  by simp

lemma mod_inv_order: "mod_inv 1 900812823637587646514106555566573588779770753047 = Some 1"
  "mod_inv 2 900812823637587646514106555566573588779770753047 = Some 450406411818793823257053277783286794389885376524"
  by (rule mod_inv_unique [where q = 0], simp, simp) (rule mod_inv_unique [where q = 1], simp_all)

lemma ec_mul_1: "\<not> infinite g \<Longrightarrow> ec_mul 1 g a p = g"
  by (simp add: ec_mul_def ec_mul_loop.simps ec_add_def ec_infinity_def Let_def)

lemma ec_mul_2: "ec_mul 2 g a p = ec_double g a p"
  by (simp add: ec_mul_def ec_mul_loop.simps ec_add_def ec_infinity_def Let_def)

lemma sign_round_None_iff:
  assumes "0 < k" "k < prm_n E" "px (ec_mul k (prm_g E) (prm_a E) (prm_p E)) mod prm_n E = x" "x \<noteq> 0"
    and "mod_inv k (prm_n E) = Some v"
  shows "sign_round E d z k = None \<longleftrightarrow> (v * ((z + x * d) mod prm_n E)) mod prm_n E = 0"
  using assms by (simp add: sign_round_def Let_def)

lemma aacs1_base:
  "prm_n (aacs1_params C) = 900812823637587646514106555566573588779770753047"
  "ec_mul 1 (prm_g (aacs1_params C)) (prm_a (aacs1_params C)) (prm_p (aacs1_params C))
     = ec_new 264865613959729647018113670854605162895977008838 51841075954883162510413392745168936296187808697"
  "ec_mul 2 (prm_g (aacs1_params C)) (prm_a (aacs1_params C)) (prm_p (aacs1_params C))
     = ec_new 476312906197375580485819175409509268736690063157 654948152820252496192312188345058310980489352292"
  by (simp_all only: aacs1_params_def ec_params.simps curve_values ec_from_bytes_def ec_mul_2 ec_double_base)
    (rule ec_mul_1, simp add: ec_new_def)

lemma order_dvd:
  fixes z d :: nat
  assumes "(z + 264865613959729647018113670854605162895977008838 * d) mod n = 0"
    and "(450406411818793823257053277783286794389885376524 *
          ((z + 476312906197375580485819175409509268736690063157 * d) mod n)) mod n = 0"
    and n: "n = 900812823637587646514106555566573588779770753047"
  shows "d mod n = 0"
proof -
  define x where "x = z + 476312906197375580485819175409509268736690063157 * d"
  have "n dvd 450406411818793823257053277783286794389885376524 * x"
    using assms(2) by (simp add: x_def mod_mult_right_eq mod_0_imp_dvd)
  then have "n dvd 2 * (450406411818793823257053277783286794389885376524 * x)" by (rule dvd_mult)
  moreover have "2 * (450406411818793823257053277783286794389885376524 * x) = n * x + x" by (simp add: n)
  ultimately have "n dvd x" by (simp only: dvd_add_right_iff [OF dvd_triv_left])
  moreover have "n dvd z + 264865613959729647018113670854605162895977008838 * d"
    using assms(1) by (rule mod_0_imp_dvd)
  ultimately have "n dvd x - (z + 264865613959729647018113670854605162895977008838 * d)" by (rule dvd_diff_nat)
  also have "x - (z + 264865613959729647018113670854605162895977008838 * d)
      = 211447292237645933467705504554904105840713054319 * d" by (simp add: x_def)
  finally have "n dvd 34442223667489274904212657892571992007838012769 *
      (211447292237645933467705504554904105840713054319 * d)" by (rule dvd_mult)
  moreover have "34442223667489274904212657892571992007838012769 *
      (211447292237645933467705504554904105840713054319 * d)
      = n * (8084603973248864810399102650836042871756125730 * d) + d" by (simp add: n)
  ultimately have "n dvd d" by (simp only: dvd_add_right_iff [OF dvd_triv_left])
  then show ?thesis by simp
qed

lemma sign_with_1_or_2:
  assumes "d mod prm_n (aacs1_params C) \<noteq> 0"
  shows "sign_round (aacs1_params C) d z 1 \<noteq> None \<or> sign_round (aacs1_params C) d z 2 \<noteq> None"
proof (rule ccontr)
  let ?E = "aacs1_params C"
  assume "\<not> ?thesis"
  then have none: "sign_round ?E d z 1 = None" "sign_round ?E d z 2 = None" by blast+
  have one: "(z + 264865613959729647018113670854605162895977008838 * d) mod prm_n ?E = 0"
    using none(1) by (subst (asm) sign_round_None_iff [where v = 1 and x = 264865613959729647018113670854605162895977008838])
      (simp_all add: aacs1_base aacs1_base(2) [unfolded One_nat_def] ec_new_def
        mod_inv_order(1) [unfolded One_nat_def])
  have two: "(450406411818793823257053277783286794389885376524 *
          ((z + 476312906197375580485819175409509268736690063157 * d) mod prm_n ?E)) mod prm_n ?E = 0"
    using none(2) by (subst (asm) sign_round_None_iff [where v = 450406411818793823257053277783286794389885376524
        and x = 476312906197375580485819175409509268736690063157])
      (simp_all add: aacs1_base ec_new_def mod_inv_order)
  from order_dvd [OF one two aacs1_base(1)] assms show False by simp
qed

lemma coin_draw: "fill_bytes coin_host 20 b = (zeros 19 @ [if b then 1 else 2], [], \<not> b)"
  by (simp add: fill_bytes_def coin_host_def default_host_def zeros_unfold upt_rec)

lemma coin_value: "from_bytes_be (zeros 19 @ [1]) = 1" "from_bytes_be (zeros 19 @ [2]) = 2"
  by (simp_all add: from_bytes_be_append, simp_all add: from_bytes_be_def)

lemma coin_fair: "fair 2 coin_host (aacs1_params C)"
proof -
  have len: "prm_len (aacs1_params C) = 20" by (simp add: aacs1_params_def)
  have two: "draws 2 coin_host 20 P b \<longleftrightarrow> P (zeros 19 @ [1]) \<or> P (zeros 19 @ [2])" for P b
    by (cases b) (auto simp: numeral_2_eq_2 coin_draw)
  show ?thesis
    unfolding fair_def len two
  proof (intro allI conjI impI)
    show "key_draw (aacs1_params C) (zeros 19 @ [1]) \<or> key_draw (aacs1_params C) (zeros 19 @ [2])"
      unfolding key_draw_def coin_value aacs1_base by simp
    show "nonce_draw (aacs1_params C) d z (zeros 19 @ [1]) \<or> nonce_draw (aacs1_params C) d z (zeros 19 @ [2])"
      if "d mod prm_n (aacs1_params C) \<noteq> 0" for d z
      unfolding nonce_draw_def coin_value by (rule sign_with_1_or_2 [OF that])
  qed
qed

text \<open>A usable certificate: the private key 1 and the base point as the public key.\<close>

definition base_point_cert :: host_cert where
  "base_point_cert = \<lparr> private_key = zeros 19 @ [1], certificate = zeros 12 @ EC_GX @ EC_GY @ zeros 40,
     private_key_v2 = None, certificate_v2 = None \<rparr>"

lemma aacs_unlock_returns_witness:
  "\<exists>r es w'. aacs_unlock 2 identity_crypto (aacs_unlocker_new [base_point_cert]) coin_host
       (unlock_ctx_new drive_id_default Aacs) True = (Some r, es, w')
     \<and> aacs_unlock 100 identity_crypto (aacs_unlocker_new [base_point_cert]) coin_host
       (unlock_ctx_new drive_id_default Aacs) True = (Some r, es, w')"
  by (rule aacs_unlock_returns [OF coin_fair]) simp

end
