(* ===== verification/Renesas_Flow.thy ===== *)
theory Renesas_Flow
  imports Renesas_Code
begin

text \<open>
  The installed code as a program of the H8S: the paths through a listing, with what an analysis
  knows on them. A step relation over positions and facts is the abstract machine; a checker over
  the listing, with one fact per label, is a type system for it. The analyses themselves, their
  facts and the effect of a step, are the interpretations of the locale \<open>flow_typing\<close>. The branch
  conditions are the processor's: 0 always, 4 and 5 on carry, 6 not equal, 7 equal.
\<close>

unbundle bit_operations_syntax

text \<open>The number of the long register an operand belongs to.\<close>

definition reg_number :: "h8_reg \<Rightarrow> u8" where
  "reg_number r = (case r of RegLong n \<Rightarrow> n | RegWord n \<Rightarrow> n AND 7 | RegByte n \<Rightarrow> n AND 7)"

section \<open>Paths\<close>

definition is_rts :: "h8_insn \<Rightarrow> bool" where
  "is_rts insn \<longleftrightarrow> mnemonic insn = ''RTS''"

text \<open>A step that leaves the routine: a return, or a jump to code outside.\<close>

definition leaves :: "asm_step \<Rightarrow> bool" where
  "leaves s = (case s of Instruction i \<Rightarrow> is_rts i | Transfer op _ \<Rightarrow> op = 0x5a | _ \<Rightarrow> False)"

text \<open>A fact is reached when a path leads there; a step whose effect is not defined ends it.\<close>

inductive flow :: "(asm_step \<Rightarrow> 'f \<Rightarrow> 'f option) \<Rightarrow> 'f \<Rightarrow> asm_step list \<Rightarrow> nat \<Rightarrow> 'f \<Rightarrow> bool"
  for eff init code where
  entry: "flow eff init code 0 init"
| next_step: "flow eff init code pc f \<Longrightarrow> pc < length code \<Longrightarrow> eff (code ! pc) f = Some f'
    \<Longrightarrow> (\<forall>l. code ! pc \<noteq> Branch 0 l) \<Longrightarrow> flow eff init code (Suc pc) f'"
| taken: "flow eff init code pc f \<Longrightarrow> pc < length code \<Longrightarrow> code ! pc = Branch c l
    \<Longrightarrow> target < length code \<Longrightarrow> code ! target = Label l \<Longrightarrow> flow eff init code target f"

text \<open>
  A position is sound with its fact: there is code, a step that goes on has a defined effect, a
  branch has exactly one target, and a step that leaves the routine does so with a fact final for it.
\<close>

definition flow_sound_at :: "(asm_step \<Rightarrow> 'f \<Rightarrow> 'f option) \<Rightarrow> (asm_step \<Rightarrow> 'f \<Rightarrow> bool) \<Rightarrow> asm_step list \<Rightarrow> nat \<Rightarrow> 'f \<Rightarrow> bool" where
  "flow_sound_at eff final code pc f \<longleftrightarrow> pc < length code
     \<and> (if leaves (code ! pc) then final (code ! pc) f else eff (code ! pc) f \<noteq> None)
     \<and> (case code ! pc of
          Branch _ l \<Rightarrow> (\<exists>!target. target < length code \<and> code ! target = Label l)
        | _ \<Rightarrow> True)"

section \<open>The checker\<close>

text \<open>
  \<open>cur\<close> is the fact above a step, \<open>None\<close> when it cannot be reached from there; \<open>env\<close> gives the
  fact at every label, and \<open>le\<close> says that one fact implies another. \<open>flow_fits\<close> is the check of one
  step, \<open>flow_entry\<close> and \<open>flow_after\<close> are the facts before it is executed and below it.
\<close>

definition implied :: "('f \<Rightarrow> 'f \<Rightarrow> bool) \<Rightarrow> 'f option \<Rightarrow> 'f option \<Rightarrow> bool" where
  "implied le cur f \<longleftrightarrow> (case (cur, f) of (Some a, Some b) \<Rightarrow> le a b | _ \<Rightarrow> False)"

definition flow_entry :: "(string \<Rightarrow> 'f option) \<Rightarrow> asm_step \<Rightarrow> 'f option \<Rightarrow> 'f option" where
  "flow_entry env s cur = (case s of Label l \<Rightarrow> env l | _ \<Rightarrow> cur)"

definition flow_fits :: "(asm_step \<Rightarrow> 'f \<Rightarrow> 'f option) \<Rightarrow> ('f \<Rightarrow> 'f \<Rightarrow> bool) \<Rightarrow> (asm_step \<Rightarrow> 'f \<Rightarrow> bool)
    \<Rightarrow> (string \<Rightarrow> 'f option) \<Rightarrow> asm_step \<Rightarrow> 'f option \<Rightarrow> bool" where
  "flow_fits eff le final env s cur \<longleftrightarrow> (case s of
     Label l \<Rightarrow> env l \<noteq> None \<and> (cur = None \<or> implied le cur (env l))
   | Branch c l \<Rightarrow> implied le cur (env l)
   | _ \<Rightarrow> (case cur of None \<Rightarrow> False | Some f \<Rightarrow> if leaves s then final s f else eff s f \<noteq> None))"

definition flow_after :: "(asm_step \<Rightarrow> 'f \<Rightarrow> 'f option) \<Rightarrow> (string \<Rightarrow> 'f option) \<Rightarrow> asm_step \<Rightarrow> 'f option \<Rightarrow> 'f option" where
  "flow_after eff env s cur = (case s of
     Label l \<Rightarrow> env l
   | Branch c l \<Rightarrow> if c = 0 then None else cur
   | _ \<Rightarrow> if leaves s then None else Option.bind cur (eff s))"

primrec flow_checks :: "(asm_step \<Rightarrow> 'f \<Rightarrow> 'f option) \<Rightarrow> ('f \<Rightarrow> 'f \<Rightarrow> bool) \<Rightarrow> (asm_step \<Rightarrow> 'f \<Rightarrow> bool)
    \<Rightarrow> (string \<Rightarrow> 'f option) \<Rightarrow> 'f option \<Rightarrow> asm_step list \<Rightarrow> bool" where
  "flow_checks eff le final env cur [] \<longleftrightarrow> cur = None"
| "flow_checks eff le final env cur (s # ss) \<longleftrightarrow> flow_fits eff le final env s cur
     \<and> flow_checks eff le final env (flow_after eff env s cur) ss"

definition label_of :: "asm_step \<Rightarrow> string list" where
  "label_of s = (case s of Label l \<Rightarrow> [l] | _ \<Rightarrow> [])"

definition target_of :: "asm_step \<Rightarrow> string list" where
  "target_of s = (case s of Branch _ l \<Rightarrow> [l] | _ \<Rightarrow> [])"

definition labels :: "asm_step list \<Rightarrow> string list" where
  "labels code = concat (map label_of code)"

definition branch_labels :: "asm_step list \<Rightarrow> string list" where
  "branch_labels code = concat (map target_of code)"

text \<open>Every branch has one target.\<close>

definition well_labelled :: "asm_step list \<Rightarrow> bool" where
  "well_labelled code \<longleftrightarrow> distinct (labels code) \<and> set (branch_labels code) \<subseteq> set (labels code)"

text \<open>The facts the checker computes at each position.\<close>

primrec facts_before :: "(asm_step \<Rightarrow> 'f \<Rightarrow> 'f option) \<Rightarrow> (string \<Rightarrow> 'f option) \<Rightarrow> 'f option \<Rightarrow> asm_step list \<Rightarrow> nat \<Rightarrow> 'f option" where
  "facts_before eff env cur [] n = cur"
| "facts_before eff env cur (s # ss) n = (case n of
     0 \<Rightarrow> flow_entry env s cur
   | Suc m \<Rightarrow> facts_before eff env (flow_after eff env s cur) ss m)"

lemma flow_checks_at:
  "flow_checks eff le final env cur code \<Longrightarrow> n < length code \<Longrightarrow> \<exists>cur'. flow_fits eff le final env (code ! n) cur'
     \<and> facts_before eff env cur code n = flow_entry env (code ! n) cur'
     \<and> flow_checks eff le final env (flow_after eff env (code ! n) cur') (drop (Suc n) code)
     \<and> (Suc n < length code \<longrightarrow> facts_before eff env cur code (Suc n)
          = flow_entry env (code ! Suc n) (flow_after eff env (code ! n) cur'))"
proof (induction code arbitrary: cur n)
  case (Cons s ss)
  show ?case
  proof (cases n)
    case 0
    with Cons.prems show ?thesis by (cases ss) auto
  next
    case (Suc m)
    with Cons.prems have "flow_checks eff le final env (flow_after eff env s cur) ss" "m < length ss" by auto
    from Cons.IH [OF this] Suc show ?thesis by simp
  qed
qed simp

lemma flow_checks_label:
  "flow_checks eff le final env cur code \<Longrightarrow> n < length code \<Longrightarrow> code ! n = Label l \<Longrightarrow> facts_before eff env cur code n = env l"
  by (drule (1) flow_checks_at) (auto simp: flow_entry_def)

lemma labels_unique:
  assumes "distinct (labels code)" "i < length code" "j < length code" "code ! i = Label l" "code ! j = Label l"
  shows "i = j"
  using assms
proof (induction code arbitrary: i j)
  case (Cons s ss)
  have mem: "l \<in> set (labels ss)" if "k < length ss" "ss ! k = Label l" for k
    using that nth_mem [of k ss] by (force simp: labels_def label_of_def)
  from Cons show ?case
    using mem by (cases i; cases j) (auto simp: labels_def label_of_def split: asm_step.splits)
qed simp

lemma branch_has_target:
  assumes "well_labelled code" "n < length code" "code ! n = Branch c l"
  shows "\<exists>!target. target < length code \<and> code ! target = Label l"
proof -
  have "l \<in> set (branch_labels code)"
    using assms(2,3) nth_mem [of n code] by (force simp: branch_labels_def target_of_def)
  with assms(1) have "l \<in> set (labels code)" by (auto simp: well_labelled_def)
  then obtain t where "t < length code" "code ! t = Label l"
    by (auto simp: labels_def label_of_def in_set_conv_nth split: asm_step.splits)
  with assms(1) labels_unique show ?thesis unfolding well_labelled_def by blast
qed

section \<open>Soundness of the checker\<close>

text \<open>
  An analysis: \<open>le\<close> is a preorder of strength, the effect of a step is monotone in it, labels and
  branches have no effect, and nothing follows a step that leaves the routine.
\<close>

locale flow_typing =
  fixes eff :: "asm_step \<Rightarrow> 'f \<Rightarrow> 'f option" and le :: "'f \<Rightarrow> 'f \<Rightarrow> bool" and final :: "asm_step \<Rightarrow> 'f \<Rightarrow> bool"
  assumes le_refl: "le a a"
    and le_trans: "le a b \<Longrightarrow> le b c \<Longrightarrow> le a c"
    and eff_mono: "le a b \<Longrightarrow> eff s b = Some b' \<Longrightarrow> \<exists>a'. eff s a = Some a' \<and> le a' b'"
    and final_mono: "le a b \<Longrightarrow> final s b \<Longrightarrow> final s a"
    and eff_label: "eff (Label l) a = Some a"
    and eff_branch: "eff (Branch cond l) a = Some a"
    and eff_leaves: "leaves s \<Longrightarrow> eff s a = None"
begin

text \<open>Below a step that is executed and goes on there is code, with a fact implied by its own.\<close>

lemma checks_next:
  assumes "flow_checks eff le final env (Some f) (drop (Suc n) code)"
  shows "Suc n < length code \<and> (\<exists>g. flow_entry env (code ! Suc n) (Some f) = Some g \<and> le f g)"
proof (cases "Suc n < length code")
  case True
  then have "drop (Suc n) code = code ! Suc n # drop (Suc (Suc n)) code" by (simp add: Cons_nth_drop_Suc)
  with assms True show ?thesis
    by (auto simp: flow_fits_def flow_entry_def implied_def le_refl split: asm_step.splits option.splits)
qed (use assms in simp)

lemma goes_on: "flow_fits eff le final env s cur \<Longrightarrow> flow_entry env s cur = Some f \<Longrightarrow> eff s f = Some f'
    \<Longrightarrow> (\<forall>l. s \<noteq> Branch 0 l) \<Longrightarrow> flow_after eff env s cur = Some f'"
  by (cases s) (auto simp: flow_fits_def flow_entry_def flow_after_def eff_label eff_branch eff_leaves)

lemma checks_step:
  assumes "flow_checks eff le final env cur code" "n < length code" "facts_before eff env cur code n = Some f"
  shows "(if leaves (code ! n) then final (code ! n) f else eff (code ! n) f \<noteq> None)
    \<and> (\<forall>c l. code ! n = Branch c l \<longrightarrow> implied le (Some f) (env l))"
    and "eff (code ! n) f = Some f' \<Longrightarrow> (\<forall>l. code ! n \<noteq> Branch 0 l)
      \<Longrightarrow> Suc n < length code \<and> (\<exists>g. facts_before eff env cur code (Suc n) = Some g \<and> le f' g)"
proof -
  from flow_checks_at [OF assms(1,2)] obtain cur' where cur': "flow_fits eff le final env (code ! n) cur'"
      "facts_before eff env cur code n = flow_entry env (code ! n) cur'"
      "flow_checks eff le final env (flow_after eff env (code ! n) cur') (drop (Suc n) code)"
      "Suc n < length code \<longrightarrow> facts_before eff env cur code (Suc n) = flow_entry env (code ! Suc n) (flow_after eff env (code ! n) cur')"
    by blast
  with assms(3) show "(if leaves (code ! n) then final (code ! n) f else eff (code ! n) f \<noteq> None)
      \<and> (\<forall>c l. code ! n = Branch c l \<longrightarrow> implied le (Some f) (env l))"
    by (cases "code ! n") (auto simp: flow_fits_def flow_entry_def leaves_def eff_label eff_branch split: if_splits)
  assume "eff (code ! n) f = Some f'" "\<forall>l. code ! n \<noteq> Branch 0 l"
  then have "flow_after eff env (code ! n) cur' = Some f'"
    using cur'(2) assms(3) by (intro goes_on [OF cur'(1), of f]) simp_all
  with cur'(3,4) checks_next [of env f' n code]
  show "Suc n < length code \<and> (\<exists>g. facts_before eff env cur code (Suc n) = Some g \<and> le f' g)" by auto
qed

lemma flow_typed:
  assumes "flow_checks eff le final env (Some init) code" "flow eff init code pc f"
  shows "pc < length code \<and> (\<exists>g. facts_before eff env (Some init) code pc = Some g \<and> le f g)"
  using assms(2)
proof induction
  case entry
  from assms(1) show ?case
    by (cases code) (auto simp: flow_fits_def flow_entry_def implied_def le_refl split: asm_step.splits option.splits)
next
  case (next_step pc f f')
  then obtain g where g: "facts_before eff env (Some init) code pc = Some g" "le f g" by auto
  from checks_step(1) [OF assms(1) next_step.hyps(2) g(1)] eff_leaves [of "code ! pc" f] next_step.hyps(3)
  obtain g' where g': "eff (code ! pc) g = Some g'" by (auto split: if_splits)
  from eff_mono [OF g(2) g'] next_step.hyps(3) have "le f' g'" by auto
  with checks_step(2) [OF assms(1) next_step.hyps(2) g(1) g' next_step.hyps(4)] show ?case
    by (auto intro: le_trans)
next
  case (taken pc f c l target)
  then obtain g where g: "facts_before eff env (Some init) code pc = Some g" "le f g" by auto
  from checks_step(1) [OF assms(1) taken.hyps(2) g(1)] taken.hyps(3)
  have "implied le (Some g) (env l)" by auto
  with flow_checks_label [OF assms(1) taken.hyps(4,5)] g(2) taken.hyps(4) show ?case
    by (auto simp: implied_def intro: le_trans split: option.splits)
qed

theorem typed_sound:
  assumes "flow_checks eff le final env (Some init) code" "well_labelled code" "flow eff init code pc f"
  shows "flow_sound_at eff final code pc f"
proof -
  from flow_typed [OF assms(1,3)] obtain g
    where pc: "pc < length code" "facts_before eff env (Some init) code pc = Some g" "le f g" by auto
  have "if leaves (code ! pc) then final (code ! pc) f else eff (code ! pc) f \<noteq> None"
    using checks_step(1) [OF assms(1) pc(1,2)] final_mono [OF pc(3), of "code ! pc"] eff_mono [OF pc(3), of "code ! pc"]
    by (auto split: if_splits)
  with pc(1) branch_has_target [OF assms(2) pc(1)] show ?thesis
    by (auto simp: flow_sound_at_def split: asm_step.split)
qed

end

text \<open>The checker at the steps that are the same in every analysis.\<close>

named_theorems listing \<open>evaluation of the checkers on the code\<close>

lemma implied_simps [listing]:
  "implied le (Some a) (Some b) \<longleftrightarrow> le a b" "\<not> implied le None x" "\<not> implied le x None"
  by (auto simp: implied_def split: option.split)

lemma flow_checks_control [listing]:
  "flow_checks eff le final env (Some f) (Branch c l # ss)
     \<longleftrightarrow> implied le (Some f) (env l) \<and> flow_checks eff le final env (if c = 0 then None else Some f) ss"
  "flow_checks eff le final env None (Label l # ss) \<longleftrightarrow> env l \<noteq> None \<and> flow_checks eff le final env (env l) ss"
  "flow_checks eff le final env (Some f) (Label l # ss)
     \<longleftrightarrow> implied le (Some f) (env l) \<and> flow_checks eff le final env (env l) ss"
  "flow_checks eff le final env (Some f) (rts # ss) \<longleftrightarrow> final rts f \<and> flow_checks eff le final env None ss"
  "flow_checks eff le final env (Some f) (Transfer 0x5a a # ss) \<longleftrightarrow> final (Transfer 0x5a a) f \<and> flow_checks eff le final env None ss"
  "flow_checks eff le final env None [] \<longleftrightarrow> True"
  by (auto simp: flow_fits_def flow_after_def rts_def emit_op_def is_rts_def leaves_def implied_def split: option.split)

text \<open>A straight step goes on to the one below it.\<close>

definition straight :: "asm_step \<Rightarrow> bool" where
  "straight s \<longleftrightarrow> \<not> leaves s \<and> label_of s = [] \<and> target_of s = []"

lemma flow_checks_straight:
  "straight s \<Longrightarrow> eff s f = Some f' \<Longrightarrow> flow_checks eff le final env (Some f) (s # ss) \<longleftrightarrow> flow_checks eff le final env (Some f') ss"
  by (cases s) (auto simp: straight_def flow_fits_def flow_after_def label_of_def target_of_def)

lemma straight_emit_op [listing]: "name \<noteq> ''RTS'' \<Longrightarrow> straight (emit_op name sz src dst)"
  by (simp add: straight_def emit_op_def leaves_def is_rts_def label_of_def target_of_def)

lemma straight_steps [listing]:
  "straight (push r)" "straight (pop r)" "straight (compare_byte v)" "straight (clear_byte r)"
  "straight (load_long r a)" "straight (store_long r a)" "straight (Transfer 0x5e a)" "straight (cdb_byte n)" "straight (imm r x)"
  by (simp_all add: push_def pop_def compare_byte_def clear_byte_def straight_emit_op cdb_byte_def imm_def)
     (simp_all add: straight_def load_long_def store_long_def leaves_def is_rts_def label_of_def target_of_def)

section \<open>The labels of the code\<close>

lemma op_cdb_bytes: "op_cdb Suppress = [0x3C, 0x0E, 0xC0, 0xDE, 2, 6, 0, 0, 64, 0]"
  by code_simp

lemma identity_cdb_bytes: "build_identity_cdb 64 = [0x3C, 0x0E, 0xC0, 0xDE, 1, 0, 0, 0, 64, 0]"
  by code_simp

lemma labels_simps [listing]:
  "labels [] = []" "labels (s # ss) = label_of s @ labels ss" "labels (xs @ ys) = labels xs @ labels ys"
  "branch_labels [] = []" "branch_labels (s # ss) = target_of s @ branch_labels ss"
  "branch_labels (xs @ ys) = branch_labels xs @ branch_labels ys"
  by (simp_all add: labels_def branch_labels_def)

lemma label_of_simps [listing]:
  "label_of (Label l) = [l]" "label_of (Branch c l) = []" "target_of (Label l) = []" "target_of (Branch c l) = [l]"
  "label_of rts = []" "target_of rts = []" "label_of (Transfer opc a) = []" "target_of (Transfer opc a) = []"
  "straight s \<Longrightarrow> label_of s = []" "straight s \<Longrightarrow> target_of s = []"
  by (simp_all add: label_of_def target_of_def rts_def emit_op_def straight_def)

lemma labels_straight: "list_all straight c \<Longrightarrow> labels c = [] \<and> branch_labels c = []"
  by (induction c) (simp_all add: listing)

lemma vid_wrapper_labelled: "well_labelled (vid_wrapper_code s helper invalid)"
proof -
  have copy: "labels (concat (map (\<lambda>offset.
      [emit_op ''MOV'' (Some SizeByte) (Address (Absolute (vid_source (site_vid s) + of_nat offset) 32)) (Register (RegByte 10)),
       emit_op ''MOV'' (Some SizeByte) (Register (RegByte 10)) (Address (Displacement (RegLong 4) (int offset + 4) 16))]) ns)) = []
    \<and> branch_labels (concat (map (\<lambda>offset.
      [emit_op ''MOV'' (Some SizeByte) (Address (Absolute (vid_source (site_vid s) + of_nat offset) 32)) (Register (RegByte 10)),
       emit_op ''MOV'' (Some SizeByte) (Register (RegByte 10)) (Address (Displacement (RegLong 4) (int offset + 4) 16))]) ns)) = []" for ns
    by (induction ns) (simp_all add: listing)
  have wipe: "labels (map (\<lambda>offset. emit_op ''MOV'' (Some SizeByte) (Register (RegByte 10))
      (Address (Displacement (RegLong 4) (int offset) 16))) ns) = []
    \<and> branch_labels (map (\<lambda>offset. emit_op ''MOV'' (Some SizeByte) (Register (RegByte 10))
      (Address (Displacement (RegLong 4) (int offset) 16))) ns) = []" for ns
    by (induction ns) (simp_all add: listing)
  show ?thesis
    unfolding well_labelled_def vid_wrapper_code_def vid_wrapper_checks_def vid_wrapper_copy_def vid_wrapper_send_def
      vid_wrapper_exits_def
    by (simp add: listing copy wipe require_byte_def del: upt_rec_numeral)
qed

lemma hook_labelled: "well_labelled (hook_code op s main helper invalid original cf)"
proof (cases op)
  case Suppress
  have "labels (hook_code op s main helper invalid original cf) =
      [''transition'', ''wait_read_idle'', ''read_idle'', ''owned_policy'', ''restore_policy'', ''reinitialize'',
       ''acknowledge'', ''reply'', ''refused'', ''identity'', ''invalid'', ''foundation_oem'']"
    and "set (branch_labels (hook_code op s main helper invalid original cf)) \<subseteq>
      {''transition'', ''wait_read_idle'', ''read_idle'', ''owned_policy'', ''restore_policy'', ''reinitialize'',
       ''acknowledge'', ''reply'', ''refused'', ''identity'', ''invalid'', ''foundation_oem''}"
    unfolding hook_code_def hook_frame_def hook_wait_def hook_policy_def hook_reinitialize_def hook_reply_def
      hook_identity_def routing_enter_def routing_oem_def restore_registers_def Suppress op_cdb_bytes identity_cdb_bytes
    by (simp_all add: listing require_byte_def CDB_VERB_def CDB_FEATURE_def)
  then show ?thesis by (simp add: well_labelled_def)
qed

lemma callbacks_labelled: "well_labelled (callback_code s)" "well_labelled eligibility_code"
  unfolding well_labelled_def callback_code_def eligibility_code_def by (simp_all add: listing)

end
