(* ===== verification/Renesas_Stack.thy ===== *)
theory Renesas_Stack
  imports Renesas_Flow
begin

text \<open>
  How the installed code treats the stack and the caller's registers on every path. The facts of
  the analysis are the slots on the stack, the registers that may no longer hold what the caller
  left there, and whether the command was handed to the firmware's refusal routine. A register
  comes back only by popping a slot into which its entry value was pushed.
\<close>

unbundle bit_operations_syntax

section \<open>The stack machine\<close>

text \<open>
  A slot holds a register's entry value, a register pushed when it held something else, or is a
  local one.
\<close>

datatype slot = Saved u8 | Pushed u8 | Local

record frame_fact =
  slots :: "slot list"
  clobbered :: "u8 set"
  refusing :: bool

definition entry_fact :: frame_fact where
  "entry_fact = \<lparr> slots = [], clobbered = {}, refusing = False \<rparr>"

text \<open>
  One fact implies another when it has clobbered fewer registers and the slots agree, up to a slot that
  holds the entry value where the other only knows the register.
\<close>

definition slot_implies :: "slot \<Rightarrow> slot \<Rightarrow> bool" where
  "slot_implies a b \<longleftrightarrow> a = b \<or> (\<exists>r. a = Saved r \<and> b = Pushed r)"

definition keeps_more :: "frame_fact \<Rightarrow> frame_fact \<Rightarrow> bool" where
  "keeps_more f g \<longleftrightarrow> list_all2 slot_implies (slots f) (slots g) \<and> clobbered f \<subseteq> clobbered g \<and> (refusing g \<longrightarrow> refusing f)"

text \<open>
  How the routine may be left: with no slots, and with every register intact when the OEM handler
  takes over; a return keeps ER4 to ER6, and unless the command was refused also the registers \<open>kept\<close>.
\<close>

definition left_clean :: "u8 set \<Rightarrow> asm_step \<Rightarrow> frame_fact \<Rightarrow> bool" where
  "left_clean kept s f \<longleftrightarrow> slots f = [] \<and> (case s of
     Transfer _ _ \<Rightarrow> clobbered f = {}
   | _ \<Rightarrow> clobbered f \<inter> {4, 5, 6} = {} \<and> (\<not> refusing f \<longrightarrow> clobbered f \<inter> kept = {}))"

definition is_er7 :: "h8_reg \<Rightarrow> bool" where
  "is_er7 r = (case r of RegLong n \<Rightarrow> n = 7 | RegWord n \<Rightarrow> n = 7 \<or> n = 15 | RegByte n \<Rightarrow> n = 7 \<or> n = 15)"

text \<open>An address that is not plain: it uses the stack pointer, or it changes a register.\<close>

definition ea_moves :: "h8_ea \<Rightarrow> bool" where
  "ea_moves ea = (case ea of
     PreDecrement _ \<Rightarrow> True | PostIncrement _ \<Rightarrow> True | Displacement r _ _ \<Rightarrow> is_er7 r
   | Indirect r \<Rightarrow> is_er7 r | Absolute _ _ \<Rightarrow> False | PcRelative _ \<Rightarrow> True | EaOther \<Rightarrow> True)"

definition lose :: "u8 set \<Rightarrow> frame_fact \<Rightarrow> frame_fact" where
  "lose R f = f\<lparr> clobbered := clobbered f \<union> R \<rparr>"

text \<open>A pop must find the register it restores; only the entry value brings a register back.\<close>

definition pop_slot :: "u8 \<Rightarrow> frame_fact \<Rightarrow> frame_fact option" where
  "pop_slot r f = (case slots f of
     Saved r' # st \<Rightarrow> if r' = r then Some (f\<lparr> slots := st, clobbered := clobbered f - {r} \<rparr>) else None
   | Pushed r' # st \<Rightarrow> if r' = r then Some (f\<lparr> slots := st, clobbered := insert r (clobbered f) \<rparr>) else None
   | _ \<Rightarrow> None)"

text \<open>
  What an instruction does to the stack and the registers. A store through the stack pointer goes
  to the top slot, and nothing but a push, a pop and a local slot may write the stack pointer or use
  it as an address. A comparison writes no register, any other instruction may change the one it
  names last.
\<close>

datatype stack_act = Push u8 | Pop u8 | Reserve | Drop | StoreTop | Change "u8 set" | Undisciplined

definition stack_act_of :: "h8_insn \<Rightarrow> stack_act" where
  "stack_act_of i = (case operands i of
     [Register (RegLong r), Address (PreDecrement (RegLong b)), OpNone] \<Rightarrow>
       if mnemonic i = ''MOV'' \<and> insn_size i = Some SizeLong \<and> b = 7 \<and> r \<noteq> 7 then Push r else Undisciplined
   | [Address (PostIncrement (RegLong b)), Register (RegLong r), OpNone] \<Rightarrow>
       if mnemonic i = ''MOV'' \<and> insn_size i = Some SizeLong \<and> b = 7 \<and> r \<noteq> 7 then Pop r else Undisciplined
   | [Immediate n _, Register (RegLong r), OpNone] \<Rightarrow>
       if r \<noteq> 7 then Change (if mnemonic i = ''CMP'' then {} else {r})
       else if mnemonic i = ''SUBS'' \<and> n = 4 then Reserve
       else if mnemonic i = ''ADDS'' \<and> n = 4 then Drop
       else Undisciplined
   | [Register (RegLong r), Address (Indirect (RegLong b)), OpNone] \<Rightarrow> if b \<noteq> 7 then Change {} else StoreTop
   | [Address ea, Register rg, OpNone] \<Rightarrow>
       if ea_moves ea \<or> is_er7 rg then Undisciplined else Change {reg_number rg}
   | [_, Register rg, OpNone] \<Rightarrow>
       if is_er7 rg then Undisciplined else Change (if mnemonic i = ''CMP'' then {} else {reg_number rg})
   | [_, Address ea, OpNone] \<Rightarrow> if ea_moves ea then Undisciplined else Change {}
   | [Register rg, OpNone, OpNone] \<Rightarrow> if is_er7 rg then Undisciplined else Change {reg_number rg}
   | _ \<Rightarrow> Undisciplined)"

definition stack_effect :: "stack_act \<Rightarrow> frame_fact \<Rightarrow> frame_fact option" where
  "stack_effect a f = (case a of
     Push r \<Rightarrow> Some (f\<lparr> slots := (if r \<in> clobbered f then Pushed r else Saved r) # slots f \<rparr>)
   | Pop r \<Rightarrow> pop_slot r f
   | Reserve \<Rightarrow> Some (f\<lparr> slots := Local # slots f \<rparr>)
   | Drop \<Rightarrow> if slots f \<noteq> [] then Some (f\<lparr> slots := tl (slots f) \<rparr>) else None
   | StoreTop \<Rightarrow> (case slots f of Local # _ \<Rightarrow> Some f | _ \<Rightarrow> None)
   | Change R \<Rightarrow> Some (lose R f)
   | Undisciplined \<Rightarrow> None)"

text \<open>
  The fact after a step that is executed and goes on. A call comes back with the stack as it was
  and keeps ER4, ER5 and ER6, the convention the code relies on.
\<close>

definition step_slots :: "u32 \<Rightarrow> asm_step \<Rightarrow> frame_fact \<Rightarrow> frame_fact option" where
  "step_slots invalid s f = (case s of
     Instruction i \<Rightarrow> if is_rts i then None else stack_effect (stack_act_of i) f
   | Transfer op a \<Rightarrow> if op = 0x5e then Some ((lose {0, 1, 2, 3} f)\<lparr> refusing := refusing f \<or> a = invalid \<rparr>) else None
   | Label _ \<Rightarrow> Some f
   | Branch _ _ \<Rightarrow> Some f
   | Refused \<Rightarrow> None)"

section \<open>The analysis\<close>

lemma slot_implies_simps [simp]:
  "slot_implies a a" "slot_implies (Saved r) (Pushed r)" "slot_implies a Local \<longleftrightarrow> a = Local"
  "slot_implies a (Saved r) \<longleftrightarrow> a = Saved r" "slot_implies a (Pushed r) \<longleftrightarrow> a = Pushed r \<or> a = Saved r"
  by (auto simp: slot_implies_def)

lemma slots_refl [simp]: "list_all2 slot_implies st st"
  by (simp add: list_all2_refl)

lemma slots_trans: "list_all2 slot_implies a b \<Longrightarrow> list_all2 slot_implies b c \<Longrightarrow> list_all2 slot_implies a c"
  by (rule list_all2_trans [of slot_implies slot_implies slot_implies]) (auto simp: slot_implies_def)

lemma keeps_more_refl: "keeps_more f f"
  by (simp add: keeps_more_def)

lemma keeps_more_trans: "keeps_more f g \<Longrightarrow> keeps_more g h \<Longrightarrow> keeps_more f h"
  unfolding keeps_more_def by (blast intro: slots_trans)

lemma keeps_more_lose: "keeps_more f g \<Longrightarrow> keeps_more (lose R f) (lose R g)"
  by (auto simp: keeps_more_def lose_def)

lemma keeps_more_push: "keeps_more f g \<Longrightarrow> keeps_more
    (f\<lparr> slots := (if r \<in> clobbered f then Pushed r else Saved r) # slots f \<rparr>)
    (g\<lparr> slots := (if r \<in> clobbered g then Pushed r else Saved r) # slots g \<rparr>)"
  by (auto simp: keeps_more_def)

lemma keeps_more_pop:
  "keeps_more f g \<Longrightarrow> pop_slot r g = Some g' \<Longrightarrow> \<exists>f'. pop_slot r f = Some f' \<and> keeps_more f' g'"
  by (cases "slots g"; cases "slots f")
     (auto simp: keeps_more_def pop_slot_def split: slot.splits if_splits)

lemma keeps_more_tl:
  "keeps_more f g \<Longrightarrow> slots g \<noteq> [] \<Longrightarrow> slots f \<noteq> [] \<and> keeps_more (f\<lparr> slots := tl (slots f) \<rparr>) (g\<lparr> slots := tl (slots g) \<rparr>)"
  by (cases "slots g"; cases "slots f") (auto simp: keeps_more_def)

lemma keeps_more_local:
  "keeps_more f g \<Longrightarrow> keeps_more (f\<lparr> slots := Local # slots f \<rparr>) (g\<lparr> slots := Local # slots g \<rparr>)"
  "keeps_more f g \<Longrightarrow> slots g = Local # st \<Longrightarrow> \<exists>st'. slots f = Local # st'"
  by (auto simp: keeps_more_def list_all2_Cons2)

lemma stack_effect_mono:
  assumes "keeps_more f g" "stack_effect a g = Some g'"
  shows "\<exists>f'. stack_effect a f = Some f' \<and> keeps_more f' g'"
proof (cases a)
  case (Push r)
  with assms keeps_more_push [OF assms(1), of r] show ?thesis by (simp add: stack_effect_def)
next
  case Drop
  with assms keeps_more_tl [OF assms(1)] show ?thesis by (auto simp: stack_effect_def split: if_splits)
next
  case StoreTop
  with assms keeps_more_local(2) [OF assms(1)] show ?thesis
    by (fastforce simp: stack_effect_def split: list.splits slot.splits)
qed (use assms in \<open>auto simp: stack_effect_def intro: keeps_more_lose keeps_more_pop keeps_more_local(1)\<close>)

lemma keeps_more_call: "keeps_more f g \<Longrightarrow>
    keeps_more ((lose R f)\<lparr> refusing := refusing f \<or> b \<rparr>) ((lose R g)\<lparr> refusing := refusing g \<or> b \<rparr>)"
  by (auto simp: keeps_more_def lose_def)

interpretation stack: flow_typing "step_slots invalid" keeps_more "left_clean kept"
proof (unfold_locales, goal_cases)
  case 1 show ?case by (rule keeps_more_refl)
next
  case 2 then show ?case by (rule keeps_more_trans)
next
  case (3 a b s b')
  then show ?case
    by (cases s) (auto simp: step_slots_def keeps_more_call split: if_splits intro: stack_effect_mono)
next
  case (4 a b s)
  then show ?case by (auto simp: left_clean_def keeps_more_def split: asm_step.splits)
qed (auto simp: step_slots_def leaves_def split: asm_step.splits if_splits)

abbreviation reaches :: "u32 \<Rightarrow> asm_step list \<Rightarrow> nat \<Rightarrow> frame_fact \<Rightarrow> bool" where
  "reaches invalid \<equiv> flow (step_slots invalid) entry_fact"

abbreviation sound_at :: "u32 \<Rightarrow> u8 set \<Rightarrow> asm_step list \<Rightarrow> nat \<Rightarrow> frame_fact \<Rightarrow> bool" where
  "sound_at invalid kept \<equiv> flow_sound_at (step_slots invalid) (left_clean kept)"

abbreviation checks :: "u32 \<Rightarrow> u8 set \<Rightarrow> (string \<Rightarrow> frame_fact option) \<Rightarrow> frame_fact option \<Rightarrow> asm_step list \<Rightarrow> bool" where
  "checks invalid kept \<equiv> flow_checks (step_slots invalid) keeps_more (left_clean kept)"

section \<open>The instructions of the code\<close>

text \<open>
  The checker on each of the code's instructions, for any address in it. A plain step leaves the
  slots alone, changes at most the registers \<open>change_of\<close> and goes on.
\<close>

definition change_of :: "asm_step \<Rightarrow> u8 set" where
  "change_of s = (case step_slots 0 s entry_fact of Some f \<Rightarrow> clobbered f | None \<Rightarrow> {})"

definition plain :: "asm_step \<Rightarrow> bool" where
  "plain s \<longleftrightarrow> straight s \<and> (\<forall>invalid f. step_slots invalid s f = Some (lose (change_of s) f))"

lemma plainI:
  "straight s \<Longrightarrow> (\<And>invalid f. step_slots invalid s f = Some (lose R f)) \<Longrightarrow> plain s \<and> change_of s = R"
  by (simp add: plain_def change_of_def lose_def entry_fact_def)

lemma step_slots_emit:
  "name \<noteq> ''RTS'' \<Longrightarrow> step_slots invalid (emit_op name sz src dst) f = stack_effect (stack_act_of (Insn name sz [src, dst, OpNone])) f"
  by (simp add: step_slots_def emit_op_def is_rts_def)

lemma plain_emit:
  assumes "name \<noteq> ''RTS''" "stack_act_of (Insn name sz [src, dst, OpNone]) = Change R"
  shows "plain (emit_op name sz src dst) \<and> change_of (emit_op name sz src dst) = R"
  by (rule plainI) (simp_all add: assms straight_emit_op step_slots_emit stack_effect_def)

lemma plain_emit_op [listing]:
  "name \<noteq> ''RTS'' \<Longrightarrow> (case stack_act_of (Insn name sz [src, dst, OpNone]) of Change _ \<Rightarrow> True | _ \<Rightarrow> False)
     \<Longrightarrow> plain (emit_op name sz src dst)"
  "name \<noteq> ''RTS'' \<Longrightarrow> (case stack_act_of (Insn name sz [src, dst, OpNone]) of Change _ \<Rightarrow> True | _ \<Rightarrow> False)
     \<Longrightarrow> change_of (emit_op name sz src dst)
       = (case stack_act_of (Insn name sz [src, dst, OpNone]) of Change R \<Rightarrow> R | _ \<Rightarrow> {})"
  using plain_emit [of name sz src dst] by (auto split: stack_act.splits)

lemmas plain_eval = stack_act_of_def is_er7_def ea_moves_def reg_number_def

lemma plain_cdb_byte [listing]: "n < 2 ^ 31 \<Longrightarrow> plain (cdb_byte n)" "n < 2 ^ 31 \<Longrightarrow> change_of (cdb_byte n) = {2}"
  by (simp_all add: cdb_byte_def plain_emit_op plain_eval)

lemma plain_steps [listing]:
  "plain (compare_byte v)" "change_of (compare_byte v) = {}"
  "plain (clear_byte 8)" "change_of (clear_byte 8) = {0}" "plain (clear_byte 9)" "change_of (clear_byte 9) = {1}"
  "plain (clear_byte 10)" "change_of (clear_byte 10) = {2}"
  by (simp_all add: compare_byte_def clear_byte_def plain_emit_op plain_eval)

lemma straight_insn: "mnemonic i \<noteq> ''RTS'' \<Longrightarrow> straight (Instruction i)"
  by (simp add: straight_def leaves_def is_rts_def label_of_def target_of_def)

lemma plain_imm_at:
  "r \<in> {0, 2, 3, 4, 5} \<Longrightarrow> plain (imm r v) \<and> change_of (imm r v) = {r}"
  "r \<in> {0x22, 0x23, 0x25} \<Longrightarrow> plain (imm r v) \<and> change_of (imm r v) = {}"
  by (rule plainI; auto simp: straight_insn imm_def step_slots_def stack_effect_def is_rts_def lose_def plain_eval)+

lemma plain_imm [listing]:
  "r \<in> {0, 2, 3, 4, 5, 0x22, 0x23, 0x25} \<Longrightarrow> plain (imm r v)"
  "r \<in> {0, 2, 3, 4, 5} \<Longrightarrow> change_of (imm r v) = {r}" "r \<in> {0x22, 0x23, 0x25} \<Longrightarrow> change_of (imm r v) = {}"
  using plain_imm_at by blast+

lemma plain_long_at:
  "r < 7 \<Longrightarrow> plain (load_long r a) \<and> change_of (load_long r a) = {r}"
  "plain (store_long r a) \<and> change_of (store_long r a) = {}"
  by (rule plainI; auto simp: straight_insn lose_def load_long_def store_long_def step_slots_def stack_effect_def is_rts_def plain_eval)+

lemma plain_long [listing]:
  "r < 7 \<Longrightarrow> plain (load_long r a)" "r < 7 \<Longrightarrow> change_of (load_long r a) = {r}"
  "plain (store_long r a)" "change_of (store_long r a) = {}"
  using plain_long_at by auto

abbreviation fact_at :: "slot list \<Rightarrow> u8 set \<Rightarrow> bool \<Rightarrow> frame_fact option" where
  "fact_at st R b \<equiv> Some \<lparr> slots = st, clobbered = R, refusing = b \<rparr>"

lemma checks_plain [listing]:
  "plain s \<Longrightarrow> checks invalid kept env (fact_at st L b) (s # ss)
     \<longleftrightarrow> checks invalid kept env (fact_at st (change_of s \<union> L) b) ss"
  by (rule flow_checks_straight) (auto simp: plain_def lose_def)

lemma checks_plain_list:
  "list_all (\<lambda>s. plain s \<and> change_of s \<subseteq> L) c
     \<Longrightarrow> checks invalid kept env (fact_at st L b) (c @ ss) \<longleftrightarrow> checks invalid kept env (fact_at st L b) ss"
  by (induction c) (simp_all add: checks_plain Un_absorb1 del: flow_checks.simps)

lemma checks_call [listing]:
  "checks invalid kept env (fact_at st L b) (Transfer 0x5e a # ss)
     \<longleftrightarrow> checks invalid kept env (fact_at st ({0, 1, 2, 3} \<union> L) (b \<or> a = invalid)) ss"
  by (rule flow_checks_straight) (auto simp: straight_steps step_slots_def lose_def)

lemma checks_push [listing]:
  "r < 7 \<Longrightarrow> checks invalid kept env (fact_at st L b) (push r # ss)
     \<longleftrightarrow> checks invalid kept env (fact_at ((if r \<in> L then Pushed r else Saved r) # st) L b) ss"
  by (rule flow_checks_straight)
     (simp add: straight_steps, auto simp: push_def step_slots_emit stack_act_of_def stack_effect_def)

lemma checks_pop [listing]:
  "r < 7 \<Longrightarrow> checks invalid kept env (fact_at (Saved r # st) L b) (pop r # ss)
     \<longleftrightarrow> checks invalid kept env (fact_at st (L - {r}) b) ss"
  "r < 7 \<Longrightarrow> checks invalid kept env (fact_at (Pushed r # st) L b) (pop r # ss)
     \<longleftrightarrow> checks invalid kept env (fact_at st (insert r L) b) ss"
  by (rule flow_checks_straight [OF straight_steps(2)];
      auto simp: pop_def step_slots_emit stack_act_of_def stack_effect_def pop_slot_def)+

lemma checks_local [listing]:
  "checks invalid kept env (fact_at st L b) (emit_op ''SUBS'' (Some SizeLong) (Immediate 4 0) (Register (RegLong 7)) # ss)
     \<longleftrightarrow> checks invalid kept env (fact_at (Local # st) L b) ss"
  "checks invalid kept env (fact_at (x # st) L b) (emit_op ''ADDS'' (Some SizeLong) (Immediate 4 0) (Register (RegLong 7)) # ss)
     \<longleftrightarrow> checks invalid kept env (fact_at st L b) ss"
  "checks invalid kept env (fact_at (Local # st) L b)
       (emit_op ''MOV'' (Some SizeLong) (Register (RegLong 2)) (Address (Indirect (RegLong 7))) # ss)
     \<longleftrightarrow> checks invalid kept env (fact_at (Local # st) L b) ss"
  by (rule flow_checks_straight;
      simp add: straight_emit_op step_slots_emit stack_act_of_def stack_effect_def lose_def)+

lemma left_clean_at [listing]:
  "left_clean kept rts f \<longleftrightarrow> slots f = [] \<and> clobbered f \<inter> {4, 5, 6} = {}
     \<and> (\<not> refusing f \<longrightarrow> clobbered f \<inter> kept = {})"
  "left_clean kept (Transfer opc a) f \<longleftrightarrow> slots f = [] \<and> clobbered f = {}"
  by (simp_all add: left_clean_def rts_def emit_op_def)

lemma checks_require [listing]: "n < 2 ^ 31 \<Longrightarrow>
    checks invalid kept env (fact_at st L b) (require_byte n v l @ ss)
      \<longleftrightarrow> implied keeps_more (fact_at st (insert 2 L) b) (env l) \<and> checks invalid kept env (fact_at st (insert 2 L) b) ss"
  by (simp add: require_byte_def listing del: flow_checks.simps)

text \<open>The facts at each label of the Volume ID wrapper.\<close>

definition vid_slots :: "string \<Rightarrow> frame_fact option" where
  "vid_slots = map_of
     (let fact = \<lambda>st R. \<lparr> slots = st, clobbered = R, refusing = False \<rparr>; saved = [Saved 4, Saved 3, Saved 2] in
     [(''vid_length'', fact saved {2, 3}), (''vid_empty'', fact saved {0, 1, 2, 3, 4}),
      (''vid_return'', fact saved {0, 1, 2, 3, 4}), (''vid_unavailable'', fact saved {2, 3}),
      (''vid_invalid'', fact [Saved 2] {2}), (''vid_oem'', fact [Saved 2] {2})])"

lemma vid_slots_at [listing]:
  "vid_slots ''vid_length'' = fact_at [Saved 4, Saved 3, Saved 2] {2, 3} False"
  "vid_slots ''vid_empty'' = fact_at [Saved 4, Saved 3, Saved 2] {0, 1, 2, 3, 4} False"
  "vid_slots ''vid_return'' = fact_at [Saved 4, Saved 3, Saved 2] {0, 1, 2, 3, 4} False"
  "vid_slots ''vid_unavailable'' = fact_at [Saved 4, Saved 3, Saved 2] {2, 3} False"
  "vid_slots ''vid_invalid'' = fact_at [Saved 2] {2} False" "vid_slots ''vid_oem'' = fact_at [Saved 2] {2} False"
  by (simp_all add: vid_slots_def Let_def)

lemma checks_vid_wrapper: "checks invalid {2, 3} vid_slots (Some entry_fact) (vid_wrapper_code s helper invalid)"
proof -
  have copy: "2 \<in> L \<Longrightarrow> list_all (\<lambda>s. plain s \<and> change_of s \<subseteq> L) (concat (map (\<lambda>offset.
      [emit_op ''MOV'' (Some SizeByte) (Address (Absolute (vid_source (site_vid s) + of_nat offset) 32)) (Register (RegByte 10)),
       emit_op ''MOV'' (Some SizeByte) (Register (RegByte 10)) (Address (Displacement (RegLong 4) (int offset + 4) 16))]) ns))" for ns L
    by (induction ns) (simp_all add: listing plain_eval)
  have wipe: "list_all (\<lambda>s. plain s \<and> change_of s \<subseteq> L) (map (\<lambda>offset. emit_op ''MOV'' (Some SizeByte) (Register (RegByte 10))
      (Address (Displacement (RegLong 4) (int offset) 16))) ns)" for ns L
    by (induction ns) (simp_all add: listing plain_eval)
  show ?thesis
    unfolding vid_wrapper_code_def vid_wrapper_checks_def vid_wrapper_copy_def vid_wrapper_send_def vid_wrapper_exits_def entry_fact_def
    by (simp add: listing checks_plain_list [OF copy] checks_plain_list [OF wipe] plain_eval keeps_more_def insert_Diff_if
        del: flow_checks.simps upt_rec_numeral)
qed

text \<open>The facts at each label of the command hook: seven registers are saved during a transition.\<close>

definition hook_slots :: "string \<Rightarrow> frame_fact option" where
  "hook_slots = map_of
     (let fact = \<lambda>st R. \<lparr> slots = st, clobbered = R, refusing = False \<rparr>;
          saved = [Saved 6, Saved 5, Saved 4, Saved 3, Pushed 2, Saved 1, Saved 0, Saved 2] in
     [(''foundation_oem'', fact [Saved 2] {2}), (''identity'', fact [Saved 2] {2}), (''invalid'', fact [Saved 2] {2}),
      (''acknowledge'', fact [Saved 2] {2}), (''transition'', fact [Saved 2] {2}), (''reply'', fact [Saved 2] {2}),
      (''wait_read_idle'', fact saved {0, 1, 2, 3, 5, 6}), (''read_idle'', fact saved {0, 1, 2, 3, 5, 6}),
      (''refused'', fact saved {0, 1, 2, 3, 5, 6}), (''owned_policy'', fact saved {0, 1, 2, 3, 5, 6}),
      (''restore_policy'', fact saved {0, 1, 2, 3, 5, 6}), (''reinitialize'', fact saved {0, 1, 2, 3, 5, 6})])"

lemma hook_slots_at [listing]:
  "hook_slots ''foundation_oem'' = fact_at [Saved 2] {2} False" "hook_slots ''identity'' = fact_at [Saved 2] {2} False"
  "hook_slots ''invalid'' = fact_at [Saved 2] {2} False" "hook_slots ''acknowledge'' = fact_at [Saved 2] {2} False"
  "hook_slots ''transition'' = fact_at [Saved 2] {2} False" "hook_slots ''reply'' = fact_at [Saved 2] {2} False"
  "l \<in> {''wait_read_idle'', ''read_idle'', ''refused'', ''owned_policy'', ''restore_policy'', ''reinitialize''} \<Longrightarrow>
     hook_slots l = fact_at [Saved 6, Saved 5, Saved 4, Saved 3, Pushed 2, Saved 1, Saved 0, Saved 2] {0, 1, 2, 3, 5, 6} False"
  by (auto simp: hook_slots_def Let_def)

lemma checks_hook: "checks invalid {2, 3} hook_slots (Some entry_fact) (hook_code op s main helper invalid original cf)"
proof (cases op)
  case Suppress
  show ?thesis
    unfolding hook_code_def hook_frame_def hook_wait_def hook_policy_def hook_reinitialize_def hook_reply_def
      hook_identity_def routing_enter_def routing_oem_def restore_registers_def Suppress op_cdb_bytes identity_cdb_bytes entry_fact_def
    by (simp add: listing plain_eval CDB_VERB_def CDB_FEATURE_def keeps_more_def insert_Diff_if del: flow_checks.simps)
qed

text \<open>The temporary callback and the eligibility method are straight lines.\<close>

lemma checks_callbacks:
  "checks invalid {3} env (Some entry_fact) (callback_code s)"
  "checks invalid {1, 2, 3} env (Some entry_fact) eligibility_code"
  unfolding callback_code_def eligibility_code_def entry_fact_def
  by (simp_all add: listing plain_eval del: flow_checks.simps)

text \<open>
  C11. The installed code is stack and register safe on every path, for every firmware it is built
  for: it never runs off its end, every branch has exactly one target, every pop restores the
  register that was pushed into that slot, the local slot is the only one written through the
  stack pointer, and the routine is left with all slots popped. A jump into the OEM handler finds
  all of ER0 to ER6 as the caller left them. A return of the command hook or of the Volume ID
  wrapper keeps ER4, ER5 and ER6, and ER2 and ER3 too unless the command went to the firmware's
  refusal routine; the temporary acquisition callback keeps ER3 to ER6, the eligibility method
  everything but ER0. The calls made on the way are relied on for the stack and ER4 to ER6 only.
\<close>
theorem installed_code_stack_safe:
  "(if reaches invalid (hook_code op s main helper invalid original cf) pc f
    then sound_at invalid {2, 3} (hook_code op s main helper invalid original cf) pc f else True)
   \<and> (if reaches invalid (vid_wrapper_code s helper invalid) pc f
    then sound_at invalid {2, 3} (vid_wrapper_code s helper invalid) pc f else True)
   \<and> (if reaches invalid (callback_code s) pc f then sound_at invalid {3} (callback_code s) pc f else True)
   \<and> (if reaches invalid eligibility_code pc f then sound_at invalid {1, 2, 3} eligibility_code pc f else True)"
  using stack.typed_sound [OF checks_hook hook_labelled] stack.typed_sound [OF checks_vid_wrapper vid_wrapper_labelled]
    stack.typed_sound [OF checks_callbacks(1) callbacks_labelled(1)] stack.typed_sound [OF checks_callbacks(2) callbacks_labelled(2)]
  by auto

end
