(* ===== verification/Renesas_Route.thy ===== *)
theory Renesas_Route
  imports Renesas_Stack
begin

text \<open>
  Which commands the installed hook answers. \<open>route\<close> runs the comparisons of the hook on a CDB (ER1
  points to it, R2L is the scratch register) up to the first branch that is taken or the next
  label, and gives that label.
\<close>

unbundle bit_operations_syntax

section \<open>Running the comparisons\<close>

text \<open>Scratch register and zero flag, as far as they are known.\<close>

type_synonym flags = "u8 option \<times> bool option"

definition route_insn :: "bytes \<Rightarrow> h8_insn \<Rightarrow> flags \<Rightarrow> flags option" where
  "route_insn cdb insn st = (case operands insn of
     [Address (Displacement (RegLong b) off _), Register (RegByte r), OpNone] \<Rightarrow>
       if mnemonic insn = ''MOV'' \<and> insn_size insn = Some SizeByte \<and> b = 1 \<and> r = 10 \<and> 0 \<le> off \<and> nat off < length cdb
       then Some (Some (cdb ! nat off), Some (cdb ! nat off = 0)) else None
   | [Immediate v _, Register (RegByte r), OpNone] \<Rightarrow>
       if mnemonic insn = ''CMP'' \<and> insn_size insn = Some SizeByte \<and> r = 10
       then (case fst st of Some x \<Rightarrow> Some (Some x, Some (ucast x = v)) | None \<Rightarrow> None) else None
   | [Immediate _ _, Register (RegLong r), OpNone] \<Rightarrow>
       if mnemonic insn = ''MOV'' then Some (if r = 2 then None else fst st, None) else None
   | [Register (RegLong r), Address (PreDecrement (RegLong b)), OpNone] \<Rightarrow>
       if mnemonic insn = ''MOV'' \<and> b = 7 then Some (fst st, None) else None
   | _ \<Rightarrow> None)"

fun route :: "bytes \<Rightarrow> asm_step list \<Rightarrow> flags \<Rightarrow> string option" where
  "route cdb [] st = None"
| "route cdb (Label l # ss) st = Some l"
| "route cdb (Branch c l # ss) st =
     (if c = 0 then Some l
      else case snd st of
        None \<Rightarrow> None
      | Some eq \<Rightarrow>
          if c = 6 then (if eq then route cdb ss st else Some l)
          else if c = 7 then (if eq then Some l else route cdb ss st)
          else None)"
| "route cdb (Instruction insn # ss) st =
     (case route_insn cdb insn st of None \<Rightarrow> None | Some st' \<Rightarrow> route cdb ss st')"
| "route cdb (_ # ss) st = None"

definition segment :: "asm_step list \<Rightarrow> string \<Rightarrow> asm_step list" where
  "segment code l = tl (dropWhile (\<lambda>s. s \<noteq> Label l) code)"

text \<open>Where a command ends up; the identity command is checked further behind its label.\<close>

definition answer :: "asm_step list \<Rightarrow> bytes \<Rightarrow> string option" where
  "answer code cdb =
     (let l = route cdb code (None, None) in
      if l = Some ''identity'' then route cdb (segment code ''identity'') (None, None) else l)"

section \<open>The hook's comparisons\<close>

lemma route_push: "route cdb (push r # ss) st = route cdb ss (fst st, None)"
  by (simp add: push_def emit_op_def route_insn_def)

lemma route_imm: "route cdb (imm 2 v # ss) st = route cdb ss (None, None)"
  by (simp add: imm_def route_insn_def)

lemma route_cdb_byte: "n < length cdb \<Longrightarrow> length cdb < 2 ^ 31 \<Longrightarrow>
    route cdb (cdb_byte n # ss) st = route cdb ss (Some (cdb ! n), Some (cdb ! n = 0))"
  by (simp add: cdb_byte_def emit_op_def route_insn_def)

lemma ucast_u8_back: "ucast (ucast (x :: u8) :: u32) = x"
  by (rule bit_word_eqI) (simp add: bit_simps)

lemma ucast_u8_inject: "(ucast (x :: u8) :: u32) = ucast y \<longleftrightarrow> x = y"
  by (metis ucast_u8_back)

lemma route_compare: "route cdb (compare_byte v # ss) (Some x, z) = route cdb ss (Some x, Some (x = v))"
  by (simp add: compare_byte_def emit_op_def route_insn_def ucast_u8_inject)

lemma route_require: "n < length cdb \<Longrightarrow> length cdb < 2 ^ 31 \<Longrightarrow>
    route cdb (require_byte n v l @ ss) st
      = (if cdb ! n = v then route cdb ss (Some (cdb ! n), Some True) else Some l)"
  by (simp add: require_byte_def route_cdb_byte route_compare)

lemmas route_eval = route_push route_imm route_cdb_byte route_compare route_require

text \<open>What the frame of the hook decides, for any CDB of ten bytes.\<close>

definition frame_decision :: "bytes \<Rightarrow> string" where
  "frame_decision cdb =
     (if take 4 cdb \<noteq> [0x3C, 0x0E, 0xC0, 0xDE] then ''foundation_oem''
      else if cdb ! 4 = verb_code VIdentity then ''identity''
      else if cdb ! 4 \<noteq> verb_code VSet \<or> cdb ! 7 \<noteq> 0 \<or> cdb ! 8 \<noteq> 64 \<or> cdb ! 9 \<noteq> 0 then ''invalid''
      else if cdb ! 5 \<in> {feature_code Region, feature_code Unrestricted, feature_code Hrl} then ''acknowledge''
      else if cdb ! 5 = feature_code Encryption \<and> cdb ! 6 \<in> {STATE_OFF, STATE_ON, STATE_PASSTHROUGH} then ''transition''
      else ''invalid'')"

lemma ten_bytes:
  assumes "length cdb = 10"
  obtains c0 c1 c2 c3 c4 c5 c6 c7 c8 c9 where "cdb = [c0, c1, c2, c3, c4, c5, c6, c7, c8, c9]"
proof -
  have "cdb = map ((!) cdb) [0, 1, 2, 3, 4, 5, 6, 7, 8, 9]"
    using assms by (auto simp: list_eq_iff_nth_eq nth_Cons' numeral_eq_Suc less_Suc_eq)
  then show thesis by (auto intro: that)
qed

lemma route_frame:
  assumes "length cdb = 10"
  shows "route cdb (hook_frame Suppress @ Label ''transition'' # ss) (None, None) = Some (frame_decision cdb)"
proof -
  from ten_bytes [OF assms] obtain c0 c1 c2 c3 c4 c5 c6 c7 c8 c9
    where "cdb = [c0, c1, c2, c3, c4, c5, c6, c7, c8, c9]" .
  then show ?thesis
    unfolding hook_frame_def routing_enter_def op_cdb_bytes
    by (simp add: route_eval frame_decision_def CDB_VERB_def CDB_FEATURE_def const_defs require_byte_def)
qed

section \<open>Which commands the runtime serves\<close>

lemma segment_here: "Label l \<notin> set xs \<Longrightarrow> segment (xs @ Label l # ys) l = ys"
  by (induction xs) (auto simp: segment_def)

lemma no_label: "l \<notin> set (labels xs) \<Longrightarrow> Label l \<notin> set xs"
  by (force simp: labels_def label_of_def)

lemma identity_segment:
  "segment (hook_code Suppress s main helper invalid original cf) ''identity'' = tl (hook_identity invalid main)"
proof -
  have "''identity'' \<notin> set (labels (hook_frame Suppress @ hook_wait s @ hook_policy s original cf
      @ hook_reinitialize s original @ hook_reply Suppress helper))"
    unfolding hook_frame_def hook_wait_def hook_policy_def hook_reinitialize_def hook_reply_def
      routing_enter_def restore_registers_def op_cdb_bytes
    by (simp add: listing require_byte_def CDB_VERB_def CDB_FEATURE_def)
  from segment_here [OF no_label [OF this], of "tl (hook_identity invalid main)"]
  show ?thesis by (simp add: hook_code_def hook_identity_def)
qed

lemma route_identity:
  assumes "length cdb = 10"
  shows "route cdb (tl (hook_identity invalid main)) (None, None)
    = Some (if drop 5 cdb = drop 5 (build_identity_cdb 64) then ''reply'' else ''invalid'')"
proof -
  from ten_bytes [OF assms] obtain c0 c1 c2 c3 c4 c5 c6 c7 c8 c9
    where "cdb = [c0, c1, c2, c3, c4, c5, c6, c7, c8, c9]" .
  then show ?thesis
    unfolding hook_identity_def identity_cdb_bytes
    by (simp add: route_eval require_byte_def)
qed

lemma answer_hook:
  assumes "length cdb = 10"
  shows "answer (hook_code Suppress s main helper invalid original cf) cdb = Some (
    if frame_decision cdb = ''identity''
    then if drop 5 cdb = drop 5 (build_identity_cdb 64) then ''reply'' else ''invalid''
    else frame_decision cdb)"
proof -
  have "hook_code Suppress s main helper invalid original cf = hook_frame Suppress @ Label ''transition''
      # tl (hook_wait s) @ hook_policy s original cf @ hook_reinitialize s original
      @ hook_reply Suppress helper @ hook_identity invalid main"
    by (simp add: hook_code_def hook_wait_def)
  then have "route cdb (hook_code Suppress s main helper invalid original cf) (None, None) = Some (frame_decision cdb)"
    by (simp only: route_frame [OF assms])
  then show ?thesis
    by (simp add: answer_def identity_segment route_identity [OF assms] Let_def)
qed

text \<open>The requests the hook serves, recognised from the bytes of a command.\<close>

lemma ex_feature: "(\<exists>f. P f) \<longleftrightarrow> P Unrestricted \<or> P Region \<or> P Speed \<or> P Encryption \<or> P Hrl"
  by (metis feature.exhaust)

lemma build_set_cdb_bytes: "build_set_cdb f st = [0x3C, 0x0E, 0xC0, 0xDE, 2, feature_code f, st, 0, 64, 0]"
  by (simp add: builder_defs cdb_bytes hi_lo_byte_64 const_defs)

lemma set_served:
  assumes "length cdb = 10"
  shows "(\<exists>f. supports_set PIONEER_RUNTIME f (cdb ! 6) \<and> cdb = build_set_cdb f (cdb ! 6))
    \<longleftrightarrow> frame_decision cdb \<in> {''acknowledge'', ''transition''}"
    and "frame_decision cdb \<in> {''acknowledge'', ''transition''} \<Longrightarrow>
      frame_decision cdb = (if cdb ! 5 = feature_code Encryption then ''transition'' else ''acknowledge'')"
proof -
  from ten_bytes [OF assms(1)] obtain c0 c1 c2 c3 c4 c5 c6 c7 c8 c9
    where cdb: "cdb = [c0, c1, c2, c3, c4, c5, c6, c7, c8, c9]" .
  show "(\<exists>f. supports_set PIONEER_RUNTIME f (cdb ! 6) \<and> cdb = build_set_cdb f (cdb ! 6))
    \<longleftrightarrow> frame_decision cdb \<in> {''acknowledge'', ''transition''}"
    unfolding cdb ex_feature build_set_cdb_bytes
    by (auto simp: frame_decision_def const_defs supports_set_def)
  show "frame_decision cdb = (if cdb ! 5 = feature_code Encryption then ''transition'' else ''acknowledge'')"
    if "frame_decision cdb \<in> {''acknowledge'', ''transition''}"
    using that unfolding cdb by (auto simp: frame_decision_def split: if_splits)
qed

lemma identity_served:
  assumes "length cdb = 10"
  shows "cdb = build_identity_cdb 64 \<longleftrightarrow> frame_decision cdb = ''identity'' \<and> drop 5 cdb = drop 5 (build_identity_cdb 64)"
proof -
  from ten_bytes [OF assms(1)] obtain c0 c1 c2 c3 c4 c5 c6 c7 c8 c9
    where cdb: "cdb = [c0, c1, c2, c3, c4, c5, c6, c7, c8, c9]" .
  show ?thesis unfolding cdb identity_cdb_bytes by (auto simp: frame_decision_def)
qed

text \<open>
  C13. The installed hook serves exactly what its capability descriptor promises, whatever the
  command. Of all commands of ten bytes it answers one with its identity, the 64-byte Identity
  request; it acts on exactly the Set requests that \<open>PIONEER_RUNTIME\<close> says are supported, on
  Encryption by a policy transition and on the others by an acknowledgement; it refuses every other
  command with the knock bytes as invalid; and it passes every command without them to the OEM
  handler. In terms of the requests the crate can build: a Set is served exactly when it is
  supported, an Identity when it asks for 64 bytes, the debug requests go to the OEM handler.
\<close>
theorem hook_serves_capabilities:
  assumes "length cdb = 10"
  shows "answer (hook_code Suppress s main helper invalid original cf) cdb = Some (
      if take 4 cdb \<noteq> [0x3C, 0x0E, 0xC0, 0xDE] then ''foundation_oem''
      else if cdb = build_identity_cdb 64 then ''reply''
      else if \<exists>f. supports_set PIONEER_RUNTIME f (cdb ! 6) \<and> cdb = build_set_cdb f (cdb ! 6)
      then if cdb ! 5 = feature_code Encryption then ''transition'' else ''acknowledge''
      else ''invalid'')
   \<and> answer (hook_code Suppress s main helper invalid original cf) (encode_frame fr) = Some (case fr of
     FIdentity n \<Rightarrow> if n = 64 then ''reply'' else ''invalid''
   | FSet f st \<Rightarrow>
       if \<not> supports_set PIONEER_RUNTIME f st then ''invalid''
       else if f = Encryption then ''transition'' else ''acknowledge''
   | FGet _ \<Rightarrow> ''invalid'' | FReset _ \<Rightarrow> ''invalid'' | FSave \<Rightarrow> ''invalid'' | FMemread _ \<Rightarrow> ''invalid''
   | FCall _ _ \<Rightarrow> ''foundation_oem'' | FPoke _ _ \<Rightarrow> ''foundation_oem'' | FReboot \<Rightarrow> ''foundation_oem'')"
proof
  show "answer (hook_code Suppress s main helper invalid original cf) cdb = Some (
      if take 4 cdb \<noteq> [0x3C, 0x0E, 0xC0, 0xDE] then ''foundation_oem''
      else if cdb = build_identity_cdb 64 then ''reply''
      else if \<exists>f. supports_set PIONEER_RUNTIME f (cdb ! 6) \<and> cdb = build_set_cdb f (cdb ! 6)
      then if cdb ! 5 = feature_code Encryption then ''transition'' else ''acknowledge''
      else ''invalid'')"
    unfolding answer_hook [OF assms] identity_served [OF assms] set_served(1) [OF assms]
    using set_served(2) [OF assms] by (auto simp: frame_decision_def)
next
  have "length (encode_frame fr) = 10"
    by (cases fr) (simp_all add: builder_defs cdb_bytes)
  note answer = answer_hook [OF this]
  have inj: "[hi_byte n, lo_byte n, 0] = [hi_byte 64, lo_byte 64, 0] \<longleftrightarrow> n = 64" for n
    by (metis from_be16_inverse list.inject)
  show "answer (hook_code Suppress s main helper invalid original cf) (encode_frame fr) = Some (case fr of
     FIdentity n \<Rightarrow> if n = 64 then ''reply'' else ''invalid''
   | FSet f st \<Rightarrow>
       if \<not> supports_set PIONEER_RUNTIME f st then ''invalid''
       else if f = Encryption then ''transition'' else ''acknowledge''
   | FGet _ \<Rightarrow> ''invalid'' | FReset _ \<Rightarrow> ''invalid'' | FSave \<Rightarrow> ''invalid'' | FMemread _ \<Rightarrow> ''invalid''
   | FCall _ _ \<Rightarrow> ''foundation_oem'' | FPoke _ _ \<Rightarrow> ''foundation_oem'' | FReboot \<Rightarrow> ''foundation_oem'')"
  proof (cases fr)
    case (FIdentity n)
    with inj [of n] show ?thesis
      unfolding answer by (simp add: frame_decision_def builder_defs cdb_bytes)
  next
    case (FSet f st)
    then show ?thesis
      unfolding answer by (cases f) (auto simp: frame_decision_def builder_defs cdb_bytes const_defs supports_set_def hi_lo_byte_64)
  qed (unfold answer, simp_all add: frame_decision_def builder_defs cdb_bytes be32_def)
qed

text \<open>A disc read, a request with a stray byte behind the feature, and a supported one.\<close>

theorem hook_serves_capabilities_witness:
  "\<forall>s main helper invalid original cf.
     answer (hook_code Suppress s main helper invalid original cf) [0x28, 0, 0, 0, 0, 0, 0, 0, 1, 0] = Some ''foundation_oem''
   \<and> answer (hook_code Suppress s main helper invalid original cf) [0x3C, 0x0E, 0xC0, 0xDE, 2, 2, 1, 0, 64, 9] = Some ''invalid''
   \<and> answer (hook_code Suppress s main helper invalid original cf) [0x3C, 0x0E, 0xC0, 0xDE, 2, 6, 0, 0, 64, 0] = Some ''transition''"
  using hook_serves_capabilities [of "[0x28, 0, 0, 0, 0, 0, 0, 0, 1, 0]" _ _ _ _ _ _ FSave]
    hook_serves_capabilities [of "[0x3C, 0x0E, 0xC0, 0xDE, 2, 2, 1, 0, 64, 9]" _ _ _ _ _ _ FSave]
    hook_serves_capabilities [of "[0x3C, 0x0E, 0xC0, 0xDE, 2, 6, 0, 0, 64, 0]" _ _ _ _ _ _ FSave]
  by (simp add: identity_cdb_bytes build_set_cdb_bytes ex_feature supports_set_def PIONEER_RUNTIME_def const_defs)

end
