(* ===== verification/Renesas_Loan.thy ===== *)
theory Renesas_Loan
  imports Renesas_Flow
begin

text \<open>
  What the installed code does to the drive's memory on every path: which words and bytes it
  stores, what it borrows from the OEM firmware and gives back, and what it wipes. The facts of
  the analysis are what is known of two registers, and what is outstanding. The calling convention
  is the one the code relies on: a call keeps ER4, ER5, ER6 and the stack, and nothing else.
\<close>

unbundle bit_operations_syntax

section \<open>Facts\<close>

text \<open>
  The constants in ER2 and ER4, whether the low byte of R2 is zero, whether the acquisition slot
  may still hold the temporary callback table, and the offsets of the payload's reply buffer that
  may hold bytes of the Volume ID.
\<close>

record facts =
  er2 :: "u32 option"
  er4 :: "u32 option"
  r2l_zero :: bool
  on_loan :: bool
  unwiped :: "int set"

definition settled_facts :: facts where
  "settled_facts = \<lparr> er2 = None, er4 = None, r2l_zero = False, on_loan = False, unwiped = {} \<rparr>"

definition nothing_due :: "facts \<Rightarrow> bool" where
  "nothing_due f \<longleftrightarrow> \<not> on_loan f \<and> unwiped f = {}"

definition tells :: "'a option \<Rightarrow> 'a option \<Rightarrow> bool" where
  "tells x y \<longleftrightarrow> y = None \<or> x = y"

definition stronger :: "facts \<Rightarrow> facts \<Rightarrow> bool" where
  "stronger f g \<longleftrightarrow> tells (er2 f) (er2 g) \<and> tells (er4 f) (er4 g) \<and> (r2l_zero g \<longrightarrow> r2l_zero f)
     \<and> (on_loan f \<longrightarrow> on_loan g) \<and> unwiped f \<subseteq> unwiped g"

section \<open>What an instruction does\<close>

datatype act =
    Keep
  | Forget u8
  | Learn u8 u32
  | ZeroLow
  | StoreWord u8 u32
  | StoreByte u8 u8 int
  | Forbidden

text \<open>Stores through the stack pointer are the business of the stack analysis.\<close>

definition act_of :: "h8_insn \<Rightarrow> act" where
  "act_of i = (case operands i of
     [src, Address ea, OpNone] \<Rightarrow>
       (case (src, ea) of
          (Register (RegLong r), PreDecrement (RegLong b)) \<Rightarrow> if b = 7 then Keep else Forbidden
        | (Register (RegLong r), Indirect (RegLong b)) \<Rightarrow> if b = 7 then Keep else Forbidden
        | (Register (RegLong r), Absolute a _) \<Rightarrow>
            if mnemonic i = ''MOV'' \<and> insn_size i = Some SizeLong then StoreWord r a else Forbidden
        | (Register (RegByte r), Displacement (RegLong b) d _) \<Rightarrow>
            if mnemonic i = ''MOV'' \<and> insn_size i = Some SizeByte then StoreByte r b d else Forbidden
        | _ \<Rightarrow> Forbidden)
   | [src, Register rg, OpNone] \<Rightarrow>
       if mnemonic i = ''CMP'' then Keep
       else if mnemonic i = ''SUB'' \<and> src = Register (RegByte 10) \<and> rg = RegByte 10 then ZeroLow
       else (case (src, rg) of
          (Immediate v _, RegLong r) \<Rightarrow> if mnemonic i = ''MOV'' \<and> insn_size i = Some SizeLong then Learn r v else Forget r
        | (Address (PostIncrement (RegLong b)), _) \<Rightarrow> if b = 7 then Forget (reg_number rg) else Forbidden
        | _ \<Rightarrow> Forget (reg_number rg))
   | [Register rg, OpNone, OpNone] \<Rightarrow> Forget (reg_number rg)
   | _ \<Rightarrow> Forbidden)"

text \<open>
  The words the hook may store and the values it may store there, and the only routines it may call
  with something outstanding. The markers \<open>0x00111110\<close> and \<open>0x00777770\<close> stand for the payload's
  temporary callback table and its policy table, \<open>0x00888880\<close> for its reply buffer.
\<close>

record plan =
  lender :: u32
  callback :: u32
  slot :: u32
  oem_policy :: u32
  buffer_words :: "u32 list"
  borrower :: u32
  sender :: u32

text \<open>Two words of four bytes that share one.\<close>

definition overlaps :: "u32 \<Rightarrow> u32 \<Rightarrow> bool" where
  "overlaps a b \<longleftrightarrow> a - b + 3 \<le> 6"

definition forget :: "u8 \<Rightarrow> facts \<Rightarrow> facts" where
  "forget r f = f\<lparr> er2 := (if r = 2 then None else er2 f), er4 := (if r = 4 then None else er4 f),
     r2l_zero := r2l_zero f \<and> r \<noteq> 2 \<rparr>"

definition learn :: "u8 \<Rightarrow> u32 \<Rightarrow> facts \<Rightarrow> facts" where
  "learn r v f = f\<lparr> er2 := (if r = 2 then Some v else er2 f), er4 := (if r = 4 then Some v else er4 f) \<rparr>"

definition known_in :: "u8 \<Rightarrow> facts \<Rightarrow> u32 option" where
  "known_in r f = (if r = 2 then er2 f else if r = 4 then er4 f else None)"

definition store_word :: "plan \<Rightarrow> u32 \<Rightarrow> u32 option \<Rightarrow> facts \<Rightarrow> facts option" where
  "store_word P a x f =
     (if a = lender P then
        (case x of None \<Rightarrow> None
         | Some v \<Rightarrow> if v = 0x00111110 \<or> v = callback P then Some (f\<lparr> on_loan := (v \<noteq> callback P) \<rparr>) else None)
      else if a = slot P then
        (case x of None \<Rightarrow> None
         | Some v \<Rightarrow> if v = 0x00777770 \<or> v = oem_policy P then Some f else None)
      else if a \<in> set (buffer_words P) \<and> \<not> overlaps a (lender P) \<and> \<not> overlaps a (slot P) then Some f
      else None)"

definition store_byte :: "bool \<Rightarrow> u32 option \<Rightarrow> int \<Rightarrow> facts \<Rightarrow> facts option" where
  "store_byte zero base d f =
     (if base = Some 0x00888880 \<and> 4 \<le> d \<and> d < 20
      then Some (f\<lparr> unwiped := (if zero then unwiped f - {d} else insert d (unwiped f)) \<rparr>)
      else None)"

definition do_act :: "plan \<Rightarrow> act \<Rightarrow> facts \<Rightarrow> facts option" where
  "do_act P a f = (case a of
     Keep \<Rightarrow> Some f
   | Forget r \<Rightarrow> Some (forget r f)
   | Learn r v \<Rightarrow> Some (learn r v (forget r f))
   | ZeroLow \<Rightarrow> Some ((forget 2 f)\<lparr> r2l_zero := True \<rparr>)
   | StoreWord r addr \<Rightarrow> store_word P addr (known_in r f) f
   | StoreByte r b d \<Rightarrow> store_byte (r = 10 \<and> r2l_zero f) (known_in b f) d f
   | Forbidden \<Rightarrow> None)"

definition call_out :: "plan \<Rightarrow> u32 \<Rightarrow> facts \<Rightarrow> facts option" where
  "call_out P a f =
     (if (on_loan f \<longrightarrow> a = borrower P) \<and> (unwiped f \<noteq> {} \<longrightarrow> a = sender P)
      then Some (forget 2 f) else None)"

definition loan_step :: "plan \<Rightarrow> asm_step \<Rightarrow> facts \<Rightarrow> facts option" where
  "loan_step P s f = (case s of
     Instruction i \<Rightarrow> if is_rts i then None else do_act P (act_of i) f
   | Transfer op a \<Rightarrow> if op = 0x5e then call_out P a f else None
   | Label _ \<Rightarrow> Some f
   | Branch _ _ \<Rightarrow> Some f
   | Refused \<Rightarrow> None)"

section \<open>The analysis\<close>

lemma tells_simps [simp]: "tells x x" "tells x None" "tells x (Some v) \<longleftrightarrow> x = Some v"
  by (auto simp: tells_def)

lemma tells_trans: "tells x y \<Longrightarrow> tells y z \<Longrightarrow> tells x z"
  by (auto simp: tells_def)

lemma stronger_refl: "stronger f f"
  by (simp add: stronger_def)

lemma stronger_trans: "stronger f g \<Longrightarrow> stronger g h \<Longrightarrow> stronger f h"
  unfolding stronger_def by (blast intro: tells_trans)

lemma stronger_forget: "stronger f g \<Longrightarrow> stronger (forget r f) (forget r g)"
  by (simp add: stronger_def forget_def)

lemma stronger_set:
  "stronger f g \<Longrightarrow> stronger (f\<lparr> on_loan := l \<rparr>) (g\<lparr> on_loan := l \<rparr>)"
  "stronger f g \<Longrightarrow> stronger (f\<lparr> r2l_zero := z \<rparr>) (g\<lparr> r2l_zero := z \<rparr>)"
  "stronger f g \<Longrightarrow> stronger (learn r v f) (learn r v g)"
  by (simp_all add: stronger_def learn_def)

lemma stronger_known: "stronger f g \<Longrightarrow> known_in r g = Some v \<Longrightarrow> known_in r f = Some v"
  by (auto simp: stronger_def known_in_def split: if_splits)

lemma store_word_mono:
  assumes "stronger f g" "x = None \<or> y = x" "store_word P a x g = Some g'"
  shows "\<exists>f'. store_word P a y f = Some f' \<and> stronger f' g'"
  using assms by (auto simp: store_word_def stronger_set split: if_splits option.splits)

lemma do_act_mono:
  assumes "stronger f g" "do_act P a g = Some g'"
  shows "\<exists>f'. do_act P a f = Some f' \<and> stronger f' g'"
proof (cases a)
  case (StoreWord r addr)
  have "known_in r g = None \<or> known_in r f = known_in r g"
    using stronger_known [OF assms(1), of r] by (cases "known_in r g") auto
  with assms StoreWord store_word_mono [OF assms(1), of "known_in r g" "known_in r f" P addr g']
  show ?thesis by (simp add: do_act_def)
next
  case (StoreByte r b d)
  with assms stronger_known [OF assms(1), of b] show ?thesis
    by (auto simp: do_act_def store_byte_def stronger_def split: if_splits)
qed (use assms in \<open>auto simp: do_act_def intro!: stronger_set stronger_forget\<close>)

lemma call_out_mono:
  assumes "stronger f g" "call_out P a g = Some g'"
  shows "\<exists>f'. call_out P a f = Some f' \<and> stronger f' g'"
proof -
  from assms(1) have due: "on_loan f \<longrightarrow> on_loan g" "unwiped f \<subseteq> unwiped g" by (auto simp: stronger_def)
  with assms(2) have "call_out P a f = Some (forget 2 f)" "g' = forget 2 g"
    by (auto simp: call_out_def split: if_splits)
  with stronger_forget [OF assms(1)] show ?thesis by simp
qed

lemma loan_step_mono:
  assumes "stronger f g" "loan_step P s g = Some g'"
  shows "\<exists>f'. loan_step P s f = Some f' \<and> stronger f' g'"
  using assms do_act_mono [OF assms(1)] call_out_mono [OF assms(1)]
  by (cases s) (auto simp: loan_step_def split: if_splits)

interpretation loan: flow_typing "loan_step P" stronger "\<lambda>_. nothing_due"
proof (unfold_locales, goal_cases)
  case (1 f)
  show ?case by (rule stronger_refl)
next
  case (2 f g h)
  then show ?case by (rule stronger_trans)
next
  case (3 f g s g')
  then show ?case by (rule loan_step_mono)
next
  case (4 f g)
  then show ?case by (auto simp: stronger_def nothing_due_def)
qed (auto simp: loan_step_def leaves_def split: asm_step.splits)

section \<open>The code is built for its sites\<close>

definition site_words :: "sites \<Rightarrow> u32 list" where
  "site_words s = concat (map (\<lambda>dest. map (\<lambda>offset. dest + offset) [0, 4, 8, 12])
     [fst (site_buffers s), snd (site_buffers s)])"

definition site_plan :: "sites \<Rightarrow> u32 \<Rightarrow> u32 \<Rightarrow> plan" where
  "site_plan s original helper = \<lparr>
     lender = cpu_address (site_acquisition s), callback = original,
     slot = site_security_slot s, oem_policy = site_security_table s,
     buffer_words = site_words s,
     borrower = site_dispatcher s, sender = helper \<rparr>"

text \<open>The sites found in the firmware are different places.\<close>

definition sites_apart :: "sites \<Rightarrow> bool" where
  "sites_apart s \<longleftrightarrow> \<not> overlaps (cpu_address (site_acquisition s)) (site_security_slot s)
     \<and> list_all (\<lambda>a. \<not> overlaps a (cpu_address (site_acquisition s)) \<and> \<not> overlaps a (site_security_slot s))
         (site_words s)"

lemma overlaps_self: "overlaps a a"
  by (simp add: overlaps_def)

lemma plan_fields [simp]:
  "lender (site_plan s original helper) = cpu_address (site_acquisition s)" "callback (site_plan s original helper) = original"
  "slot (site_plan s original helper) = site_security_slot s" "oem_policy (site_plan s original helper) = site_security_table s"
  "buffer_words (site_plan s original helper) = site_words s"
  "borrower (site_plan s original helper) = site_dispatcher s" "sender (site_plan s original helper) = helper"
  by (simp_all add: site_plan_def)

lemma store_at_sites:
  assumes "sites_apart s"
  shows "store_word (site_plan s original helper) (cpu_address (site_acquisition s)) (Some v) f
      = (if v = 0x00111110 \<or> v = original then Some (f\<lparr> on_loan := (v \<noteq> original) \<rparr>) else None)"
    and "v = 0x00777770 \<or> v = site_security_table s
      \<Longrightarrow> store_word (site_plan s original helper) (site_security_slot s) (Some v) f = Some f"
    and "dest \<in> {fst (site_buffers s), snd (site_buffers s)} \<Longrightarrow> offset \<in> {0, 4, 8, 12}
      \<Longrightarrow> store_word (site_plan s original helper) (dest + offset) x f = Some f"
proof -
  show "store_word (site_plan s original helper) (cpu_address (site_acquisition s)) (Some v) f
      = (if v = 0x00111110 \<or> v = original then Some (f\<lparr> on_loan := (v \<noteq> original) \<rparr>) else None)"
    by (simp add: store_word_def)
  show "store_word (site_plan s original helper) (site_security_slot s) (Some v) f = Some f"
    if "v = 0x00777770 \<or> v = site_security_table s"
    using that assms overlaps_self [of "site_security_slot s"] by (auto simp: store_word_def sites_apart_def)
  assume "dest \<in> {fst (site_buffers s), snd (site_buffers s)}" "offset \<in> {0, 4, 8, 12}"
  then have "dest + offset \<in> set (site_words s)" by (auto simp: site_words_def)
  with assms overlaps_self [of "dest + offset"] show "store_word (site_plan s original helper) (dest + offset) x f = Some f"
    by (auto simp: store_word_def sites_apart_def list_all_iff)
qed

lemmas store_at_buffers = store_at_sites(3) [where offset = 0, simplified] store_at_sites(3) [where offset = 4, simplified]
  store_at_sites(3) [where offset = 8, simplified] store_at_sites(3) [where offset = 12, simplified]

section \<open>Evaluation on the code\<close>

abbreviation dues :: "plan \<Rightarrow> (string \<Rightarrow> facts option) \<Rightarrow> facts option \<Rightarrow> asm_step list \<Rightarrow> bool" where
  "dues P \<equiv> flow_checks (loan_step P) stronger (\<lambda>_. nothing_due)"

lemma dues_straight: "straight s \<Longrightarrow> dues P env (Some f) (s # ss) \<longleftrightarrow> (case loan_step P s f of
    None \<Rightarrow> False | Some f' \<Rightarrow> dues P env (Some f') ss)"
  by (cases s) (auto simp: straight_def flow_fits_def flow_after_def label_of_def target_of_def split: option.split)

lemma loan_step_emit:
  "name \<noteq> ''RTS'' \<Longrightarrow> loan_step P (emit_op name sz src dst) f = do_act P (act_of (Insn name sz [src, dst, OpNone])) f"
  by (simp add: loan_step_def emit_op_def is_rts_def)

lemma loan_steps:
  "loan_step P (push r) f = Some f" "loan_step P (pop r) f = Some (forget r f)"
  "n < 2 ^ 31 \<Longrightarrow> loan_step P (cdb_byte n) f = Some (forget 2 f)" "loan_step P (compare_byte v) f = Some f"
  "loan_step P (load_long r a) f = Some (forget r f)" "loan_step P (store_long r a) f = store_word P a (known_in r f) f"
  "loan_step P (Transfer 0x5e a) f = call_out P a f"
  by (simp_all add: push_def pop_def cdb_byte_def compare_byte_def loan_step_emit act_of_def do_act_def reg_number_def)
     (simp_all add: load_long_def store_long_def loan_step_def is_rts_def act_of_def do_act_def reg_number_def)

lemma loan_clear:
  "loan_step P (clear_byte 8) f = Some (forget 0 f)" "loan_step P (clear_byte 9) f = Some (forget 1 f)"
  "loan_step P (clear_byte 10) f = Some ((forget 2 f)\<lparr> r2l_zero := True \<rparr>)"
  by (simp_all add: clear_byte_def loan_step_emit act_of_def do_act_def reg_number_def)

lemma loan_imm:
  "loan_step P (imm 0 v) f = Some (forget 0 f)" "loan_step P (imm 2 v) f = Some (learn 2 v (forget 2 f))"
  "loan_step P (imm 3 v) f = Some (forget 3 f)" "loan_step P (imm 4 v) f = Some (learn 4 v (forget 4 f))"
  "loan_step P (imm 5 v) f = Some (forget 5 f)"
  "loan_step P (imm 0x22 v) f = Some f" "loan_step P (imm 0x23 v) f = Some f" "loan_step P (imm 0x25 v) f = Some f"
  by (simp_all add: imm_def loan_step_def is_rts_def act_of_def do_act_def learn_def)

definition hook_facts :: "string \<Rightarrow> facts option" where
  "hook_facts l = Some (settled_facts\<lparr> on_loan := (l = ''reinitialize'') \<rparr>)"

lemmas loan_eval = dues_straight loan_steps loan_clear loan_imm loan_step_emit act_of_def do_act_def reg_number_def
  forget_def learn_def known_in_def call_out_def

lemma dues_hook:
  assumes "sites_apart s"
  shows "dues (site_plan s original helper) hook_facts (Some settled_facts) (hook_code op s main helper invalid original cf)"
proof (cases op)
  case Suppress
  have "site_security_slot s \<noteq> cpu_address (site_acquisition s)"
    using assms overlaps_self [of "site_security_slot s"] by (auto simp: sites_apart_def)
  then show ?thesis
    unfolding hook_code_def hook_frame_def hook_wait_def hook_policy_def hook_reinitialize_def hook_reply_def
      hook_identity_def routing_enter_def routing_oem_def restore_registers_def Suppress op_cdb_bytes identity_cdb_bytes
    by (simp add: listing loan_eval require_byte_def CDB_VERB_def CDB_FEATURE_def store_at_sites(1,2) [OF assms]
        store_at_buffers [OF assms] hook_facts_def settled_facts_def stronger_def nothing_due_def
        del: flow_checks.simps)
qed

text \<open>The wrapper's two loops: every byte copied to the reply buffer is due, every byte wiped is not.\<close>

lemma dues_copy:
  "list_all (\<lambda>n. n < 16) ns \<Longrightarrow> \<not> z \<Longrightarrow>
   dues P env (Some \<lparr> er2 = None, er4 = Some 0x00888880, r2l_zero = z, on_loan = l, unwiped = D \<rparr>)
     (concat (map (\<lambda>offset.
       [emit_op ''MOV'' (Some SizeByte) (Address (Absolute (base + of_nat offset) 32)) (Register (RegByte 10)),
        emit_op ''MOV'' (Some SizeByte) (Register (RegByte 10)) (Address (Displacement (RegLong 4) (int offset + 4) 16))]) ns) @ ss)
   \<longleftrightarrow> dues P env (Some \<lparr> er2 = None, er4 = Some 0x00888880, r2l_zero = z, on_loan = l,
         unwiped = D \<union> (\<lambda>n. int n + 4) ` set ns \<rparr>) ss"
  by (induction ns arbitrary: D)
     (simp_all add: listing loan_eval store_byte_def del: flow_checks.simps)

lemma dues_wipe:
  "list_all (\<lambda>n. 4 \<le> n \<and> n < 20) ns \<Longrightarrow>
   dues P env (Some \<lparr> er2 = None, er4 = Some 0x00888880, r2l_zero = True, on_loan = l, unwiped = D \<rparr>)
     (map (\<lambda>offset. emit_op ''MOV'' (Some SizeByte) (Register (RegByte 10)) (Address (Displacement (RegLong 4) (int offset) 16))) ns @ ss)
   \<longleftrightarrow> dues P env (Some \<lparr> er2 = None, er4 = Some 0x00888880, r2l_zero = True, on_loan = l,
         unwiped = D - int ` set ns \<rparr>) ss"
  by (induction ns arbitrary: D)
     (simp_all add: listing loan_eval store_byte_def del: flow_checks.simps flip: Diff_insert2)

lemma all_wiped: "(\<lambda>n. int n + 4) ` {0..<16} - int ` {4..<20} = {}"
  by (auto intro!: image_eqI [where x = "_ + 4"])

lemma dues_vid_wrapper:
  "dues (site_plan s original helper) (\<lambda>_. Some settled_facts) (Some settled_facts) (vid_wrapper_code s helper invalid)"
  unfolding vid_wrapper_code_def vid_wrapper_checks_def vid_wrapper_copy_def vid_wrapper_send_def vid_wrapper_exits_def
  by (simp add: listing loan_eval require_byte_def settled_facts_def stronger_def nothing_due_def
      dues_copy dues_wipe all_wiped list_all_iff del: flow_checks.simps upt_rec_numeral)

section \<open>Nothing is left behind\<close>

text \<open>
  C10. The installed code gives back what it borrows and stores only where it may. For every
  firmware whose sites are different places, on every path: the hook's word stores go to the
  acquisition slot (the temporary table or the original callback), to the policy slot (the
  payload's table or the OEM one) and to the two OEM buffers, nowhere else; while the temporary
  table is in the slot, the CF dispatcher is the only routine called; and whenever the hook is left,
  by a return or a jump into the OEM handler, refusals and failures included, the slot holds the
  original callback again. The Volume ID wrapper stores bytes only into the payload's reply
  buffer, calls only the transfer helper while that buffer holds the Volume ID, and has wiped all
  of it when it is left.
\<close>
theorem installed_code_settles:
  assumes "sites_apart s"
  shows "(if flow (loan_step (site_plan s original helper)) settled_facts (hook_code op s main helper invalid original cf) pc f
      then flow_sound_at (loan_step (site_plan s original helper)) (\<lambda>_. nothing_due) (hook_code op s main helper invalid original cf) pc f
      else True)
    \<and> (if flow (loan_step (site_plan s original helper)) settled_facts (vid_wrapper_code s helper invalid) pc f
      then flow_sound_at (loan_step (site_plan s original helper)) (\<lambda>_. nothing_due) (vid_wrapper_code s helper invalid) pc f
      else True)"
  using loan.typed_sound [OF dues_hook [OF assms] hook_labelled] loan.typed_sound [OF dues_vid_wrapper vid_wrapper_labelled]
  by auto

text \<open>The sites of one real firmware, as the source records them, are apart.\<close>

definition fixture :: sites where
  "fixture = \<lparr>
     site_vid = \<lparr> vid_slot = 0xe28, vid_table = 0x5b7700, vid_main = 0x446b04, vid_status = 0xffffed3c, vid_source = 0xffffed20 \<rparr>,
     site_read_engine = 0x2c46, site_delay = 0x40ef76,
     site_acquisition = \<lparr> cpu_address = 0xa0a966, expected = be32 0x5bf4ac \<rparr>,
     site_reset = \<lparr> cpu_address = 0xa0b6c8, expected = be32 0x5cf000 \<rparr>,
     site_loaded = 0x2f86, site_checked = 0x2f87, site_result = 0x2f88,
     site_security_slot = 0x13b6, site_security_table = 0x5b8fe4, site_table_length = 860,
     site_dispatcher = 0x5555a6, site_buffers = (0x2a10, 0xa027f4) \<rparr>"

lemma installed_code_settles_witness:
  "sites_apart fixture
   \<and> flow_sound_at (loan_step (site_plan fixture 0x5bf4ac 0x447000)) (\<lambda>_. nothing_due)
       (hook_code Suppress fixture 0x446000 0x447000 0x448000 0x5bf4ac 0x5cf000) 0 settled_facts
   \<and> store_word (site_plan fixture 0x5bf4ac 0x447000) 0xa0a966 (Some 0x00111110) settled_facts = Some (settled_facts\<lparr> on_loan := True \<rparr>)
   \<and> call_out (site_plan fixture 0x5bf4ac 0x447000) 0x40ef76 (settled_facts\<lparr> on_loan := True \<rparr>) = None"
proof -
  have apart: "sites_apart fixture" by code_simp
  from installed_code_settles [OF apart, of "0x5bf4ac" "0x447000" Suppress "0x446000" "0x448000" "0x5cf000" 0 settled_facts]
  have "flow_sound_at (loan_step (site_plan fixture 0x5bf4ac 0x447000)) (\<lambda>_. nothing_due)
       (hook_code Suppress fixture 0x446000 0x447000 0x448000 0x5bf4ac 0x5cf000) 0 settled_facts"
    by (simp add: flow.entry)
  with apart show ?thesis
    by (simp add: store_word_def call_out_def settled_facts_def) (simp add: fixture_def)
qed

end
