(* ===== verification/Renesas_Machine.thy ===== *)
theory Renesas_Machine
  imports Renesas_Route Renesas_Loan
begin

text \<open>
  The part of the H8S the command hook runs on: registers, memory and flags, the instructions the
  hook and the wrapper use, and listings run from label to label. What the OEM routines do is a parameter.
\<close>

unbundle bit_operations_syntax

section \<open>Memory\<close>

type_synonym memory = "u32 \<Rightarrow> u8"

definition rd :: "memory \<Rightarrow> u32 \<Rightarrow> u32" where
  "rd m a = from_be32 [m a, m (a + 1), m (a + 2), m (a + 3)]"

definition wr :: "memory \<Rightarrow> u32 \<Rightarrow> u32 \<Rightarrow> memory" where
  "wr m a v = m(a := be32 v ! 0, a + 1 := be32 v ! 1, a + 2 := be32 v ! 2, a + 3 := be32 v ! 3)"

text \<open>A byte outside a word.\<close>

definition outside :: "u32 \<Rightarrow> u32 \<Rightarrow> bool" where
  "outside x a \<longleftrightarrow> 4 \<le> x - a"

lemma outside_iff: "outside x a \<longleftrightarrow> x \<noteq> a \<and> x \<noteq> a + 1 \<and> x \<noteq> a + 2 \<and> x \<noteq> a + 3"
proof -
  have "4 \<le> y \<longleftrightarrow> y \<noteq> 0 \<and> y \<noteq> 1 \<and> y \<noteq> 2 \<and> y \<noteq> 3" for y :: u32
  proof -
    have "unat y < 4 \<longleftrightarrow> unat y = 0 \<or> unat y = 1 \<or> unat y = 2 \<or> unat y = 3" by auto
    then show ?thesis
      by (simp add: word_le_nat_alt word_unat_eq_iff not_less [symmetric])
  qed
  from this [of "x - a"] show ?thesis
    by (auto simp: outside_def diff_eq_eq add.commute)
qed

lemma wr_outside: "outside x a \<Longrightarrow> wr m a v x = m x"
  by (simp add: wr_def outside_iff)

lemma wr_at: "wr m a v a = be32 v ! 0" "wr m a v (a + 1) = be32 v ! 1" "wr m a v (a + 2) = be32 v ! 2" "wr m a v (a + 3) = be32 v ! 3"
  by (simp_all add: wr_def)

lemma rd_wr: "rd (wr m a v) a = v"
  unfolding rd_def wr_at by (simp add: be32_def from_be32_inverse [unfolded be32_def])

lemma unat_add_le: "unat (x + y) \<le> unat x + unat y" for x y :: u32
  unfolding unat_word_ariths(1) by (rule mod_less_eq_dividend)

lemma near_word:
  fixes x i :: u32
  assumes "unat i \<le> 3" "unat (x + i) \<le> 3"
  shows "unat (x + 3) \<le> 6"
proof -
  have "x + 3 = (x + i) + (3 - i)" by simp
  then have "unat (x + 3) \<le> unat (x + i) + unat (3 - i)" using unat_add_le [of "x + i" "3 - i"] by (simp only:)
  moreover have "unat (3 - i) \<le> 3" using assms(1) by (simp add: unat_sub word_le_nat_alt)
  ultimately show ?thesis using assms(2) by simp
qed

lemma overlaps_outside:
  assumes "\<not> overlaps a b"
  shows "outside a b" "outside (a + 1) b" "outside (a + 2) b" "outside (a + 3) b"
proof -
  have out: "outside (a + i) b" if "unat i \<le> 3" for i
  proof (rule ccontr)
    assume "\<not> outside (a + i) b"
    moreover have "unat (4 :: u32) = 4" by simp
    ultimately have "\<not> 4 \<le> unat (a + i - b)" by (simp only: outside_def word_le_nat_alt simp_thms)
    moreover have "a + i - b = a - b + i" by simp
    ultimately have "unat (a - b + i) \<le> 3" by (simp only: not_le)
    then have "unat (a - b + 3) \<le> 6" by (rule near_word [OF that])
    with assms show False by (simp add: overlaps_def word_le_nat_alt)
  qed
  from out [of 0] out [of 1] out [of 2] out [of 3]
  show "outside a b" "outside (a + 1) b" "outside (a + 2) b" "outside (a + 3) b" by simp_all
qed

lemma rd_wr_other: "\<not> overlaps a b \<Longrightarrow> rd (wr m b v) a = rd m a"
  by (simp add: rd_def wr_outside overlaps_outside)

lemma overlaps_sym: "overlaps a b \<longleftrightarrow> overlaps b a"
proof -
  have "overlaps b a" if "overlaps a b" for a b
  proof -
    from that have "6 - (a - b + 3) \<le> 6" unfolding overlaps_def by (rule word_sub_le)
    moreover have "6 - (a - b + 3) = b - a + 3" by simp
    ultimately show ?thesis unfolding overlaps_def by (simp only:)
  qed
  then show ?thesis by blast
qed

section \<open>The machine\<close>

text \<open>
  The general registers ER0 to ER7, ER7 the stack pointer, the memory, and the flags the hook's
  branches read. The instructions are those of the command hook and of the Volume ID wrapper; the
  others have no result.
\<close>

record machine =
  er :: "u8 \<Rightarrow> u32"
  ram :: memory
  zf :: bool
  carry :: bool

definition put :: "u8 \<Rightarrow> u32 \<Rightarrow> machine \<Rightarrow> machine" where
  "put r v m = m\<lparr> er := (er m)(r := v) \<rparr>"

text \<open>R0L to R7L are the byte registers 8 to 15, the low bytes; R0 to R7 are the low words.\<close>

definition put_low :: "u8 \<Rightarrow> u8 \<Rightarrow> machine \<Rightarrow> machine" where
  "put_low r v m = put (r - 8) ((er m (r - 8) AND NOT (mask 8)) OR ucast v) m"

definition low :: "u8 \<Rightarrow> machine \<Rightarrow> u8" where
  "low r m = ucast (er m (r - 8))"

definition execute :: "h8_insn \<Rightarrow> machine \<Rightarrow> machine option" where
  "execute i m = (case (mnemonic i, operands i) of
     (nm, [Register (RegLong r), Address (PreDecrement (RegLong b)), OpNone]) \<Rightarrow>
       if nm = ''MOV'' \<and> r \<noteq> b then Some ((put b (er m b - 4) m)\<lparr> ram := wr (ram m) (er m b - 4) (er m r), zf := (er m r = 0) \<rparr>) else None
   | (nm, [Address (PostIncrement (RegLong b)), Register (RegLong r), OpNone]) \<Rightarrow>
       if nm = ''MOV'' \<and> r \<noteq> b then Some ((put r (rd (ram m) (er m b)) (put b (er m b + 4) m))\<lparr> zf := (rd (ram m) (er m b) = 0) \<rparr>) else None
   | (nm, [Register (RegLong r), Address (Indirect (RegLong b)), OpNone]) \<Rightarrow>
       if nm = ''MOV'' then Some (m\<lparr> ram := wr (ram m) (er m b) (er m r), zf := (er m r = 0) \<rparr>) else None
   | (nm, [Register (RegLong r), Address (Absolute a _), OpNone]) \<Rightarrow>
       if nm = ''MOV'' then Some (m\<lparr> ram := wr (ram m) a (er m r), zf := (er m r = 0) \<rparr>) else None
   | (nm, [Address (Absolute a _), Register (RegLong r), OpNone]) \<Rightarrow>
       if nm = ''MOV'' then Some ((put r (rd (ram m) a) m)\<lparr> zf := (rd (ram m) a = 0) \<rparr>) else None
   | (nm, [Address (Absolute a _), Register (RegByte r), OpNone]) \<Rightarrow>
       if nm = ''MOV'' \<and> 8 \<le> r then Some ((put_low r (ram m a) m)\<lparr> zf := (ram m a = 0) \<rparr>) else None
   | (nm, [Address (Displacement (RegLong b) d _), Register (RegByte r), OpNone]) \<Rightarrow>
       if nm = ''MOV'' \<and> 8 \<le> r
       then Some ((put_low r (ram m (er m b + word_of_int d)) m)\<lparr> zf := (ram m (er m b + word_of_int d) = 0) \<rparr>) else None
   | (nm, [Register (RegByte r), Address (Displacement (RegLong b) d _), OpNone]) \<Rightarrow>
       if nm = ''MOV'' \<and> 8 \<le> r
       then Some (m\<lparr> ram := (ram m)(er m b + word_of_int d := low r m), zf := (low r m = 0) \<rparr>) else None
   | (nm, [Address (Displacement (RegLong b) d _), Register (RegWord r), OpNone]) \<Rightarrow>
       if nm = ''MOV'' \<and> r < 8
       then (let v = from_be16 (ram m (er m b + word_of_int d)) (ram m (er m b + word_of_int d + 1))
         in Some ((put r ((er m r AND NOT (mask 16)) OR ucast v) m)\<lparr> zf := (v = 0) \<rparr>)) else None
   | (nm, [Register (RegLong r), OpNone, OpNone]) \<Rightarrow>
       if nm = ''EXTU'' then Some ((put r (er m r AND mask 16) m)\<lparr> zf := (er m r AND mask 16 = 0) \<rparr>) else None
   | (nm, [Register (RegLong q), Register (RegLong r), OpNone]) \<Rightarrow>
       if nm = ''MOV'' then Some ((put r (er m q) m)\<lparr> zf := (er m q = 0) \<rparr>)
       else if nm = ''SUB'' then Some ((put r (er m r - er m q) m)\<lparr> zf := (er m r = er m q), carry := (er m r < er m q) \<rparr>)
       else None
   | (nm, [Register (RegWord q), Register (RegWord r), OpNone]) \<Rightarrow>
       if nm = ''MOV'' \<and> q = r \<and> r < 8 then Some (m\<lparr> zf := ((ucast (er m r) :: u16) = 0) \<rparr>) else None
   | (nm, [Register (RegByte q), Register (RegByte r), OpNone]) \<Rightarrow>
       if \<not> (q = r \<and> 8 \<le> r) then None
       else if nm = ''MOV'' then Some (m\<lparr> zf := (low r m = 0) \<rparr>)
       else if nm = ''SUB'' then Some ((put_low r 0 m)\<lparr> zf := True, carry := False \<rparr>)
       else None
   | (nm, [Immediate v _, Register (RegLong r), OpNone]) \<Rightarrow>
       if nm = ''MOV'' then Some ((put r v m)\<lparr> zf := (v = 0) \<rparr>)
       else if nm = ''CMP'' then Some (m\<lparr> zf := (er m r = v), carry := (er m r < v) \<rparr>)
       else if nm = ''SUB'' then Some ((put r (er m r - v) m)\<lparr> zf := (er m r = v), carry := (er m r < v) \<rparr>)
       else if nm = ''ADDS'' then Some (put r (er m r + v) m)
       else if nm = ''SUBS'' then Some (put r (er m r - v) m)
       else None
   | (nm, [Immediate v _, Register (RegByte r), OpNone]) \<Rightarrow>
       if \<not> 8 \<le> r then None
       else if nm = ''CMP'' then Some (m\<lparr> zf := (low r m = ucast v), carry := (low r m < ucast v) \<rparr>)
       else if nm = ''AND'' then Some ((put_low r (low r m AND ucast v) m)\<lparr> zf := (low r m AND ucast v = 0) \<rparr>)
       else if nm = ''MOV'' then Some ((put_low r (ucast v) m)\<lparr> zf := ((ucast v :: u8) = 0) \<rparr>)
       else None
   | _ \<Rightarrow> None)"

text \<open>The conditions the routines branch on: always, no carry, carry, not equal, equal.\<close>

definition holds_if :: "u8 \<Rightarrow> machine \<Rightarrow> bool" where
  "holds_if c m \<longleftrightarrow> c = 0 \<or> c = 4 \<and> \<not> carry m \<or> c = 5 \<and> carry m \<or> c = 6 \<and> \<not> zf m \<or> c = 7 \<and> zf m"

text \<open>
  \<open>exec\<close> runs a listing to the next label, reached by a branch or by falling through, or out of
  the routine, by a return or a jump; \<open>oem\<close> gives what a called routine makes of the machine.
  \<open>go\<close> goes on from label to label.
\<close>

datatype stop = At string | Returned | Jumped u32

fun exec :: "(u32 \<Rightarrow> machine \<Rightarrow> machine) \<Rightarrow> asm_step list \<Rightarrow> machine \<Rightarrow> (stop \<times> machine) option" where
  "exec oem [] m = None"
| "exec oem (Label l # ss) m = Some (At l, m)"
| "exec oem (Branch c l # ss) m = (if holds_if c m then Some (At l, m) else exec oem ss m)"
| "exec oem (Instruction i # ss) m =
     (if is_rts i then Some (Returned, m) else case execute i m of None \<Rightarrow> None | Some m' \<Rightarrow> exec oem ss m')"
| "exec oem (Transfer op a # ss) m =
     (if op = 0x5e then exec oem ss (oem a m) else if op = 0x5a then Some (Jumped a, m) else None)"
| "exec oem (Refused # ss) m = None"

primrec go :: "(u32 \<Rightarrow> machine \<Rightarrow> machine) \<Rightarrow> asm_step list \<Rightarrow> nat \<Rightarrow> stop \<times> machine \<Rightarrow> (stop \<times> machine) option" where
  "go oem code 0 sm = Some sm"
| "go oem code (Suc n) sm = (case fst sm of
     At l \<Rightarrow> (case exec oem (segment code l) (snd sm) of None \<Rightarrow> None | Some sm' \<Rightarrow> go oem code n sm')
   | _ \<Rightarrow> Some sm)"

text \<open>A whole run: from the entry of the listing.\<close>

definition run :: "(u32 \<Rightarrow> machine \<Rightarrow> machine) \<Rightarrow> asm_step list \<Rightarrow> nat \<Rightarrow> machine \<Rightarrow> (stop \<times> machine) option" where
  "run oem code n m = (case exec oem code m of None \<Rightarrow> None | Some sm \<Rightarrow> go oem code n sm)"

section \<open>Single instructions\<close>

lemma put_simps [simp]:
  "er (put r v m) q = (if q = r then v else er m q)" "ram (put r v m) = ram m"
  "zf (put r v m) = zf m" "carry (put r v m) = carry m"
  by (simp_all add: put_def)

lemma low_put_low: "low r (put_low r v m) = v"
  by (rule bit_word_eqI) (simp add: low_def put_low_def bit_simps)

lemma exec_simple:
  "r \<noteq> 7 \<Longrightarrow> exec oem (push r # ss) m
     = exec oem ss ((put 7 (er m 7 - 4) m)\<lparr> ram := wr (ram m) (er m 7 - 4) (er m r), zf := (er m r = 0) \<rparr>)"
  "r \<noteq> 7 \<Longrightarrow> exec oem (pop r # ss) m
     = exec oem ss ((put r (rd (ram m) (er m 7)) (put 7 (er m 7 + 4) m))\<lparr> zf := (rd (ram m) (er m 7) = 0) \<rparr>)"
  "exec oem (load_long r a # ss) m = exec oem ss ((put r (rd (ram m) a) m)\<lparr> zf := (rd (ram m) a = 0) \<rparr>)"
  "exec oem (store_long r a # ss) m = exec oem ss (m\<lparr> ram := wr (ram m) a (er m r), zf := (er m r = 0) \<rparr>)"
  "n < 2 ^ 31 \<Longrightarrow> exec oem (cdb_byte n # ss) m
     = exec oem ss ((put_low 10 (ram m (er m 1 + word_of_int (int n))) m)\<lparr> zf := (ram m (er m 1 + word_of_int (int n)) = 0) \<rparr>)"
  "exec oem (compare_byte v # ss) m = exec oem ss (m\<lparr> zf := (low 10 m = v), carry := (low 10 m < v) \<rparr>)"
  by (simp_all add: push_def pop_def load_long_def store_long_def cdb_byte_def compare_byte_def emit_op_def execute_def
      is_rts_def ucast_u8_back)

lemma exec_emit:
  "name \<noteq> ''RTS'' \<Longrightarrow> exec oem (emit_op name sz src dst # ss) m
     = (case execute (Insn name sz [src, dst, OpNone]) m of None \<Rightarrow> None | Some m' \<Rightarrow> exec oem ss m')"
  by (simp add: emit_op_def is_rts_def)

lemma exec_rts: "exec oem (rts # ss) m = Some (Returned, m)"
  by (simp add: rts_def emit_op_def is_rts_def)

lemma exec_clear: "r \<in> {8, 9, 10} \<Longrightarrow> exec oem (clear_byte r # ss) m = exec oem ss ((put_low r 0 m)\<lparr> zf := True, carry := False \<rparr>)"
  by (auto simp: clear_byte_def exec_emit execute_def)

lemma exec_imm:
  "exec oem (imm 0 v # ss) m = exec oem ss ((put 0 v m)\<lparr> zf := (v = 0) \<rparr>)"
  "exec oem (imm 2 v # ss) m = exec oem ss ((put 2 v m)\<lparr> zf := (v = 0) \<rparr>)"
  "exec oem (imm 3 v # ss) m = exec oem ss ((put 3 v m)\<lparr> zf := (v = 0) \<rparr>)"
  "exec oem (imm 4 v # ss) m = exec oem ss ((put 4 v m)\<lparr> zf := (v = 0) \<rparr>)"
  "exec oem (imm 5 v # ss) m = exec oem ss ((put 5 v m)\<lparr> zf := (v = 0) \<rparr>)"
  "exec oem (imm 0x22 v # ss) m = exec oem ss (m\<lparr> zf := (er m 2 = v), carry := (er m 2 < v) \<rparr>)"
  "exec oem (imm 0x23 v # ss) m = exec oem ss (m\<lparr> zf := (er m 3 = v), carry := (er m 3 < v) \<rparr>)"
  "exec oem (imm 0x25 v # ss) m = exec oem ss (m\<lparr> zf := (er m 5 = v), carry := (er m 5 < v) \<rparr>)"
  by (simp_all add: imm_def execute_def is_rts_def)

lemma holds_if_simps [simp]:
  "holds_if 0 m" "holds_if 4 m \<longleftrightarrow> \<not> carry m" "holds_if 5 m \<longleftrightarrow> carry m" "holds_if 6 m \<longleftrightarrow> \<not> zf m" "holds_if 7 m \<longleftrightarrow> zf m"
  by (simp_all add: holds_if_def)

lemma low_simps [simp]:
  "low r (m\<lparr> zf := z \<rparr>) = low r m" "low r (m\<lparr> carry := z \<rparr>) = low r m" "low r (m\<lparr> ram := M \<rparr>) = low r m"
  "q \<noteq> r - 8 \<Longrightarrow> low r (put q v m) = low r m"
  by (simp_all add: low_def)

lemma put_low_simps [simp]:
  "r \<noteq> q - 8 \<Longrightarrow> er (put_low q v m) r = er m r" "ram (put_low q v m) = ram m"
  by (simp_all add: put_low_def)

lemmas exec_eval = exec_simple exec_imm exec_emit exec_rts exec_clear execute_def

section \<open>Segments and calls\<close>

lemma labels_append: "labels (xs @ ys) = labels xs @ labels ys"
  by (simp add: labels_def)

lemma segment_Cons: "segment (x # xs) l = (if x = Label l then xs else segment xs l)"
  by (simp add: segment_def)

lemma segment_append: "segment (xs @ ys) l = (if l \<in> set (labels xs) then segment xs l @ ys else segment ys l)"
  by (induction xs) (auto simp: segment_Cons labels_def label_of_def segment_def split: asm_step.splits)

lemma not_label [simp]:
  "push r \<noteq> Label l" "pop r \<noteq> Label l" "emit_op nm sz x y \<noteq> Label l" "imm r v \<noteq> Label l" "load_long r a \<noteq> Label l"
  "store_long r a \<noteq> Label l" "cdb_byte n \<noteq> Label l" "compare_byte w \<noteq> Label l" "clear_byte r \<noteq> Label l"
  by (simp_all add: push_def pop_def emit_op_def imm_def load_long_def store_long_def cdb_byte_def compare_byte_def clear_byte_def)

lemma go_step: "exec oem (segment code l) m = Some lm' \<Longrightarrow> go oem code n lm' = r \<Longrightarrow> go oem code (Suc n) (At l, m) = r"
  by simp

lemma go_one: "exec oem (segment code l) m = Some lm \<Longrightarrow> go oem code 1 (At l, m) = Some lm"
  by simp

lemma go_stopped [simp]: "go oem code n (Returned, m) = Some (Returned, m)" "go oem code n (Jumped a, m) = Some (Jumped a, m)"
  by (cases n; simp)+

lemma go_add: "go oem code (i + j) sm = Option.bind (go oem code i sm) (go oem code j)"
  by (induction i arbitrary: sm) (auto split: option.split stop.split)

lemma go_then: "go oem code i lm = Some lm' \<Longrightarrow> go oem code j lm' = r \<Longrightarrow> go oem code (i + j) lm = r"
  by (simp add: go_add)

text \<open>The calling convention: a called routine keeps ER4 to ER7 and the stack above the stack pointer.\<close>

definition polite :: "(u32 \<Rightarrow> machine \<Rightarrow> machine) \<Rightarrow> bool" where
  "polite oem \<longleftrightarrow> (\<forall>a m. er (oem a m) 4 = er m 4 \<and> er (oem a m) 5 = er m 5 \<and> er (oem a m) 6 = er m 6
     \<and> er (oem a m) 7 = er m 7 \<and> (\<forall>i < 40. ram (oem a m) (er m 7 + i) = ram m (er m 7 + i)))"

lemma polite_registers:
  "polite oem \<Longrightarrow> r \<in> {4, 5, 6, 7} \<Longrightarrow> er (oem a m) r = er m r"
  by (auto simp: polite_def)

lemma polite_stack:
  assumes "polite oem" "i \<le> 36"
  shows "rd (ram (oem a m)) (er m 7 + i) = rd (ram m) (er m 7 + i)"
proof -
  have keep: "ram (oem a m) (er m 7 + (i + k)) = ram m (er m 7 + (i + k))" if "unat k \<le> 3" for k
  proof -
    have "unat (i + k) < 40" using unat_add_le [of i k] that assms(2) by (simp add: word_le_nat_alt)
    then have "i + k < 40" by (simp add: word_less_nat_alt)
    with assms(1) show ?thesis unfolding polite_def by blast
  qed
  from keep [of 0] keep [of 1] keep [of 2] keep [of 3] show ?thesis by (simp add: rd_def add.assoc)
qed

end
