(* ===== verification/Renesas_Run.thy ===== *)
theory Renesas_Run
  imports Renesas_Machine
begin

text \<open>
  The command hook's policy transition, executed from its label to its end: it always returns, and
  with an idle read engine it switches the policy, asks the OEM dispatcher for the CF operation and
  restores the callback it borrowed.
\<close>

unbundle bit_operations_syntax

section \<open>The segments of the hook\<close>

lemma hook_labels:
  "labels (hook_frame Suppress) = []"
  "labels (hook_wait s) = [''transition'', ''wait_read_idle'', ''read_idle'']"
  "labels (hook_policy s original cf) = [''owned_policy'', ''restore_policy'']"
  "labels (hook_reinitialize s original) = [''reinitialize'']"
  "labels (hook_reply Suppress helper) = [''acknowledge'', ''reply'', ''refused'']"
  unfolding hook_frame_def hook_wait_def hook_policy_def hook_reinitialize_def hook_reply_def
    routing_enter_def restore_registers_def op_cdb_bytes
  by (simp_all add: listing require_byte_def CDB_VERB_def CDB_FEATURE_def)

lemma hook_at:
  fixes s main helper invalid original cf
  defines "code \<equiv> hook_code Suppress s main helper invalid original cf"
    and "rest \<equiv> hook_reply Suppress helper @ hook_identity invalid main"
  shows "l \<in> {''transition'', ''wait_read_idle'', ''read_idle''} \<Longrightarrow>
      segment code l = segment (hook_wait s) l @ hook_policy s original cf @ hook_reinitialize s original @ rest"
    and "l \<in> {''owned_policy'', ''restore_policy''} \<Longrightarrow>
      segment code l = segment (hook_policy s original cf) l @ hook_reinitialize s original @ rest"
    and "segment code ''reinitialize'' = segment (hook_reinitialize s original) ''reinitialize'' @ rest"
    and "l \<in> {''acknowledge'', ''refused''} \<Longrightarrow>
      segment code l = segment (hook_reply Suppress helper) l @ hook_identity invalid main"
  by (auto simp: code_def rest_def hook_code_def segment_append hook_labels)

lemmas segment_eval = segment_Cons segment_append listing restore_registers_def

section \<open>The transition, segment by segment\<close>

text \<open>
  The frame: below the address \<open>b\<close> the stack holds the registers ER0 to ER6 as they were at the
  label, and at \<open>b\<close> the word that was on top of the stack, which stands at index 7.
\<close>

definition caller :: "machine \<Rightarrow> u8 \<Rightarrow> u32" where
  "caller m = (er m)(7 := rd (ram m) (er m 7))"

lemma caller_simps [simp]: "r \<noteq> 7 \<Longrightarrow> caller m r = er m r" "caller m 7 = rd (ram m) (er m 7)"
  by (simp_all add: caller_def)

definition framed :: "u32 \<Rightarrow> (u8 \<Rightarrow> u32) \<Rightarrow> memory \<Rightarrow> bool" where
  "framed b f M \<longleftrightarrow> list_all (\<lambda>(k, r). rd M (b - k) = f r) [(0, 7), (4, 0), (8, 1), (12, 2), (16, 3), (20, 4), (24, 5), (28, 6)]"

lemma run_transition:
  "\<exists>m'. exec oem (segment (hook_code Suppress s main helper invalid original cf) ''transition'') m = Some (At ''wait_read_idle'', m')
     \<and> er m' 7 = er m 7 - 28 \<and> er m' 6 = caller m 1 \<and> er m' 5 = 500 \<and> framed (er m 7) (caller m) (ram m')
     \<and> (\<forall>x. list_all (\<lambda>k. outside x (er m 7 - k)) [4, 8, 12, 16, 20, 24, 28] \<longrightarrow> ram m' x = ram m x)"
  by (simp add: hook_at hook_wait_def segment_eval exec_eval framed_def caller_def rd_wr rd_wr_other overlaps_def wr_outside)

lemma polite_framed:
  assumes "polite oem" "er m 7 = b - d" "d \<in> {28, 32}"
  shows "framed b f (ram (oem a m)) = framed b f (ram m)"
proof -
  have "rd (ram (oem a m)) (b - k) = rd (ram m) (b - k)" if "d - k \<le> 36" for k
    using polite_stack [OF assms(1) that, of a m] assms(2) by simp
  from assms(3) this this [of 0] show ?thesis by (auto simp: framed_def)
qed

definition engine_idle :: "sites \<Rightarrow> memory \<Rightarrow> bool" where
  "engine_idle s M \<longleftrightarrow> M (site_read_engine s) = 0 \<or> 8 \<le> M (site_read_engine s)"

lemma run_wait:
  assumes "polite oem" "er m 7 = b - 28" "framed b f (ram m)"
  obtains l m' where "exec oem (segment (hook_code Suppress s main helper invalid original cf) ''wait_read_idle'') m = Some (l, m')"
    "er m' 7 = b - 28" "framed b f (ram m')"
    "if engine_idle s (ram m) then l = At ''read_idle'' \<and> ram m' = ram m \<and> er m' 6 = er m 6
     else if er m 5 = 0 then l = At ''refused''
     else l = At ''refused'' \<or> l = At ''wait_read_idle'' \<and> er m' 5 = er m 5 - 1 \<and> er m' 6 = er m 6"
proof -
  have "\<exists>l m'. exec oem (segment (hook_code Suppress s main helper invalid original cf) ''wait_read_idle'') m = Some (l, m')
     \<and> er m' 7 = b - 28 \<and> framed b f (ram m')
     \<and> (if engine_idle s (ram m) then l = At ''read_idle'' \<and> ram m' = ram m \<and> er m' 6 = er m 6
       else if er m 5 = 0 then l = At ''refused''
       else l = At ''refused'' \<or> l = At ''wait_read_idle'' \<and> er m' 5 = er m 5 - 1 \<and> er m' 6 = er m 6)"
    using assms by (simp add: hook_at hook_wait_def segment_eval exec_eval engine_idle_def low_put_low polite_registers polite_framed
      not_le [of "8", symmetric])
  with that show thesis by blast
qed

lemma run_wait_ends:
  assumes oem: "polite oem"
  shows "er m 7 = b - 28 \<Longrightarrow> framed b f (ram m) \<Longrightarrow>
    \<exists>n l m'. n \<le> unat (er m 5) + 1 \<and> go oem (hook_code Suppress s main helper invalid original cf) n (At ''wait_read_idle'', m) = Some (l, m')
      \<and> er m' 7 = b - 28 \<and> framed b f (ram m') \<and> (l = At ''refused'' \<or> l = At ''read_idle'' \<and> er m' 6 = er m 6)"
proof (induction "unat (er m 5)" arbitrary: m rule: less_induct)
  case less
  from less.prems obtain l m' where run:
      "exec oem (segment (hook_code Suppress s main helper invalid original cf) ''wait_read_idle'') m = Some (l, m')"
    and frame: "er m' 7 = b - 28" "framed b f (ram m')"
    and cases: "if engine_idle s (ram m) then l = At ''read_idle'' \<and> ram m' = ram m \<and> er m' 6 = er m 6
      else if er m 5 = 0 then l = At ''refused''
      else l = At ''refused'' \<or> l = At ''wait_read_idle'' \<and> er m' 5 = er m 5 - 1 \<and> er m' 6 = er m 6"
    by (rule run_wait [OF oem])
  show ?case
  proof (cases "l = At ''wait_read_idle''")
    case False
    with cases have "l = At ''refused'' \<or> l = At ''read_idle'' \<and> er m' 6 = er m 6" by (auto split: if_splits)
    with go_one [OF run] frame show ?thesis by (intro exI [of _ 1] exI conjI) auto
  next
    case True
    with cases have again: "er m 5 \<noteq> 0" "er m' 5 = er m 5 - 1" "er m' 6 = er m 6" by (auto split: if_splits)
    then have count: "unat (er m 5) = Suc (unat (er m' 5))"
      using unat_minus_one [of "er m 5"] unat_gt_0 [of "er m 5"] by simp
    then have "unat (er m' 5) < unat (er m 5)" by simp
    from less.hyps [OF this frame] obtain n l2 m2 where n: "n \<le> unat (er m' 5) + 1"
      and rest: "go oem (hook_code Suppress s main helper invalid original cf) n (At ''wait_read_idle'', m') = Some (l2, m2)"
        "er m2 7 = b - 28" "framed b f (ram m2)" "l2 = At ''refused'' \<or> l2 = At ''read_idle'' \<and> er m2 6 = er m' 6"
      by blast
    have "go oem (hook_code Suppress s main helper invalid original cf) (Suc n) (At ''wait_read_idle'', m) = Some (l2, m2)"
      using run True rest(1) by simp
    with n rest(2-) count again(3) show ?thesis by (intro exI [of _ "Suc n"] exI conjI) auto
  qed
qed

text \<open>The guards of the transition, and what becomes of the words it switches.\<close>

definition guards_hold :: "sites \<Rightarrow> u32 \<Rightarrow> u32 \<Rightarrow> memory \<Rightarrow> bool" where
  "guards_hold s original cf M \<longleftrightarrow> rd M (cpu_address (site_acquisition s)) = original \<and> rd M (cpu_address (site_reset s)) = cf
     \<and> rd M (site_security_slot s) \<in> {site_security_table s, 0x00666660}"

lemma run_read_idle:
  obtains m' where "exec oem (segment (hook_code Suppress s main helper invalid original cf) ''read_idle'') m
      = Some (if guards_hold s original cf (ram m) then At ''owned_policy'' else At ''refused'', m')"
    "ram m' = ram m" "er m' 7 = er m 7" "er m' 1 = er m 6"
proof -
  have "\<exists>m'. exec oem (segment (hook_code Suppress s main helper invalid original cf) ''read_idle'') m
      = Some (if guards_hold s original cf (ram m) then At ''owned_policy'' else At ''refused'', m')
      \<and> ram m' = ram m \<and> er m' 7 = er m 7 \<and> er m' 1 = er m 6"
    by (simp add: hook_at hook_wait_def hook_policy_def segment_eval exec_eval guards_hold_def)
  with that show thesis by blast
qed

definition switched :: "sites \<Rightarrow> u8 \<Rightarrow> memory \<Rightarrow> memory" where
  "switched s state M =
     (if state = STATE_OFF
      then wr (wr M (site_security_slot s) 0x00777770) (cpu_address (site_acquisition s)) 0x00111110
      else wr M (site_security_slot s) (site_security_table s))"

lemma run_policy:
  obtains n m' where "n \<le> 2" "go oem (hook_code Suppress s main helper invalid original cf) n (At ''owned_policy'', m) = Some (At ''reinitialize'', m')"
    "ram m' = switched s (ram m (er m 1 + 6)) (ram m)" "er m' 7 = er m 7"
proof (cases "ram m (er m 1 + 6) = STATE_OFF")
  case True
  then have "\<exists>m'. exec oem (segment (hook_code Suppress s main helper invalid original cf) ''owned_policy'') m = Some (At ''reinitialize'', m')
      \<and> ram m' = switched s (ram m (er m 1 + 6)) (ram m) \<and> er m' 7 = er m 7"
    by (simp add: hook_at hook_policy_def segment_eval exec_eval low_put_low switched_def)
  then show thesis using that [of 1] by (auto dest: go_one)
next
  case False
  then have "\<exists>m'. exec oem (segment (hook_code Suppress s main helper invalid original cf) ''owned_policy'') m = Some (At ''restore_policy'', m')
      \<and> ram m' = ram m \<and> er m' 7 = er m 7"
    by (simp add: hook_at hook_policy_def segment_eval exec_eval low_put_low)
  moreover have "\<exists>m'. exec oem (segment (hook_code Suppress s main helper invalid original cf) ''restore_policy'') m = Some (At ''reinitialize'', m')
      \<and> ram m' = wr (ram m) (site_security_slot s) (site_security_table s) \<and> er m' 7 = er m 7" for m
    by (simp add: hook_at hook_policy_def hook_reinitialize_def segment_eval exec_eval)
  ultimately obtain m1 m2 where
      "exec oem (segment (hook_code Suppress s main helper invalid original cf) ''owned_policy'') m = Some (At ''restore_policy'', m1)"
      "exec oem (segment (hook_code Suppress s main helper invalid original cf) ''restore_policy'') m1 = Some (At ''reinitialize'', m2)"
      "ram m1 = ram m" "er m1 7 = er m 7" "er m2 7 = er m1 7"
      "ram m2 = wr (ram m1) (site_security_slot s) (site_security_table s)"
    by blast
  with False that [of 2 m2] show thesis by (simp add: numeral_2_eq_2 switched_def)
qed

text \<open>Both buffers are reset from the words at \<open>0x10\<close>.\<close>

definition copied :: "u32 \<Rightarrow> u32 \<Rightarrow> memory \<Rightarrow> memory" where
  "copied a d M = wr M d (rd M a)"

definition reset_buffer :: "u32 \<Rightarrow> memory \<Rightarrow> memory" where
  "reset_buffer d M = fold (\<lambda>offset. copied (0x10 + offset) (d + offset)) [0, 4, 8, 12] M"

definition reset_buffers :: "sites \<Rightarrow> memory \<Rightarrow> memory" where
  "reset_buffers s M = reset_buffer (snd (site_buffers s)) (reset_buffer (fst (site_buffers s)) M)"

text \<open>The hook's part of the stack, the descriptor included, is apart from the words it stores.\<close>

definition stack_apart :: "sites \<Rightarrow> u32 \<Rightarrow> bool" where
  "stack_apart s b \<longleftrightarrow> list_all (\<lambda>k. list_all (\<lambda>a. \<not> overlaps (b - k) a)
       (site_security_slot s # cpu_address (site_acquisition s) # site_words s)) [0, 4, 8, 12, 16, 20, 24, 28, 32]"

lemma framed_wr:
  "list_all (\<lambda>k. \<not> overlaps (b - k) a) [0, 4, 8, 12, 16, 20, 24, 28] \<Longrightarrow> framed b f (wr M a v) = framed b f M"
  by (simp add: framed_def rd_wr_other)

lemma framed_apart:
  assumes "stack_apart s b" "a \<in> set (site_security_slot s # cpu_address (site_acquisition s) # site_words s)"
  shows "framed b f (wr M a v) = framed b f M"
  using assms by (intro framed_wr) (auto simp: stack_apart_def list_all_iff)

lemma framed_reset:
  assumes "stack_apart s b"
  shows "framed b f (reset_buffers s M) = framed b f M"
  by (simp add: reset_buffers_def reset_buffer_def copied_def framed_apart [OF assms] site_words_def)

lemma framed_switched: "stack_apart s b \<Longrightarrow> framed b f (switched s state M) = framed b f M"
  by (simp add: switched_def framed_apart)

lemma framed_descriptor: "framed b f (wr M (b - 32) v) = framed b f M"
  by (rule framed_wr) (simp add: overlaps_def)

text \<open>The machine as the dispatcher is called.\<close>

definition dispatched :: "sites \<Rightarrow> u32 \<Rightarrow> memory \<Rightarrow> machine \<Rightarrow> bool" where
  "dispatched s b M d \<longleftrightarrow> ram d = wr (reset_buffers s M) (b - 32) 0x00cf0000
     \<and> er d 7 = b - 32 \<and> er d 1 = b - 32 \<and> er d 0 = 0 \<and> er d 2 = 0"

definition resumed :: "u32 \<Rightarrow> (u8 \<Rightarrow> u32) \<Rightarrow> machine \<Rightarrow> bool" where
  "resumed b f m \<longleftrightarrow> er m 7 = b \<and> rd (ram m) b = f 7 \<and> list_all (\<lambda>r. er m r = f r) [0, 1, 2, 3, 4, 5, 6]"

lemma exec_restore:
  assumes "er m 7 = b - 28" "framed b f (ram m)"
  shows "\<exists>m'. exec oem (restore_registers @ ss) m = exec oem ss m' \<and> ram m' = ram m \<and> resumed b f m'"
  using assms unfolding restore_registers_def
  by (intro exI [of _ "m\<lparr> er := (er m)(6 := f 6, 5 := f 5, 4 := f 4, 3 := f 3, 2 := f 2, 1 := f 1, 7 := b, 0 := f 0), zf := (f 0 = 0) \<rparr>"])
    (simp add: exec_eval framed_def resumed_def put_def)

definition copy_word :: "u32 \<Rightarrow> u32 \<Rightarrow> machine \<Rightarrow> machine" where
  "copy_word a d m = (put 2 (rd (ram m) a) m)\<lparr> ram := copied a d (ram m), zf := (rd (ram m) a = 0) \<rparr>"

lemma exec_copy: "exec oem (load_long 2 a # store_long 2 d # ss) m = exec oem ss (copy_word a d m)"
  by (simp add: exec_eval copy_word_def copied_def)

lemma copy_word_simps [simp]: "ram (copy_word a d m) = copied a d (ram m)" "q \<noteq> 2 \<Longrightarrow> er (copy_word a d m) q = er m q"
  by (simp_all add: copy_word_def)

lemma exec_reset_buffers:
  "\<exists>m'. exec oem (concat (map (\<lambda>d. concat (map (\<lambda>offset. [load_long 2 (0x10 + offset), store_long 2 (d + offset)]) [0, 4, 8, 12]))
      [fst (site_buffers s), snd (site_buffers s)]) @ ss) m = exec oem ss m'
    \<and> ram m' = reset_buffers s (ram m) \<and> er m' 7 = er m 7"
  by (simp add: exec_copy reset_buffers_def reset_buffer_def, intro exI conjI, rule refl) simp_all

text \<open>The descriptor and the arguments of the CF operation.\<close>

definition descriptor_code :: "asm_step list" where
  "descriptor_code =
     [emit_op ''SUBS'' (Some SizeLong) (Immediate 4 0) (Register (RegLong 7)),
      imm 2 0x00cf0000,
      emit_op ''MOV'' (Some SizeLong) (Register (RegLong 2)) (Address (Indirect (RegLong 7))),
      emit_op ''MOV'' (Some SizeLong) (Register (RegLong 7)) (Register (RegLong 1)),
      emit_op ''SUB'' (Some SizeLong) (Register (RegLong 0)) (Register (RegLong 0)),
      emit_op ''SUB'' (Some SizeLong) (Register (RegLong 2)) (Register (RegLong 2))]"

lemma exec_dispatch:
  assumes "er m 7 = b - 28" "ram m = reset_buffers s M"
  shows "\<exists>d. exec oem (descriptor_code @ Transfer 0x5e a # ss) m = exec oem ss (oem a d) \<and> dispatched s b M d"
  by (insert assms, simp add: descriptor_code_def exec_eval, intro exI conjI, rule refl) (simp add: dispatched_def)

lemma run_reinitialize:
  assumes "polite oem" "stack_apart s b" "er m 7 = b - 28" "framed b f (ram m)"
  obtains d l m' where "dispatched s b (ram m) d"
    "exec oem (segment (hook_code Suppress s main helper invalid original cf) ''reinitialize'') m = Some (l, m')"
    "ram m' = wr (ram (oem (site_dispatcher s) d)) (cpu_address (site_acquisition s)) original"
    "if low 8 (oem (site_dispatcher s) d) = 0 then l = At ''acknowledge'' \<and> resumed b f m'
     else l = At ''refused'' \<and> er m' 7 = b - 28 \<and> framed b f (ram m')"
proof -
  let ?tail = "restore_registers @ hook_reply Suppress helper @ hook_identity invalid main"
  let ?acq = "cpu_address (site_acquisition s)"
  let ?rest = "drop 17 (hook_reinitialize s original) @ hook_reply Suppress helper @ hook_identity invalid main"
  let ?after = "drop 24 (hook_reinitialize s original) @ hook_reply Suppress helper @ hook_identity invalid main"
  have rest: "?rest = descriptor_code @ Transfer 0x5e (site_dispatcher s) # ?after"
    by (simp add: hook_reinitialize_def descriptor_code_def)
  have seg: "segment (hook_code Suppress s main helper invalid original cf) ''reinitialize''
      = concat (map (\<lambda>d. concat (map (\<lambda>offset. [load_long 2 (0x10 + offset), store_long 2 (d + offset)]) [0, 4, 8, 12]))
          [fst (site_buffers s), snd (site_buffers s)]) @ ?rest"
    by (simp add: hook_at hook_reinitialize_def segment_Cons)
  have "\<exists>m'. exec oem (segment (hook_code Suppress s main helper invalid original cf) ''reinitialize'') m = exec oem ?rest m'
      \<and> ram m' = reset_buffers s (ram m) \<and> er m' 7 = er m 7"
    unfolding seg by (rule exec_reset_buffers)
  then obtain m1 where
    m1: "exec oem (segment (hook_code Suppress s main helper invalid original cf) ''reinitialize'') m = exec oem ?rest m1"
      "ram m1 = reset_buffers s (ram m)" "er m1 7 = er m 7" by blast
  have "\<exists>d. exec oem ?rest m1 = exec oem ?after (oem (site_dispatcher s) d) \<and> dispatched s b (ram m) d"
    using exec_dispatch [of m1 b s "ram m"] assms(3) m1(2,3) by (simp only: rest)
  then obtain d where call: "exec oem ?rest m1 = exec oem ?after (oem (site_dispatcher s) d)"
    and d: "dispatched s b (ram m) d" by blast
  have "\<exists>m2. exec oem ?after r = (if low 8 r = 0 then exec oem ?tail m2 else Some (At ''refused'', m2))
      \<and> ram m2 = wr (ram r) ?acq original \<and> er m2 7 = er r 7 + 4" for r
    by (simp add: hook_reinitialize_def exec_eval, intro exI conjI impI, rule refl) simp_all
  then obtain m2 where m2:
    "exec oem ?rest m1 = (if low 8 (oem (site_dispatcher s) d) = 0 then exec oem ?tail m2 else Some (At ''refused'', m2))"
    "ram m2 = wr (ram (oem (site_dispatcher s) d)) ?acq original" "er m2 7 = er (oem (site_dispatcher s) d) 7 + 4"
    unfolding call by blast
  from d have "er d 7 = b - 32" by (simp add: dispatched_def)
  with polite_registers [OF assms(1), of 7] m2(3) have sp: "er m2 7 = b - 28" by simp
  have "framed b f (ram d)" using d assms(2,4) by (simp add: dispatched_def framed_descriptor framed_reset)
  with polite_framed [OF assms(1) \<open>er d 7 = b - 32\<close>] framed_apart [OF assms(2)] m2(2)
  have frame: "framed b f (ram m2)" by simp
  show thesis
  proof (cases "low 8 (oem (site_dispatcher s) d) = 0")
    case True
    from exec_restore [OF sp frame, of oem "hook_reply Suppress helper @ hook_identity invalid main"] obtain m3
      where "exec oem ?tail m2 = exec oem (hook_reply Suppress helper @ hook_identity invalid main) m3"
        "ram m3 = ram m2" "resumed b f m3" by blast
    with True d m1(1) m2 that [of d "At ''acknowledge''" m3] show thesis by (simp add: hook_reply_def)
  next
    case False
    with d m1(1) m2 sp frame that [of d "At ''refused''" m2] show thesis by simp
  qed
qed

lemma run_refused:
  assumes "er m 7 = b - 28" "framed b f (ram m)"
  obtains m' where "exec oem (segment (hook_code Suppress s main helper invalid original cf) ''refused'') m = Some (At ''invalid'', m')"
    "ram m' = ram m" "resumed b f m'"
proof -
  have "segment (hook_code Suppress s main helper invalid original cf) ''refused''
      = restore_registers @ Branch 0 ''invalid'' # hook_identity invalid main"
    by (simp add: hook_at hook_reply_def segment_Cons clear_byte_def rts_def)
  with exec_restore [OF assms, of oem "Branch 0 ''invalid'' # hook_identity invalid main"] that
  show thesis by auto
qed

section \<open>The transition returns\<close>

lemma refused_returns:
  assumes "er m 7 = b - 28" "framed b f (ram m)"
  shows "\<exists>m'. go oem (hook_code Suppress s main helper invalid original cf) 1 (At ''refused'', m) = Some (At ''invalid'', m')
    \<and> ram m' = ram m \<and> resumed b f m'"
  using assms by (rule run_refused [where oem = oem and s = s and main = main and helper = helper and invalid = invalid
        and original = original and cf = cf]) (auto intro!: exI go_one)

text \<open>From the point where the guards have passed.\<close>

lemma owned_returns:
  assumes "polite oem" "stack_apart s b" "er m 7 = b - 28" "framed b f (ram m)"
  shows "\<exists>n d m'. n \<le> 4 \<and> dispatched s b (switched s (ram m (er m 1 + 6)) (ram m)) d
    \<and> go oem (hook_code Suppress s main helper invalid original cf) n (At ''owned_policy'', m)
        = Some (if low 8 (oem (site_dispatcher s) d) = 0 then At ''acknowledge'' else At ''invalid'', m')
    \<and> ram m' = wr (ram (oem (site_dispatcher s) d)) (cpu_address (site_acquisition s)) original
    \<and> resumed b f m'"
proof -
  let ?code = "hook_code Suppress s main helper invalid original cf"
  obtain i m1 where i: "i \<le> 2" "go oem ?code i (At ''owned_policy'', m) = Some (At ''reinitialize'', m1)"
    and m1: "ram m1 = switched s (ram m (er m 1 + 6)) (ram m)" "er m1 7 = er m 7"
    by (rule run_policy)
  have "er m1 7 = b - 28" "framed b f (ram m1)"
    using m1 assms(3,4) framed_switched [OF assms(2)] by simp_all
  then obtain d l m2 where d: "dispatched s b (ram m1) d"
    and two: "exec oem (segment ?code ''reinitialize'') m1 = Some (l, m2)"
      "ram m2 = wr (ram (oem (site_dispatcher s) d)) (cpu_address (site_acquisition s)) original"
      "if low 8 (oem (site_dispatcher s) d) = 0 then l = At ''acknowledge'' \<and> resumed b f m2
       else l = At ''refused'' \<and> er m2 7 = b - 28 \<and> framed b f (ram m2)"
    by (rule run_reinitialize [OF assms(1,2)])
  note there = go_then [OF i(2) go_one [OF two(1)]]
  show ?thesis
  proof (cases "low 8 (oem (site_dispatcher s) d) = 0")
    case True
    with there d m1 two i(1) show ?thesis by (intro exI [of _ "i + 1"] exI [of _ d] exI [of _ m2]) simp
  next
    case False
    with two(3) have l: "l = At ''refused''" and left: "er m2 7 = b - 28" "framed b f (ram m2)" by simp_all
    from refused_returns [OF left] obtain m3 where
      "go oem ?code 1 (At ''refused'', m2) = Some (At ''invalid'', m3)" "ram m3 = ram m2" "resumed b f m3" by blast
    with go_then [OF there, of 1] False l d m1 two i(1) show ?thesis
      by (intro exI [of _ "i + 1 + 1"] exI [of _ d] exI [of _ m3]) simp
  qed
qed

lemma read_idle_returns:
  assumes "polite oem" "stack_apart s b" "er m 7 = b - 28" "framed b f (ram m)" "er m 6 = f 1"
  shows "\<exists>n l m'. n \<le> 5 \<and> go oem (hook_code Suppress s main helper invalid original cf) n (At ''read_idle'', m) = Some (l, m')
    \<and> l \<in> {At ''acknowledge'', At ''invalid''} \<and> resumed b f m'
    \<and> (if guards_hold s original cf (ram m)
       then \<exists>d. dispatched s b (switched s (ram m (f 1 + 6)) (ram m)) d
         \<and> l = (if low 8 (oem (site_dispatcher s) d) = 0 then At ''acknowledge'' else At ''invalid'')
         \<and> ram m' = wr (ram (oem (site_dispatcher s) d)) (cpu_address (site_acquisition s)) original
       else l = At ''invalid'' \<and> ram m' = ram m)"
proof -
  let ?code = "hook_code Suppress s main helper invalid original cf"
  obtain m1 where one: "exec oem (segment ?code ''read_idle'') m
      = Some (if guards_hold s original cf (ram m) then At ''owned_policy'' else At ''refused'', m1)"
    and m1: "ram m1 = ram m" "er m1 7 = er m 7" "er m1 1 = er m 6"
    by (rule run_read_idle)
  note start = go_then [OF go_one [OF one]]
  have frame: "er m1 7 = b - 28" "framed b f (ram m1)" using m1 assms(3,4) by simp_all
  show ?thesis
  proof (cases "guards_hold s original cf (ram m)")
    case True
    from owned_returns [OF assms(1,2) frame, of main helper invalid original cf] obtain n d m2 where n: "n \<le> 4"
      and d: "dispatched s b (switched s (ram m1 (er m1 1 + 6)) (ram m1)) d"
      and go: "go oem ?code n (At ''owned_policy'', m1)
          = Some (if low 8 (oem (site_dispatcher s) d) = 0 then At ''acknowledge'' else At ''invalid'', m2)"
      and m2: "ram m2 = wr (ram (oem (site_dispatcher s) d)) (cpu_address (site_acquisition s)) original" "resumed b f m2"
      by blast
    from True start [of n] go have "go oem ?code (1 + n) (At ''read_idle'', m)
        = Some (if low 8 (oem (site_dispatcher s) d) = 0 then At ''acknowledge'' else At ''invalid'', m2)" by simp
    with True n d m1 m2 assms(5) show ?thesis by (intro exI [of _ "1 + n"] exI [of _ m2]) (auto split: if_splits)
  next
    case False
    from refused_returns [OF frame, of oem s main helper invalid original cf] obtain m2 where
      "go oem ?code 1 (At ''refused'', m1) = Some (At ''invalid'', m2)" "ram m2 = ram m1" "resumed b f m2" by blast
    with False start [of 1] m1 show ?thesis by (intro exI [of _ "1 + 1"] exI [of _ m2]) auto
  qed
qed

lemma transition_returns:
  assumes "polite oem" "stack_apart s (er m 7)"
  shows "\<exists>n l m'. n \<le> 507 \<and> go oem (hook_code Suppress s main helper invalid original cf) n (At ''transition'', m) = Some (l, m')
    \<and> l \<in> {At ''acknowledge'', At ''invalid''} \<and> resumed (er m 7) (caller m) m'"
proof -
  let ?code = "hook_code Suppress s main helper invalid original cf" and ?b = "er m 7"
  from run_transition [of oem s main helper invalid original cf m] obtain m1 where
    one: "exec oem (segment ?code ''transition'') m = Some (At ''wait_read_idle'', m1)"
    and m1: "er m1 7 = ?b - 28" "er m1 6 = caller m 1" "er m1 5 = 500" "framed ?b (caller m) (ram m1)" by blast
  from run_wait_ends [OF assms(1) m1(1,4), of s main helper invalid original cf] m1(3) obtain i l m2 where i: "i \<le> 501"
    and two: "go oem ?code i (At ''wait_read_idle'', m1) = Some (l, m2)" "er m2 7 = ?b - 28" "framed ?b (caller m) (ram m2)"
      "l = At ''refused'' \<or> l = At ''read_idle'' \<and> er m2 6 = er m1 6" by auto
  note there = go_then [OF go_then [OF go_one [OF one] two(1)]]
  show ?thesis
  proof (cases "l = At ''refused''")
    case True
    from refused_returns [OF two(2,3), of oem s main helper invalid original cf] obtain m3 where
      "go oem ?code 1 (At ''refused'', m2) = Some (At ''invalid'', m3)" "resumed ?b (caller m) m3" by blast
    with there [of 1] True i show ?thesis by (intro exI [of _ "1 + i + 1"] exI [of _ "At ''invalid''"] exI [of _ m3]) simp
  next
    case False
    with two(4) m1(2) have idle: "l = At ''read_idle''" "er m2 6 = caller m 1" by simp_all
    from read_idle_returns [OF assms two(2,3) idle(2), of main helper invalid original cf] obtain j l3 m3 where
      "j \<le> 5" "go oem ?code j (At ''read_idle'', m2) = Some (l3, m3)" "l3 \<in> {At ''acknowledge'', At ''invalid''}" "resumed ?b (caller m) m3" by blast
    with there [of j] idle(1) i show ?thesis by (intro exI [of _ "1 + i + j"] exI [of _ l3] exI [of _ m3]) simp
  qed
qed

section \<open>The transition switches the policy\<close>

text \<open>The words the transition touches: its stack, what it stores, what it only reads.\<close>

definition stack_words :: "u32 \<Rightarrow> u32 list" where
  "stack_words b = map (\<lambda>k. b - k) [0, 4, 8, 12, 16, 20, 24, 28, 32]"

definition stored_words :: "sites \<Rightarrow> u32 list" where
  "stored_words s = site_security_slot s # cpu_address (site_acquisition s) # site_words s"

definition template_words :: "u32 list" where
  "template_words = [0x10, 0x14, 0x18, 0x1c]"

text \<open>They are different places, and the state byte of the read engine is not on the stack.\<close>

definition layout_apart :: "sites \<Rightarrow> u32 \<Rightarrow> bool" where
  "layout_apart s b \<longleftrightarrow> sorted_wrt (\<lambda>x y. \<not> overlaps x y) (stored_words s)
     \<and> list_all (\<lambda>x. list_all (\<lambda>y. \<not> overlaps x y) (stored_words s)) (stack_words b @ template_words)
     \<and> list_all (\<lambda>y. outside (site_read_engine s) y \<and> list_all (\<lambda>x. \<not> overlaps x y) (cpu_address (site_reset s) # template_words)) (stack_words b)"

lemma layout_stack: "layout_apart s b \<Longrightarrow> stack_apart s b"
  by (simp add: layout_apart_def stack_apart_def stack_words_def stored_words_def)

lemma rd_reset_other:
  "list_all (\<lambda>y. \<not> overlaps x y) (site_words s) \<Longrightarrow> rd (reset_buffers s M) x = rd M x"
  by (simp add: reset_buffers_def reset_buffer_def copied_def site_words_def rd_wr_other)

lemma rd_reset_at:
  assumes "sorted_wrt (\<lambda>x y. \<not> overlaps x y) (site_words s)"
    and "list_all (\<lambda>x. list_all (\<lambda>y. \<not> overlaps x y) (site_words s)) template_words"
    and "dest \<in> {fst (site_buffers s), snd (site_buffers s)}" "offset \<in> {0, 4, 8, 12}"
  shows "rd (reset_buffers s M) (dest + offset) = rd M (0x10 + offset)"
  using assms
  by (auto simp: reset_buffers_def reset_buffer_def copied_def site_words_def template_words_def rd_wr rd_wr_other)

lemma stored_apart:
  assumes "layout_apart s b"
  shows "x \<in> set (stored_words s) \<Longrightarrow> y \<in> set (stack_words b) \<Longrightarrow> \<not> overlaps x y"
    and "\<not> overlaps (site_security_slot s) (cpu_address (site_acquisition s))"
    and "list_all (\<lambda>y. \<not> overlaps (site_security_slot s) y \<and> \<not> overlaps (cpu_address (site_acquisition s)) y) (site_words s)"
    and "sorted_wrt (\<lambda>x y. \<not> overlaps x y) (site_words s)"
    and "x \<in> set template_words \<Longrightarrow> y \<in> set (stored_words s) \<Longrightarrow> \<not> overlaps x y"
    and "x \<in> set (cpu_address (site_reset s) # template_words) \<Longrightarrow> y \<in> set (stack_words b) \<Longrightarrow> \<not> overlaps x y"
    and "y \<in> set (stack_words b) \<Longrightarrow> outside (site_read_engine s) y"
proof -
  have "\<not> overlaps y x" if "x \<in> set (stored_words s)" "y \<in> set (stack_words b)" for x y
    using that assms by (auto simp: layout_apart_def list_all_iff)
  then show "x \<in> set (stored_words s) \<Longrightarrow> y \<in> set (stack_words b) \<Longrightarrow> \<not> overlaps x y"
    using overlaps_sym by blast
qed (use assms in \<open>auto simp: layout_apart_def stored_words_def list_all_iff\<close>)

lemma stack_members: "k \<in> {0, 4, 8, 12, 16, 20, 24, 28, 32} \<Longrightarrow> b - k \<in> set (stack_words b)"
  by (auto simp: stack_words_def)

text \<open>Pushing the registers changes nothing but the stack.\<close>

definition same_below :: "u32 \<Rightarrow> memory \<Rightarrow> memory \<Rightarrow> bool" where
  "same_below b M M' \<longleftrightarrow> (\<forall>x. list_all (outside x) (stack_words b) \<longrightarrow> M' x = M x)"

lemma same_below_rd:
  assumes "same_below b M M'" "\<And>y. y \<in> set (stack_words b) \<Longrightarrow> \<not> overlaps x y"
  shows "rd M' x = rd M x"
proof -
  have "M' (x + i) = M (x + i)" if "i \<in> {0, 1, 2, 3}" for i
    using that assms overlaps_outside [of x] unfolding same_below_def list_all_iff by (metis add.right_neutral empty_iff insert_iff)
  from this [of 0] this [of 1] this [of 2] this [of 3] show ?thesis by (simp add: rd_def)
qed

lemma same_below_guards:
  assumes "layout_apart s b" "same_below b M M'"
  shows "guards_hold s original cf M' = guards_hold s original cf M" "engine_idle s M' = engine_idle s M"
    "x \<in> set template_words \<Longrightarrow> rd M' x = rd M x"
proof -
  have "rd M' x = rd M x" if "x \<in> {site_security_slot s, cpu_address (site_acquisition s), cpu_address (site_reset s)} \<union> set template_words" for x
    using that stored_apart(1,6) [OF assms(1)] by (intro same_below_rd [OF assms(2)]) (auto simp: stored_words_def)
  then show "guards_hold s original cf M' = guards_hold s original cf M" "x \<in> set template_words \<Longrightarrow> rd M' x = rd M x"
    by (simp_all add: guards_hold_def)
  show "engine_idle s M' = engine_idle s M"
    using assms(2) stored_apart(7) [OF assms(1)] by (simp add: engine_idle_def same_below_def list_all_iff)
qed

lemma dispatched_words:
  assumes "layout_apart s b" "dispatched s b (switched s state M) d" "guards_hold s original cf M"
  shows "rd (ram d) (site_security_slot s) = (if state = STATE_OFF then 0x00777770 else site_security_table s)"
    and "rd (ram d) (cpu_address (site_acquisition s)) = (if state = STATE_OFF then 0x00111110 else original)"
    and "dest \<in> {fst (site_buffers s), snd (site_buffers s)} \<Longrightarrow> offset \<in> {0, 4, 8, 12}
      \<Longrightarrow> rd (ram d) (dest + offset) = rd M (0x10 + offset)"
    and "rd (ram d) (er d 1) = 0x00cf0000"
proof -
  note apart = stored_apart [OF assms(1)]
  have low: "b - 32 \<in> set (stack_words b)" by (rule stack_members) simp
  have d: "ram d = wr (reset_buffers s (switched s state M)) (b - 32) 0x00cf0000" "er d 1 = b - 32"
    using assms(2) by (simp_all add: dispatched_def)
  have "rd (ram d) x = rd (reset_buffers s (switched s state M)) x" if "x \<in> set (stored_words s)" for x
    using apart(1) [OF that low] by (simp add: d rd_wr_other)
  note here = this
  have words: "rd (ram d) x = rd (switched s state M) x" if "x \<in> {site_security_slot s, cpu_address (site_acquisition s)}" for x
  proof -
    from that apart(3) have "list_all (\<lambda>y. \<not> overlaps x y) (site_words s)" by (auto simp: list_all_iff)
    with here [of x] that show ?thesis by (auto simp: stored_words_def rd_reset_other)
  qed
  have away: "\<not> overlaps (cpu_address (site_acquisition s)) (site_security_slot s)" using apart(2) overlaps_sym by blast
  show "rd (ram d) (site_security_slot s) = (if state = STATE_OFF then 0x00777770 else site_security_table s)"
    using words apart(2) by (simp add: switched_def rd_wr rd_wr_other)
  show "rd (ram d) (cpu_address (site_acquisition s)) = (if state = STATE_OFF then 0x00111110 else original)"
    using words away assms(3) by (simp add: switched_def rd_wr rd_wr_other guards_hold_def)
  show "rd (ram d) (er d 1) = 0x00cf0000" by (simp add: d rd_wr)
  assume dest: "dest \<in> {fst (site_buffers s), snd (site_buffers s)}" "offset \<in> {0, 4, 8, 12}"
  then have "dest + offset \<in> set (stored_words s)" "0x10 + offset \<in> set template_words"
    by (auto simp: stored_words_def site_words_def template_words_def)
  moreover have "list_all (\<lambda>x. list_all (\<lambda>y. \<not> overlaps x y) (site_words s)) template_words"
    using apart(5) by (simp add: list_all_iff stored_words_def)
  moreover have "\<not> overlaps x (site_security_slot s) \<and> \<not> overlaps x (cpu_address (site_acquisition s))" if "x \<in> set template_words" for x
    using apart(5) [OF that] by (simp add: stored_words_def)
  ultimately show "rd (ram d) (dest + offset) = rd M (0x10 + offset)"
    using here rd_reset_at [OF apart(4) _ dest] by (simp add: switched_def rd_wr_other)
qed

text \<open>
  What the OEM dispatcher is asked for: the policy is switched, the acquisition callback is the
  temporary one for OFF, both buffers are reset from the template, and the descriptor is that of
  the CF operation.
\<close>

definition policy_request :: "sites \<Rightarrow> u32 \<Rightarrow> u8 \<Rightarrow> memory \<Rightarrow> machine \<Rightarrow> bool" where
  "policy_request s original state M d \<longleftrightarrow>
     rd (ram d) (site_security_slot s) = (if state = STATE_OFF then 0x00777770 else site_security_table s)
   \<and> rd (ram d) (cpu_address (site_acquisition s)) = (if state = STATE_OFF then 0x00111110 else original)
   \<and> list_all (\<lambda>dest. list_all (\<lambda>offset. rd (ram d) (dest + offset) = rd M (0x10 + offset)) [0, 4, 8, 12])
       [fst (site_buffers s), snd (site_buffers s)]
   \<and> er d 0 = 0 \<and> er d 2 = 0 \<and> rd (ram d) (er d 1) = 0x00cf0000"

lemma dispatched_request:
  assumes "layout_apart s b" "same_below b M0 M" "dispatched s b (switched s state M) d" "guards_hold s original cf M"
  shows "policy_request s original state M0 d"
proof -
  note words = dispatched_words [OF assms(1,3,4)] and same = same_below_guards(3) [OF assms(1,2)]
  have "rd (ram d) (dest + offset) = rd M0 (0x10 + offset)"
    if "dest \<in> {fst (site_buffers s), snd (site_buffers s)}" "offset \<in> {0, 4, 8, 12}" for dest offset
    using words(3) [OF that] same [of "0x10 + offset"] that(2) by (auto simp: template_words_def)
  then have "list_all (\<lambda>dest. list_all (\<lambda>offset. rd (ram d) (dest + offset) = rd M0 (0x10 + offset)) [0, 4, 8, 12])
      [fst (site_buffers s), snd (site_buffers s)]" unfolding list_all_iff by simp
  moreover have "er d 0 = 0" "er d 2 = 0" using assms(3) by (simp_all add: dispatched_def)
  ultimately show ?thesis using words(1,2,4) unfolding policy_request_def by blast
qed

text \<open>What the transition stores it stores over memories that differ on its stack only.\<close>

lemma same_below_wr: "same_below b M M' \<Longrightarrow> same_below b (wr M a v) (wr M' a v)"
  by (simp add: same_below_def wr_def)

lemma same_below_stack:
  assumes "y \<in> set (stack_words b)" "same_below b M M'"
  shows "same_below b M (wr M' y v)"
  using assms by (auto simp: same_below_def list_all_iff wr_outside)

lemma same_below_trans: "same_below b M M' \<Longrightarrow> same_below b M' M'' \<Longrightarrow> same_below b M M''"
  by (simp add: same_below_def)

lemma same_below_switched: "same_below b M M' \<Longrightarrow> same_below b (switched s state M) (switched s state M')"
  by (simp add: switched_def same_below_wr)

lemma same_below_copied:
  assumes "layout_apart s b" "a \<in> set template_words" "same_below b M M'"
  shows "same_below b (copied a dest M) (copied a dest M')"
  unfolding copied_def same_below_guards(3) [OF assms(1,3,2)] by (rule same_below_wr [OF assms(3)])

lemma same_below_reset:
  assumes "layout_apart s b" "same_below b M M'"
  shows "same_below b (reset_buffers s M) (reset_buffers s M')"
  unfolding reset_buffers_def reset_buffer_def
  by (simp add: same_below_copied [OF assms(1)] template_words_def assms(2))

lemma idle_transition:
  assumes "polite oem" "layout_apart s (er m 7)" "engine_idle s (ram m)"
  obtains i m2 where "go oem (hook_code Suppress s main helper invalid original cf) i (At ''transition'', m) = Some (At ''read_idle'', m2)"
    "er m2 7 = er m 7 - 28" "framed (er m 7) (caller m) (ram m2)" "er m2 6 = caller m 1" "same_below (er m 7) (ram m) (ram m2)"
proof -
  let ?code = "hook_code Suppress s main helper invalid original cf" and ?b = "er m 7"
  from run_transition [of oem s main helper invalid original cf m] obtain m1 where
    one: "exec oem (segment ?code ''transition'') m = Some (At ''wait_read_idle'', m1)"
    and m1: "er m1 7 = ?b - 28" "er m1 6 = caller m 1" "framed ?b (caller m) (ram m1)"
    and same: "same_below ?b (ram m) (ram m1)" by (auto simp: same_below_def stack_words_def)
  have idle: "engine_idle s (ram m1)" using same_below_guards(2) [OF assms(2) same] assms(3) by simp
  obtain l m2 where two: "exec oem (segment ?code ''wait_read_idle'') m1 = Some (l, m2)" "er m2 7 = ?b - 28"
      "framed ?b (caller m) (ram m2)" "l = At ''read_idle'' \<and> ram m2 = ram m1 \<and> er m2 6 = er m1 6"
    by (rule run_wait [OF assms(1) m1(1,3), of s main helper invalid original cf]) (use idle in auto)
  with that [OF go_then [OF go_one [OF one] go_one]] m1(2) same show thesis by simp
qed

lemma transition_switches_policy:
  assumes "polite oem" "layout_apart s (er m 7)" "list_all (outside (er m 1 + 6)) (stack_words (er m 7))"
    and "engine_idle s (ram m)"
  shows "\<exists>n l m'. go oem (hook_code Suppress s main helper invalid original cf) n (At ''transition'', m) = Some (l, m')
    \<and> resumed (er m 7) (caller m) m'
    \<and> (if guards_hold s original cf (ram m)
       then \<exists>d. policy_request s original (ram m (er m 1 + 6)) (ram m) d
         \<and> same_below (er m 7) (reset_buffers s (switched s (ram m (er m 1 + 6)) (ram m))) (ram d)
         \<and> ram m' = wr (ram (oem (site_dispatcher s) d)) (cpu_address (site_acquisition s)) original
         \<and> l = (if low 8 (oem (site_dispatcher s) d) = 0 then At ''acknowledge'' else At ''invalid'')
       else l = At ''invalid'' \<and> same_below (er m 7) (ram m) (ram m'))"
proof -
  let ?code = "hook_code Suppress s main helper invalid original cf" and ?b = "er m 7"
  from idle_transition [OF assms(1,2,4), of main helper invalid original cf] obtain i m2 where
    i: "go oem ?code i (At ''transition'', m) = Some (At ''read_idle'', m2)" "er m2 7 = ?b - 28" "framed ?b (caller m) (ram m2)" "er m2 6 = caller m 1"
    and same: "same_below ?b (ram m) (ram m2)" .
  from read_idle_returns [OF assms(1) layout_stack [OF assms(2)] i(2-4), of main helper invalid original cf] obtain n l m3 where
    three: "go oem ?code n (At ''read_idle'', m2) = Some (l, m3)" "resumed ?b (caller m) m3"
    and last: "if guards_hold s original cf (ram m2)
       then \<exists>d. dispatched s ?b (switched s (ram m2 (caller m 1 + 6)) (ram m2)) d
         \<and> l = (if low 8 (oem (site_dispatcher s) d) = 0 then At ''acknowledge'' else At ''invalid'')
         \<and> ram m3 = wr (ram (oem (site_dispatcher s) d)) (cpu_address (site_acquisition s)) original
       else l = At ''invalid'' \<and> ram m3 = ram m2" by blast
  have state: "ram m2 (er m 1 + 6) = ram m (er m 1 + 6)" using same assms(3) by (simp add: same_below_def)
  note guards = same_below_guards(1) [OF assms(2) same, of original cf]
  have "if guards_hold s original cf (ram m)
       then \<exists>d. policy_request s original (ram m (er m 1 + 6)) (ram m) d
         \<and> same_below ?b (reset_buffers s (switched s (ram m (er m 1 + 6)) (ram m))) (ram d)
         \<and> ram m3 = wr (ram (oem (site_dispatcher s) d)) (cpu_address (site_acquisition s)) original
         \<and> l = (if low 8 (oem (site_dispatcher s) d) = 0 then At ''acknowledge'' else At ''invalid'')
       else l = At ''invalid'' \<and> same_below ?b (ram m) (ram m3)"
  proof (cases "guards_hold s original cf (ram m)")
    case True
    with guards last state obtain d where d: "dispatched s ?b (switched s (ram m (er m 1 + 6)) (ram m2)) d"
      "ram m3 = wr (ram (oem (site_dispatcher s) d)) (cpu_address (site_acquisition s)) original"
      "l = (if low 8 (oem (site_dispatcher s) d) = 0 then At ''acknowledge'' else At ''invalid'')" by auto
    from dispatched_request [OF assms(2) same d(1)] guards True
    have "policy_request s original (ram m (er m 1 + 6)) (ram m) d" by blast
    moreover have "same_below ?b (reset_buffers s (switched s (ram m (er m 1 + 6)) (ram m))) (ram d)"
      using same_below_stack [OF stack_members same_below_reset [OF assms(2) same_below_switched [OF same]], of 32] d(1)
      by (simp add: dispatched_def)
    ultimately show ?thesis using True d(2,3) by (simp only: if_True) blast
  next
    case False
    with guards last same show ?thesis by simp
  qed
  with go_then [OF i(1) three(1)] three(2) show ?thesis by blast
qed

end
