(* ===== verification/Renesas_Serve.thy ===== *)
theory Renesas_Serve
  imports Renesas_Run
begin

text \<open>
  The command hook executed on a whole command: from its entry, with a CDB at ER1, to the return or
  the jump into the OEM handler.
\<close>

unbundle bit_operations_syntax

section \<open>The comparisons\<close>

text \<open>The CDB ER1 points to, and a machine that knows at least what the routing knows.\<close>

definition cdb_here :: "bytes \<Rightarrow> machine \<Rightarrow> bool" where
  "cdb_here cdb m \<longleftrightarrow> list_all (\<lambda>i. ram m (er m 1 + of_nat i) = cdb ! i) [0..<length cdb]"

definition knows :: "flags \<Rightarrow> machine \<Rightarrow> bool" where
  "knows st m \<longleftrightarrow> (case fst st of None \<Rightarrow> True | Some x \<Rightarrow> low 10 m = x) \<and> (case snd st of None \<Rightarrow> True | Some z \<Rightarrow> zf m = z)"

definition one_byte :: "u32 \<Rightarrow> bool" where
  "one_byte v \<longleftrightarrow> ucast (ucast v :: u8) = v"

text \<open>A step that stores nothing and leaves ER1 and ER7 alone.\<close>

fun quiet :: "h8_operand list \<Rightarrow> bool" where
  "quiet [Address (Displacement (RegLong b) d w), Register (RegByte r), OpNone] \<longleftrightarrow> True"
| "quiet [Immediate v w, Register (RegByte r), OpNone] \<longleftrightarrow> one_byte v"
| "quiet [Immediate v w, Register (RegLong r), OpNone] \<longleftrightarrow> r = 2"
| "quiet _ \<longleftrightarrow> False"

definition harmless :: "asm_step \<Rightarrow> bool" where
  "harmless s = (case s of Instruction i \<Rightarrow> quiet (operands i) | _ \<Rightarrow> True)"

definition same_but_2 :: "machine \<Rightarrow> machine \<Rightarrow> bool" where
  "same_but_2 m m' \<longleftrightarrow> ram m' = ram m \<and> (\<forall>q. q \<noteq> 2 \<longrightarrow> er m' q = er m q)"

lemma same_but_2_refl [simp]: "same_but_2 m m"
  by (simp add: same_but_2_def)

lemma same_but_2_trans: "same_but_2 m m' \<Longrightarrow> same_but_2 m' m'' \<Longrightarrow> same_but_2 m m''"
  by (simp add: same_but_2_def)

lemma cdb_here_same: "same_but_2 m m' \<Longrightarrow> cdb_here cdb m' = cdb_here cdb m"
  by (simp add: same_but_2_def cdb_here_def)

lemma route_insn_sound:
  assumes "route_insn cdb insn st = Some st'" "harmless (Instruction insn)" "cdb_here cdb m" "knows st m"
  shows "\<exists>m'. execute insn m = Some m' \<and> knows st' m' \<and> same_but_2 m m' \<and> \<not> is_rts insn"
proof -
  from assms(2) have "quiet (operands insn)" by (simp add: harmless_def)
  then show ?thesis
  proof (cases rule: quiet.elims(2))
    case (1 b off w r)
    note load = this
    with assms(1) have here: "mnemonic insn = ''MOV''" "b = 1" "r = 10" "0 \<le> off" "nat off < length cdb"
      "st' = (Some (cdb ! nat off), Some (cdb ! nat off = 0))"
      by (auto simp: route_insn_def split: if_splits)
    with assms(3) have "ram m (er m 1 + of_int off) = cdb ! nat off"
      by (auto simp: cdb_here_def list_all_iff dest!: bspec [where x = "nat off"])
    with load here show ?thesis
      by (simp add: execute_def knows_def same_but_2_def low_put_low is_rts_def)
  next
    case (2 v w r)
    note test = this
    from test(1) assms(1) obtain x where "mnemonic insn = ''CMP''" "r = 10" "fst st = Some x" "st' = (Some x, Some (ucast x = v))"
      by (auto simp: route_insn_def split: if_splits option.splits)
    moreover from this assms(4) have "low 10 m = x" by (simp add: knows_def)
    moreover have "x = ucast v \<longleftrightarrow> ucast x = v" using test(2) by (metis one_byte_def ucast_u8_back)
    ultimately show ?thesis using test
      by (simp add: execute_def knows_def same_but_2_def is_rts_def)
  next
    case (3 v w r)
    with assms(1) show ?thesis
      by (auto simp: route_insn_def execute_def knows_def same_but_2_def is_rts_def split: if_splits)
  qed
qed

lemma route_exec:
  "route cdb ss st = Some l \<Longrightarrow> list_all harmless ss \<Longrightarrow> cdb_here cdb m \<Longrightarrow> knows st m
   \<Longrightarrow> \<exists>m'. exec oem ss m = Some (At l, m') \<and> same_but_2 m m'"
proof (induction cdb ss st arbitrary: m rule: route.induct)
  case (4 cdb insn ss st)
  then obtain st' where st': "route_insn cdb insn st = Some st'" "route cdb ss st' = Some l" by (auto split: option.splits)
  from 4 have "harmless (Instruction insn)" "cdb_here cdb m" "knows st m" by simp_all
  from route_insn_sound [OF st'(1) this] obtain m1 where
    m1: "execute insn m = Some m1" "knows st' m1" "same_but_2 m m1" "\<not> is_rts insn" by blast
  with 4 cdb_here_same have "list_all harmless ss" "cdb_here cdb m1" by auto
  from 4(1) [OF st'(1) st'(2) this m1(2)] obtain m2 where "exec oem ss m1 = Some (At l, m2)" "same_but_2 m1 m2" by blast
  with m1 same_but_2_trans show ?case by auto
qed (auto simp: knows_def holds_if_def split: option.splits if_splits)

lemma harmless_steps:
  "harmless (cdb_byte n)" "harmless (compare_byte v)" "harmless (Branch c l)" "harmless (Label l)" "harmless (imm 2 w)"
  by (simp_all add: harmless_def cdb_byte_def compare_byte_def emit_op_def imm_def one_byte_def ucast_u8_back)

lemma exec_more: "exec oem (xs @ [Label l]) m = Some r \<Longrightarrow> exec oem (xs @ Label l # ss) m = Some r"
proof (induction xs arbitrary: m)
  case (Cons x xs)
  then show ?case by (cases x) (auto split: if_splits option.splits)
qed simp

text \<open>The frame of the hook: the first word of the stack saves ER2.\<close>

definition entered :: "machine \<Rightarrow> machine \<Rightarrow> bool" where
  "entered m m' \<longleftrightarrow> ram m' = wr (ram m) (er m 7 - 4) (er m 2) \<and> er m' 7 = er m 7 - 4 \<and> (\<forall>q. q \<noteq> 2 \<and> q \<noteq> 7 \<longrightarrow> er m' q = er m q)"

definition cdb_apart :: "nat \<Rightarrow> machine \<Rightarrow> bool" where
  "cdb_apart n m \<longleftrightarrow> list_all (\<lambda>i. list_all (outside (er m 1 + of_nat i)) (stack_words (er m 7 - 4))) [0..<n]"

lemma run_frame:
  assumes "length cdb = 10" "cdb_here cdb m" "cdb_apart 10 m"
  obtains m' where "exec oem (hook_code Suppress s main helper invalid original cf) m = Some (At (frame_decision cdb), m')"
    "entered m m'" "cdb_here cdb m'"
proof -
  let ?tests = "tl (hook_frame Suppress)"
  let ?m = "(put 7 (er m 7 - 4) m)\<lparr> ram := wr (ram m) (er m 7 - 4) (er m 2), zf := (er m 2 = 0) \<rparr>"
  have top: "er m 7 - 4 \<in> set (stack_words (er m 7 - 4))" by (simp add: stack_words_def)
  have cdb: "cdb_here cdb ?m"
    using assms top by (auto simp: cdb_here_def cdb_apart_def list_all_iff wr_outside)
  have frame: "hook_frame Suppress = push 2 # ?tests" by (simp add: hook_frame_def routing_enter_def)
  have "route cdb (?tests @ [Label ''transition'']) (None, None) = Some (frame_decision cdb)"
    using route_frame [OF assms(1), of "[]"] frame by (metis append_Cons fst_conv route_push)
  moreover have "list_all harmless (?tests @ [Label ''transition''])"
    unfolding hook_frame_def routing_enter_def op_cdb_bytes
    by (simp add: harmless_steps CDB_VERB_def CDB_FEATURE_def require_byte_def)
  ultimately obtain m' where m': "exec oem (?tests @ [Label ''transition'']) ?m = Some (At (frame_decision cdb), m')" "same_but_2 ?m m'"
    using route_exec [OF _ _ cdb, where oem = oem] by (force simp: knows_def)
  have "hook_code Suppress s main helper invalid original cf = push 2 # ?tests @ Label ''transition''
      # tl (hook_wait s) @ hook_policy s original cf @ hook_reinitialize s original
      @ hook_reply Suppress helper @ hook_identity invalid main"
    using frame by (simp add: hook_code_def hook_wait_def)
  then have "exec oem (hook_code Suppress s main helper invalid original cf) m = Some (At (frame_decision cdb), m')"
    using exec_more [OF m'(1)] by (simp add: exec_simple)
  moreover have "entered m m'" using m'(2) by (simp add: entered_def same_but_2_def)
  moreover have "cdb_here cdb m'" using cdb cdb_here_same [OF m'(2)] by blast
  ultimately show thesis by (rule that)
qed

section \<open>The exits\<close>

lemma exit_at:
  fixes s main helper invalid original cf
  defines "code \<equiv> hook_code Suppress s main helper invalid original cf"
  shows "segment code ''reply'' = segment (hook_reply Suppress helper) ''reply'' @ hook_identity invalid main"
    and "segment code ''identity'' = segment (hook_identity invalid main) ''identity''"
    and "segment code ''invalid'' = segment (hook_identity invalid main) ''invalid''"
    and "segment code ''foundation_oem'' = segment (hook_identity invalid main) ''foundation_oem''"
  by (simp_all add: code_def hook_code_def segment_append hook_labels)

lemma run_acknowledge:
  "exec oem (segment (hook_code Suppress s main helper invalid original cf) ''acknowledge'') m
     = Some (At ''reply'', (put 2 0x00333330 m)\<lparr> zf := False \<rparr>)"
  by (simp add: hook_at hook_reply_def segment_Cons exec_imm)

text \<open>What the transfer helper is asked for: 64 bytes, from the address in ER2.\<close>

definition reply_request :: "u32 \<Rightarrow> machine \<Rightarrow> bool" where
  "reply_request p h \<longleftrightarrow> er h 2 = p \<and> low 9 h = 0 \<and> rd (ram h) (er h 7) = 64"

text \<open>The reply before and after the helper is called.\<close>

definition request_code :: "asm_step list" where
  "request_code = [push 3, imm 3 64, push 3, clear_byte 9]"

definition leave_code :: "asm_step list" where
  "leave_code = [emit_op ''ADDS'' (Some SizeLong) (Immediate 4 0) (Register (RegLong 7)), pop 3, pop 2, rts]"

lemma exec_request:
  "\<exists>h. exec oem (request_code @ Transfer 0x5e a # ss) m = exec oem ss (oem a h) \<and> reply_request (er m 2) h
     \<and> er h 7 = er m 7 - 8 \<and> (\<forall>q \<in> {4, 5, 6}. er h q = er m q)
     \<and> ram h = wr (wr (ram m) (er m 7 - 4) (er m 3)) (er m 7 - 8) 64"
  by (simp add: request_code_def exec_eval, intro exI conjI, rule refl) (simp_all add: reply_request_def low_put_low rd_wr)

lemma exec_leave:
  "\<exists>m'. exec oem (leave_code @ ss) r = Some (Returned, m') \<and> ram m' = ram r \<and> er m' 7 = er r 7 + 12
     \<and> er m' 3 = rd (ram r) (er r 7 + 4) \<and> er m' 2 = rd (ram r) (er r 7 + 8) \<and> (\<forall>q \<in> {4, 5, 6}. er m' q = er r q)"
  by (simp add: leave_code_def exec_eval) (simp add: add.commute)

text \<open>How the hook leaves: the stack and the registers a caller relies on are as at its entry.\<close>

definition kept :: "u8 list \<Rightarrow> machine \<Rightarrow> machine \<Rightarrow> bool" where
  "kept rs m m' \<longleftrightarrow> list_all (\<lambda>r. er m' r = er m r) rs"

lemma run_reply:
  assumes "polite oem" "er m 7 = b" "rd (ram m) b = w"
  obtains h m' where "exec oem (segment (hook_code Suppress s main helper invalid original cf) ''reply'') m = Some (Returned, m')"
    "reply_request (er m 2) h" "ram h = wr (wr (ram m) (b - 4) (er m 3)) (b - 8) 64" "ram m' = ram (oem helper h)"
    "er m' 7 = b + 4" "er m' 2 = w" "kept [3, 4, 5, 6] m m'"
proof -
  let ?rest = "Label ''refused'' # restore_registers @ Branch 0 ''invalid'' # hook_identity invalid main"
  have seg: "segment (hook_code Suppress s main helper invalid original cf) ''reply''
      = request_code @ Transfer 0x5e helper # leave_code @ ?rest"
    by (simp add: exit_at hook_reply_def segment_Cons request_code_def leave_code_def)
  obtain h where h: "exec oem (request_code @ Transfer 0x5e helper # leave_code @ ?rest) m = exec oem (leave_code @ ?rest) (oem helper h)"
      "reply_request (er m 2) h" "er h 7 = b - 8" "\<forall>q \<in> {4, 5, 6}. er h q = er m q"
      "ram h = wr (wr (ram m) (b - 4) (er m 3)) (b - 8) 64"
    using exec_request [of oem helper "leave_code @ ?rest" m] unfolding assms(2) by blast
  obtain m' where m': "exec oem (leave_code @ ?rest) (oem helper h) = Some (Returned, m')" "ram m' = ram (oem helper h)"
      "er m' 7 = er (oem helper h) 7 + 12" "er m' 3 = rd (ram (oem helper h)) (er (oem helper h) 7 + 4)"
      "er m' 2 = rd (ram (oem helper h)) (er (oem helper h) 7 + 8)" "\<forall>q \<in> {4, 5, 6}. er m' q = er (oem helper h) q"
    using exec_leave [of oem ?rest "oem helper h"] by blast
  have "rd (ram (oem helper h)) (b - 4) = er m 3" "rd (ram (oem helper h)) b = w"
    using polite_stack [OF assms(1), of 4 helper h] polite_stack [OF assms(1), of 8 helper h] h(3,5) assms(3)
    by (simp_all add: rd_wr rd_wr_other overlaps_def)
  moreover note polite_registers [OF assms(1), of _ helper h]
  ultimately have "er m' 7 = b + 4" "er m' 2 = w" "kept [3, 4, 5, 6] m m'"
    using m'(3-6) h(3,4) by (simp_all add: kept_def)
  with m'(1,2) h(1,2,5) seg that show thesis by simp
qed

lemma run_invalid:
  assumes "polite oem"
  obtains v m' where "exec oem (segment (hook_code Suppress s main helper invalid original cf) ''invalid'') m = Some (Returned, m')"
    "er m' 7 = er m 7 + 4" "kept [4, 5, 6] m m'" "low 8 m' = 1" "ram v = ram m" "ram m' = ram (oem invalid v)"
proof -
  have "\<exists>v m'. exec oem (segment (hook_code Suppress s main helper invalid original cf) ''invalid'') m = Some (Returned, m')
    \<and> er m' 7 = er m 7 + 4 \<and> kept [4, 5, 6] m m' \<and> low 8 m' = 1 \<and> ram v = ram m \<and> ram m' = ram (oem invalid v)"
    unfolding exit_at hook_identity_def identity_cdb_bytes
    by (rule exI [of _ "(put 2 (rd (ram m) (er m 7)) (put 7 (er m 7 + 4) m))\<lparr> zf := (rd (ram m) (er m 7) = 0) \<rparr>"])
      (simp add: segment_eval require_byte_def exec_eval kept_def low_put_low polite_registers [OF assms])
  with that show thesis by blast
qed

lemma run_oem:
  "exec oem (segment (hook_code Suppress s main helper invalid original cf) ''foundation_oem'') m
     = Some (Jumped main, (put 2 (rd (ram m) (er m 7)) (put 7 (er m 7 + 4) m))\<lparr> zf := (rd (ram m) (er m 7) = 0) \<rparr>)"
  unfolding exit_at hook_identity_def identity_cdb_bytes routing_oem_def
  by (simp add: segment_eval require_byte_def exec_eval rts_def)

text \<open>The identity command is checked to its last byte.\<close>

definition tested :: "nat \<Rightarrow> u8 \<Rightarrow> machine \<Rightarrow> machine" where
  "tested n v m = (let x = ram m (er m 1 + of_nat n) in (put_low 10 x m)\<lparr> zf := (x = v), carry := (x < v) \<rparr>)"

lemma tested_simps [simp]: "ram (tested n v m) = ram m" "q \<noteq> 2 \<Longrightarrow> er (tested n v m) q = er m q"
  by (simp_all add: tested_def Let_def)

lemma exec_require:
  "n < 2 ^ 31 \<Longrightarrow> exec oem (require_byte n v l @ ss) m
     = (if ram m (er m 1 + of_nat n) = v then exec oem ss (tested n v m) else Some (At l, tested n v m))"
  by (simp add: require_byte_def exec_simple low_put_low tested_def Let_def)

lemma run_identity:
  assumes "length cdb = 10" "cdb_here cdb m"
  obtains m' where "exec oem (segment (hook_code Suppress s main helper invalid original cf) ''identity'') m
      = Some (if drop 5 cdb = drop 5 (build_identity_cdb 64) then At ''reply'' else At ''invalid'', m')"
    "same_but_2 m m'" "drop 5 cdb = drop 5 (build_identity_cdb 64) \<Longrightarrow> er m' 2 = 0x00444440"
proof -
  from ten_bytes [OF assms(1)] obtain c0 c1 c2 c3 c4 c5 c6 c7 c8 c9
    where cdb: "cdb = [c0, c1, c2, c3, c4, c5, c6, c7, c8, c9]" .
  with assms(2) have bytes: "ram m (er m 1 + 5) = c5" "ram m (er m 1 + 6) = c6" "ram m (er m 1 + 7) = c7"
    "ram m (er m 1 + 8) = c8" "ram m (er m 1 + 9) = c9"
    by (simp_all add: cdb_here_def upt_rec)
  have "\<exists>m'. exec oem (segment (hook_code Suppress s main helper invalid original cf) ''identity'') m
      = Some (if drop 5 cdb = drop 5 (build_identity_cdb 64) then At ''reply'' else At ''invalid'', m')
    \<and> same_but_2 m m' \<and> (drop 5 cdb = drop 5 (build_identity_cdb 64) \<longrightarrow> er m' 2 = 0x00444440)"
    unfolding exit_at hook_identity_def identity_cdb_bytes cdb
    by (simp add: segment_Cons exec_require bytes exec_imm same_but_2_def)
  with that show thesis by blast
qed

section \<open>Every command is handled\<close>

lemma exits_return:
  assumes "polite oem" "l \<in> {At ''acknowledge'', At ''reply'', At ''invalid''}" "er x 7 = b"
  shows "\<exists>n m'. n \<le> 2 \<and> go oem (hook_code Suppress s main helper invalid original cf) n (l, x) = Some (Returned, m')
    \<and> er m' 7 = b + 4 \<and> kept [4, 5, 6] x m'"
proof -
  let ?code = "hook_code Suppress s main helper invalid original cf"
  have reply: "\<exists>m'. go oem ?code 1 (At ''reply'', y) = Some (Returned, m') \<and> er m' 7 = b + 4 \<and> kept [4, 5, 6] y m'"
    if "er y 7 = b" for y
    by (rule run_reply [OF assms(1) that refl, of s main helper invalid original cf]) (auto simp: kept_def)
  have refused: "\<exists>m'. go oem ?code 1 (At ''invalid'', x) = Some (Returned, m') \<and> er m' 7 = b + 4 \<and> kept [4, 5, 6] x m'"
    by (rule run_invalid [OF assms(1), of s main helper invalid original cf x]) (use assms(3) in \<open>auto intro: exI go_one\<close>)
  from reply [of "(put 2 0x00333330 x)\<lparr> zf := False \<rparr>"] assms(3) obtain m' where
    "go oem ?code 1 (At ''reply'', (put 2 0x00333330 x)\<lparr> zf := False \<rparr>) = Some (Returned, m')" "er m' 7 = b + 4" "kept [4, 5, 6] x m'"
    by (auto simp: kept_def)
  with go_then [OF go_one [OF run_acknowledge], where j = 1]
  have ack: "\<exists>m'. go oem ?code 2 (At ''acknowledge'', x) = Some (Returned, m') \<and> er m' 7 = b + 4 \<and> kept [4, 5, 6] x m'"
    by (auto simp: numeral_2_eq_2)
  from assms(2) consider "l = At ''acknowledge''" | "l = At ''reply''" | "l = At ''invalid''" by blast
  then show ?thesis
  proof cases
    case 1
    from ack show ?thesis unfolding 1 by (intro exI [of _ "2 :: nat"]) blast
  next
    case 2
    from reply [OF assms(3)] show ?thesis unfolding 2 by (intro exI [of _ "1 :: nat"]) simp
  next
    case 3
    from refused show ?thesis unfolding 3 by (intro exI [of _ "1 :: nat"]) simp
  qed
qed

lemma run_go: "exec oem code m = Some sm \<Longrightarrow> go oem code n sm = r \<Longrightarrow> run oem code n m = r"
  by (simp add: run_def)

lemma reaches_exit:
  assumes "polite oem" "length cdb = 10" "cdb_here cdb m" "stack_apart s (er m 7)" "take 4 cdb = [0x3C, 0x0E, 0xC0, 0xDE]"
  shows "\<exists>n l x. n \<le> 507 \<and> go oem (hook_code Suppress s main helper invalid original cf) n (At (frame_decision cdb), m) = Some (l, x)
    \<and> l \<in> {At ''acknowledge'', At ''reply'', At ''invalid''} \<and> er x 7 = er m 7 \<and> kept [4, 5, 6] m x"
proof -
  let ?code = "hook_code Suppress s main helper invalid original cf"
  have "frame_decision cdb \<in> {''acknowledge'', ''invalid'', ''identity'', ''transition''}"
    by (simp add: frame_decision_def assms(5))
  then consider (here) "frame_decision cdb \<in> {''acknowledge'', ''invalid''}" | (identity) "frame_decision cdb = ''identity''"
    | (transition) "frame_decision cdb = ''transition''"
    by blast
  then show ?thesis
  proof cases
    case here
    then show ?thesis by (intro exI [of _ 0] exI [of _ "At (frame_decision cdb)"] exI [of _ m]) (auto simp: kept_def)
  next
    case identity
    obtain x where "exec oem (segment ?code ''identity'') m
      = Some (if drop 5 cdb = drop 5 (build_identity_cdb 64) then At ''reply'' else At ''invalid'', x)" "same_but_2 m x"
      by (rule run_identity [OF assms(2,3)])
    with identity go_one [of oem ?code "''identity''" m] show ?thesis
      by (intro exI [of _ "1 :: nat"] exI [of _ "if drop 5 cdb = drop 5 (build_identity_cdb 64) then At ''reply'' else At ''invalid''"] exI [of _ x])
        (simp add: kept_def same_but_2_def)
  next
    case transition
    from transition_returns [OF assms(1,4), of main helper invalid original cf] transition show ?thesis
      by (fastforce simp: kept_def resumed_def)
  qed
qed

text \<open>
  C12. The installed hook handles every command. Whatever ten bytes the host sends, and whatever the
  OEM routines do within their calling convention (ER4 to ER7 and the stack above the stack pointer
  are kept), the hook comes to an end after at most 509 labels, the wait for the read engine
  included: a command outside the namespace is jumped into the OEM handler with every register and
  the stack pointer as they were, any other returns to the caller with the stack balanced and
  ER4, ER5 and ER6 as they were.
\<close>
theorem hook_returns:
  assumes "polite oem" "length cdb = 10" "cdb_here cdb m" "cdb_apart 10 m" "stack_apart s (er m 7 - 4)"
  shows "\<exists>n st m'. n \<le> 509 \<and> run oem (hook_code Suppress s main helper invalid original cf) n m = Some (st, m')
    \<and> kept [4, 5, 6, 7] m m'
    \<and> (if take 4 cdb = [0x3C, 0x0E, 0xC0, 0xDE] then st = Returned else st = Jumped main \<and> kept [0, 1, 2, 3] m m')"
proof -
  let ?code = "hook_code Suppress s main helper invalid original cf"
  obtain m1 where entry: "exec oem ?code m = Some (At (frame_decision cdb), m1)" and m1: "entered m m1" "cdb_here cdb m1"
    by (rule run_frame [OF assms(2-4)])
  from m1(1) have sp: "er m1 7 = er m 7 - 4" and top: "rd (ram m1) (er m 7 - 4) = er m 2" and same: "kept [0, 1, 3, 4, 5, 6] m m1"
    by (auto simp: entered_def kept_def rd_wr)
  show ?thesis
  proof (cases "take 4 cdb = [0x3C, 0x0E, 0xC0, 0xDE]")
    case False
    then have "frame_decision cdb = ''foundation_oem''" by (simp add: frame_decision_def)
    with run_go [OF entry] go_one [OF run_oem, of oem s main helper invalid original cf m1]
    have "run oem ?code 1 m = Some (Jumped main, (put 2 (er m 2) (put 7 (er m 7) m1))\<lparr> zf := (er m 2 = 0) \<rparr>)"
      using sp top by simp
    with False same show ?thesis
      by (intro exI [of _ "1 :: nat"] exI [of _ "Jumped main"] exI [of _ "(put 2 (er m 2) (put 7 (er m 7) m1))\<lparr> zf := (er m 2 = 0) \<rparr>"])
        (simp add: kept_def)
  next
    case True
    from reaches_exit [OF assms(1,2) m1(2) _ True, of s main helper invalid original cf] assms(5) sp obtain i l x where
      i: "i \<le> 507" "go oem ?code i (At (frame_decision cdb), m1) = Some (l, x)"
      and l: "l \<in> {At ''acknowledge'', At ''reply'', At ''invalid''}" "er x 7 = er m 7 - 4" "kept [4, 5, 6] m1 x"
      by auto
    from exits_return [OF assms(1) l(1,2), of s main helper invalid original cf] obtain j m2 where
      j: "j \<le> 2" "go oem ?code j (l, x) = Some (Returned, m2)" "er m2 7 = er m 7" "kept [4, 5, 6] x m2" by auto
    from run_go [OF entry go_then [OF i(2) j(2)]] i(1) j(1,3,4) l(3) same True show ?thesis
      by (intro exI [of _ "i + j"] exI [of _ Returned] exI [of _ m2]) (auto simp: kept_def)
  qed
qed

section \<open>The Encryption commands\<close>

lemma request_same:
  assumes "\<And>x. x \<in> set template_words \<Longrightarrow> rd M' x = rd M x" "policy_request s original state M' d"
  shows "policy_request s original state M d"
  using assms(2) assms(1) [of 16] assms(1) [of 20] assms(1) [of 24] assms(1) [of 28]
  by (simp add: policy_request_def template_words_def)

lemma cdb_byte_here: "cdb_here cdb m \<Longrightarrow> i < length cdb \<Longrightarrow> ram m (er m 1 + of_nat i) = cdb ! i"
  by (simp add: cdb_here_def list_all_iff)

lemma cdb_byte_apart: "cdb_apart n m \<Longrightarrow> i < n \<Longrightarrow> list_all (outside (er m 1 + of_nat i)) (stack_words (er m 7 - 4))"
  by (simp add: cdb_apart_def list_all_iff)

text \<open>The end of a transition that was carried out.\<close>

lemma acknowledge_ends:
  assumes "polite oem" "er x 7 = b" "rd (ram x) b = w"
  shows "\<exists>h m'. go oem (hook_code Suppress s main helper invalid original cf) 2 (At ''acknowledge'', x) = Some (Returned, m')
    \<and> reply_request 0x00333330 h \<and> ram h = wr (wr (ram x) (b - 4) (er x 3)) (b - 8) 64 \<and> ram m' = ram (oem helper h)
    \<and> er m' 7 = b + 4 \<and> er m' 2 = w \<and> kept [3, 4, 5, 6] x m'"
proof -
  let ?code = "hook_code Suppress s main helper invalid original cf" and ?y = "(put 2 0x00333330 x)\<lparr> zf := False \<rparr>"
  have y: "er ?y 7 = b" "rd (ram ?y) b = w" using assms(2,3) by simp_all
  obtain h m' where "exec oem (segment ?code ''reply'') ?y = Some (Returned, m')"
    "reply_request (er ?y 2) h" "ram h = wr (wr (ram ?y) (b - 4) (er ?y 3)) (b - 8) 64" "ram m' = ram (oem helper h)"
    "er m' 7 = b + 4" "er m' 2 = w" "kept [3, 4, 5, 6] ?y m'"
    by (rule run_reply [OF assms(1) y])
  moreover from this(1) go_then [OF go_one [OF run_acknowledge] go_one]
  have "go oem ?code 2 (At ''acknowledge'', x) = Some (Returned, m')" by (fastforce simp: numeral_2_eq_2)
  ultimately show ?thesis by (intro exI [of _ h] exI [of _ m']) (simp add: kept_def)
qed

lemma invalid_ends:
  assumes "polite oem"
  shows "\<exists>v m'. go oem (hook_code Suppress s main helper invalid original cf) 1 (At ''invalid'', x) = Some (Returned, m')
    \<and> er m' 7 = er x 7 + 4 \<and> kept [4, 5, 6] x m' \<and> low 8 m' = 1 \<and> ram v = ram x \<and> ram m' = ram (oem invalid v)"
  by (rule run_invalid [OF assms(1), of s main helper invalid original cf x]) (auto intro: exI go_one)

text \<open>
  C8. What an Encryption command does on the drive. With an idle read engine and the OEM or the
  payload's policy in place, the hook calls the OEM dispatcher with the CF descriptor at a moment
  when the policy slot holds the payload's table for OFF and the OEM table for ON and PASSTHROUGH,
  the acquisition slot the temporary callbacks for OFF only, both buffers the template words, and
  memory is otherwise as the command found it but for the hook's own stack. Whatever the dispatcher
  answers, the original acquisition callback is stored back over the memory the dispatcher left, and
  only then the command is ended: on success the OEM transfer helper is given the 64-byte reply, on
  failure the OEM error routine is called and the command returns an error. Nothing else has touched
  memory outside the hook's stack when that last routine is called, and what it leaves is what the
  command leaves; as this holds whatever the three routines do to memory, it also says that they are
  called in this order, that a failed command sends no reply and that a successful one does not call
  the error routine.
\<close>
theorem encryption_command_served:
  assumes "polite oem" "state \<in> {STATE_OFF, STATE_ON, STATE_PASSTHROUGH}"
    and "cdb_here (build_set_cdb Encryption state) m" "cdb_apart 10 m" "layout_apart s (er m 7 - 4)"
    and "engine_idle s (ram m)" "guards_hold s original cf (ram m)"
  shows "\<exists>n d e m'. run oem (hook_code Suppress s main helper invalid original cf) n m = Some (Returned, m')
    \<and> policy_request s original state (ram m) d \<and> kept [4, 5, 6, 7] m m'
    \<and> same_below (er m 7 - 4) (reset_buffers s (switched s state (ram m))) (ram d)
    \<and> same_below (er m 7 - 4) (wr (ram (oem (site_dispatcher s) d)) (cpu_address (site_acquisition s)) original) (ram e)
    \<and> (if low 8 (oem (site_dispatcher s) d) = 0
       then reply_request 0x00333330 e \<and> ram m' = ram (oem helper e) \<and> kept [2, 3] m m'
       else ram m' = ram (oem invalid e) \<and> low 8 m' = 1)"
proof -
  let ?code = "hook_code Suppress s main helper invalid original cf" and ?b = "er m 7 - 4"
  let ?cdb = "build_set_cdb Encryption state" and ?acq = "cpu_address (site_acquisition s)"
  have ten: "length ?cdb = 10" and frame: "frame_decision ?cdb = ''transition''" and sixth: "?cdb ! 6 = state"
    using assms(2) by (auto simp: frame_decision_def builder_defs cdb_bytes const_defs hi_lo_byte_64)
  obtain m1 where entry: "exec oem ?code m = Some (At (frame_decision ?cdb), m1)" and m1: "entered m m1" "cdb_here ?cdb m1"
    by (rule run_frame [OF ten assms(3,4)])
  from m1(1) have sp: "er m1 7 = ?b" and top: "rd (ram m1) ?b = er m 2" and same: "kept [0, 1, 3, 4, 5, 6] m m1"
    by (auto simp: entered_def kept_def rd_wr)
  have below: "same_below ?b (ram m) (ram m1)"
    using m1(1) by (auto simp: same_below_def entered_def stack_words_def wr_outside)
  note guards = same_below_guards [OF assms(5) below]
  have state: "ram m1 (er m1 1 + 6) = state" using cdb_byte_here [OF m1(2), of 6] ten sixth by simp
  have apart: "list_all (outside (er m1 1 + 6)) (stack_words ?b)"
    using cdb_byte_apart [OF assms(4), of 6] same by (simp add: kept_def)
  have spots: "layout_apart s (er m1 7)" "list_all (outside (er m1 1 + 6)) (stack_words (er m1 7))" "engine_idle s (ram m1)"
    using assms(5,6) apart guards(2) sp by simp_all
  from transition_switches_policy [OF assms(1) spots, of main helper invalid original cf] guards(1) assms(7) state obtain n l x d where
    n: "go oem ?code n (At ''transition'', m1) = Some (l, x)" and x: "resumed (er m1 7) (caller m1) x"
    and d: "policy_request s original state (ram m1) d"
    and before: "same_below ?b (reset_buffers s (switched s state (ram m1))) (ram d)" and rx: "ram x = wr (ram (oem (site_dispatcher s) d)) ?acq original"
    and l: "l = (if low 8 (oem (site_dispatcher s) d) = 0 then At ''acknowledge'' else At ''invalid'')" by (auto simp: sp)
  have memory: "same_below ?b (reset_buffers s (switched s state (ram m))) (ram d)"
    by (rule same_below_trans [OF same_below_reset [OF assms(5) same_below_switched [OF below]] before])
  have regs: "er x 7 = ?b" "rd (ram x) ?b = er m 2" "kept [3, 4, 5, 6] m x"
    using x sp top same by (simp_all add: resumed_def kept_def)
  have request: "policy_request s original state (ram m) d" using request_same [OF guards(3) d] by blast
  note there = run_go [OF entry [unfolded frame] go_then [OF n]]
  show ?thesis
  proof (cases "low 8 (oem (site_dispatcher s) d) = 0")
    case True
    from acknowledge_ends [OF assms(1) regs(1,2), of s main helper invalid original cf] obtain h m' where
      h: "go oem ?code 2 (At ''acknowledge'', x) = Some (Returned, m')" "reply_request 0x00333330 h"
        "ram h = wr (wr (ram x) (?b - 4) (er x 3)) (?b - 8) 64" "ram m' = ram (oem helper h)"
        "er m' 7 = ?b + 4" "er m' 2 = er m 2" "kept [3, 4, 5, 6] x m'" by blast
    have "same_below ?b (ram x) (ram h)"
      unfolding h(3) same_below_def by (simp add: stack_words_def wr_outside)
    with h regs(3) rx have "same_below ?b (wr (ram (oem (site_dispatcher s) d)) ?acq original) (ram h)"
      "kept [2, 3] m m'" "kept [4, 5, 6, 7] m m'" by (auto simp: kept_def)
    with there [of 2] h(1,2,4) l True request memory show ?thesis
      by (intro exI [of _ "n + 2"] exI [of _ d] exI [of _ h] exI [of _ m']) simp
  next
    case False
    from invalid_ends [OF assms(1), of s main helper invalid original cf x] obtain v m' where
      "go oem ?code 1 (At ''invalid'', x) = Some (Returned, m')" "er m' 7 = er x 7 + 4" "kept [4, 5, 6] x m'" "low 8 m' = 1"
      "ram v = ram x" "ram m' = ram (oem invalid v)" by blast
    with there [of 1] l False request regs memory rx show ?thesis
      by (intro exI [of _ "n + 1"] exI [of _ d] exI [of _ v] exI [of _ m']) (simp add: kept_def same_below_def)
  qed
qed

section \<open>A run on a concrete machine\<close>

definition obliging :: "u32 \<Rightarrow> machine \<Rightarrow> machine" where
  "obliging a m = m\<lparr> er := (er m)(0 := 0) \<rparr>"

lemma obliging_polite: "polite obliging"
  by (simp add: polite_def obliging_def)

text \<open>The source's fixture with an idle read engine, the OEM policy and a CDB at \<open>0x5000\<close>.\<close>

definition waiting :: machine where
  "waiting = \<lparr>
     er = (\<lambda>_. 0)(1 := 0x5000, 7 := 0xffe000),
     ram = (\<lambda>a. if a - 0x5000 < 10 then build_set_cdb Encryption STATE_OFF ! unat (a - 0x5000)
       else wr (wr (wr (\<lambda>_. 0) 0x13b6 0x5b8fe4) 0xa0a966 0x5bf4ac) 0xa0b6c8 0x5cf000 a),
     zf = False, carry = False \<rparr>"

lemma waiting_ready:
  "cdb_here (build_set_cdb Encryption STATE_OFF) waiting" "cdb_apart 10 waiting" "layout_apart fixture 0xffdffc"
  "engine_idle fixture (ram waiting)" "guards_hold fixture 0x5bf4ac 0x5cf000 (ram waiting)" "er waiting 7 - 4 = 0xffdffc"
  by code_simp+

lemma off_command: "length (build_set_cdb Encryption STATE_OFF) = 10"
  "take 4 (build_set_cdb Encryption STATE_OFF) = [0x3C, 0x0E, 0xC0, 0xDE]"
  by code_simp+

lemma hook_returns_witness:
  "polite obliging \<and> (\<exists>n st m'. n \<le> 509
     \<and> run obliging (hook_code Suppress fixture 0x446000 0x447000 0x448000 0x5bf4ac 0x5cf000) n waiting = Some (st, m')
     \<and> kept [4, 5, 6, 7] waiting m' \<and> st = Returned)"
  using hook_returns [OF obliging_polite _ waiting_ready(1,2), of fixture "0x446000" "0x447000" "0x448000" "0x5bf4ac" "0x5cf000"]
    layout_stack [OF waiting_ready(3)] obliging_polite
  by (simp add: waiting_ready(6) off_command)

lemma encryption_command_served_witness:
  "\<exists>n (d :: machine) h m'. run obliging (hook_code Suppress fixture 0x446000 0x447000 0x448000 0x5bf4ac 0x5cf000) n waiting = Some (Returned, m')
     \<and> rd (ram d) 0x13b6 = 0x00777770 \<and> rd (ram d) 0xa0a966 = 0x00111110
     \<and> reply_request 0x00333330 h \<and> kept [2, 3] waiting m'"
proof -
  have sites: "site_security_slot fixture = 0x13b6" "cpu_address (site_acquisition fixture) = 0xa0a966" by (simp_all add: fixture_def)
  have "layout_apart fixture (er waiting 7 - 4)" using waiting_ready(3,6) by simp
  from encryption_command_served [OF obliging_polite _ waiting_ready(1,2) this waiting_ready(4,5), of "0x446000" "0x447000" "0x448000"]
  obtain n d e m' where run: "run obliging (hook_code Suppress fixture 0x446000 0x447000 0x448000 0x5bf4ac 0x5cf000) n waiting = Some (Returned, m')"
    and d: "policy_request fixture 0x5bf4ac STATE_OFF (ram waiting) d"
    and last: "if low 8 (obliging (site_dispatcher fixture) d) = 0
       then reply_request 0x00333330 e \<and> ram m' = ram (obliging 0x447000 e) \<and> kept [2, 3] waiting m'
       else ram m' = ram (obliging 0x448000 e) \<and> low 8 m' = 1" by auto
  from d have "rd (ram d) 0x13b6 = 0x00777770" "rd (ram d) 0xa0a966 = 0x00111110" by (simp_all add: policy_request_def sites)
  moreover from last have "reply_request 0x00333330 e" "kept [2, 3] waiting m'" by (simp_all add: low_def obliging_def)
  ultimately show ?thesis using run by (intro exI [of _ n] exI [of _ d] exI [of _ e] exI [of _ m']) simp
qed

end
