(* ===== verification/Renesas_Wrapper.thy ===== *)
theory Renesas_Wrapper
  imports Renesas_Serve Vid
begin

text \<open>
  The Volume ID wrapper executed on a READ DISC STRUCTURE command: what the transfer helper is
  given, and what is left in the reply buffer.
\<close>

unbundle bit_operations_syntax

section \<open>Copying and wiping\<close>

definition copy_code :: "u32 \<Rightarrow> nat list \<Rightarrow> asm_step list" where
  "copy_code source ns = concat (map (\<lambda>offset.
     [emit_op ''MOV'' (Some SizeByte) (Address (Absolute (source + of_nat offset) 32)) (Register (RegByte 10)),
      emit_op ''MOV'' (Some SizeByte) (Register (RegByte 10)) (Address (Displacement (RegLong 4) (int offset + 4) 16))]) ns)"

definition wipe_code :: "nat list \<Rightarrow> asm_step list" where
  "wipe_code ns = map (\<lambda>offset. emit_op ''MOV'' (Some SizeByte) (Register (RegByte 10)) (Address (Displacement (RegLong 4) (int offset) 16))) ns"

text \<open>What the loops make of memory, byte by byte.\<close>

definition copy_bytes :: "u32 \<Rightarrow> u32 \<Rightarrow> nat list \<Rightarrow> memory \<Rightarrow> memory" where
  "copy_bytes dest source ns M = fold (\<lambda>n M. M(dest + of_nat n := M (source + of_nat n))) ns M"

definition wipe_bytes :: "u32 \<Rightarrow> nat list \<Rightarrow> memory \<Rightarrow> memory" where
  "wipe_bytes dest ns M = fold (\<lambda>n M. M(dest + of_nat n := 0)) ns M"

lemma exec_copy_code:
  "\<exists>m'. exec oem (copy_code source ns @ ss) m = exec oem ss m'
     \<and> ram m' = copy_bytes (er m 4 + 4) source ns (ram m) \<and> (\<forall>q. q \<noteq> 2 \<longrightarrow> er m' q = er m q)"
proof (induction ns arbitrary: m)
  case Nil
  show ?case by (intro exI [of _ m]) (simp add: copy_code_def copy_bytes_def)
next
  case (Cons n ns)
  have "\<exists>m1. exec oem (copy_code source (n # ns) @ ss) m = exec oem (copy_code source ns @ ss) m1
      \<and> ram m1 = (ram m)(er m 4 + 4 + of_nat n := ram m (source + of_nat n)) \<and> (\<forall>q. q \<noteq> 2 \<longrightarrow> er m1 q = er m q)"
    by (simp add: copy_code_def exec_emit execute_def, intro exI conjI, rule refl) (simp_all add: low_put_low algebra_simps)
  then obtain m1 where m1: "exec oem (copy_code source (n # ns) @ ss) m = exec oem (copy_code source ns @ ss) m1"
    "ram m1 = (ram m)(er m 4 + 4 + of_nat n := ram m (source + of_nat n))" "\<forall>q. q \<noteq> 2 \<longrightarrow> er m1 q = er m q" by blast
  obtain m2 where "exec oem (copy_code source ns @ ss) m1 = exec oem ss m2"
    "ram m2 = copy_bytes (er m1 4 + 4) source ns (ram m1)" "\<forall>q. q \<noteq> 2 \<longrightarrow> er m2 q = er m1 q"
    using Cons.IH [of m1] by blast
  with m1 show ?case by (intro exI [of _ m2]) (simp add: copy_bytes_def)
qed

lemma exec_wipe_code:
  "low 10 m = 0 \<Longrightarrow> \<exists>m'. exec oem (wipe_code ns @ ss) m = exec oem ss m'
     \<and> ram m' = wipe_bytes (er m 4) ns (ram m) \<and> er m' = er m"
proof (induction ns arbitrary: m)
  case Nil
  show ?case by (intro exI [of _ m]) (simp add: wipe_code_def wipe_bytes_def)
next
  case (Cons n ns)
  let ?m1 = "m\<lparr> ram := (ram m)(er m 4 + of_nat n := 0), zf := True \<rparr>"
  have "exec oem (wipe_code (n # ns) @ ss) m = exec oem (wipe_code ns @ ss) ?m1"
    using Cons.prems by (simp add: wipe_code_def exec_emit execute_def)
  moreover obtain m2 where "exec oem (wipe_code ns @ ss) ?m1 = exec oem ss m2"
    "ram m2 = wipe_bytes (er ?m1 4) ns (ram ?m1)" "er m2 = er ?m1"
    using Cons.IH [of ?m1] Cons.prems by (fastforce simp: low_def)
  ultimately show ?case by (intro exI [of _ m2]) (simp add: wipe_bytes_def)
qed

definition spots :: "u32 \<Rightarrow> nat list \<Rightarrow> u32 set" where
  "spots dest ns = (\<lambda>n. dest + of_nat n) ` set ns"

lemma wipe_bytes_eq: "wipe_bytes dest ns M x = (if x \<in> spots dest ns then 0 else M x)"
  unfolding wipe_bytes_def spots_def by (induction ns arbitrary: M) auto

lemma copy_bytes_eq:
  "spots source ns \<inter> spots dest ns = {}
   \<Longrightarrow> copy_bytes dest source ns M x = (if x \<in> spots dest ns then M (x - dest + source) else M x)"
proof (induction ns arbitrary: M)
  case Nil
  show ?case by (simp add: copy_bytes_def spots_def)
next
  case (Cons k ns)
  let ?M = "M(dest + of_nat k := M (source + of_nat k))"
  have other: "source + of_nat n \<noteq> dest + of_nat k" if "n \<in> set ns" for n
  proof -
    have "source + of_nat n \<in> spots source (k # ns)" "dest + of_nat k \<in> spots dest (k # ns)"
      using that by (simp_all add: spots_def)
    with Cons.prems show ?thesis by (metis disjoint_iff)
  qed
  have "copy_bytes dest source (k # ns) M x = copy_bytes dest source ns ?M x" by (simp add: copy_bytes_def)
  also have "\<dots> = (if x \<in> spots dest ns then ?M (x - dest + source) else ?M x)"
    using Cons.prems by (intro Cons.IH) (auto simp: spots_def)
  also have "\<dots> = (if x \<in> spots dest (k # ns) then M (x - dest + source) else M x)"
    using other by (auto simp: spots_def add.commute)
  finally show ?case .
qed

section \<open>The listing\<close>

lemma wrapper_labels:
  "labels (vid_wrapper_checks s) = []" "labels (vid_wrapper_copy s) = [''vid_length'']" "labels (vid_wrapper_send helper) = []"
  unfolding vid_wrapper_checks_def vid_wrapper_copy_def vid_wrapper_send_def
  by (simp_all add: listing require_byte_def del: upt_rec_numeral) (simp_all add: labels_def label_of_def emit_op_def comp_def)

lemma segment_length:
  "segment (vid_wrapper_code s helper invalid) ''vid_length'' =
     [emit_op ''MOV'' (Some SizeByte) (Address (Absolute (vid_status (site_vid s)) 32)) (Register (RegByte 10)),
      emit_op ''AND'' (Some SizeByte) (Immediate 2 8) (Register (RegByte 10)),
      Branch 7 ''vid_unavailable'',
      imm 4 0x00888880] @ copy_code (vid_source (site_vid s)) [0..<16]
     @ [emit_op ''MOV'' (Some SizeLong) (Register (RegLong 4)) (Register (RegLong 2)),
        emit_op ''SUB'' (Some SizeLong) (Immediate 0xa00000 32) (Register (RegLong 2)),
        push 3, clear_byte 9, Transfer 0x5e helper,
        emit_op ''ADDS'' (Some SizeLong) (Immediate 4 0) (Register (RegLong 7)), clear_byte 10]
     @ wipe_code [4..<20] @ Branch 0 ''vid_return'' # vid_wrapper_exits s invalid"
  unfolding vid_wrapper_code_def
  by (simp add: segment_append wrapper_labels vid_wrapper_send_def wipe_code_def del: upt_rec_numeral)
    (simp add: vid_wrapper_copy_def copy_code_def segment_Cons del: upt_rec_numeral)

lemma segment_exits:
  "segment (vid_wrapper_code s helper invalid) ''vid_return''
     = [pop 4, pop 3, pop 2, rts] @ drop 7 (vid_wrapper_exits s invalid)"
  "segment (vid_wrapper_code s helper invalid) ''vid_empty''
     = [clear_byte 8, Label ''vid_return'', pop 4, pop 3, pop 2, rts] @ drop 7 (vid_wrapper_exits s invalid)"
  unfolding vid_wrapper_code_def
  by (simp_all add: segment_append wrapper_labels) (simp_all add: vid_wrapper_exits_def segment_Cons)

section \<open>A Volume ID read\<close>

text \<open>
  The places the wrapper reads and its reply buffer are apart from its stack, and the Volume ID is
  not in the reply buffer.
\<close>

definition reply_at :: u32 where
  "reply_at = 0x00888880"

definition vid_apart :: "sites \<Rightarrow> u32 \<Rightarrow> bool" where
  "vid_apart s b \<longleftrightarrow> list_all (\<lambda>y. \<not> overlaps (site_security_slot s) y \<and> outside (vid_status (site_vid s)) y
       \<and> list_all (\<lambda>i. outside (vid_source (site_vid s) + of_nat i) y \<and> outside (reply_at + 4 + of_nat i) y) [0..<16]) (stack_words b)
     \<and> list_all (\<lambda>i. list_all (\<lambda>j. vid_source (site_vid s) + of_nat i \<noteq> reply_at + 4 + of_nat j) [0..<16]) [0..<16]"

lemma low_word: "(x AND NOT (mask 16) OR ucast (v :: u16)) AND mask 16 = (ucast v :: u32)"
  by (rule bit_word_eqI) (auto simp: bit_simps dest: bit_imp_le_length)

lemma run_checks:
  assumes "cdb_here build_vid_cdb m" "cdb_apart 12 m" "vid_apart s (er m 7 - 4)" "rd (ram m) (site_security_slot s) = 0x00999990"
  shows "\<exists>m'. exec oem (vid_wrapper_code s helper invalid) m = Some (At ''vid_length'', m')
    \<and> er m' 3 = 36 \<and> er m' 7 = er m 7 - 12 \<and> er m' 5 = er m 5 \<and> er m' 6 = er m 6
    \<and> ram m' = wr (wr (wr (ram m) (er m 7 - 4) (er m 2)) (er m 7 - 8) (er m 3)) (er m 7 - 12) (er m 4)"
proof -
  have bytes: "ram m (er m 1) = 0xAD" "ram m (er m 1 + 1) = 1" "ram m (er m 1 + 2) = 0" "ram m (er m 1 + 3) = 0"
    "ram m (er m 1 + 4) = 0" "ram m (er m 1 + 5) = 0" "ram m (er m 1 + 6) = 0" "ram m (er m 1 + 7) = 0x80"
    "ram m (er m 1 + 8) = 0" "ram m (er m 1 + 9) = 36" "ram m (er m 1 + 10) = 0" "ram m (er m 1 + 11) = 0"
    using assms(1) by (simp_all add: build_vid_cdb_bytes cdb_here_def upt_rec)
  have clear: "outside (er m 1 + of_nat i) (er m 7 - k)" if "i < 12" "k \<in> {4, 8, 12}" for i k
    using cdb_byte_apart [OF assms(2) that(1)] that(2) by (auto simp: stack_words_def)
  note clears = clear [of 0 4, simplified] clear [of 1 4, simplified] clear [of 2 4, simplified] clear [of 3 4, simplified]
    clear [of 4 4, simplified] clear [of 5 4, simplified] clear [of 6 4, simplified] clear [of 7 4, simplified]
    clear [of 8 4, simplified] clear [of 9 4, simplified] clear [of 10 4, simplified] clear [of 11 4, simplified]
    clear [of 8 8, simplified] clear [of 9 8, simplified] clear [of 8 12, simplified] clear [of 9 12, simplified]
  have "\<not> overlaps (site_security_slot s) (er m 7 - 4)" using assms(3) by (simp add: vid_apart_def stack_words_def)
  then have slot: "rd (wr (ram m) (er m 7 - 4) (er m 2)) (site_security_slot s) = 0x00999990" using assms(4) by (simp add: rd_wr_other)
  have word: "from_be16 0 36 = 36" by code_simp
  show ?thesis
    unfolding vid_wrapper_code_def vid_wrapper_checks_def
    by (simp add: exec_simple exec_require exec_imm exec_emit execute_def bytes clears wr_outside slot
        vid_wrapper_copy_def low_word [where v = 36, simplified] add.assoc word Let_def low_put_low del: upt_rec_numeral)
qed

lemma exec_available:
  assumes "ram m (vid_status (site_vid s)) AND 2 \<noteq> 0"
  shows "\<exists>m1. exec oem ([emit_op ''MOV'' (Some SizeByte) (Address (Absolute (vid_status (site_vid s)) 32)) (Register (RegByte 10)),
      emit_op ''AND'' (Some SizeByte) (Immediate 2 8) (Register (RegByte 10)),
      Branch 7 ''vid_unavailable'', imm 4 0x00888880] @ ss) m = exec oem ss m1
    \<and> ram m1 = ram m \<and> er m1 4 = reply_at \<and> (\<forall>q \<in> {3, 5, 6, 7}. er m1 q = er m q)"
  by (insert assms, simp add: exec_emit exec_imm execute_def low_put_low, intro exI conjI, rule refl) (simp_all add: reply_at_def)

text \<open>What the transfer helper is asked for: 36 bytes from the reply buffer, as the drive's controller sees it.\<close>

definition vid_request :: "machine \<Rightarrow> bool" where
  "vid_request h \<longleftrightarrow> er h 2 = reply_at - 0xa00000 \<and> low 9 h = 0 \<and> rd (ram h) (er h 7) = 36"

lemma exec_send:
  assumes "er m 4 = reply_at" "er m 3 = 36"
  shows "\<exists>h. exec oem ([emit_op ''MOV'' (Some SizeLong) (Register (RegLong 4)) (Register (RegLong 2)),
      emit_op ''SUB'' (Some SizeLong) (Immediate 0xa00000 32) (Register (RegLong 2)),
      push 3, clear_byte 9] @ Transfer 0x5e helper # ss) m = exec oem ss (oem helper h)
    \<and> vid_request h \<and> ram h = wr (ram m) (er m 7 - 4) 36 \<and> er h 7 = er m 7 - 4 \<and> (\<forall>q \<in> {4, 5, 6}. er h q = er m q)"
  by (insert assms, simp add: exec_simple exec_clear exec_emit execute_def, intro exI conjI, rule refl)
    (simp_all add: vid_request_def low_put_low rd_wr)

lemma exec_wipe:
  "\<exists>m'. exec oem (emit_op ''ADDS'' (Some SizeLong) (Immediate 4 0) (Register (RegLong 7)) # clear_byte 10
      # wipe_code ns @ Branch 0 l # ss) r = Some (At l, m')
    \<and> ram m' = wipe_bytes (er r 4) ns (ram r) \<and> er m' 7 = er r 7 + 4 \<and> (\<forall>q \<in> {5, 6}. er m' q = er r q)"
proof -
  let ?m = "(put_low 10 0 (put 7 (er r 7 + 4) r))\<lparr> zf := True, carry := False \<rparr>"
  have "low 10 ?m = 0" by (simp add: low_put_low)
  from exec_wipe_code [OF this, of oem ns "Branch 0 l # ss"] obtain m' where
    "exec oem (wipe_code ns @ Branch 0 l # ss) ?m = exec oem (Branch 0 l # ss) m'"
    "ram m' = wipe_bytes (er ?m 4) ns (ram ?m)" "er m' = er ?m" by blast
  then show ?thesis by (intro exI [of _ m']) (simp add: exec_emit execute_def exec_clear)
qed

lemma run_available:
  assumes "polite oem" "er m 3 = 36" "ram m (vid_status (site_vid s)) AND 2 \<noteq> 0"
  shows "\<exists>h m'. exec oem (segment (vid_wrapper_code s helper invalid) ''vid_length'') m = Some (At ''vid_return'', m')
    \<and> vid_request h \<and> er h 7 = er m 7 - 4
    \<and> ram h = wr (copy_bytes (reply_at + 4) (vid_source (site_vid s)) [0..<16] (ram m)) (er m 7 - 4) 36
    \<and> ram m' = wipe_bytes reply_at [4..<20] (ram (oem helper h)) \<and> (\<forall>q \<in> {5, 6, 7}. er m' q = er m q)"
proof -
  let ?tail = "Branch 0 ''vid_return'' # vid_wrapper_exits s invalid"
  let ?wipe = "emit_op ''ADDS'' (Some SizeLong) (Immediate 4 0) (Register (RegLong 7)) # clear_byte 10 # wipe_code [4..<20] @ ?tail"
  let ?send = "[emit_op ''MOV'' (Some SizeLong) (Register (RegLong 4)) (Register (RegLong 2)),
      emit_op ''SUB'' (Some SizeLong) (Immediate 0xa00000 32) (Register (RegLong 2)), push 3, clear_byte 9] @ Transfer 0x5e helper # ?wipe"
  let ?copy = "copy_code (vid_source (site_vid s)) [0..<16] @ ?send"
  let ?code = "segment (vid_wrapper_code s helper invalid) ''vid_length''"
  have code: "?code = [emit_op ''MOV'' (Some SizeByte) (Address (Absolute (vid_status (site_vid s)) 32)) (Register (RegByte 10)),
      emit_op ''AND'' (Some SizeByte) (Immediate 2 8) (Register (RegByte 10)),
      Branch 7 ''vid_unavailable'', imm 4 0x00888880] @ ?copy"
    by (simp add: segment_length del: upt_rec_numeral)
  obtain m1 where m1: "exec oem ?code m = exec oem ?copy m1" "ram m1 = ram m" "er m1 4 = reply_at" "\<forall>q \<in> {3, 5, 6, 7}. er m1 q = er m q"
    using exec_available [OF assms(3), of oem ?copy] unfolding code by blast
  obtain m2 where m2: "exec oem ?copy m1 = exec oem ?send m2"
    "ram m2 = copy_bytes (er m1 4 + 4) (vid_source (site_vid s)) [0..<16] (ram m1)" "\<forall>q. q \<noteq> 2 \<longrightarrow> er m2 q = er m1 q"
    using exec_copy_code [of oem _ _ ?send m1] by blast
  have "er m2 4 = reply_at" "er m2 3 = 36" using m1(3,4) m2(3) assms(2) by simp_all
  from exec_send [OF this, of oem helper ?wipe] obtain h where h: "exec oem ?send m2 = exec oem ?wipe (oem helper h)" "vid_request h"
    "ram h = wr (ram m2) (er m2 7 - 4) 36" "er h 7 = er m2 7 - 4" "\<forall>q \<in> {4, 5, 6}. er h q = er m2 q" by blast
  obtain m' where m': "exec oem ?wipe (oem helper h) = Some (At ''vid_return'', m')"
    "ram m' = wipe_bytes (er (oem helper h) 4) [4..<20] (ram (oem helper h))" "er m' 7 = er (oem helper h) 7 + 4"
    "\<forall>q \<in> {5, 6}. er m' q = er (oem helper h) q"
    using exec_wipe [of oem "[4..<20]" "''vid_return''" "vid_wrapper_exits s invalid" "oem helper h"] by blast
  have regs: "er m2 7 = er m 7" "er m2 5 = er m 5" "er m2 6 = er m 6" using m1(4) m2(3) by simp_all
  have oem: "er (oem helper h) 4 = reply_at" "er (oem helper h) 5 = er m 5" "er (oem helper h) 6 = er m 6" "er (oem helper h) 7 = er m 7 - 4"
    using polite_registers [OF assms(1), of _ helper h] h(4,5) regs \<open>er m2 4 = reply_at\<close> by simp_all
  have "exec oem ?code m = Some (At ''vid_return'', m')" using m1(1) m2(1) h(1) m'(1) by (simp only:)
  moreover have "ram h = wr (copy_bytes (reply_at + 4) (vid_source (site_vid s)) [0..<16] (ram m)) (er m 7 - 4) 36"
    using h(3) m2(2) m1(2,3) regs(1) by (simp only:)
  moreover have "ram m' = wipe_bytes reply_at [4..<20] (ram (oem helper h))" using m'(2) oem(1) by (simp only:)
  moreover have "\<forall>q \<in> {5, 6, 7}. er m' q = er m q" using m'(3,4) oem by simp
  moreover have "er h 7 = er m 7 - 4" using h(4) regs(1) by simp
  ultimately show ?thesis using h(2) by blast
qed

section \<open>What the command does\<close>

lemma spots_shift: "spots reply_at [4..<20] = spots (reply_at + 4) [0..<16]"
proof -
  have "[4..<20] = map (\<lambda>i. i + 4) [0..<16]" by (simp add: map_add_upt del: upt_rec_numeral)
  then have "set [4..<20] = (\<lambda>i. i + 4) ` set [0..<16]" by (metis set_map)
  then show ?thesis by (simp only: spots_def image_image) (simp add: add.commute add.left_commute del: set_upt)
qed

lemma rd_same_spots:
  assumes "list_all (\<lambda>i. outside (dest + of_nat i) y) ns" "\<And>x. x \<notin> spots dest ns \<Longrightarrow> M' x = M x"
  shows "rd M' y = rd M y"
proof -
  have "y + j \<notin> spots dest ns" if "j \<in> {0, 1, 2, 3}" for j
    using that assms(1) by (auto simp: spots_def list_all_iff outside_iff)
  from this [of 0] this [of 1] this [of 2] this [of 3] show ?thesis by (simp add: rd_def assms(2))
qed

lemma vid_apart_at:
  assumes "vid_apart s b" "y \<in> set (stack_words b)"
  shows "outside (vid_status (site_vid s)) y" "list_all (\<lambda>i. outside (reply_at + 4 + of_nat i) y) [0..<16]"
    "i < 16 \<Longrightarrow> outside (vid_source (site_vid s) + of_nat i) y" "i < 16 \<Longrightarrow> outside (reply_at + 4 + of_nat i) y"
    "spots (vid_source (site_vid s)) [0..<16] \<inter> spots (reply_at + 4) [0..<16] = {}"
  using assms by (auto simp: vid_apart_def list_all_iff spots_def)

text \<open>The common end: the saved registers are popped.\<close>

lemma run_return:
  "\<exists>m'. exec oem (segment (vid_wrapper_code s helper invalid) ''vid_return'') m = Some (Returned, m')
    \<and> ram m' = ram m \<and> er m' 7 = er m 7 + 12 \<and> er m' 4 = rd (ram m) (er m 7) \<and> er m' 3 = rd (ram m) (er m 7 + 4)
    \<and> er m' 2 = rd (ram m) (er m 7 + 8) \<and> er m' 5 = er m 5 \<and> er m' 6 = er m 6"
  by (simp add: segment_exits exec_simple exec_rts) (simp add: add.commute)

lemma run_unavailable:
  assumes "polite oem" "ram m (vid_status (site_vid s)) AND 2 = 0"
  shows "\<exists>m'. go oem (vid_wrapper_code s helper invalid) 3 (At ''vid_length'', m) = Some (Returned, m')
    \<and> er m' 7 = er m 7 + 12 \<and> low 8 m' = 1 \<and> er m' 4 = rd (ram m) (er m 7) \<and> er m' 5 = er m 5 \<and> er m' 6 = er m 6"
proof -
  let ?code = "vid_wrapper_code s helper invalid"
  have "\<exists>m1. exec oem (segment ?code ''vid_length'') m = Some (At ''vid_unavailable'', m1) \<and> ram m1 = ram m
      \<and> (\<forall>q. q \<noteq> 2 \<longrightarrow> er m1 q = er m q)"
    using assms(2) by (simp add: segment_length exec_emit execute_def low_put_low del: upt_rec_numeral)
  then obtain m1 where m1: "exec oem (segment ?code ''vid_length'') m = Some (At ''vid_unavailable'', m1)" "ram m1 = ram m"
    "\<forall>q. q \<noteq> 2 \<longrightarrow> er m1 q = er m q" by blast
  have unavailable: "segment ?code ''vid_unavailable'' = pop 4 # pop 3 # Label ''vid_invalid'' # segment ?code ''vid_invalid''"
    and refused: "segment ?code ''vid_invalid'' = [pop 2, Transfer 0x5e invalid,
      emit_op ''MOV'' (Some SizeByte) (Immediate 1 8) (Register (RegByte 8)), rts] @ drop 15 (vid_wrapper_exits s invalid)"
    unfolding vid_wrapper_code_def
    by (simp_all add: segment_append wrapper_labels) (simp_all add: vid_wrapper_exits_def segment_Cons rts_def)
  have "\<exists>m2. exec oem (segment ?code ''vid_unavailable'') m1 = Some (At ''vid_invalid'', m2)
      \<and> er m2 7 = er m 7 + 8 \<and> er m2 4 = rd (ram m) (er m 7) \<and> er m2 5 = er m 5 \<and> er m2 6 = er m 6"
    using m1(2,3) by (simp add: unavailable exec_simple)
  then obtain m2 where m2: "exec oem (segment ?code ''vid_unavailable'') m1 = Some (At ''vid_invalid'', m2)"
    "er m2 7 = er m 7 + 8" "er m2 4 = rd (ram m) (er m 7)" "er m2 5 = er m 5" "er m2 6 = er m 6" by blast
  have "\<exists>m3. exec oem (segment ?code ''vid_invalid'') m2 = Some (Returned, m3) \<and> er m3 7 = er m2 7 + 4 \<and> low 8 m3 = 1
      \<and> (\<forall>q \<in> {4, 5, 6}. er m3 q = er m2 q)"
    by (simp add: refused exec_simple exec_emit exec_rts execute_def low_put_low polite_registers [OF assms(1)])
  with m1(1) m2 show ?thesis by (fastforce simp: numeral_3_eq_3)
qed

text \<open>
  C9. The installed Volume ID wrapper serves the very command \<open>read_aacs_vid\<close> sends. With the
  payload's policy in place and a Volume ID available, the OEM transfer helper is called once with
  the payload's reply buffer and a length of 36, at a moment when bytes 4 to 19 of that buffer are
  the drive's own Volume ID, exactly where the host takes it from; before the return, with every
  register from ER2 on as it was, the sixteen bytes are zero again whatever the helper did. Without a
  Volume ID the command is refused as invalid, the stack balanced.
\<close>
theorem vid_command_served:
  assumes "polite oem" "cdb_here build_vid_cdb m" "cdb_apart 12 m" "vid_apart s (er m 7 - 4)"
    and "rd (ram m) (site_security_slot s) = 0x00999990"
  shows "\<exists>n m'. run oem (vid_wrapper_code s helper invalid) n m = Some (Returned, m') \<and> kept [4, 5, 6, 7] m m'
    \<and> (if ram m (vid_status (site_vid s)) AND 2 = 0 then low 8 m' = 1
       else \<exists>h. vid_request h \<and> kept [2, 3] m m'
         \<and> list_all (\<lambda>i. ram h (reply_at + 4 + of_nat i) = ram m (vid_source (site_vid s) + of_nat i)) [0..<16]
         \<and> ram m' = wipe_bytes reply_at [4..<20] (ram (oem helper h)))"
proof -
  let ?code = "vid_wrapper_code s helper invalid" and ?b = "er m 7 - 4" and ?src = "vid_source (site_vid s)"
  from run_checks [OF assms(2-5), of oem helper invalid] obtain m1 where
    entry: "exec oem ?code m = Some (At ''vid_length'', m1)" and m1: "er m1 3 = 36" "er m1 7 = er m 7 - 12" "er m1 5 = er m 5" "er m1 6 = er m 6"
    and ram1: "ram m1 = wr (wr (wr (ram m) (er m 7 - 4) (er m 2)) (er m 7 - 8) (er m 3)) (er m 7 - 12) (er m 4)" by blast
  have stack: "er m 7 - k \<in> set (stack_words ?b)" if "k \<in> {4, 8, 12, 16}" for k
    using that by (auto simp: stack_words_def)
  note apart = vid_apart_at [OF assms(4) stack]
  have saved: "rd (ram m1) (er m 7 - 4) = er m 2" "rd (ram m1) (er m 7 - 8) = er m 3" "rd (ram m1) (er m 7 - 12) = er m 4"
    by (simp_all add: ram1 rd_wr rd_wr_other overlaps_def)
  have status: "ram m1 (vid_status (site_vid s)) = ram m (vid_status (site_vid s))"
    using apart(1) by (simp add: ram1 wr_outside)
  have source: "ram m1 (?src + of_nat i) = ram m (?src + of_nat i)" if "i < 16" for i
    using apart(3) [OF _ that] by (simp add: ram1 wr_outside)
  show ?thesis
  proof (cases "ram m (vid_status (site_vid s)) AND 2 = 0")
    case True
    with status have "ram m1 (vid_status (site_vid s)) AND 2 = 0" by simp
    from run_unavailable [OF assms(1) this, of helper invalid] obtain m2 where
      "go oem ?code 3 (At ''vid_length'', m1) = Some (Returned, m2)" "er m2 7 = er m1 7 + 12" "low 8 m2 = 1"
      "er m2 4 = rd (ram m1) (er m1 7)" "er m2 5 = er m1 5" "er m2 6 = er m1 6" by blast
    with run_go [OF entry] m1 saved(3) True show ?thesis
      by (intro exI [of _ "3 :: nat"] exI [of _ m2]) (simp add: kept_def)
  next
    case False
    with status have "ram m1 (vid_status (site_vid s)) AND 2 \<noteq> 0" by simp
    from run_available [OF assms(1) m1(1) this, of helper invalid] obtain h m2 where
      two: "exec oem (segment ?code ''vid_length'') m1 = Some (At ''vid_return'', m2)" and h: "vid_request h" "er h 7 = er m 7 - 16"
      and ramh: "ram h = wr (copy_bytes (reply_at + 4) ?src [0..<16] (ram m1)) (er m 7 - 16) 36"
      and ram2: "ram m2 = wipe_bytes reply_at [4..<20] (ram (oem helper h))" and regs: "\<forall>q \<in> {5, 6, 7}. er m2 q = er m1 q"
      using m1(2) by auto
    from run_return [of oem s helper invalid m2] obtain m3 where
      three: "exec oem (segment ?code ''vid_return'') m2 = Some (Returned, m3)" "ram m3 = ram m2" "er m3 7 = er m2 7 + 12"
      "er m3 4 = rd (ram m2) (er m2 7)" "er m3 3 = rd (ram m2) (er m2 7 + 4)" "er m3 2 = rd (ram m2) (er m2 7 + 8)"
      "er m3 5 = er m2 5" "er m3 6 = er m2 6" by blast
    note copied = copy_bytes_eq [OF apart(5) [of 4, simplified]]
    have words: "rd (ram m2) (er m 7 - k) = rd (ram m1) (er m 7 - k)" if "k \<in> {4, 8, 12}" for k
    proof -
      have "rd (ram m2) (er m 7 - k) = rd (ram (oem helper h)) (er m 7 - k)"
        using that apart(2) [of k] by (intro rd_same_spots [where dest = "reply_at + 4" and ns = "[0..<16]"])
          (auto simp: ram2 wipe_bytes_eq spots_shift simp del: upt_rec_numeral)
      also have "\<dots> = rd (ram h) (er m 7 - k)"
        using polite_stack [OF assms(1), of "16 - k" helper h] h(2) that by auto
      also have "\<dots> = rd (copy_bytes (reply_at + 4) ?src [0..<16] (ram m1)) (er m 7 - k)"
        using that by (auto simp: ramh rd_wr_other overlaps_def)
      also have "\<dots> = rd (ram m1) (er m 7 - k)"
        using that apart(2) [of k] by (intro rd_same_spots [where dest = "reply_at + 4" and ns = "[0..<16]"])
          (auto simp: copied simp del: upt_rec_numeral)
      finally show ?thesis .
    qed
    have "ram h (reply_at + 4 + of_nat i) = ram m (?src + of_nat i)" if "i < 16" for i
    proof -
      have "outside (reply_at + 4 + of_nat i) (er m 7 - 16)" using apart(4) [of 16 i] that by simp
      moreover have "reply_at + 4 + of_nat i \<in> spots (reply_at + 4) [0..<16]" using that by (auto simp: spots_def)
      ultimately show ?thesis using source [OF that] by (simp add: ramh wr_outside copied add.commute del: upt_rec_numeral)
    qed
    then have "list_all (\<lambda>i. ram h (reply_at + 4 + of_nat i) = ram m (?src + of_nat i)) [0..<16]" by (simp add: list_all_iff)
    moreover have "kept [4, 5, 6, 7] m m3" "kept [2, 3] m m3"
      using three(3-8) regs m1 words [of 4] words [of 8] words [of 12] saved by (simp_all add: kept_def)
    moreover have "run oem ?code 2 m = Some (Returned, m3)"
      by (rule run_go [OF entry]) (simp add: numeral_2_eq_2 two three(1))
    ultimately show ?thesis using False h(1) three(2) ram2
      by (intro exI [of _ "2 :: nat"] exI [of _ m3]) (auto simp del: upt_rec_numeral)
  qed
qed

text \<open>A read on the source's fixture, with a Volume ID whose bytes are the low bytes of their addresses.\<close>

definition reading :: machine where
  "reading = \<lparr>
     er = (\<lambda>_. 0)(1 := 0x5000, 7 := 0xffe000),
     ram = (\<lambda>a. if a - 0x5000 < 12 then build_vid_cdb ! unat (a - 0x5000)
       else if a = 0xffffed3c then 2
       else if a - 0xffffed20 < 16 then ucast a
       else wr (\<lambda>_. 0) 0x13b6 0x00999990 a),
     zf = False, carry = False \<rparr>"

lemma reading_ready:
  "cdb_here build_vid_cdb reading" "cdb_apart 12 reading" "vid_apart fixture 0xffdffc"
  "rd (ram reading) (site_security_slot fixture) = 0x00999990" "er reading 7 - 4 = 0xffdffc"
  "ram reading (vid_status (site_vid fixture)) AND 2 \<noteq> 0" "ram reading (vid_source (site_vid fixture) + 5) = 0x25"
  by code_simp+

lemma vid_command_served_witness:
  "\<exists>n h m'. run obliging (vid_wrapper_code fixture 0x447000 0x448000) n reading = Some (Returned, m')
     \<and> vid_request h \<and> ram h 0x00888889 = 0x25 \<and> ram m' 0x00888889 = 0 \<and> kept [2, 3] reading m'"
proof -
  have "vid_apart fixture (er reading 7 - 4)" using reading_ready(3,5) by simp
  from vid_command_served [OF obliging_polite reading_ready(1,2) this reading_ready(4), of "0x447000" "0x448000"] reading_ready(6)
  obtain n m' h where run: "run obliging (vid_wrapper_code fixture 0x447000 0x448000) n reading = Some (Returned, m')"
    and h: "vid_request h" "kept [2, 3] reading m'" "ram m' = wipe_bytes reply_at [4..<20] (ram (obliging 0x447000 h))"
    and bytes: "list_all (\<lambda>i. ram h (reply_at + 4 + of_nat i) = ram reading (vid_source (site_vid fixture) + of_nat i)) [0..<16]"
    by auto
  from bytes have "ram h (reply_at + 4 + of_nat 5) = ram reading (vid_source (site_vid fixture) + of_nat 5)"
    unfolding list_all_iff by (rule bspec) simp
  then have "ram h 0x00888889 = 0x25" using reading_ready(7) by (simp add: reply_at_def)
  moreover have "0x00888889 \<in> spots reply_at [4..<20]"
    unfolding spots_def by (rule image_eqI [where x = 9]) (simp_all add: reply_at_def del: upt_rec_numeral)
  then have "ram m' 0x00888889 = 0" by (simp add: h(3) wipe_bytes_eq del: upt_rec_numeral)
  ultimately show ?thesis using run h(1,2) by (intro exI [of _ n] exI [of _ h] exI [of _ m']) simp
qed

end
