(* ===== verification/Renesas_Image.thy ===== *)
theory Renesas_Image
  imports Renesas_Hook
begin

text \<open>
  Reading and searching the firmware image: the reads of \<open>discovery::load_normal\<close> cover the image
  exactly once, and the searches of module \<open>operations\<close> end, with the fuel of the model enough.
\<close>

unbundle bit_operations_syntax

section \<open>The image is read once, in order\<close>

definition chunk_read :: "'s external \<Rightarrow> nat \<Rightarrow> nat \<Rightarrow> event \<Rightarrow> bool" where
  "chunk_read X off len ev \<longleftrightarrow> (\<exists>res buf. ev = Exec (x_read_memory X (0x410000 + of_nat off) (of_nat len))
       FromDevice (zeros len) HOOK_TIMEOUT_MS (Inr res) buf
     \<and> res_status res = 0 \<and> res_transferred res = len \<and> length buf = len)"

text \<open>The reads from offset \<open>off\<close> to \<open>n\<close>, and the bytes they returned.\<close>

fun chunks_read :: "'s external \<Rightarrow> nat \<Rightarrow> nat \<Rightarrow> event list \<Rightarrow> bytes \<Rightarrow> bool" where
  "chunks_read X n off [] bs \<longleftrightarrow> off = n \<and> bs = []"
| "chunks_read X n off (ev # es) bs \<longleftrightarrow> off < n
     \<and> (let len = min LOAD_CHUNK (n - off) in
        chunk_read X off len ev \<and> event_buf ev = take len bs \<and> chunks_read X n (off + len) es (drop len bs))"

lemma sat_generic_cdb: "sat (generic_cdb H cdb FromDevice data) (\<lambda>r es. when_Inr (\<lambda>reply. \<exists>res buf.
    es = [Exec cdb FromDevice data HOOK_TIMEOUT_MS (Inr res) buf] \<and> length buf = length data
    \<and> reply_status reply = res_status res \<and> reply_transferred reply = res_transferred res
    \<and> res_transferred res \<le> length data \<and> reply_data reply = take (res_transferred res) buf) r)"
  unfolding generic_cdb_def ensureE_def
  by (auto split: sum.split intro!: sat_bind [OF sat_execute])

lemma sat_load_loop:
  assumes "n - length img \<le> fuel" "length img \<le> n"
  shows "sat (load_loop H X n fuel img) (\<lambda>r es. when_Inr (\<lambda>out. \<exists>rest.
    out = img @ rest \<and> chunks_read X n (length img) es rest) r)"
  using assms
proof (induction fuel arbitrary: img)
  case 0
  then show ?case by simp
next
  case (Suc fuel)
  let ?len = "min LOAD_CHUNK (n - length img)"
  show ?case
  proof (cases "length img < n")
    case False
    with Suc.prems show ?thesis by simp
  next
    case True
    have pos: "0 < ?len" using True by (simp add: const_defs)
    show ?thesis
      unfolding load_loop.simps if_P [OF True] Let_def
    proof (rule sat_bindE [OF sat_generic_cdb], simp, goal_cases)
      case (1 reply es)
      then obtain res buf where es: "es = [Exec (x_read_memory X (0x410000 + of_nat (length img)) (of_nat ?len))
            FromDevice (zeros ?len) HOOK_TIMEOUT_MS (Inr res) buf]" "length buf = ?len"
          "reply_status reply = res_status res" "reply_transferred reply = res_transferred res"
          "reply_data reply = take (res_transferred res) buf" by auto
      show ?case
      proof (cases "reply_status reply = 0 \<and> reply_transferred reply = ?len")
        case False
        then show ?thesis by (auto simp: ensureE_def)
      next
        case True
        with es have data: "reply_data reply = buf" by simp
        have "chunk_read X (length img) ?len (hd es)"
          using es True by (auto simp: chunk_read_def)
        moreover have "sat (load_loop H X n fuel (img @ buf)) (\<lambda>r es'. when_Inr (\<lambda>out. \<exists>rest.
            out = (img @ buf) @ rest \<and> chunks_read X n (length (img @ buf)) es' rest) r)"
          by (rule Suc.IH) (use Suc.prems es(2) pos in auto)
        ultimately show ?thesis
          unfolding ensureE_def if_P [OF True] bindE_ok data
          using es(1,2) \<open>length img < n\<close>
          by (elim sat_weaken) (auto simp: when_Inr_def Let_def split: sum.splits)
      qed
    qed
  qed
qed

lemma chunks_read_length: "chunks_read X n off es bs \<Longrightarrow> off \<le> n \<and> length bs = n - off"
proof (induction X n off es bs rule: chunks_read.induct)
  case (2 X n off ev es bs)
  then have "length (take (min LOAD_CHUNK (n - off)) bs) = min LOAD_CHUNK (n - off)"
    by (auto simp: Let_def chunk_read_def)
  then have "min LOAD_CHUNK (n - off) \<le> length bs" by simp
  moreover from 2 have "off + min LOAD_CHUNK (n - off) \<le> n"
    "length bs - min LOAD_CHUNK (n - off) = n - (off + min LOAD_CHUNK (n - off))" by (simp_all add: Let_def)
  moreover have "l \<le> length bs \<Longrightarrow> off + l \<le> n \<Longrightarrow> length bs - l = n - (off + l) \<Longrightarrow> off \<le> n \<and> length bs = n - off" for l
    by linarith
  ultimately show ?case by blast
qed simp

text \<open>
  C24. The firmware image the host analyses is the drive's: when \<open>load_normal\<close> succeeds, the
  header announced a size between 1100h and 3F0000h, and the commands after the header read are
  reads of consecutive chunks of at most 4096 bytes, each answered in full, that cover the range
  from 410000h exactly once; the image is their replies in order and has the announced size.
\<close>
theorem load_normal_reads_image:
  "case result_of (load_normal H X) w of Inl _ \<Rightarrow> True | Inr img \<Rightarrow>
     (\<exists>header es n. events_of (load_normal H X) w = header # es
        \<and> chunk_read X 0 256 header \<and> starts_with (event_buf header) [0x50, 0x49, 0x4F, 0x4E, 0x45, 0x45, 0x52, 0x20]
        \<and> x_read_u32 X (event_buf header) 20 = Some n \<and> 0x1100 \<le> n \<and> n \<le> 0x3f0000
        \<and> length img = unat n \<and> chunks_read X (unat n) 0 es img)"
proof -
  have "sat (load_normal H X) (\<lambda>r es. when_Inr (\<lambda>img. \<exists>header rest n. es = header # rest
        \<and> chunk_read X 0 256 header \<and> starts_with (event_buf header) [0x50, 0x49, 0x4F, 0x4E, 0x45, 0x45, 0x52, 0x20]
        \<and> x_read_u32 X (event_buf header) 20 = Some n \<and> 0x1100 \<le> n \<and> n \<le> 0x3f0000
        \<and> length img = unat n \<and> chunks_read X (unat n) 0 rest img) r)"
    unfolding load_normal_def
  proof (rule sat_bindE [OF sat_generic_cdb], simp, goal_cases)
    case (1 reply es)
    then obtain res buf where es: "es = [Exec (x_read_memory X 0x410000 256) FromDevice (zeros 256) HOOK_TIMEOUT_MS (Inr res) buf]"
        "length buf = 256" "reply_status reply = res_status res" "reply_transferred reply = res_transferred res"
        "reply_data reply = take (res_transferred res) buf" by auto
    then obtain header where ev: "es = [header]" by simp
    have header: "chunk_read X 0 256 header" "reply_data reply = event_buf header"
      if "reply_status reply = 0" "reply_transferred reply = 256"
      using that es ev by (simp_all add: chunk_read_def)
    have body: "sat (load_loop H X (unat n) (unat n) [] ) (\<lambda>r es'. when_Inr (\<lambda>img. length img = unat n \<and> chunks_read X (unat n) 0 es' img) r)" for n :: u32
      by (rule sat_weaken [OF sat_load_loop]) (auto elim!: when_Inr_mono dest: chunks_read_length)
    show ?case
      using header
      by (auto simp: ev ensureE_def optE_def split: option.split intro!: sat_weaken [OF body] elim!: when_Inr_mono)
  qed
  from sat_run [OF this, of w] show ?thesis unfolding when_Inr_def .
qed

section \<open>The searches end\<close>

text \<open>
  \<open>find\<close> of the image crate returns a match at or after the start, inside the image. Then the fuel
  of \<open>scan_matches\<close> is enough: more fuel gives the same result, so None is a failed check of the
  code and never an exhausted search.
\<close>

definition finds_forward :: "'s external \<Rightarrow> bool" where
  "finds_forward X \<longleftrightarrow> (\<forall>img n start at. x_find X img n start = Some at \<longrightarrow> start \<le> at \<and> at < length img)"

lemma scan_matches_fuel:
  assumes "finds_forward X" "length img - start < fuel" "fuel \<le> fuel'"
  shows "scan_matches X img n body fuel' start acc = scan_matches X img n body fuel start acc"
  using assms(2,3)
proof (induction fuel arbitrary: fuel' start acc)
  case (Suc fuel)
  then obtain k where k: "fuel' = Suc k" "fuel \<le> k" by (cases fuel') auto
  show ?case
  proof (cases "x_find X img n start")
    case (Some at)
    with assms(1) have "start \<le> at" "at < length img" by (auto simp: finds_forward_def)
    with Suc.prems have "length img - (at + 2) < fuel" by linarith
    with Suc.IH [OF this k(2)] Some k show ?thesis by (cases "body at acc") simp_all
  qed (simp add: k)
qed simp

end
