(* ===== verification/Renesas_Payload.thy ===== *)
theory Renesas_Payload
  imports Renesas_Code
begin

text \<open>
  The payload the runtime is installed from: where its tables lie, and that the host and the
  installed code mean the same policy table.
\<close>

unbundle bit_operations_syntax

section \<open>The extent of the security table\<close>

text \<open>
  The search starts to look for the end of the table at method 24, so a table found is long enough
  for the eligibility method at offset 100h.
\<close>

lemma bind_Some: "Option.bind m f = Some x \<longleftrightarrow> (\<exists>a. m = Some a \<and> f a = Some x)"
  by (cases m) auto

lemma security_length_bound:
  "security_length X img base table ms = Some (Some len) \<Longrightarrow> 0x104 \<le> len"
proof (induction ms)
  case (Cons m ms)
  then show ?case
    by (auto simp: Let_def bind_Some split: if_splits)
qed simp

lemma security_layout_length: "security_layout X img base object = Some (slot, table, len) \<Longrightarrow> 0x104 \<le> len"
  unfolding security_layout_def by (auto simp: bind_Some dest: security_length_bound)

lemma discover_table_length: "discover X img base = Some s \<Longrightarrow> 0x104 \<le> site_table_length s"
  unfolding discover_def by (auto simp: bind_Some dest: security_layout_length)

section \<open>The layout\<close>

lemma marker_relocations_addends:
  "marker_relocations X code ms = Some rs \<Longrightarrow> map rel_addend rs = map (\<lambda>(_, a, _). of_nat a) ms"
  by (induction ms arbitrary: rs) (auto simp: bind_Some)

text \<open>What \<open>assemble\<close> returns, with \<open>front\<close> everything before the copied security table.\<close>

definition payload_shape :: "trampoline \<Rightarrow> sites \<Rightarrow> bytes \<Rightarrow> bytes \<Rightarrow> bool" where
  "payload_shape t s tab front \<longleftrightarrow> tr_bytes t = front @ tab \<and> length tab = site_table_length s
     \<and> (\<exists>k. table_offset t = of_nat k \<and> k + 40 \<le> length front)
     \<and> (\<exists>k. vid_table_offset t = of_nat k \<and> k + 40 \<le> length front)
     \<and> length (relocations t) = 14
     \<and> (\<forall>r \<in> set (take 6 (relocations t)). rel_offset r + 4 \<le> length front)
     \<and> rel_offset (relocations t ! 8) = length front + 0x100
     \<and> list_all (\<lambda>i. rel_addend (relocations t ! i) = of_nat (length front) \<and> \<not> controller_relative (relocations t ! i)) [7, 12, 13]"

lemma markers_five:
  assumes "marker_relocations X code [(a, i, x), (b, j, y), (c, k, z), (d, m, False), (e, n, False)] = Some rs"
  shows "\<exists>r0 r1 r2 r3 r4. rs = [r0, r1, r2, r3, r4] \<and> rel_addend r3 = of_nat m \<and> rel_addend r4 = of_nat n
    \<and> \<not> controller_relative r3 \<and> \<not> controller_relative r4"
  using assms by (auto simp: bind_Some)

lemma assemble_shape:
  assumes "assemble X main helper invalid s op hash tab = Some t"
  shows "\<exists>front. payload_shape t s tab front"
proof -
  from assms obtain code cb el vid_code pointer vpol rs where
    tab: "length tab = site_table_length s"
    and rs: "marker_relocations X code
       [(0x00111110, length (code @ cb) + 40, False), (0x00333330, length (code @ cb) + 110, True),
        (0x00444440, length (code @ cb) + 174, True),
        (0x00666660, length (code @ cb @ zeros 174 @ pioneer_identity @ el @ vid_code) + 76, False),
        (0x00777770, length (code @ cb @ zeros 174 @ pioneer_identity @ el @ vid_code) + 76, False)] = Some rs"
    and t: "t = \<lparr> source_sha256 = hash,
       tr_bytes = (code @ cb @ zeros 40 @ zeros 70 @ zeros 64 @ pioneer_identity @ el @ vid_code @ zeros 40 @ [0, 0x22, 0, 0] @ zeros 32) @ tab,
       tr_alignment = 32, wrapper_offset = 0, table_offset = of_nat (length (code @ cb)),
       vid_wrapper_offset = of_nat (length (code @ cb @ zeros 174 @ pioneer_identity @ el)),
       vid_table_offset = of_nat (length (code @ cb @ zeros 174 @ pioneer_identity @ el @ vid_code)),
       relocations = map (\<lambda>off. \<lparr> rel_offset = length (code @ cb) + 40 + off, rel_addend = of_nat (length code), controller_relative = False \<rparr>)
         [0x10, 0x1a, 0x24, 0x2e, 0x38, 0x42]
         @ [\<lparr> rel_offset = length (code @ cb @ zeros 174 @ pioneer_identity @ el) + pointer,
              rel_addend = of_nat (length (code @ cb @ zeros 174 @ pioneer_identity @ el @ vid_code) + 40), controller_relative = False \<rparr>,
            \<lparr> rel_offset = length (code @ cb @ zeros 174 @ pioneer_identity @ el) + vpol,
              rel_addend = of_nat (length (code @ cb @ zeros 174 @ pioneer_identity @ el @ vid_code) + 76), controller_relative = False \<rparr>,
            \<lparr> rel_offset = length (code @ cb @ zeros 174 @ pioneer_identity @ el @ vid_code) + 76 + 0x100,
              rel_addend = of_nat (length (code @ cb @ zeros 174 @ pioneer_identity)), controller_relative = False \<rparr>]
         @ rs, mutable_state_offset = None \<rparr>"
    unfolding assemble_def Let_def
    by (auto simp: bind_Some algebra_simps)
  have five: "\<exists>r0 r1 r2 r3 r4. rs = [r0, r1, r2, r3, r4]
      \<and> rel_addend r3 = of_nat (length (code @ cb @ zeros 174 @ pioneer_identity @ el @ vid_code) + 76)
      \<and> rel_addend r4 = of_nat (length (code @ cb @ zeros 174 @ pioneer_identity @ el @ vid_code) + 76)
      \<and> \<not> controller_relative r3 \<and> \<not> controller_relative r4"
    using markers_five [OF rs] by blast
  have "payload_shape t s tab (code @ cb @ zeros 40 @ zeros 70 @ zeros 64 @ pioneer_identity @ el @ vid_code @ zeros 40 @ [0, 0x22, 0, 0] @ zeros 32)"
    using five unfolding payload_shape_def t
    by (auto simp: tab intro: exI [of _ "length (code @ cb)"]
        exI [of _ "length (code @ cb @ zeros 174 @ pioneer_identity @ el @ vid_code)"])
  then show ?thesis by blast
qed

lemma build_parts:
  assumes "build X img op = Some (t, s)"
  shows "\<exists>front base tab. payload_shape t s tab front \<and> 0x104 \<le> site_table_length s
    \<and> (\<exists>lay. x_inspect X img = Some lay \<and> image_base lay = Some base)
    \<and> get_slice img (unat (site_security_table s - base)) (unat (site_security_table s - base) + site_table_length s) = Some tab"
proof -
  from assms obtain lay base main helper invalid tab where
    "x_inspect X img = Some lay" "image_base lay = Some base" "discover X img base = Some s"
    "get_slice img (unat (site_security_table s - base)) (unat (site_security_table s - base) + site_table_length s) = Some tab"
    "assemble X main helper invalid s op (sha256 X img) tab = Some t"
    unfolding build_def Let_def by (auto simp: bind_Some)
  with assemble_shape [OF this(5)] discover_table_length [OF this(3)] show ?thesis by blast
qed

text \<open>
  C21. The payload is laid out as the host believes. It ends with an exact copy of the drive's OEM
  security table, long enough for the one method that is replaced; both callback tables and the
  temporary callbacks lie inside the part before it; and the three words of the installed code
  that stand for the policy table are relocated to the very address \<open>policy_table\<close> that the host
  later verifies and restores, wherever the payload is placed.
\<close>
theorem payload_policy:
  "case build X img op of None \<Rightarrow> True | Some (t, s) \<Rightarrow>
     (let n = length (tr_bytes t); len = site_table_length s in
        0x104 \<le> len \<and> len \<le> n
      \<and> (\<exists>lay base. x_inspect X img = Some lay \<and> image_base lay = Some base
           \<and> get_slice img (unat (site_security_table s - base)) (unat (site_security_table s - base) + len)
             = Some (drop (n - len) (tr_bytes t)))
      \<and> (if n < 2 ^ 32 then unat (table_offset t) + 40 \<le> n - len \<and> unat (vid_table_offset t) + 40 \<le> n - len else True)
      \<and> list_all (\<lambda>r. rel_offset r + 4 \<le> n - len) (take 6 (relocations t))
      \<and> rel_offset (relocations t ! 8) = n - len + 0x100
      \<and> list_all (\<lambda>i. \<not> controller_relative (relocations t ! i)
           \<and> start + rel_addend (relocations t ! i) = policy_table s start n) [7, 12, 13])"
proof (cases "build X img op")
  case (Some r)
  obtain t s where r: "r = (t, s)" by (cases r)
  from build_parts [OF Some [unfolded r]] obtain front base tab lay
    where shape: "payload_shape t s tab front" and len: "0x104 \<le> site_table_length s"
      and base: "x_inspect X img = Some lay" "image_base lay = Some base"
      and tab: "get_slice img (unat (site_security_table s - base)) (unat (site_security_table s - base) + site_table_length s) = Some tab"
    by blast
  then have n: "length (tr_bytes t) - site_table_length s = length front" "site_table_length s \<le> length (tr_bytes t)"
      "drop (length front) (tr_bytes t) = tab"
    by (auto simp: payload_shape_def)
  have small: "unat (of_nat k :: u32) + 40 \<le> length front" if "k + 40 \<le> length front" "length (tr_bytes t) < 2 ^ 32" for k
  proof -
    from that n(1) have "k < 2 ^ LENGTH(32)" by simp
    then have "unat (of_nat k :: u32) = k" by (simp add: unsigned_of_nat take_bit_nat_eq_self)
    with that show ?thesis by simp
  qed
  from shape have tables: "if length (tr_bytes t) < 2 ^ 32
      then unat (table_offset t) + 40 \<le> length front \<and> unat (vid_table_offset t) + 40 \<le> length front else True"
  proof -
    from shape obtain k k' where "table_offset t = of_nat k" "k + 40 \<le> length front"
      "vid_table_offset t = of_nat k'" "k' + 40 \<le> length front"
      unfolding payload_shape_def by blast
    then show ?thesis by (simp del: of_nat_numeral add: small)
  qed
  with shape len base tab n show ?thesis
    unfolding Some r
    by (auto simp: Let_def payload_shape_def policy_table_def list_all_iff)
qed simp

end
