(* ===== verification/Renesas_Placement.thy ===== *)
theory Renesas_Placement
  imports Renesas_Payload Renesas_Memory
begin

text \<open>
  Where the payload goes: the preparation places it in memory that nothing else uses. What is free
  is computed by the vendor crate's range arithmetic, whose documented behaviour is the hypothesis
  \<open>lawful_ranges\<close>.
\<close>

unbundle bit_operations_syntax

section \<open>Ranges\<close>

definition within :: "cpu_range \<Rightarrow> cpu_range \<Rightarrow> bool" where
  "within r w \<longleftrightarrow> r_start w \<le> r_start r \<and> r_end r \<le> r_end w"

text \<open>A range is clear of the addresses from \<open>lo\<close> up to \<open>hi\<close>.\<close>

definition clear_of :: "cpu_range \<Rightarrow> nat \<Rightarrow> nat \<Rightarrow> bool" where
  "clear_of r lo hi \<longleftrightarrow> unat (r_end r) \<le> lo \<or> hi \<le> unat (r_start r)"

definition proper :: "cpu_range \<Rightarrow> bool" where
  "proper r \<longleftrightarrow> unat (r_end r) = unat (r_start r) + unat (r_length r)"

text \<open>
  A new range starts where it is told and does not wrap; containment compares the bounds; free
  ranges lie in a window, are clear of every range in use, and are aligned.
\<close>

definition lawful_ranges :: "'s external \<Rightarrow> bool" where
  "lawful_ranges X \<longleftrightarrow>
     (\<forall>start len r. x_range_new X start len = Some r \<longrightarrow> proper r \<and> r_start r = start \<and> r_length r = len)
   \<and> (\<forall>w r. x_range_contains X w r \<longrightarrow> within r w)
   \<and> (\<forall>windows used al rs. x_free_ranges X windows used al = Some rs \<longrightarrow>
        list_all (\<lambda>r. proper r \<and> list_ex (within r) windows
          \<and> list_all (\<lambda>u. clear_of r (unat (r_start u)) (unat (r_end u))) used
          \<and> unat (r_start r) mod unat al = 0) rs)"

lemma lawful_new:
  assumes "lawful_ranges X" "x_range_new X start len = Some r"
  shows "r_start r = start" "r_length r = len" "unat (r_end r) = unat start + unat len"
  using assms by (auto simp: lawful_ranges_def proper_def)

lemma lawful_free:
  assumes "lawful_ranges X" "x_free_ranges X windows used al = Some rs" "r \<in> set rs"
  shows "proper r" "list_ex (within r) windows" "unat (r_start r) mod unat al = 0"
    "list_all (\<lambda>u. clear_of r (unat (r_start u)) (unat (r_end u))) used"
  using assms unfolding lawful_ranges_def list_all_iff by blast+

text \<open>The front part of a free range is as free as the whole.\<close>

lemma front_part:
  assumes "proper r" "r_start r' = r_start r" "unat (r_end r') = unat (r_start r) + unat n" "n \<le> r_length r"
  shows "unat (r_end r') \<le> unat (r_end r)" "within r w \<Longrightarrow> within r' w" "clear_of r lo hi \<Longrightarrow> clear_of r' lo hi"
proof -
  show le: "unat (r_end r') \<le> unat (r_end r)"
    using assms by (simp add: proper_def word_le_nat_alt)
  then show "within r w \<Longrightarrow> within r' w" "clear_of r lo hi \<Longrightarrow> clear_of r' lo hi"
    using assms(2) by (auto simp: within_def clear_of_def word_le_nat_alt)
qed

section \<open>The free space found\<close>

text \<open>Sequencing that remembers what a check or a computation has established.\<close>

lemma sat_opt_thenE:
  "(\<And>a. x = Some a \<Longrightarrow> sat (f a) (\<lambda>r _. when_Inr Q r)) \<Longrightarrow> sat (bindE (optE x) f) (\<lambda>r _. when_Inr Q r)"
  by (cases x) (simp_all add: optE_def)

lemma sat_ensure_thenE:
  "(b \<Longrightarrow> sat (f ()) (\<lambda>r _. when_Inr Q r)) \<Longrightarrow> sat (bindE (ensureE b) f) (\<lambda>r _. when_Inr Q r)"
  by (simp add: ensureE_def)

lemma sat_known_thenE:
  assumes "sat m (\<lambda>r _. when_Inr R r)" "\<And>a. R a \<Longrightarrow> sat (f a) (\<lambda>r _. when_Inr Q r)"
  shows "sat (bindE m f) (\<lambda>r _. when_Inr Q r)"
  by (rule sat_bindE [OF assms(1)]) (use assms(2) in auto)

definition controller_base :: nat where "controller_base = 0xa00000"
definition controller_end :: nat where "controller_end = 0xe00000"

text \<open>A place for the payload under a profile.\<close>

definition vacant :: "hook_profile \<Rightarrow> cpu_range \<Rightarrow> bool" where
  "vacant p r \<longleftrightarrow> controller_base \<le> unat (r_start r) \<and> unat (r_end r) \<le> controller_end
     \<and> list_ex (within r) (reserved_windows p)
     \<and> list_all (\<lambda>u. clear_of r (unat (r_start u)) (unat (r_end u))) (occupied p)
     \<and> list_all (\<lambda>g. clear_of r (unat (cpu_address g)) (unat (cpu_address g) + length (expected g))) (profile_guards p)
     \<and> clear_of r (unat (pointer_address p)) (unat (pointer_address p) + 4)
     \<and> clear_of r (unat (write_pointer_address p)) (unat (write_pointer_address p) + 4)"

text \<open>
  What the firmware itself uses, by the layout \<open>lay\<close> and the profile \<open>d\<close> that were derived from the
  image: its overlays, its global data, its guards, and every buffer that an entry of its buffer
  tables gives for the controller's memory.
\<close>

definition clear_of_range :: "cpu_range \<Rightarrow> cpu_range \<Rightarrow> bool" where
  "clear_of_range r u \<longleftrightarrow> clear_of r (unat (r_start u)) (unat (r_end u))"

definition clear_of_entry :: "u32 \<Rightarrow> cpu_range \<Rightarrow> (u32 \<Rightarrow> u32 \<Rightarrow> cpu_range option option) \<Rightarrow> bool" where
  "clear_of_entry base r e \<longleftrightarrow> (case e base 0x400000 of
     None \<Rightarrow> False | Some None \<Rightarrow> True | Some (Some buffer) \<Rightarrow> clear_of_range r buffer)"

definition unclaimed_in :: "fw_layout \<Rightarrow> hook_profile \<Rightarrow> u32 \<Rightarrow> cpu_range \<Rightarrow> bool" where
  "unclaimed_in lay d base r \<longleftrightarrow> list_all (clear_of_range r) (overlay_ranges lay)
     \<and> list_all (clear_of_entry base r) (concat (buffer_tables lay))
     \<and> list_all (clear_of_range r) (occupied d)
     \<and> list_all (\<lambda>g. clear_of r (unat (cpu_address g)) (unat (cpu_address g) + length (expected g))) (profile_guards d)"

text \<open>The image is one with the hash of the profile.\<close>

definition unclaimed :: "'s external \<Rightarrow> hook_profile \<Rightarrow> cpu_range \<Rightarrow> bool" where
  "unclaimed X p r \<longleftrightarrow> (\<exists>img lay d. layout_of X p img = Some lay \<and> derived_profile X p img = Some d
     \<and> unclaimed_in lay d (controller_cpu_base p) r)"

lemma checked_add_nat: "checked_add a b = Some c \<longleftrightarrow> unat a + unat b < 2 ^ 32 \<and> c = a + b"
  by (auto simp: checked_add_def)

lemma validated:
  assumes "lawful_ranges X" "validate_profile X p = Some u"
  shows "list_all (\<lambda>w. controller_base \<le> unat (r_start w) \<and> unat (r_end w) \<le> controller_end) (reserved_windows p)"
    and "unat (pointer_address p) + 4 \<le> 0x8000" "unat (write_pointer_address p) + 4 \<le> 0x8000"
proof -
  from assms(2) obtain ram where base: "controller_cpu_base p = 0xa00000"
      "x_range_new X (controller_cpu_base p) 0x400000 = Some ram"
    and windows: "list_all (x_range_contains X ram) (reserved_windows p)"
    and pointers: "case checked_add (pointer_address p) 4 of None \<Rightarrow> False | Some e \<Rightarrow> e \<le> 0x8000"
      "case checked_add (write_pointer_address p) 4 of None \<Rightarrow> False | Some e \<Rightarrow> e \<le> 0x8000"
    unfolding validate_profile_def by (auto simp: bind_Some list_all_iff)
  have slot: "unat a + 4 \<le> 0x8000" if "case checked_add a 4 of None \<Rightarrow> False | Some e \<Rightarrow> e \<le> 0x8000" for a :: u32
  proof -
    from that have "unat a + unat (4 :: u32) < 2 ^ LENGTH(32)" "a + 4 \<le> 0x8000"
      by (auto simp: checked_add_nat split: option.splits)
    then have "unat (a + 4) = unat a + 4" by (subst unat_add_lem [THEN iffD1]) simp_all
    with \<open>a + 4 \<le> 0x8000\<close> show ?thesis by (simp add: word_le_nat_alt)
  qed
  from slot pointers show "unat (pointer_address p) + 4 \<le> 0x8000" "unat (write_pointer_address p) + 4 \<le> 0x8000" by auto
  from lawful_new [OF assms(1) base(2)] base(1)
  have "unat (r_start ram) = controller_base" "unat (r_end ram) = controller_end"
    by (simp_all add: controller_base_def controller_end_def)
  moreover have "within w ram" if "w \<in> set (reserved_windows p)" for w
    using that windows assms(1) by (auto simp: list_all_iff lawful_ranges_def)
  ultimately show "list_all (\<lambda>w. controller_base \<le> unat (r_start w) \<and> unat (r_end w) \<le> controller_end) (reserved_windows p)"
    by (auto simp: list_all_iff within_def word_le_nat_alt)
qed

lemma guard_ranges_cover:
  assumes "lawful_ranges X" "guard_ranges X gs = Some rs" "g \<in> set gs"
  shows "\<exists>r \<in> set rs. unat (r_start r) = unat (cpu_address g) \<and> unat (r_end r) = unat (cpu_address g) + length (expected g)"
  using assms(2,3)
proof (induction gs arbitrary: rs)
  case (Cons h gs)
  then show ?case
    using lawful_new [OF assms(1)]
    by (auto simp: bind_Some u32_try_def unsigned_of_nat take_bit_nat_eq_self split: if_splits)
qed simp

lemma entry_ranges_cover:
  "entry_ranges base es = Some rs \<Longrightarrow>
     list_all (\<lambda>e. case e base 0x400000 of None \<Rightarrow> False | Some None \<Rightarrow> True | Some (Some u) \<Rightarrow> u \<in> set rs) es"
proof (induction es arbitrary: rs)
  case (Cons e es)
  then obtain r rs' where e: "e base 0x400000 = Some r" "entry_ranges base es = Some rs'"
    and rs: "rs = (case r of None \<Rightarrow> rs' | Some used \<Rightarrow> used # rs')"
    by (auto simp: bind_Some)
  have "set rs' \<subseteq> set rs" by (auto simp: rs split: option.split)
  with Cons.IH [OF e(2)] e(1) rs show ?case
    by (auto simp: list_all_iff split: option.splits)
qed simp

lemma find_free_spaces_vacant:
  assumes "lawful_ranges X"
  shows "sat (find_free_spaces H X p al) (\<lambda>r _. when_Inr (list_all (\<lambda>fs.
    proper (fs_cpu fs) \<and> vacant p (fs_cpu fs) \<and> unclaimed X p (fs_cpu fs)
      \<and> unat (r_start (fs_cpu fs)) mod unat al = 0)) r)"
  unfolding find_free_spaces_def
proof (intro sat_opt_thenE sat_thenE, goal_cases)
  case (1 u img lay _ d _)
  note valid = validated [OF assms 1(1)]
  show ?case
  proof (cases "free_ranges_of X p d lay al")
    case (Some spaces)
    then obtain from_guards from_tables free where
      guards: "guard_ranges X (profile_guards p @ profile_guards d) = Some from_guards"
      and tables: "entry_ranges (controller_cpu_base p) (concat (buffer_tables lay)) = Some from_tables"
      and free: "x_free_ranges X (reserved_windows p)
        (occupied d @ occupied p @ from_guards @ overlay_ranges lay @ from_tables) al = Some free"
      and spaces: "map fs_cpu spaces = free"
      by (auto simp: free_ranges_of_def bind_Some comp_def)
    have "proper r \<and> vacant p r \<and> unclaimed X p r \<and> unat (r_start r) mod unat al = 0" if "r \<in> set free" for r
    proof -
      note law = lawful_free [OF assms free that]
      from law(2) valid(1) have room: "controller_base \<le> unat (r_start r)" "unat (r_end r) \<le> controller_end"
        by (auto simp: list_ex_iff list_all_iff within_def word_le_nat_alt)
      have used: "clear_of_range r u"
        if "u \<in> set (occupied d @ occupied p @ from_guards @ overlay_ranges lay @ from_tables)" for u
        using law(4) that unfolding list_all_iff clear_of_range_def by blast
      have guard: "clear_of r (unat (cpu_address g)) (unat (cpu_address g) + length (expected g))"
        if "g \<in> set (profile_guards p @ profile_guards d)" for g
      proof -
        from guard_ranges_cover [OF assms guards that] obtain u where "u \<in> set from_guards"
            "unat (r_start u) = unat (cpu_address g)" "unat (r_end u) = unat (cpu_address g) + length (expected g)" by auto
        with used [of u] show ?thesis by (simp add: clear_of_range_def)
      qed
      have "list_all (clear_of_entry (controller_cpu_base p) r) (concat (buffer_tables lay))"
        unfolding list_all_iff
      proof
        fix e assume "e \<in> set (concat (buffer_tables lay))"
        with entry_ranges_cover [OF tables] used show "clear_of_entry (controller_cpu_base p) r e"
          unfolding list_all_iff clear_of_entry_def by (force split: option.splits)
      qed
      with used guard have "unclaimed_in lay d (controller_cpu_base p) r"
        by (simp add: unclaimed_in_def list_all_iff)
      with 1 have "unclaimed X p r" unfolding unclaimed_def by blast
      moreover have "clear_of r lo hi" if "hi \<le> 0x8000" for lo hi
        using that room(1) by (simp add: clear_of_def controller_base_def)
      ultimately show ?thesis
        using law(1-3) room valid(2,3) used guard by (auto simp: vacant_def list_all_iff clear_of_range_def)
    qed
    with spaces show ?thesis by (auto simp: Some optE_def list_all_iff)
  qed (simp add: optE_def)
qed

lemma front_vacant:
  assumes "vacant p r" "proper r" "r_start r' = r_start r" "unat (r_end r') = unat (r_start r) + unat n" "n \<le> r_length r"
  shows "vacant p r'"
  using assms(1,3) front_part [OF assms(2-5)] unfolding vacant_def
  by (auto simp: list_all_iff list_ex_iff)

lemma front_unclaimed:
  assumes "unclaimed X p r" "proper r" "r_start r' = r_start r" "unat (r_end r') = unat (r_start r) + unat n" "n \<le> r_length r"
  shows "unclaimed X p r'"
proof -
  note clear = front_part(3) [OF assms(2-5)]
  have "clear_of_entry base r e \<Longrightarrow> clear_of_entry base r' e" for base e
    using clear by (auto simp: clear_of_entry_def clear_of_range_def split: option.splits)
  with clear have "unclaimed_in lay d base r \<Longrightarrow> unclaimed_in lay d base r'" for lay d base
    unfolding unclaimed_in_def clear_of_range_def list_all_iff by blast
  with assms(1) show ?thesis unfolding unclaimed_def by blast
qed

lemma find_free_space_vacant:
  assumes "lawful_ranges X"
  shows "sat (find_free_space H X p sz al) (\<lambda>r _. when_Inr (\<lambda>fs. vacant p (fs_cpu fs) \<and> unclaimed X p (fs_cpu fs)
    \<and> proper (fs_cpu fs) \<and> r_length (fs_cpu fs) = sz \<and> unat (r_start (fs_cpu fs)) mod unat al = 0) r)"
  unfolding find_free_space_def
proof (intro sat_ensure_thenE, rule sat_known_thenE [OF find_free_spaces_vacant [OF assms]], intro sat_opt_thenE, goal_cases)
  case (1 spaces space cpu)
  then have space: "proper (fs_cpu space)" "vacant p (fs_cpu space)" "unat (r_start (fs_cpu space)) mod unat al = 0"
      "sz \<le> r_length (fs_cpu space)" "unclaimed X p (fs_cpu space)"
    by (auto simp: find_Some_iff list_all_iff)
  note new = lawful_new [OF assms 1(4)]
  from front_vacant [OF space(2,1) new(1,3) space(4)] front_unclaimed [OF space(5,1) new(1,3) space(4)] space(3) new
  show ?case by (simp add: proper_def)
qed

section \<open>The payload placed\<close>

lemma length_put_slice: "put_slice at new bs = Some bs' \<Longrightarrow> length bs' = length bs"
  by (auto simp: put_slice_def split: if_splits)

lemma length_relocate: "relocate space rs bs = Some bs' \<Longrightarrow> length bs' = length bs"
  by (induction rs arbitrary: bs) (auto simp: bind_Some dest!: length_put_slice)

lemma build_alignment: "build X img op = Some (t, s) \<Longrightarrow> tr_alignment t = 32"
  by (auto simp: build_def assemble_def bind_Some Let_def)

lemma site_ranges_cover:
  assumes "lawful_ranges X" "site_ranges X as = Some rs"
  shows "list_all (\<lambda>(addr, n). \<exists>r \<in> set rs. unat (r_start r) = unat addr \<and> unat (r_end r) = unat addr + unat n) as"
  using assms(2)
proof (induction as arbitrary: rs)
  case (Cons a as)
  then obtain r rs' where parts: "x_range_new X (fst a) (snd a) = Some r" "site_ranges X as = Some rs'" "rs = r # rs'"
    by (auto simp: bind_Some)
  from Cons.IH [OF parts(2)] lawful_new [OF assms(1) parts(1)] show ?case
    by (auto simp: parts(3) list_all_iff split: prod.splits)
qed simp

text \<open>The words and buffers of the firmware that the runtime uses.\<close>

definition used_sites :: "sites \<Rightarrow> (u32 \<times> u32) list" where
  "used_sites s =
     [(vid_slot (site_vid s), 4), (site_security_slot s, 4),
      (cpu_address (site_acquisition s), 4), (cpu_address (site_reset s), 4),
      (site_loaded s, 1), (site_checked s, 1), (site_result s, 1), (site_read_engine s, 1),
      (fst (site_buffers s), 16), (snd (site_buffers s), 16)]"

lemma runtime_profile_covers:
  assumes "lawful_ranges X" "runtime_profile X img s = Some p" "vacant p r"
  shows "list_all (\<lambda>(addr, n). clear_of r (unat addr) (unat addr + unat n)) (used_sites s)"
proof -
  from assms(2) obtain d used where used: "site_ranges X (used_sites s) = Some used" "set used \<subseteq> set (occupied p)"
    by (auto simp: runtime_profile_def used_sites_def bind_Some Let_def)
  have "clear_of r (unat addr) (unat addr + unat n)" if mem: "(addr, n) \<in> set (used_sites s)" for addr n
  proof -
    from mem site_ranges_cover [OF assms(1) used(1)] obtain u
      where "u \<in> set used" "unat (r_start u) = unat addr" "unat (r_end u) = unat addr + unat n"
      by (auto simp: list_all_iff)
    with assms(3) used(2) show ?thesis by (force simp: vacant_def list_all_iff)
  qed
  then show ?thesis by (auto simp: list_all_iff)
qed

definition well_placed :: "'s external \<Rightarrow> prepared \<Rightarrow> bool" where
  "well_placed X p \<longleftrightarrow> proper (allocation p) \<and> r_length (allocation p) = of_nat (length (payload p))
     \<and> unat (r_start (allocation p)) mod 32 = 0
     \<and> vacant (prep_profile p) (allocation p) \<and> unclaimed X (prep_profile p) (allocation p)
     \<and> list_all (\<lambda>(addr, n). clear_of (allocation p) (unat addr) (unat addr + unat n)) (used_sites (prep_sites p))"

lemma prepare_well_placed:
  assumes "lawful_ranges X"
  shows "sat (prepare H X op existing) (\<lambda>r _. when_Inr (well_placed X) r)"
  unfolding prepare_def Let_def prod.case_eq_if
proof (rule sat_thenE, rule sat_thenE, rule sat_opt_thenE, rule sat_opt_thenE,
    rule sat_known_thenE [OF find_free_space_vacant [OF assms]], goal_cases)
  case (1 _ img ts p fs)
  obtain t s where ts: "ts = (t, s)" by (cases ts)
  from 1 have p: "runtime_profile X img s = Some p" and al: "tr_alignment t = 32"
    and fs: "vacant p (fs_cpu fs)" "unclaimed X p (fs_cpu fs)" "proper (fs_cpu fs)" "r_length (fs_cpu fs) = of_nat (length (tr_bytes t))"
      "unat (r_start (fs_cpu fs)) mod unat (tr_alignment t) = 0"
    using build_alignment [of X img op t s] by (auto simp: ts)
  have placed: "well_placed X p'" if "prep_profile p' = p" "prep_sites p' = s" "allocation p' = fs_cpu fs"
      "length (payload p') = length (tr_bytes t)" for p'
    using that fs runtime_profile_covers [OF assms p fs(1)] by (simp add: well_placed_def al)
  show ?case
    unfolding ts fst_conv snd_conv
    by (rule sat_thenE sat_opt_thenE)+ (auto intro!: placed dest!: length_put_slice length_relocate)
qed

text \<open>
  C22. The payload is placed in memory that nothing else uses. With a vendor crate that computes
  ranges and free ranges as documented, a free space found under any profile has the size asked
  for and the alignment, lies inside a window of the controller's memory that the profile leaves
  open, and is clear of the profile's ranges in use, of its guards and of both callback slots. It is
  also clear of what the firmware of that profile claims by its own layout: every overlay, every
  buffer that an entry of an OEM buffer table gives, its global data and its guards. Every
  preparation that succeeds allocates exactly the length of the payload in such a place, aligned to
  32 bytes, and clear of every variable, slot and buffer that the runtime itself reads or writes.
\<close>
theorem payload_well_placed:
  assumes "lawful_ranges X"
  shows "sat (find_free_space H X q sz al) (\<lambda>r _. when_Inr (\<lambda>fs. vacant q (fs_cpu fs) \<and> unclaimed X q (fs_cpu fs)
      \<and> proper (fs_cpu fs) \<and> r_length (fs_cpu fs) = sz \<and> unat (r_start (fs_cpu fs)) mod unat al = 0) r)
    \<and> sat (prepare H X op existing) (\<lambda>r _. when_Inr (well_placed X) r)"
  using find_free_space_vacant [OF assms] prepare_well_placed [OF assms] by blast

text \<open>Range arithmetic that keeps the law: a window is free when it is aligned and nothing in use touches it.\<close>

definition free_windows :: "cpu_range list \<Rightarrow> cpu_range list \<Rightarrow> u32 \<Rightarrow> cpu_range list option" where
  "free_windows windows used al = Some (filter (\<lambda>r. proper r \<and> unat (r_start r) mod unat al = 0
     \<and> list_all (\<lambda>u. clear_of r (unat (r_start u)) (unat (r_end u))) used) windows)"

definition ranges_external :: "unit external" where
  "ranges_external = ram_external\<lparr>
     x_range_new := \<lambda>start len. (case checked_add start len of None \<Rightarrow> None
       | Some e \<Rightarrow> Some \<lparr> r_start = start, r_end = e, r_length = len \<rparr>),
     x_free_ranges := free_windows \<rparr>"

definition span_of :: "u32 \<Rightarrow> u32 \<Rightarrow> cpu_range" where
  "span_of start len = \<lparr> r_start = start, r_end = start + len, r_length = len \<rparr>"

lemma lawful_ranges_external: "lawful_ranges ranges_external"
proof -
  have "proper \<lparr> r_start = start, r_end = start + len, r_length = len \<rparr>" if "unat start + unat len < 2 ^ 32" for start len :: u32
    using that unat_add_lem [of start len] by (simp add: proper_def)
  then have "\<forall>start len r. x_range_new ranges_external start len = Some r \<longrightarrow> proper r \<and> r_start r = start \<and> r_length r = len"
    by (auto simp: ranges_external_def checked_add_def split: if_splits)
  moreover have "\<forall>w r. x_range_contains ranges_external w r \<longrightarrow> within r w"
    by (simp add: ranges_external_def ram_external_def within_def)
  moreover have "\<forall>windows used al rs. x_free_ranges ranges_external windows used al = Some rs \<longrightarrow>
        list_all (\<lambda>r. proper r \<and> list_ex (within r) windows
          \<and> list_all (\<lambda>u. clear_of r (unat (r_start u)) (unat (r_end u))) used
          \<and> unat (r_start r) mod unat al = 0) rs"
    by (auto simp: ranges_external_def free_windows_def list_all_iff list_ex_iff within_def)
  ultimately show ?thesis by (simp add: lawful_ranges_def)
qed

text \<open>
  A drive whose firmware leaves two windows open, one of them in use by an overlay: its layout, the
  callback sites, its profile, and its memory with the methods the discovery checks.
\<close>

definition demo_layout :: fw_layout where
  "demo_layout = \<lparr> image_base = Some 0x400000, overlay_ranges = [span_of 0xa20000 0x1000],
     structural_gaps = [span_of 0xa20000 0x2000, span_of 0xa10000 0x2000], global_canaries = [0xa00800],
     buffer_tables = [[\<lambda>base top. Some (Some (span_of (base + 0x30000) 0x100))]] \<rparr>"

definition demo_site :: opcode_site where
  "demo_site = \<lparr> os_object_address = 0x100, os_table_address = 0x400800, os_main_address = 0x400040,
     os_check_address = 0x400010, os_prepare_address = 0x400020 \<rparr>"

definition demo_external :: "unit external" where
  "demo_external = ranges_external\<lparr> x_inspect := \<lambda>_. Some demo_layout, x_read_buffer_site := \<lambda>_ _. Some demo_site,
     x_opcode_site := \<lambda>_ _ _. Some (demo_site\<lparr> os_object_address := 0x104, os_table_address := 0x400900 \<rparr>) \<rparr>"

definition demo_profile :: hook_profile where
  "demo_profile = \<lparr> normal_address = 0x400000, normal_length = 0x1100, normal_sha256 = [], controller_cpu_base = 0xa00000,
     pointer_address = 0x100, original_table = 0x400800, write_pointer_address = 0x104, write_original_table = 0x400900,
     table_length = 40, main_callback_offset = 0x24, reserved_windows = structural_gaps demo_layout,
     occupied = overlay_ranges demo_layout @ [span_of 0xa00000 0x802],
     profile_guards = [\<lparr> cpu_address = 0xa00800, expected = [0xa5, 0xa5] \<rparr>],
     ownership_evidence = OWNERSHIP_EVIDENCE, write_path_evidence = WRITE_PATH_EVIDENCE \<rparr>"

definition demo_ram :: ram where
  "demo_ram = poke 0x93 0x800 [0xa5, 0xa5] (poke 0xb0 0x400010 [0x54, 0x70] (poke 0xb0 0x400020 [0x18, 0x88, 0x54, 0x70] []))"

lemma lawful_demo: "lawful_ranges demo_external"
  using lawful_ranges_external by (simp add: lawful_ranges_def demo_external_def)

lemma demo_read:
  assumes "0 < len" "len \<le> 0x400000" "address demo_external q cpu len = Some (sel, off)"
  shows "result_of (mem_read ram_host demo_external q cpu len) m = Inr (peek (ram_cells m) sel off (unat len))"
    and "world_of (mem_read ram_host demo_external q cpu len) m = m"
proof -
  have same: "x_diagnostic_memory demo_external = x_diagnostic_memory ram_external"
    by (simp add: demo_external_def ranges_external_def)
  have "unat len < 2 ^ 32" using unsigned_less [of len, where 'a = nat] by simp
  with assms show "result_of (mem_read ram_host demo_external q cpu len) m = Inr (peek (ram_cells m) sel off (unat len))"
    and "world_of (mem_read ram_host demo_external q cpu len) m = m"
    by (simp_all add: mem_read_def ensureE_def memory_call same run_of_bind_io run_of_ret ram_calls overlay_full)
qed

lemma demo_address:
  "address demo_external demo_profile 0x400000 0x1100 = Some (0xb0, 0x400000)"
  "address demo_external demo_profile 0xa00800 2 = Some (0x93, 0x800)"
  by (simp_all add: address_def demo_external_def ranges_external_def demo_profile_def ensure_def checked_add_def)

lemma demo_guards:
  "profile_guards q = profile_guards demo_profile \<Longrightarrow> controller_cpu_base q = 0xa00000 \<Longrightarrow>
   result_of (guards ram_host demo_external q) demo_ram = Inr () \<and> world_of (guards ram_host demo_external q) demo_ram = demo_ram"
proof -
  assume q: "profile_guards q = profile_guards demo_profile" "controller_cpu_base q = 0xa00000"
  then have "address demo_external q 0xa00800 2 = Some (0x93, 0x800)"
    by (simp add: address_def demo_external_def ranges_external_def ensure_def checked_add_def)
  with q show ?thesis
    by (simp add: guards_def demo_profile_def run_of_bindE run_of_bind_io run_of_ret ensureE_def optE_def u32_try_def
        require_read_def demo_read demo_ram_def poke_step peek_step ram_cells_def)
qed

lemma slice_peek:
  assumes "i \<le> j" "j \<le> n"
  shows "get_slice (peek m sel off n) i j = Some (peek m sel (off + of_nat i) (j - i))"
  using assms by (auto simp: get_slice_def slice_def peek_def add.assoc intro!: nth_equalityI)

lemma demo_image: "get_slice (peek (ram_cells demo_ram) 0xb0 0x400000 0x1100) 0x10 0x12 = Some [0x54, 0x70]"
    "get_slice (peek (ram_cells demo_ram) 0xb0 0x400000 0x1100) 0x20 0x24 = Some [0x18, 0x88, 0x54, 0x70]"
  by (subst slice_peek; simp add: demo_ram_def poke_step peek_step ram_cells_def)+

lemma demo_fields:
  "x_inspect demo_external img = Some demo_layout" "x_read_buffer_site demo_external img base = Some demo_site"
  "x_opcode_site demo_external img base n = Some (demo_site\<lparr> os_object_address := 0x104, os_table_address := 0x400900 \<rparr>)"
  "x_range_from_bounds demo_external start fin = Some \<lparr> r_start = start, r_end = fin, r_length = fin - start \<rparr>"
  "x_range_new demo_external start len = (case checked_add start len of None \<Rightarrow> None
     | Some e \<Rightarrow> Some \<lparr> r_start = start, r_end = e, r_length = len \<rparr>)"
  "x_range_contains demo_external w r \<longleftrightarrow> r_start w \<le> r_start r \<and> r_end r \<le> r_end w"
  "x_free_ranges demo_external = free_windows" "sha256 demo_external img = []"
  by (simp_all add: demo_external_def ranges_external_def ram_external_def sha256_def)

lemma demo_derived:
  "derive_profile demo_external (peek (ram_cells demo_ram) 0xb0 0x400000 0x1100) = Some demo_profile"
  by (simp add: derive_profile_def demo_fields hook_site_def demo_layout_def demo_site_def demo_image demo_profile_def
      span_of_def u32_try_def ensure_def)

lemma demo_valid: "validate_profile demo_external demo_profile = Some ()"
proof -
  have "trim OWNERSHIP_EVIDENCE \<noteq> []" "trim WRITE_PATH_EVIDENCE \<noteq> []" by code_simp+
  then show ?thesis
    by (simp add: validate_profile_def demo_fields demo_profile_def demo_layout_def span_of_def checked_add_def ensure_def)
qed

lemma demo_spaces:
  "free_ranges_of demo_external demo_profile demo_profile demo_layout 32
     = Some [\<lparr> fs_cpu = span_of 0xa10000 0x2000, fs_length = 0x2000, controller_offset = 0x10000, firmware_sha256 = [],
               fs_ownership_evidence = OWNERSHIP_EVIDENCE \<rparr>]"
  by (simp add: free_ranges_of_def demo_fields demo_profile_def demo_layout_def span_of_def free_windows_def
      proper_def clear_of_def u32_try_def checked_add_def)

lemma demo_space:
  "result_of (find_free_space ram_host demo_external demo_profile 0x400 32) demo_ram
     = Inr \<lparr> fs_cpu = span_of 0xa10000 0x400, fs_length = 0x400, controller_offset = 0x10000, firmware_sha256 = [],
             fs_ownership_evidence = OWNERSHIP_EVIDENCE \<rparr>"
proof -
  let ?img = "peek (ram_cells demo_ram) 0xb0 0x400000 0x1100"
  have fields: "controller_cpu_base demo_profile = 0xa00000" "normal_address demo_profile = 0x400000"
    "normal_length demo_profile = 0x1100"
    by (simp_all add: demo_profile_def)
  have parts: "layout_of demo_external demo_profile ?img = Some demo_layout"
      "derived_profile demo_external demo_profile ?img = Some demo_profile"
    by (simp_all add: layout_of_def derived_profile_def demo_derived demo_fields)
       (simp_all add: demo_profile_def demo_layout_def span_of_def)
  show ?thesis
    using demo_guards [OF refl fields(1)]
    by (simp add: find_free_space_def find_free_spaces_def demo_valid demo_read demo_address fields parts demo_spaces
        run_of_bindE run_of_ret ensureE_def optE_def const_defs demo_fields span_of_def checked_add_def)
qed

lemma payload_well_placed_witness:
  "result_of (find_free_space ram_host demo_external demo_profile 0x400 32) demo_ram
     = Inr \<lparr> fs_cpu = span_of 0xa10000 0x400, fs_length = 0x400, controller_offset = 0x10000, firmware_sha256 = [],
             fs_ownership_evidence = OWNERSHIP_EVIDENCE \<rparr>
   \<and> vacant demo_profile (span_of 0xa10000 0x400) \<and> unclaimed demo_external demo_profile (span_of 0xa10000 0x400)
   \<and> sat (prepare ram_host demo_external Suppress False) (\<lambda>r _. when_Inr (well_placed demo_external) r)"
proof -
  note placed = payload_well_placed [OF lawful_demo, of ram_host demo_profile "0x400" 32 Suppress False]
  from sat_run [OF conjunct1 [OF placed], of demo_ram]
  have "vacant demo_profile (span_of 0xa10000 0x400)" "unclaimed demo_external demo_profile (span_of 0xa10000 0x400)"
    by (simp_all add: demo_space)
  with demo_space conjunct2 [OF placed] show ?thesis by blast
qed

end
