(* ===== verification/Renesas_Resident.thy ===== *)
theory Renesas_Resident
  imports Renesas Renesas_Memory
begin

text \<open>
  What a successful transaction of the Renesas backend leaves in the memory of the drive: the
  runtime, attached and unharmed, when the critical span ends.
\<close>

unbundle bit_operations_syntax

section \<open>The resident runtime\<close>

definition runtime_resident :: "'s external \<Rightarrow> prepared \<Rightarrow> (cell \<Rightarrow> u8) \<Rightarrow> bool" where
  "runtime_resident X p m \<longleftrightarrow> (let q = prep_profile p; s = prep_sites p in
     holds X q m (site_security_slot s) (policy_word p)
   \<and> list_all (\<lambda>g. holds X q m (cpu_address g) (expected g)) (profile_guards q)
   \<and> holds X q m (pointer_address q) (installed_pointer p)
   \<and> holds X q m (vid_slot (site_vid s)) (vid_installed_pointer p)
   \<and> holds X q m (write_pointer_address q) (be32 (write_original_table q))
   \<and> holds X q m (r_start (allocation p)) (payload p))"

lemma triple_resident:
  assumes "memory_drive H X M"
  shows "triple (\<lambda>w. M w = m) (verify_resident H X p) (\<lambda>r w. M w = m \<and> when_Inr (\<lambda>_. runtime_resident X p m) r)"
proof -
  note req = triple_require [OF assms]
  show ?thesis
    unfolding verify_resident_def Let_def
    by (rule triple_readsE [OF req], rule triple_readsE [OF triple_guards [OF assms]], rule triple_readsE [OF req],
        rule triple_readsE [OF req], rule triple_readsE [OF req], rule triple_post [OF req])
       (auto elim!: when_Inr_mono simp: runtime_resident_def Let_def)
qed

text \<open>A backend that owns the drive finishes successfully only by reading the whole runtime back.\<close>

lemma finish_resident:
  assumes "memory_drive H X M" "rb_touched b" "rb_prepared b = Some p"
    and fin: "result_of (renesas_finish X H b success) w = (Inr u, b')"
  shows "runtime_resident X p (M (world_of (renesas_finish X H b success) w))" "b' = b"
proof -
  from tripleD [OF triple_resident [OF assms(1)], of w "M w" p]
  have "M (world_of (verify_resident H X p) w) = M w
      \<and> when_Inr (\<lambda>_. runtime_resident X p (M w)) (result_of (verify_resident H X p) w)" by simp
  then show "runtime_resident X p (M (world_of (renesas_finish X H b success) w))" "b' = b"
    using fin by (auto simp: renesas_finish_def assms(2,3) run_of_bind_io run_of_ret split: if_splits sum.splits)
qed

lemma transaction_touched:
  "sat (transaction H (renesas_runtime X) b installed)
     (\<lambda>(r, b') _. rb_prepared b' = rb_prepared b \<and> when_Inr (\<lambda>_. rb_touched b' \<and> rb_prepared b \<noteq> None) r)"
proof -
  have "sat (renesas_install X H b installed)
      (\<lambda>(r, b') _. rb_prepared b' = rb_prepared b \<and> when_Inr (\<lambda>_. rb_touched b' \<and> rb_prepared b \<noteq> None) r)"
    unfolding renesas_install_def
    by (auto simp: Let_def when_Inr_def intro!: sat_bind [OF sat_True] split: option.split sum.split)
  then show ?thesis
    unfolding transaction_def renesas_runtime_methods
    by (rule sat_bind) (auto simp: when_Inr_def intro!: sat_bind [OF sat_True] split: sum.splits)
qed

text \<open>
  C7. A successful installation is in the drive's memory. Take any drive whose diagnostic commands
  read and write memory, whatever its other commands do, and let the backend's transaction end the
  critical span with an unlock. Then a preparation was made, and at that moment the payload, both
  object slots and the policy slot hold the runtime's bytes, the OEM write table is untouched and
  every guard of the profile holds.
\<close>
theorem unlocked_runtime_resident:
  assumes "memory_drive H X M"
    and "result_of (guarded_transaction H (renesas_runtime X) b installed) w = Inr (Inr got, b')"
  shows "\<exists>p. rb_prepared b = Some p \<and> rb_prepared b' = Some p
    \<and> runtime_resident X p (M (world_of (guarded_transaction H (renesas_runtime X) b installed) w))"
proof -
  obtain r b1 where t: "result_of (transaction H (renesas_runtime X) b installed) w = (r, b1)" by fastforce
  let ?w1 = "world_of (transaction H (renesas_runtime X) b installed) w"
  have run: "result_of (guarded_transaction H (renesas_runtime X) b installed) w
      = (case result_of (renesas_finish X H b1 (case r of Inr _ \<Rightarrow> True | Inl _ \<Rightarrow> False)) ?w1 of
           (Inl e, b2) \<Rightarrow> Inl e | (Inr _, b2) \<Rightarrow> Inr (r, b2))"
    "world_of (guarded_transaction H (renesas_runtime X) b installed) w
      = world_of (renesas_finish X H b1 (case r of Inr _ \<Rightarrow> True | Inl _ \<Rightarrow> False)) ?w1"
    by (auto simp: guarded_transaction_def run_of_bind_io run_of_ret t renesas_runtime_methods split: prod.split sum.split)
  with assms(2) obtain u where fin: "result_of (renesas_finish X H b1 True) ?w1 = (Inr u, b')" "r = Inr got"
    by (auto split: prod.splits sum.splits)
  from sat_run [OF transaction_touched [of H X b installed], of w] fin(2)
  obtain p where p: "rb_prepared b = Some p" "rb_prepared b1 = Some p" "rb_touched b1" by (auto simp: t)
  from finish_resident [OF assms(1) p(3,2) fin(1)] p fin(2) show ?thesis by (simp add: run)
qed

section \<open>A drive on which the runtime is found\<close>

text \<open>The plain memory of \<open>Renesas_Memory\<close> with the runtime staged, active, and its state checked.\<close>

definition resident_prepared :: prepared where
  "resident_prepared = ram_prepared\<lparr> original := payload ram_prepared \<rparr>"

definition resident_ram :: ram where
  "resident_ram = poke 0xb0 0x311 [1] (poke 0xb0 0x10c (policy_word ram_prepared) ram_staged)"

definition resident_backend :: renesas_backend where
  "resident_backend = \<lparr> rb_prepared = Some resident_prepared, rb_existing = True, rb_touched = False \<rparr>"

lemma resident_fields:
  "prep_profile resident_prepared = prep_profile ram_prepared" "prep_sites resident_prepared = prep_sites ram_prepared"
  "allocation resident_prepared = allocation ram_prepared" "payload resident_prepared = payload ram_prepared"
  "original resident_prepared = payload ram_prepared" "policy_word resident_prepared = policy_word ram_prepared"
  "installed_pointer resident_prepared = installed_pointer ram_prepared"
  "vid_installed_pointer resident_prepared = vid_installed_pointer ram_prepared"
  "site_loaded (prep_sites ram_prepared) = 0x310" "site_checked (prep_sites ram_prepared) = 0x311"
  "site_result (prep_sites ram_prepared) = 0x312"
  by (simp_all add: resident_prepared_def policy_word_def) (simp_all add: ram_prepared_def)

lemmas resident_ram_eq = resident_ram_def [unfolded ram_staged_eq ram_fields be32_def, simplified poke_step, simplified]

lemma ram_execute_read:
  "result_of (execute ram_host cdb FromDevice data t) m
     = (Inr \<lparr> res_status = 0, res_transferred = length data, res_sense = [] \<rparr>,
        peek (ram_cells m) (byte_at cdb 0) (from_be32 (drop 1 cdb)) (length data))"
  "world_of (execute ram_host cdb FromDevice data t) m = m"
  by (simp_all add: ram_host_def default_host_def execute_def ram_execute_def run_simps world_of_def Let_def overlay_full)

lemma resident_checked: "result_of (check_prepared ram_host ram_external resident_prepared True) resident_ram = Inr ()"
    "world_of (check_prepared ram_host ram_external resident_prepared True) resident_ram = resident_ram"
  by (simp_all add: check_prepared_def run_of_bindE ram_guards resident_fields ram_eval resident_ram_eq)

text \<open>Its other commands read zeros, which is how the runtime acknowledges a SET.\<close>

lemma other_read: "sel \<noteq> 0xb0 \<Longrightarrow> peek (ram_cells resident_ram) sel off n = zeros n"
  by (rule nth_equalityI) (simp_all add: peek_def ram_cells_def resident_ram_eq zeros_def)

lemma resident_set:
  "result_of (set_checked ram_host f st (Some (renesas_runtime ram_external, b))) resident_ram = Inr ()"
  "world_of (set_checked ram_host f st (Some (renesas_runtime ram_external, b))) resident_ram = resident_ram"
proof -
  have "byte_at (build_set_cdb f st) 0 = 0x3C" by (simp add: build_set_cdb_def build_cdb_bytes byte_at_def)
  then show "result_of (set_checked ram_host f st (Some (renesas_runtime ram_external, b))) resident_ram = Inr ()"
    "world_of (set_checked ram_host f st (Some (renesas_runtime ram_external, b))) resident_ram = resident_ram"
    by (simp_all add: set_checked_def run_of_bind_io run_of_ret ram_execute_read other_read renesas_runtime_def
        renesas_validate_def const_defs)
qed

lemma resident_activate:
  "result_of (activate ram_host (renesas_runtime ram_external) b) resident_ram = Inr ()"
  "world_of (activate ram_host (renesas_runtime ram_external) b) resident_ram = resident_ram"
proof -
  have "result_of (activate_optional ram_host (renesas_runtime ram_external) b fs) resident_ram = Inr ()
      \<and> world_of (activate_optional ram_host (renesas_runtime ram_external) b fs) resident_ram = resident_ram" for fs
    by (induction fs) (simp_all add: run_of_ret run_of_bind_io resident_set)
  moreover have "supports_set PIONEER_RUNTIME Encryption STATE_OFF" by code_simp
  ultimately show "result_of (activate ram_host (renesas_runtime ram_external) b) resident_ram = Inr ()"
    "world_of (activate ram_host (renesas_runtime ram_external) b) resident_ram = resident_ram"
    by (simp_all add: activate_def run_of_bindE resident_set renesas_runtime_methods map_errE_def run_of_bind_io run_of_ret)
qed

lemma resident_verify:
  "result_of (verify_resident ram_host ram_external resident_prepared) resident_ram = Inr ()"
  "world_of (verify_resident ram_host ram_external resident_prepared) resident_ram = resident_ram"
  "result_of (verify_state ram_host ram_external resident_prepared) resident_ram = Inr ()"
  "world_of (verify_state ram_host ram_external resident_prepared) resident_ram = resident_ram"
  by (simp_all add: verify_resident_def verify_state_def run_of_bindE ram_guards resident_fields ram_eval resident_ram_eq)

lemma resident_vid:
  "result_of (read_aacs_vid ram_host) resident_ram = Inr None" "world_of (read_aacs_vid ram_host) resident_ram = resident_ram"
proof -
  have "byte_at build_vid_cdb 0 = 0xAD" by (simp add: build_vid_cdb_bytes byte_at_def)
  then show "result_of (read_aacs_vid ram_host) resident_ram = Inr None"
    "world_of (read_aacs_vid ram_host) resident_ram = resident_ram"
    by (simp_all add: read_aacs_vid_def run_of_bind_io run_of_ret ram_execute_read other_read const_defs Let_def slice_def zeros_unfold)
qed

lemma resident_backend_fields:
  "rb_prepared resident_backend = Some resident_prepared" "rb_existing resident_backend" "\<not> rb_touched resident_backend"
  by (simp_all add: resident_backend_def)

lemma resident_install: "result_of (renesas_install ram_external ram_host resident_backend True) resident_ram
    = (Inr (), resident_backend\<lparr> rb_touched := True \<rparr>)"
  "world_of (renesas_install ram_external ram_host resident_backend True) resident_ram = resident_ram"
  by (simp_all add: renesas_install_def resident_backend_fields run_of_bind_io run_of_ret resident_checked Let_def)

lemma unlocked_runtime_resident_witness:
  "result_of (guarded_transaction ram_host (renesas_runtime ram_external) resident_backend True) resident_ram
     = Inr (Inr \<lparr> vid = None, bus_key = None \<rparr>, resident_backend\<lparr> rb_touched := True \<rparr>)
   \<and> runtime_resident ram_external resident_prepared
       (ram_cells (world_of (guarded_transaction ram_host (renesas_runtime ram_external) resident_backend True) resident_ram))"
proof -
  have run: "result_of (guarded_transaction ram_host (renesas_runtime ram_external) resident_backend True) resident_ram
     = Inr (Inr \<lparr> vid = None, bus_key = None \<rparr>, resident_backend\<lparr> rb_touched := True \<rparr>)"
    by (simp add: guarded_transaction_def transaction_def installed_identity_def activate_backend_def renesas_runtime_methods
        run_of_bind_io run_of_bindE run_of_ret resident_install resident_activate resident_vid map_errE_def
        renesas_verify_def renesas_finish_def resident_backend_fields resident_verify)
  from unlocked_runtime_resident [OF memory_drive_ram run] run show ?thesis
    by (auto simp: resident_backend_fields)
qed

end
