(* ===== verification/Renesas_Oneshot.thy ===== *)
theory Renesas_Oneshot
  imports Renesas Renesas_Memory Renesas_Flow
begin

text \<open>
  The one-shot use of the hook that the source keeps for its tests (\<open>exact\<close>, \<open>transact\<close>, \<open>run\<close>,
  \<open>finish\<close> and \<open>unlock\<close> of module \<open>hook\<close>, \<open>unlock\<close> of \<open>freemkv/renesas.rs\<close>): install, issue the command
  once, remove the hook again.
\<close>

unbundle bit_operations_syntax

section \<open>The transaction\<close>

definition exact_reply :: "cdb_reply \<Rightarrow> nat \<Rightarrow> ('w, anyhow + bytes) io" where
  "exact_reply reply n =
     bindE (ensureE (reply_status reply = 0 \<and> reply_transferred reply = n)) (\<lambda>_. okE (reply_data reply))"

definition activation :: "'w host \<Rightarrow> 's external \<Rightarrow> hook_operation \<Rightarrow> prepared \<Rightarrow> ('w, anyhow + bytes) io" where
  "activation H X op p =
     bindE (stage H X p) (\<lambda>_.
     bindE (generic_cdb H (op_cdb op) FromDevice (zeros (op_length op))) (\<lambda>reply.
     bindE (exact_reply reply (op_length op)) (\<lambda>response.
     bindE (if op = Suppress
            then bindE (ensureE (response = zeros 64)) (\<lambda>_. verify_state H X p)
            else okE ()) (\<lambda>_.
     okE response))))"

definition transact :: "'w host \<Rightarrow> 's external \<Rightarrow> hook_operation \<Rightarrow> prepared \<Rightarrow> ('w, anyhow + bytes) io" where
  "transact H X op p =
     bindE (check_prepared H X p False) (\<lambda>_.
     bind_io (activation H X op p) (\<lambda>activated.
     bind_io (cleanup H X p) (\<lambda>restored.
     bindE (ensureE (case restored of Inr _ \<Rightarrow> True | Inl _ \<Rightarrow> False)) (\<lambda>_.
     bindE (ret activated) (\<lambda>response.
     bindE (if op = Suppress then verify_state H X p else okE ()) (\<lambda>_.
     okE response))))))"

definition hook_finish :: "'w host \<Rightarrow> 's external \<Rightarrow> hook_operation \<Rightarrow> prepared \<Rightarrow> ('w, unlock_error + bytes) io" where
  "hook_finish H X op p =
     bindE (with_critical H (\<lambda>_. Transport) (map_errE (\<lambda>_. Transport) (transact H X op p))) (\<lambda>response.
     bindE (map_errE (\<lambda>_. Transport) (pause H 0)) (\<lambda>_.
     okE response))"

definition hook_run :: "'w host \<Rightarrow> 's external \<Rightarrow> hook_operation \<Rightarrow> ('w, unlock_error + bytes) io" where
  "hook_run H X op =
     bindE (map_errE (\<lambda>e. if e = DeadTransport then Transport else NotApplicable) (prepare H X op False)) (\<lambda>p.
     hook_finish H X op p)"

definition hook_unlock :: "'w host \<Rightarrow> 's external \<Rightarrow> ('w, unlock_error + unit) io" where
  "hook_unlock H X = bindE (hook_run H X Suppress) (\<lambda>_. okE ())"

definition oneshot_unlock :: "'s external \<Rightarrow> 'w host \<Rightarrow> ('w, unlock_error + unlocked option) io" where
  "oneshot_unlock X H =
     bindE (is_renesas H X) (\<lambda>found.
     if \<not> found then okE None
     else bind_io (bindE (hook_unlock H X) (\<lambda>_.
            bindE (renesas_read_vid H) (\<lambda>v.
            okE \<lparr> vid = v, bus_key = None \<rparr>))) (\<lambda>r.
          ret (fallthrough r)))"

section \<open>It leaves no trace\<close>

text \<open>A program keeps the memory outside \<open>D\<close>.\<close>

definition confined :: "('w \<Rightarrow> cell \<Rightarrow> u8) \<Rightarrow> cell set \<Rightarrow> ('w, 'v, 'a) prog \<Rightarrow> bool" where
  "confined M D c \<longleftrightarrow> (\<forall>m. triple (\<lambda>w. M w = m) c (\<lambda>_ w. agree (- D) (M w) m))"

lemma confined_agree: "confined M D c \<Longrightarrow> triple (\<lambda>w. agree A (M w) m) c (\<lambda>_ w. agree (A - D) (M w) m)"
  unfolding confined_def by (rule triple_of_memory [where P = "\<lambda>m'. agree A m' m" and M = M], erule allE, erule triple_post) 
    (auto simp: agree_def)

text \<open>The state that an activation leaves: not loaded, checked, and the check passed.\<close>

definition state_checked :: "'s external \<Rightarrow> prepared \<Rightarrow> (cell \<Rightarrow> u8) \<Rightarrow> bool" where
  "state_checked X p m \<longleftrightarrow> (let q = prep_profile p; s = prep_sites p in
     holds X q m (site_loaded s) [0] \<and> holds X q m (site_checked s) [1] \<and> holds X q m (site_result s) [0])"

lemma triple_state:
  assumes "memory_drive H X M"
  shows "triple (\<lambda>w. M w = m) (verify_state H X p) (\<lambda>r w. M w = m \<and> when_Inr (\<lambda>_. state_checked X p m) r)"
proof -
  note read = triple_readsE [OF triple_read [OF assms]]
  show ?thesis
    unfolding verify_state_def
    by (rule read, simp, intro impI, rule read, simp, intro impI, rule read)
       (auto simp: ensureE_def state_checked_def Let_def)
qed

lemma triple_activation:
  assumes "memory_drive H X M" "length (vid_installed_pointer p) = 4" "length (installed_pointer p) = 4"
    and "confined M D (generic_cdb H (op_cdb op) FromDevice (zeros (op_length op)))"
  shows "triple (\<lambda>w. agree UNIV (M w) m) (activation H X op p) (\<lambda>_ w. agree (- runtime_cells X p - D) (M w) m)"
proof -
  have state: "triple (\<lambda>w. agree A (M w) m) (verify_state H X p) (\<lambda>_ w. agree A (M w) m)" for A
    by (rule triple_of_memory [where P = "\<lambda>m'. agree A m' m" and M = M], rule triple_post [OF triple_state [OF assms(1)]]) simp
  show ?thesis
    unfolding activation_def exact_reply_def
    by (rule agree_thenE [OF triple_stage [OF assms(1-3)]], blast,
        rule agree_thenE [OF confined_agree [OF assms(4)] order_refl])
       (auto simp: ensureE_def intro: agree_thenE [OF state order_refl])
qed

text \<open>
  A one-shot activation that reports success has left nothing behind. On any drive whose diagnostic
  commands read and write memory, with a command that changes no cells but \<open>D\<close>: every cell of the
  runtime, and every other cell outside \<open>D\<close>, holds at the end what it held before, and the drive's
  state variables say that the check was passed.
\<close>
theorem oneshot_leaves_no_trace:
  assumes "memory_drive H X M"
    and lengths: "length (original p) = length (payload p)" "length (installed_pointer p) = 4" "length (vid_installed_pointer p) = 4"
    and "confined M D (generic_cdb H (op_cdb Suppress) FromDevice (zeros 64))"
    and "result_of (transact H X Suppress p) w = Inr response"
  shows "agree (runtime_cells X p \<union> - D) (M (world_of (transact H X Suppress p) w)) (M w)
    \<and> state_checked X p (M (world_of (transact H X Suppress p) w)) \<and> response = zeros 64"
proof -
  let ?w1 = "world_of (check_prepared H X p False) w"
  let ?w2 = "world_of (activation H X Suppress p) ?w1"
  let ?w3 = "world_of (cleanup H X p) ?w2"
  from assms(6) have run: "result_of (check_prepared H X p False) w = Inr ()" "result_of (cleanup H X p) ?w2 = Inr ()"
      "result_of (activation H X Suppress p) ?w1 = Inr response" "result_of (verify_state H X p) ?w3 = Inr ()"
      "world_of (transact H X Suppress p) w = world_of (verify_state H X p) ?w3"
    by (auto simp: transact_def run_of_bindE run_of_bind_io run_of_ret ensureE_def split: sum.splits if_splits)
  from tripleD [OF triple_check [OF assms(1)], of w "M w" p] run(1)
  have w1: "M ?w1 = M w" and slots: "slots_restored X p (M w)" by auto
  from tripleD [OF triple_activation [OF assms(1) lengths(3,2) , of D Suppress], of ?w1 "M w"] assms(5) w1
  have "agree (- runtime_cells X p - D) (M ?w2) (M w)" by (simp add: agree_def)
  from tripleD [OF triple_cleanup [OF assms(1) slots lengths(1)], OF this] run(2)
  have w3: "agree (- runtime_cells X p - D \<union> runtime_cells X p) (M ?w3) (M w)" by simp
  from tripleD [OF triple_state [OF assms(1)], of ?w3 "M ?w3" p] run(4)
  have "M (world_of (verify_state H X p) ?w3) = M ?w3" "state_checked X p (M ?w3)" by auto
  moreover have "response = zeros 64"
    using run(3) by (auto simp: activation_def run_of_bindE run_of_ret ensureE_def split: sum.splits if_splits)
  moreover have "runtime_cells X p \<union> - D \<subseteq> - runtime_cells X p - D \<union> runtime_cells X p" by blast
  ultimately show ?thesis using agree_mono [OF w3] by (simp add: run(5))
qed

text \<open>The plain memory of \<open>Renesas_Memory\<close>, its state variable set: the transaction runs through on it.\<close>

definition checked_ram :: ram where
  "checked_ram = poke 0xb0 0x311 [1] []"

lemma checked_fields:
  "site_loaded (prep_sites ram_prepared) = 0x310" "site_checked (prep_sites ram_prepared) = 0x311"
  "site_result (prep_sites ram_prepared) = 0x312"
  by (simp_all add: ram_prepared_def)

lemma ram_generic:
  "length cdb = 10 \<Longrightarrow> length data \<le> 4096 \<Longrightarrow> result_of (generic_cdb ram_host cdb FromDevice data) m
     = Inr \<lparr> reply_cdb = cdb, reply_status = 0, reply_transferred = length data, reply_sense = [],
             reply_data = peek (ram_cells m) (byte_at cdb 0) (from_be32 (drop 1 cdb)) (length data) \<rparr>"
  "world_of (generic_cdb ram_host cdb FromDevice data) m = m"
  by (simp_all add: generic_cdb_def ram_host_def default_host_def execute_def ram_execute_def run_simps world_of_def
      Let_def overlay_full ensureE_def split: if_splits)

lemma ram_confined: "confined ram_cells {} (generic_cdb ram_host cdb FromDevice data)"
  by (simp add: confined_def triple_def ram_generic agree_def)

lemma checked_check: "result_of (check_prepared ram_host ram_external ram_prepared False) checked_ram = Inr ()"
    "world_of (check_prepared ram_host ram_external ram_prepared False) checked_ram = checked_ram"
  by (simp_all add: check_prepared_def checked_ram_def run_of_bindE ram_guards ram_eval)

definition checked_staged :: ram where
  "checked_staged =
    zip (map (Pair 0xb0) [0x100, 0x101, 0x102, 0x103]) (installed_pointer ram_prepared)
  @ zip (map (Pair 0xb0) [0x108, 0x109, 0x10a, 0x10b]) (vid_installed_pointer ram_prepared)
  @ zip (map (Pair 0xb0) [0x2000, 0x2001]) (payload ram_prepared) @ checked_ram"

lemma checked_stage: "result_of (stage ram_host ram_external ram_prepared) checked_ram = Inr ()"
    "world_of (stage ram_host ram_external ram_prepared) checked_ram = checked_staged"
  by (simp_all add: stage_def checked_staged_def checked_ram_def ram_eval)

lemma checked_activation:
  "result_of (activation ram_host ram_external Suppress ram_prepared) checked_ram = Inr (zeros 64)"
  "world_of (activation ram_host ram_external Suppress ram_prepared) checked_ram = checked_staged"
proof -
  have zero: "peek (ram_cells checked_staged) 0x3C off n = zeros n" for off n
    by (rule nth_equalityI) (simp_all add: peek_def ram_cells_def checked_staged_def checked_ram_def ram_fields poke_step zeros_def)
  have cdb: "length (op_cdb Suppress) = 10" "byte_at (op_cdb Suppress) 0 = 0x3C" by (simp_all add: op_cdb_bytes byte_at_def del: op_cdb.simps)
  have state: "result_of (verify_state ram_host ram_external ram_prepared) checked_staged = Inr ()"
    "world_of (verify_state ram_host ram_external ram_prepared) checked_staged = checked_staged"
    by (simp_all add: verify_state_def checked_staged_def checked_ram_def checked_fields ram_eval)
  show "result_of (activation ram_host ram_external Suppress ram_prepared) checked_ram = Inr (zeros 64)"
    "world_of (activation ram_host ram_external Suppress ram_prepared) checked_ram = checked_staged"
    by (simp_all add: activation_def exact_reply_def run_of_bindE run_of_ret checked_stage ram_generic cdb zero state ensureE_def
        del: op_cdb.simps)
qed

definition checked_cleaned :: ram where
  "checked_cleaned = world_of (cleanup ram_host ram_external ram_prepared) checked_staged"

lemma checked_clean: "result_of (cleanup ram_host ram_external ram_prepared) checked_staged = Inr ()"
    "result_of (verify_state ram_host ram_external ram_prepared) checked_cleaned = Inr ()"
proof -
  have "result_of (restore_policy ram_host ram_external ram_prepared) m = Inr () \<and> world_of (restore_policy ram_host ram_external ram_prepared) m = m"
    if "peek (ram_cells m) 0xb0 0x10c 4 = zeros 4" for m
    using that by (simp add: restore_policy_def ram_eval)
  then have "result_of (cleanup ram_host ram_external ram_prepared) checked_staged = Inr ()
      \<and> world_of (cleanup ram_host ram_external ram_prepared) checked_staged
        = poke 0xb0 0x2000 (zeros 2) (poke 0xb0 0x108 (zeros 4) (poke 0xb0 0x100 (zeros 4) checked_staged))"
    unfolding cleanup_def Let_def
    by (simp add: checked_staged_def checked_ram_def run_of_bindE ram_guards ram_eval)
  then show "result_of (cleanup ram_host ram_external ram_prepared) checked_staged = Inr ()"
    "result_of (verify_state ram_host ram_external ram_prepared) checked_cleaned = Inr ()"
    by (simp_all add: checked_cleaned_def verify_state_def checked_staged_def checked_ram_def checked_fields ram_eval)
qed

lemma oneshot_leaves_no_trace_witness:
  "result_of (transact ram_host ram_external Suppress ram_prepared) checked_ram = Inr (zeros 64)
   \<and> agree UNIV (ram_cells (world_of (transact ram_host ram_external Suppress ram_prepared) checked_ram)) (ram_cells checked_ram)"
proof -
  have run: "result_of (transact ram_host ram_external Suppress ram_prepared) checked_ram = Inr (zeros 64)"
    by (simp add: transact_def run_of_bindE run_of_bind_io run_of_ret checked_check checked_activation checked_clean
        ensureE_def flip: checked_cleaned_def)
  with oneshot_leaves_no_trace [OF memory_drive_ram _ _ _ ram_confined run] show ?thesis
    by (simp add: ram_fields)
qed

end
