(* ===== verification/Spec2Isabelle.thy ===== *)
theory Spec2Isabelle
  imports Unlockers Aacs_Return Renesas_Wrapper Renesas_Image Renesas_Placement Renesas_Resident Renesas_Oneshot
begin

text \<open>
  A verification development for freemkv-unlock (Rust), the crate that opens optical drives for
  reading: it recognises a drive, puts its firmware into an extended-access mode or authenticates a
  host with it, and hands the consumer a Volume ID and keys.

  Parts of the program and how they interact. The consumer owns the transport
  (\<open>ScsiTransport\<close>, \<open>src/src/scsi.rs\<close>) and passes it to a list of unlockers (\<open>Unlocker\<close>,
  \<open>src/src/lib.rs\<close>) with the drive's identity and the kind of disc. An unlocker answers
  \<open>Ok(Some)\<close> (unlocked), \<open>Ok(None)\<close> (not mine, try the next) or \<open>Err(Transport)\<close> (the bus is
  dead, stop). There are four: freemkv firmware (\<open>freemkv/\<close>), MediaTek MT1959 drives (\<open>ld/\<close>), the
  AACS host-certificate handshake (\<open>aacs/\<close>) and CSS bus authentication for DVDs (\<open>css/\<close>). The
  wire format of the freemkv vendor commands is \<open>protocol.rs\<close>, its typed driver is
  \<open>firmware/mod.rs\<close>, and \<open>vid.rs\<close> is the bare Volume ID read several unlockers share.

  Theories and sources (all under \<open>src/src/\<close>):
  \<^item> \<open>Prelude\<close>: integers, buffers and the monad of programs that talk to a drive. A program maps
    a world to a result, the events it caused on the bus and a new world; \<open>sat\<close>, \<open>emits\<close> and the
    other predicates state what holds of every run, with one introduction rule per combinator.
  \<^item> \<open>Scsi\<close> (\<open>scsi.rs\<close>): the transport as a record of functions over an arbitrary world, the
    events, sense and dead-bus tests, critical spans, the AGID guard. \<open>Timing\<close>: what a steady clock
    is. \<open>Replay\<close>: a scripted host for concrete runs.
  \<^item> \<open>Unlock\<close> (\<open>lib.rs\<close>): the data the unlockers exchange, \<open>fallthrough\<close>, the locale
    \<open>unlocker_contract\<close> that each unlocker interprets.
  \<^item> \<open>Vid\<close> (\<open>vid.rs\<close>), \<open>Protocol\<close> (\<open>protocol.rs\<close>), \<open>Firmware\<close> (\<open>firmware/mod.rs\<close>).
  \<^item> \<open>Css_Cipher\<close>, \<open>Css\<close> (\<open>css/mod.rs\<close>, \<open>css/error.rs\<close>).
  \<^item> \<open>Ld_Profile\<close> (\<open>ld/profile.rs\<close>, \<open>error.rs\<close>, \<open>cdb.rs\<close>), \<open>Mt1959\<close> and its properties
    \<open>Mt1959_Probe\<close>, \<open>Mt1959_Time\<close>, \<open>Mt1959_Unlock\<close> (\<open>ld/platform/mt1959/\<close>), \<open>Ld\<close> (\<open>ld/mod.rs\<close>).
  \<^item> \<open>Ec\<close>, \<open>Aacs_Crypto\<close>, \<open>Aacs_Handshake\<close> (\<open>aacs/handshake.rs\<close>, \<open>aacs/error.rs\<close>), \<open>Aacs\<close>
    (\<open>aacs/mod.rs\<close>), with the properties in \<open>Aacs_Auth\<close> (what a completed handshake proves),
    \<open>Aacs_Trace\<close> (AGIDs and pacing), \<open>Aacs_Errors\<close> (dead buses), \<open>Aacs_Mac\<close> (the MAC against its
    standard) and \<open>Aacs_Return\<close> (termination).
  \<^item> \<open>Freemkv_Backend\<close> (\<open>freemkv/mod.rs\<close>, \<open>freemkv/mediatek.rs\<close>): the \<open>Backend\<close> trait as a record
    of functions, the probe, the checked SET, activation and the critical-span sequence; the
    locales \<open>spanless_backend\<close> and \<open>careful_backend\<close> are the contract of a backend. \<open>Freemkv\<close>: the
    choice of the backend and the unlocker itself.
  \<^item> \<open>Renesas\<close> (\<open>freemkv/renesas.rs\<close>, \<open>renesas/speed.rs\<close>): the Renesas backend.
    \<open>Renesas_Hook\<close>: module \<open>hook\<close>, the transaction on the drive's memory. \<open>Renesas_Scan\<close> and
    \<open>Renesas_Sites\<close>: modules \<open>discovery\<close>, \<open>firmware\<close> and \<open>operations\<close>, what is located in the
    firmware image. \<open>Renesas_Code\<close>: the H8 code and the payload the host assembles. \<open>H8\<close>: the
    crates \<open>h8_asm\<close> and \<open>pioneer_optical\<close> as a parameter.
  \<^item> \<open>Renesas_Memory\<close> (a failed installation on a drive with memory), \<open>Renesas_Resident\<close> (a successful
    one), \<open>Renesas_Oneshot\<close> (the install-use-remove sequence of the tests, which leaves no trace),
    \<open>Renesas_Image\<close> (the image is read once and in order; the searches end),
    \<open>Renesas_Payload\<close> (the layout and the relocations), \<open>Renesas_Placement\<close> (where the payload goes),
    \<open>Renesas_Flow\<close> (paths through the installed code and the checker of an analysis),
    \<open>Renesas_Stack\<close> (its stack and its registers), \<open>Renesas_Loan\<close> (what it stores, borrows and wipes),
    \<open>Renesas_Route\<close> (which commands it serves), \<open>Renesas_Machine\<close>, \<open>Renesas_Run\<close>,
    \<open>Renesas_Serve\<close> (the command hook executed) and \<open>Renesas_Wrapper\<close> (the Volume ID wrapper
    executed): properties of the Renesas runtime.
  \<^item> \<open>Unlockers\<close> (\<open>lib.rs\<close>): \<open>unlocker_name\<close> and the contract of all four unlockers, which is what
    the consumer's loop over them relies on; the loop itself is not part of the crate.

  What the groups of lemmas show. The rules for \<open>sat\<close> and \<open>emits\<close> follow the structure of a program,
  so each operation has one lemma about its result and events (\<open>sat_<operation>\<close>), and a property of
  an unlocker is its lemma read at one run. Lemmas named \<open>spans_...\<close>, \<open>guarded_...\<close> and \<open>quiet_...\<close>
  are about critical spans and data-out commands; \<open>..._off\<close> about what an unlock of the freemkv
  backends has shown; \<open>settled_...\<close> about the ends of a run that wrote to the drive. \<open>triple\<close> in
  \<open>Renesas_Memory\<close> also speaks of the world before and after a run, where memory matters. The
  installed code is checked as a program of its own: the locale \<open>flow_typing\<close> of \<open>Renesas_Flow\<close> types
  every instruction with a fact that holds before it and proves the checker sound by rule induction
  over the paths, what a routine owes when it is left depending on the step that leaves it; its
  interpretations are the slots on the stack with the registers a caller relies on (\<open>Renesas_Stack\<close>)
  and what is outstanding (\<open>Renesas_Loan\<close>). The AGID discipline of \<open>Aacs_Trace\<close> is a monitor (\<open>held\<close>)
  over all events of a run: the sweep, the allocation, the commands that carry the AGID and the
  cleanup of its guard. \<open>Renesas_Route\<close> evaluates the branches on a symbolic command.
  \<open>Renesas_Machine\<close> gives the instructions of the two routines on registers, memory and flags, with
  the OEM routines as a parameter; \<open>Renesas_Run\<close> runs the policy transition segment by segment
  (\<open>run_<label>\<close>) under the frame the hook pushed, and \<open>Renesas_Serve\<close> a whole command: \<open>route_exec\<close>
  carries the routing over to the machine. As the theorems hold for all OEM routines, also for those
  that mark memory, they fix which routine is called when. \<open>Renesas_Wrapper\<close> does the same for a Volume ID read.

  Modelling decisions. Machine integers are words and wrap as in a release build; where the code
  uses checked arithmetic the model returns None. A caller's buffer keeps its length whatever the
  transport writes (\<open>overlay\<close>). Errors are values of the source's error types; \<open>anyhow\<close> errors are
  the two kinds the code tells apart, and None where a pure check fails, without their messages.
  Integers of \<open>num_bigint\<close> are the numbers they denote. SHA-1, SHA-256, SHA-256 hex digests and AES
  are parameters, as are the text of the bundled catalog, its JSON parser, base64 and the vendor
  crates; the vendor crates' drive functions are finite trees of bus calls, since they are generic
  over the transport. Direct
  indexing of an image behind a signature that was found is \<open>byte_at\<close>; \<open>binary_search\<close> on the
  sorted list of reachable addresses is membership.

  Bounds and fuel. The readiness poll of the MT1959 driver and its re-read loop have no bound in the
  code: \<open>READY_FUEL\<close> is proved to be enough on a steady clock (\<open>Mt1959_Time\<close>). The rejection
  sampling of the AACS keys and nonces takes fuel; \<open>Aacs_Return\<close> proves that it returns when the
  generator offers an acceptable draw within the fuel, and that more fuel changes nothing. The
  searches of \<open>Renesas_Sites\<close> take the length of the image plus one, which is enough because every
  search moves forward (\<open>scan_matches_fuel\<close>); the chunks of \<open>load_normal\<close> take the size of the
  image, each chunk being at least one byte (\<open>sat_load_loop\<close>); the instructions between the CF
  descriptor and its dispatch take their distance in bytes. \<open>go\<close> and \<open>run\<close> take the number of
  labels passed; 509 is enough for every command (\<open>hook_returns\<close>), 501 of them the wait for the
  read engine.

  Not modelled. Log output (\<open>tracing\<close>, \<open>cert_host_id_hex\<close>), redacting \<open>Debug\<close> and \<open>Display\<close> impls,
  error messages, and the wiping of secrets, none of which a result depends on; the fixtures
  and mock transports behind \<open>cfg(test)\<close>; the consumer and its transport, which are outside the
  crate and appear as the arbitrary host. The semantics of the H8 processor is used only as far as
  the analyses of stack, stores and routing and the execution of hook and wrapper need it. What
  the OEM firmware does when the installed code calls it is the drive's business, within its calling
  convention.

  Assumed of code outside the repository, as named hypotheses: that diagnostic commands read and
  write memory (\<open>memory_drive\<close>), that the vendor crate's reads send no data (\<open>reads_only\<close>), that
  its range arithmetic is what its documentation says (\<open>lawful_ranges\<close>), that the OEM routines
  keep ER4 to ER7 and the stack of their caller (\<open>polite\<close>), that a transport's only error is a dead
  bus (\<open>conforming\<close>, only for the contract of the unlockers), that a configured loader opens no span
  of its own (\<open>loader_spanless\<close>), and, for termination only, that the host's clock is steady
  (\<open>steady_clock\<close>) and its generator offers an acceptable draw in time (\<open>fair\<close>). \<open>sites_apart\<close>, \<open>stack_apart\<close>,
  \<open>layout_apart\<close> and \<open>vid_apart\<close>, that the places found in a firmware, and the stack, do not
  overlap, are not checked by the code; they hold of the firmware the source records (\<open>fixture\<close>).
\<close>

end
